(* ===== verification/Prelude.thy ===== *)
theory Prelude
  imports Complex_Main "HOL-Library.Word" "HOL-Library.Multiset" "HOL-Library.AList"
    "HOL-Library.Product_Lexorder" "HOL-Library.List_Lexorder" "HOL-Library.Char_ord"
    "HOL-Library.Log_Nat" "HOL-Library.Sublist"
begin

text \<open>
  Shared vocabulary of the development: names for Rust's machine integers and their
  saturating operations, the \<open>Ordering\<close> type with the stable comparison sort of
  \<open>slice::sort_by\<close>, association lists for \<open>HashMap\<close>, and the state-and-error
  operations (\<open>'s \<Rightarrow> ('e + 'a) \<times> 's\<close>) in which the store and the node are written.
\<close>

unbundle bit_operations_syntax

named_theorems mono_facts \<open>monotonicity of the floating-point operations\<close>
named_theorems frame_facts \<open>fields an operation leaves alone\<close>

section \<open>Machine integers\<close>

type_synonym u8 = "8 word"
type_synonym u16 = "16 word"
type_synonym u32 = "32 word"
type_synonym u64 = "64 word"
type_synonym u128 = "128 word"

definition sat_add :: "'a::len word \<Rightarrow> 'a word \<Rightarrow> 'a word" where
  "sat_add a b = (if 2 ^ LENGTH('a) \<le> unat a + unat b then - 1 else a + b)"

definition sat_sub :: "'a::len word \<Rightarrow> 'a word \<Rightarrow> 'a word" where
  "sat_sub a b = (if a < b then 0 else a - b)"

definition sat_mul :: "'a::len word \<Rightarrow> 'a word \<Rightarrow> 'a word" where
  "sat_mul a b = (if 2 ^ LENGTH('a) \<le> unat a * unat b then - 1 else a * b)"

lemma unat_max: "unat (- 1 :: 'a::len word) = 2 ^ LENGTH('a) - 1"
  by (simp add: unsigned_minus_1_eq_mask mask_eq_exp_minus_1)

lemma unat_bound: "unat a < 2 ^ LENGTH('a)" for a :: "'a::len word"
  by (rule unsigned_less)

lemma unat_sat_add: "unat (sat_add a b) = min (unat a + unat b) (2 ^ LENGTH('a) - 1)"
  for a b :: "'a::len word"
  by (auto simp: sat_add_def unat_word_ariths unat_max min_def)

lemma unat_sat_sub [simp]: "unat (sat_sub a b) = unat a - unat b" for a b :: "'a::len word"
  by (auto simp: sat_sub_def unat_sub_if' word_less_nat_alt)

lemma unat_sat_mul: "unat (sat_mul a b) = min (unat a * unat b) (2 ^ LENGTH('a) - 1)"
  for a b :: "'a::len word"
proof (cases "2 ^ LENGTH('a) \<le> unat a * unat b")
  case True
  moreover have "(0::nat) < 2 ^ LENGTH('a)" by simp
  ultimately have "\<not> unat a * unat b \<le> 2 ^ LENGTH('a) - 1" by linarith
  with True show ?thesis by (simp only: sat_mul_def unat_max min_def if_True if_False)
next
  case False
  then have "unat a * unat b \<le> 2 ^ LENGTH('a) - 1" by linarith
  moreover have "sat_mul a b = a * b" using False by (simp add: sat_mul_def)
  moreover have "unat (a * b) = unat a * unat b" using False by (simp add: unat_word_ariths)
  ultimately show ?thesis by (simp only: min_absorb1)
qed

lemma sat_add_ge: "a \<le> sat_add a b" for a b :: "'a::len word"
proof -
  have "unat a \<le> 2 ^ LENGTH('a) - 1"
    using unat_bound [of a] by linarith
  then show ?thesis by (simp add: word_le_nat_alt unat_sat_add)
qed

lemma sat_sub_le: "sat_sub a b \<le> a" for a b :: "'a::len word"
  by (simp add: word_le_nat_alt)

section \<open>Comparison sort\<close>

text \<open>
  \<open>core::cmp::Ordering\<close>, and \<open>slice::sort_by\<close> as the stable insertion sort it is
  equivalent to whenever the comparator is a total preorder. (For any other comparator,
  such as a float comparison that meets a NaN, Rust leaves the order unspecified; the
  lemmas that speak of the order carry the total preorder as their hypothesis.)
\<close>

datatype ordering = Less | Equal | Greater

definition cmp_of :: "'a::linorder \<Rightarrow> 'a \<Rightarrow> ordering" where
  "cmp_of a b = (if a < b then Less else if b < a then Greater else Equal)"

definition then_with :: "ordering \<Rightarrow> ordering \<Rightarrow> ordering" where
  "then_with o1 o2 = (if o1 = Equal then o2 else o1)"

primrec insort_by :: "('a \<Rightarrow> 'a \<Rightarrow> ordering) \<Rightarrow> 'a \<Rightarrow> 'a list \<Rightarrow> 'a list" where
  "insort_by cmp x [] = [x]"
| "insort_by cmp x (y # ys) =
     (if cmp x y = Greater then y # insort_by cmp x ys else x # y # ys)"

definition sort_by :: "('a \<Rightarrow> 'a \<Rightarrow> ordering) \<Rightarrow> 'a list \<Rightarrow> 'a list" where
  "sort_by cmp xs = foldr (insort_by cmp) xs []"

lemma sort_by_simps [simp]:
  "sort_by cmp [] = []"
  "sort_by cmp (x # xs) = insort_by cmp x (sort_by cmp xs)"
  by (simp_all add: sort_by_def)

lemma mset_insort_by [simp]: "mset (insort_by cmp x ys) = add_mset x (mset ys)"
  by (induction ys) auto

lemma mset_sort_by [simp]: "mset (sort_by cmp xs) = mset xs"
  by (induction xs) auto

lemma set_sort_by [simp]: "set (sort_by cmp xs) = set xs"
  by (metis mset_sort_by set_mset_mset)

lemma length_sort_by [simp]: "length (sort_by cmp xs) = length xs"
  by (metis mset_sort_by size_mset)

lemma distinct_sort_by [simp]: "distinct (sort_by cmp xs) = distinct xs"
  by (metis mset_eq_imp_distinct_iff mset_sort_by)

lemma sort_by_Nil_iff [simp]: "sort_by cmp xs = [] \<longleftrightarrow> xs = []"
  by (metis length_0_conv length_sort_by)

text \<open>The contract of a comparator on a carrier: a total preorder.\<close>

locale comparator =
  fixes carrier :: "'a \<Rightarrow> bool" and cmp :: "'a \<Rightarrow> 'a \<Rightarrow> ordering"
  assumes total: "carrier x \<Longrightarrow> carrier y \<Longrightarrow> cmp x y = Greater \<Longrightarrow> cmp y x \<noteq> Greater"
    and trans: "carrier x \<Longrightarrow> carrier y \<Longrightarrow> carrier z \<Longrightarrow>
      cmp x y \<noteq> Greater \<Longrightarrow> cmp y z \<noteq> Greater \<Longrightarrow> cmp x z \<noteq> Greater"
begin

lemma sorted_insort_by:
  assumes "carrier x" and "\<forall>y \<in> set ys. carrier y"
    and "sorted_wrt (\<lambda>a b. cmp a b \<noteq> Greater) ys"
  shows "sorted_wrt (\<lambda>a b. cmp a b \<noteq> Greater) (insort_by cmp x ys)"
  using assms(2,3)
proof (induction ys)
  case Nil
  then show ?case by simp
next
  case (Cons y ys)
  have ins: "set (insort_by cmp x ys) = insert x (set ys)"
    by (metis mset_insort_by set_mset_add_mset_insert set_mset_mset)
  show ?case
  proof (cases "cmp x y = Greater")
    case True
    with Cons assms(1) ins total show ?thesis by auto
  next
    case False
    have "cmp x z \<noteq> Greater" if "z \<in> set ys" for z
      using False Cons.prems assms(1) that trans [of x y z] by auto
    with False Cons.prems show ?thesis by auto
  qed
qed

lemma sorted_sort_by:
  "\<forall>x \<in> set xs. carrier x \<Longrightarrow> sorted_wrt (\<lambda>a b. cmp a b \<noteq> Greater) (sort_by cmp xs)"
  by (induction xs) (auto intro!: sorted_insort_by)

end

text \<open>
  When the comparator also separates distinct elements, the sorted list is determined by
  the elements alone: the order in which a \<open>HashMap\<close> yields them does not matter.
\<close>

locale strict_comparator = comparator +
  assumes antisym: "carrier x \<Longrightarrow> carrier y \<Longrightarrow>
    cmp x y \<noteq> Greater \<Longrightarrow> cmp y x \<noteq> Greater \<Longrightarrow> x = y"
begin

lemma sorted_unique:
  assumes "mset xs = mset ys" and "\<forall>x \<in> set xs. carrier x"
    and "sorted_wrt (\<lambda>a b. cmp a b \<noteq> Greater) xs"
    and "sorted_wrt (\<lambda>a b. cmp a b \<noteq> Greater) ys"
  shows "xs = ys"
  using assms
proof (induction xs arbitrary: ys)
  case Nil
  then show ?case by simp
next
  case (Cons x xs)
  then obtain y ys' where ys: "ys = y # ys'"
    by (metis list.exhaust mset_zero_iff_right neq_Nil_conv)
  have "x \<in> set ys" and "y \<in> set (x # xs)"
    using Cons.prems(1) ys by (metis list.set_intros(1) set_mset_mset)+
  moreover have "carrier y"
    using \<open>y \<in> set (x # xs)\<close> Cons.prems(2) by blast
  ultimately have "x = y"
    using Cons.prems ys by (auto intro: antisym)
  with Cons ys show ?case by simp
qed

lemma sort_by_perm:
  assumes "mset xs = mset ys" and "\<forall>x \<in> set xs. carrier x"
  shows "sort_by cmp xs = sort_by cmp ys"
proof (rule sorted_unique)
  have "set ys = set xs"
    using assms(1) by (metis set_mset_mset)
  with assms(2) have "\<forall>y \<in> set ys. carrier y" by simp
  then show "sorted_wrt (\<lambda>a b. cmp a b \<noteq> Greater) (sort_by cmp ys)"
    by (rule sorted_sort_by)
  show "sorted_wrt (\<lambda>a b. cmp a b \<noteq> Greater) (sort_by cmp xs)"
    using assms(2) by (rule sorted_sort_by)
qed (use assms in auto)

end

lemma then_with_neq_Greater:
  "then_with a b \<noteq> Greater \<longleftrightarrow> a = Less \<or> (a = Equal \<and> b \<noteq> Greater)"
  by (cases a) (auto simp: then_with_def)

lemma cmp_of_neq_Greater [simp]: "cmp_of a b \<noteq> Greater \<longleftrightarrow> a \<le> b"
  by (auto simp: cmp_of_def)

lemma cmp_of_eq_simps [simp]:
  "cmp_of a b = Greater \<longleftrightarrow> b < a" "cmp_of a b = Less \<longleftrightarrow> a < b" "cmp_of a b = Equal \<longleftrightarrow> a = b"
  by (auto simp: cmp_of_def)

section \<open>Association lists\<close>

text \<open>
  A \<open>HashMap\<close> is an association list with distinct keys; \<open>insert\<close> is
  \<^const>\<open>AList.update\<close>, \<open>remove\<close> is \<^const>\<open>AList.delete\<close>, \<open>get\<close> is
  \<^const>\<open>map_of\<close>. The list order stands for the unspecified iteration order.
\<close>

type_synonym ('k, 'v) hashmap = "('k \<times> 'v) list"

abbreviation hm_wf :: "('k, 'v) hashmap \<Rightarrow> bool" where
  "hm_wf m \<equiv> distinct (map fst m)"

definition hm_values :: "('k, 'v) hashmap \<Rightarrow> 'v list" where
  "hm_values m = map snd m"

lemma hm_wf_update [simp]: "hm_wf m \<Longrightarrow> hm_wf (AList.update k v m)"
  by (rule distinct_update)

lemma hm_wf_delete [simp]: "hm_wf m \<Longrightarrow> hm_wf (AList.delete k m)"
  by (rule distinct_delete)

lemma hm_values_iff: "hm_wf m \<Longrightarrow> v \<in> set (hm_values m) \<longleftrightarrow> (\<exists>k. map_of m k = Some v)"
  by (force simp: hm_values_def map_of_eq_Some_iff)

lemma hm_get_update: "map_of (AList.update k v m) k' = (if k' = k then Some v else map_of m k')"
  by (simp add: update_conv')

section \<open>State and error\<close>

text \<open>
  An operation that mutates a state and may return early with an error. The state is kept
  on the error path: what was written before the early return stays written.
\<close>

type_synonym ('s, 'e, 'a) op = "'s \<Rightarrow> ('e + 'a) \<times> 's"

definition op_ret :: "'a \<Rightarrow> ('s, 'e, 'a) op" where
  "op_ret x s = (Inr x, s)"

definition op_fail :: "'e \<Rightarrow> ('s, 'e, 'a) op" where
  "op_fail e s = (Inl e, s)"

definition op_bind :: "('s, 'e, 'a) op \<Rightarrow> ('a \<Rightarrow> ('s, 'e, 'b) op) \<Rightarrow> ('s, 'e, 'b) op" where
  "op_bind m f s = (case m s of (Inl e, s') \<Rightarrow> (Inl e, s') | (Inr x, s') \<Rightarrow> f x s')"

lemma op_simps [simp]:
  "op_bind (op_ret x) f = f x"
  "op_bind (op_fail e) f = op_fail e"
  "op_ret x s = (Inr x, s)"
  "op_fail e s = (Inl e, s)"
  by (simp_all add: fun_eq_iff op_bind_def op_ret_def op_fail_def)

lemma op_bind_Inr: "op_bind m f s = (Inr y, t) \<longleftrightarrow> (\<exists>x s'. m s = (Inr x, s') \<and> f x s' = (Inr y, t))"
  by (auto simp: op_bind_def split: prod.splits sum.splits)

lemma op_bind_eqI: "m s = (Inr x, s') \<Longrightarrow> op_bind m f s = f x s'"
  by (simp add: op_bind_def)

end
