(* ===== verification/Binary_Float.thy ===== *)
theory Binary_Float
  imports Prelude
begin

text \<open>
  An executable model of IEEE 754 binary floating point, the arithmetic of Rust's \<open>f32\<close>
  and \<open>f64\<close>: round to nearest, ties to even, with subnormals, infinities, a single NaN
  and signed zero. A finite value is the rational it stands for; every operation computes
  the exact rational result and rounds it once (\<open>fl_pack\<close>), as the standard says. The
  lemmas are the facts the components use: rounding is monotone and leaves representable
  values alone, the order on non-NaN values is total, \<open>clamp\<close> lands in its interval.
\<close>

section \<open>Values and formats\<close>

datatype flt = FNaN | FInf bool | FNegZero | Fin rat

text \<open>\<open>FInf True\<close> is minus infinity. \<open>Fin 0\<close> is the positive zero.\<close>

record format =
  f_prec :: int
  f_emin :: int
  f_emax :: int

definition b32 :: format where
  "b32 = \<lparr>f_prec = 24, f_emin = - 149, f_emax = 128\<rparr>"

definition b64 :: format where
  "b64 = \<lparr>f_prec = 53, f_emin = - 1074, f_emax = 1024\<rparr>"

definition pow2 :: "int \<Rightarrow> rat" where
  "pow2 e = (if 0 \<le> e then 2 ^ nat e else 1 / 2 ^ nat (- e))"

lemma pow2_powi: "pow2 e = 2 powi e"
  by (simp add: pow2_def power_int_def field_simps)

lemma pow2_pos [simp]: "0 < pow2 e"
  by (simp add: pow2_def)

lemma pow2_nonneg [simp]: "0 \<le> pow2 e" "pow2 e \<noteq> 0"
  using pow2_pos [of e] by (auto simp del: pow2_pos)

lemma pow2_not_le [simp]: "\<not> pow2 e \<le> 0"
  by (simp add: not_le)

lemma pow2_add: "pow2 (a + b) = pow2 a * pow2 b"
  by (simp add: pow2_powi power_int_add)

lemma pow2_0 [simp]: "pow2 0 = 1"
  by (simp add: pow2_def)

lemma pow2_of_nat: "pow2 (int n) = of_int (2 ^ n)"
  by (simp add: pow2_def)

lemma pow2_le_iff [simp]: "pow2 a \<le> pow2 b \<longleftrightarrow> a \<le> b"
proof -
  have mono: "pow2 x \<le> pow2 y" if "x \<le> y" for x y
  proof -
    have "pow2 y = pow2 x * pow2 (y - x)"
      by (simp add: pow2_add [symmetric])
    moreover have "1 \<le> pow2 (y - x)"
      using that by (simp add: pow2_def)
    ultimately show ?thesis by simp
  qed
  have strict: "pow2 x < pow2 y" if "x < y" for x y
  proof -
    have "pow2 (x + 1) \<le> pow2 y" using that by (intro mono) simp
    moreover have "pow2 (x + 1) = pow2 x * 2" by (simp only: pow2_add) (simp add: pow2_def)
    ultimately show ?thesis using pow2_pos [of x] by linarith
  qed
  show ?thesis using mono strict by (metis linorder_not_le)
qed

lemma pow2_less_iff [simp]: "pow2 a < pow2 b \<longleftrightarrow> a < b"
  by (metis linorder_not_le pow2_le_iff)

lemma pow2_step: "pow2 (e + 1) = 2 * pow2 e"
  by (simp only: pow2_add) (simp add: pow2_def)

section \<open>The binary exponent\<close>

definition ilog2 :: "rat \<Rightarrow> int" where
  "ilog2 r = (case quotient_of r of (n, d) \<Rightarrow>
     let e = bitlen n - bitlen d in if pow2 e \<le> r then e else e - 1)"

lemma bitlen_pow2:
  assumes "0 < n" shows "pow2 (bitlen n - 1) \<le> of_int n" and "of_int n < pow2 (bitlen n)"
proof -
  have b: "1 \<le> bitlen n"
    using assms bitlen_nonneg [of n] bitlen_eq_zero_iff [of n] by linarith
  have "2 ^ nat (bitlen n - 1) \<le> n \<and> n < 2 ^ nat (bitlen n)"
    using assms by (rule bitlen_bounds)
  then have "of_int (2 ^ nat (bitlen n - 1)) \<le> (of_int n :: rat)"
    and "(of_int n :: rat) < of_int (2 ^ nat (bitlen n))"
    by (auto simp only: of_int_le_iff of_int_less_iff)
  then show "pow2 (bitlen n - 1) \<le> of_int n" and "of_int n < pow2 (bitlen n)"
    using b by (simp_all add: pow2_def)
qed

lemma ilog2_bounds:
  assumes "0 < r" shows "pow2 (ilog2 r) \<le> r" and "r < pow2 (ilog2 r + 1)"
proof -
  obtain n d where q: "quotient_of r = (n, d)" by force
  have d: "0 < d" using q by (rule quotient_of_denom_pos)
  have r: "r = of_int n / of_int d" using q by (rule quotient_of_div)
  have n: "0 < n" using assms d r by (simp add: zero_less_divide_iff)
  define e where "e = bitlen n - bitlen d"
  note N = bitlen_pow2 [OF n] and D = bitlen_pow2 [OF d]
  have dpos: "0 < (of_int d :: rat)" using d by simp
  have "pow2 (e - 1) * of_int d \<le> pow2 (e - 1) * pow2 (bitlen d)"
    using D by (intro mult_left_mono) auto
  also have "\<dots> = pow2 (bitlen n - 1)" by (simp add: pow2_add [symmetric] e_def)
  finally have low: "pow2 (e - 1) \<le> r"
    using N dpos r by (simp add: pos_le_divide_eq)
  have "pow2 (bitlen n) = pow2 (e + 1) * pow2 (bitlen d - 1)"
    by (simp add: pow2_add [symmetric] e_def)
  also have "\<dots> \<le> pow2 (e + 1) * of_int d"
    using D by (intro mult_left_mono) auto
  finally have high: "r < pow2 (e + 1)"
    using N dpos r by (simp add: pos_divide_less_eq)
  have "ilog2 r = (if pow2 e \<le> r then e else e - 1)"
    by (simp add: ilog2_def q e_def Let_def)
  with low high show "pow2 (ilog2 r) \<le> r" and "r < pow2 (ilog2 r + 1)"
    by (auto split: if_splits)
qed

lemma ilog2_unique: "pow2 e \<le> r \<Longrightarrow> r < pow2 (e + 1) \<Longrightarrow> ilog2 r = e"
proof -
  assume a: "pow2 e \<le> r" "r < pow2 (e + 1)"
  then have "0 < r" using pow2_pos [of e] by linarith
  note b = ilog2_bounds [OF this]
  have "pow2 e < pow2 (ilog2 r + 1)" and "pow2 (ilog2 r) < pow2 (e + 1)"
    using a b by linarith+
  then show ?thesis by simp
qed

lemma ilog2_mono: "0 < x \<Longrightarrow> x \<le> y \<Longrightarrow> ilog2 x \<le> ilog2 y"
proof -
  assume "0 < x" "x \<le> y"
  then have "pow2 (ilog2 x) < pow2 (ilog2 y + 1)"
    using ilog2_bounds(1) [of x] ilog2_bounds(2) [of y] by linarith
  then show ?thesis by simp
qed

section \<open>Rounding\<close>

text \<open>Round to the nearest integer, ties to even.\<close>

definition rne :: "rat \<Rightarrow> int" where
  "rne x = (let f = \<lfloor>x\<rfloor>; d = x - of_int f in
     if d < 1 / 2 then f else if 1 / 2 < d then f + 1 else if even f then f else f + 1)"

lemma rne_cases: "rne x = \<lfloor>x\<rfloor> \<or> rne x = \<lfloor>x\<rfloor> + 1"
  by (simp add: rne_def Let_def)

lemma rne_of_int [simp]: "rne (of_int n) = n"
  by (simp add: rne_def)

lemma rne_mono: "x \<le> y \<Longrightarrow> rne x \<le> rne y"
proof -
  assume xy: "x \<le> y"
  then have f: "\<lfloor>x\<rfloor> \<le> \<lfloor>y\<rfloor>" by (rule floor_mono)
  show ?thesis
  proof (cases "\<lfloor>x\<rfloor> = \<lfloor>y\<rfloor>")
    case True
    with xy show ?thesis by (auto simp: rne_def Let_def)
  next
    case False
    with f rne_cases [of x] rne_cases [of y] show ?thesis by auto
  qed
qed

lemma rne_nonneg: "0 \<le> x \<Longrightarrow> 0 \<le> rne x"
  using rne_mono [of 0 x] rne_of_int [of 0] by simp

lemma rne_minus: "rne (- x) = - rne x"
proof (cases "x \<in> \<int>")
  case True
  then obtain n where n: "x = of_int n" by (auto elim: Ints_cases)
  have "rne (of_int (- n)) = - n" by (rule rne_of_int)
  with n show ?thesis by simp
next
  case False
  then have "x \<noteq> of_int \<lfloor>x\<rfloor>" by (metis Ints_of_int)
  then have "of_int \<lfloor>x\<rfloor> < x" and "x < of_int \<lfloor>x\<rfloor> + 1"
    using of_int_floor_le [of x] floor_correct [of x] by linarith+
  then have f: "\<lfloor>- x\<rfloor> = - \<lfloor>x\<rfloor> - 1"
    by (intro floor_unique) auto
  show ?thesis unfolding rne_def Let_def f by auto
qed

text \<open>Round a rational to the grid of a format; the exponent has no upper bound here.\<close>

definition ulp_exp :: "format \<Rightarrow> rat \<Rightarrow> int" where
  "ulp_exp fm r = max (ilog2 \<bar>r\<bar> - (f_prec fm - 1)) (f_emin fm)"

definition rnd :: "format \<Rightarrow> rat \<Rightarrow> rat" where
  "rnd fm r = (if r = 0 then 0
     else let u = ulp_exp fm r in of_int (rne (r / pow2 u)) * pow2 u)"

lemma rnd_0 [simp]: "rnd fm 0 = 0"
  by (simp add: rnd_def)

lemma rnd_minus [simp]: "rnd fm (- r) = - rnd fm r"
  by (simp add: rnd_def ulp_exp_def Let_def rne_minus)

lemma rnd_nonneg: "0 \<le> r \<Longrightarrow> 0 \<le> rnd fm r"
  by (simp add: rnd_def Let_def rne_nonneg)

lemma rnd_nonpos: "r \<le> 0 \<Longrightarrow> rnd fm r \<le> 0"
  using rnd_nonneg [of "- r" fm] by simp

text \<open>A power of two at or above the grid's unit is its own rounding target.\<close>

lemma rne_pow2_scale: "u \<le> e \<Longrightarrow> of_int (rne (pow2 e / pow2 u)) * pow2 u = pow2 e"
proof -
  assume "u \<le> e"
  then have "pow2 (e - u) = of_int (2 ^ nat (e - u))"
    by (simp add: pow2_def)
  moreover have "pow2 e = pow2 (e - u) * pow2 u"
    by (simp add: pow2_add [symmetric])
  ultimately have "pow2 e / pow2 u = of_int (2 ^ nat (e - u))" by simp
  then have "of_int (rne (pow2 e / pow2 u)) = pow2 e / pow2 u"
    by (metis rne_of_int)
  then show ?thesis by simp
qed

lemma rnd_mono_pos:
  assumes "1 \<le> f_prec fm" "0 < x" "x \<le> y" shows "rnd fm x \<le> rnd fm y"
proof -
  let ?u = "ulp_exp fm x" and ?v = "ulp_exp fm y"
  have y: "0 < y" using assms by linarith
  have uv: "?u \<le> ?v" using ilog2_mono [of x y] assms by (auto simp: ulp_exp_def)
  have R: "rnd fm x = of_int (rne (x / pow2 ?u)) * pow2 ?u"
    "rnd fm y = of_int (rne (y / pow2 ?v)) * pow2 ?v"
    using assms y by (simp_all add: rnd_def Let_def)
  show ?thesis
  proof (cases "?u = ?v")
    case True
    have "rne (x / pow2 ?v) \<le> rne (y / pow2 ?v)"
      using assms by (intro rne_mono divide_right_mono) auto
    with True R show ?thesis by (simp add: mult_right_mono)
  next
    case False
    with uv have lt: "?u < ?v" by simp
    let ?e = "ilog2 y"
    have ey: "?v = ?e - (f_prec fm - 1)" and ex: "ilog2 x + 1 \<le> ?e"
      using lt assms y by (auto simp: ulp_exp_def)
    have ve: "?v \<le> ?e" using ey assms by simp
    have "x \<le> pow2 ?e"
      using ilog2_bounds(2) [of x] assms ex order_trans [of "pow2 (ilog2 x + 1)"]
      by (metis less_imp_le order_trans pow2_le_iff)
    then have "rne (x / pow2 ?u) \<le> rne (pow2 ?e / pow2 ?u)"
      by (intro rne_mono divide_right_mono) auto
    then have "rnd fm x \<le> pow2 ?e"
      using R rne_pow2_scale [of ?u ?e] lt ve
      by (smt (verit) mult_right_mono of_int_le_iff pow2_nonneg(1))
    moreover have "pow2 ?e / pow2 ?v \<le> y / pow2 ?v"
      using ilog2_bounds(1) [of y] y by (intro divide_right_mono) auto
    then have "pow2 ?e \<le> rnd fm y"
      using R rne_pow2_scale [OF ve] rne_mono [of "pow2 ?e / pow2 ?v" "y / pow2 ?v"]
      by (smt (verit) mult_right_mono of_int_le_iff pow2_nonneg(1))
    ultimately show ?thesis by linarith
  qed
qed

lemma rnd_mono:
  assumes "1 \<le> f_prec fm" "x \<le> y" shows "rnd fm x \<le> rnd fm y"
proof (cases "0 < x")
  case True
  with assms show ?thesis by (intro rnd_mono_pos)
next
  case False
  show ?thesis
  proof (cases "0 \<le> y")
    case True
    with False rnd_nonneg [of y fm] rnd_nonpos [of x fm] show ?thesis by linarith
  next
    case neg: False
    then have "rnd fm (- y) \<le> rnd fm (- x)"
      using assms by (intro rnd_mono_pos) auto
    then show ?thesis by simp
  qed
qed


text \<open>A number of at most \<open>f_prec\<close> bits on the grid is left alone by rounding.\<close>

lemma rnd_exact_pos:
  assumes p: "1 \<le> f_prec fm" and k: "0 < k" "k \<le> 2 ^ nat (f_prec fm)" and u: "f_emin fm \<le> u"
  shows "rnd fm (of_int k * pow2 u) = of_int k * pow2 u"
proof -
  let ?q = "of_int k * pow2 u" and ?p = "f_prec fm"
  have q: "0 < ?q" using k by simp
  have top: "of_int k \<le> pow2 ?p"
    using k p by (simp add: pow2_def)
  have R: "rnd fm ?q = of_int (rne (?q / pow2 (ulp_exp fm ?q))) * pow2 (ulp_exp fm ?q)"
    using q k by (simp add: rnd_def Let_def)
  show ?thesis
  proof (cases "of_int k = pow2 ?p")
    case True
    then have qe: "?q = pow2 (?p + u)" by (simp add: pow2_add)
    then have "ilog2 ?q = ?p + u" by (intro ilog2_unique) auto
    then have "ulp_exp fm ?q \<le> ?p + u" using p u q by (simp add: ulp_exp_def)
    then have "of_int (rne (pow2 (?p + u) / pow2 (ulp_exp fm ?q))) * pow2 (ulp_exp fm ?q) = pow2 (?p + u)"
      by (rule rne_pow2_scale)
    with R qe show ?thesis by simp
  next
    case False
    with top have "?q < pow2 ?p * pow2 u" by simp
    then have "?q < pow2 (?p + u)" by (simp add: pow2_add)
    then have "pow2 (ilog2 ?q) < pow2 (?p + u)"
      using ilog2_bounds(1) [OF q] by linarith
    then have v: "ulp_exp fm ?q \<le> u" using u q by (simp add: ulp_exp_def)
    let ?v = "ulp_exp fm ?q"
    have "?q / pow2 ?v = of_int k * (pow2 u / pow2 ?v)" by simp
    also have "pow2 u / pow2 ?v = pow2 (u - ?v)"
      by (simp add: pow2_add [symmetric] field_simps)
    also have "\<dots> = of_int (2 ^ nat (u - ?v))" using v by (simp add: pow2_def)
    finally have "?q / pow2 ?v = of_int (k * 2 ^ nat (u - ?v))" by simp
    then have "of_int (rne (?q / pow2 ?v)) = ?q / pow2 ?v"
      by (metis rne_of_int)
    with R show ?thesis by simp
  qed
qed

lemma rnd_exact:
  assumes "1 \<le> f_prec fm" and "\<bar>k\<bar> \<le> 2 ^ nat (f_prec fm)" and "f_emin fm \<le> u"
  shows "rnd fm (of_int k * pow2 u) = of_int k * pow2 u"
proof -
  consider "k = 0" | "0 < k" | "0 < - k" by linarith
  then show ?thesis
  proof cases
    case 1
    then show ?thesis by simp
  next
    case 2
    with assms show ?thesis by (intro rnd_exact_pos) auto
  next
    case 3
    with assms have "rnd fm (of_int (- k) * pow2 u) = of_int (- k) * pow2 u"
      by (intro rnd_exact_pos) auto
    then show ?thesis by simp
  qed
qed

lemma rnd_grid:
  assumes p: "1 \<le> f_prec fm" and r: "0 < r"
  obtains k u where "rnd fm r = of_int k * pow2 u" "0 \<le> k" "k \<le> 2 ^ nat (f_prec fm)" "f_emin fm \<le> u"
proof -
  let ?u = "ulp_exp fm r" and ?p = "f_prec fm"
  let ?k = "rne (r / pow2 ?u)"
  have u: "f_emin fm \<le> ?u" "ilog2 r + 1 \<le> ?p + ?u"
    using r by (auto simp: ulp_exp_def)
  have "r \<le> pow2 (?p + ?u)"
    using ilog2_bounds(2) [OF r] u(2) by (meson less_imp_le order_trans pow2_le_iff)
  then have "r / pow2 ?u \<le> pow2 ?p"
    by (simp add: pow2_add pos_divide_le_eq)
  also have "pow2 ?p = of_int (2 ^ nat ?p)" using p by (simp add: pow2_def)
  finally have "?k \<le> 2 ^ nat ?p"
    using rne_mono [of "r / pow2 ?u" "of_int (2 ^ nat ?p)"] by (simp del: of_int_power)
  moreover have "0 \<le> ?k" using r by (intro rne_nonneg) simp
  moreover have "rnd fm r = of_int ?k * pow2 ?u" using r by (simp add: rnd_def Let_def)
  ultimately show thesis using that u(1) by blast
qed

lemma rnd_idem:
  assumes "1 \<le> f_prec fm" shows "rnd fm (rnd fm r) = rnd fm r"
proof -
  have pos: "rnd fm (rnd fm x) = rnd fm x" if "0 < x" for x
    using assms that by (metis abs_of_nonneg rnd_exact rnd_grid)
  consider "r = 0" | "0 < r" | "0 < - r" by linarith
  then show ?thesis
    using pos [of r] pos [of "- r"] by cases auto
qed

lemma fmt_prec [simp]: "1 \<le> f_prec b32" "1 \<le> f_prec b64"
  by (simp_all add: b32_def b64_def)

text \<open>Integers up to \<open>2 ^ 24\<close> are exact in \<open>f32\<close>, and so are their products with powers of two.\<close>

lemma rnd_b32_int: "\<bar>k\<bar> \<le> 2 ^ 24 \<Longrightarrow> - 149 \<le> u \<Longrightarrow> rnd b32 (of_int k * pow2 u) = of_int k * pow2 u"
  by (rule rnd_exact) (auto simp: b32_def)

lemma rnd_b32_1 [simp]: "rnd b32 1 = 1"
  using rnd_b32_int [of 1 0] by simp

section \<open>Operations\<close>

text \<open>Round an exact result; \<open>s\<close> is the sign a zero result takes.\<close>

definition fl_pack :: "format \<Rightarrow> bool \<Rightarrow> rat \<Rightarrow> flt" where
  "fl_pack fm s r = (let q = rnd fm r in
     if q = 0 then (if s then FNegZero else Fin 0)
     else if pow2 (f_emax fm) \<le> \<bar>q\<bar> then FInf (q < 0)
     else Fin q)"

fun fl_is_nan :: "flt \<Rightarrow> bool" where
  "fl_is_nan FNaN = True"
| "fl_is_nan _ = False"

fun fl_is_finite :: "flt \<Rightarrow> bool" where
  "fl_is_finite FNegZero = True"
| "fl_is_finite (Fin r) = True"
| "fl_is_finite _ = False"

fun fl_val :: "flt \<Rightarrow> rat" where
  "fl_val (Fin r) = r"
| "fl_val _ = 0"

fun fl_sign :: "flt \<Rightarrow> bool" where
  "fl_sign FNaN = False"
| "fl_sign (FInf s) = s"
| "fl_sign FNegZero = True"
| "fl_sign (Fin r) = (r < 0)"

fun fl_neg :: "flt \<Rightarrow> flt" where
  "fl_neg FNaN = FNaN"
| "fl_neg (FInf s) = FInf (\<not> s)"
| "fl_neg FNegZero = Fin 0"
| "fl_neg (Fin r) = (if r = 0 then FNegZero else Fin (- r))"

fun fl_add :: "format \<Rightarrow> flt \<Rightarrow> flt \<Rightarrow> flt" where
  "fl_add fm FNaN y = FNaN"
| "fl_add fm x FNaN = FNaN"
| "fl_add fm (FInf a) (FInf b) = (if a = b then FInf a else FNaN)"
| "fl_add fm (FInf a) y = FInf a"
| "fl_add fm x (FInf b) = FInf b"
| "fl_add fm FNegZero FNegZero = FNegZero"
| "fl_add fm x y = fl_pack fm (fl_val x + fl_val y < 0) (fl_val x + fl_val y)"

definition fl_sub :: "format \<Rightarrow> flt \<Rightarrow> flt \<Rightarrow> flt" where
  "fl_sub fm x y = fl_add fm x (fl_neg y)"

fun fl_mul :: "format \<Rightarrow> flt \<Rightarrow> flt \<Rightarrow> flt" where
  "fl_mul fm FNaN y = FNaN"
| "fl_mul fm x FNaN = FNaN"
| "fl_mul fm (FInf a) y =
     (if fl_is_finite y \<and> fl_val y = 0 then FNaN else FInf (a \<noteq> fl_sign y))"
| "fl_mul fm x (FInf b) =
     (if fl_is_finite x \<and> fl_val x = 0 then FNaN else FInf (fl_sign x \<noteq> b))"
| "fl_mul fm x y = fl_pack fm (fl_sign x \<noteq> fl_sign y) (fl_val x * fl_val y)"

fun fl_div :: "format \<Rightarrow> flt \<Rightarrow> flt \<Rightarrow> flt" where
  "fl_div fm FNaN y = FNaN"
| "fl_div fm x FNaN = FNaN"
| "fl_div fm (FInf a) (FInf b) = FNaN"
| "fl_div fm (FInf a) y = FInf (a \<noteq> fl_sign y)"
| "fl_div fm x (FInf b) = (if fl_sign x \<noteq> b then FNegZero else Fin 0)"
| "fl_div fm x y =
     (if fl_val y = 0 then (if fl_val x = 0 then FNaN else FInf (fl_sign x \<noteq> fl_sign y))
      else fl_pack fm (fl_sign x \<noteq> fl_sign y) (fl_val x / fl_val y))"

fun fl_abs :: "flt \<Rightarrow> flt" where
  "fl_abs FNaN = FNaN"
| "fl_abs (FInf s) = FInf False"
| "fl_abs FNegZero = Fin 0"
| "fl_abs (Fin r) = Fin \<bar>r\<bar>"

text \<open>Conversion between formats, and from integers (\<open>n as f32\<close>).\<close>

fun fl_cast :: "format \<Rightarrow> flt \<Rightarrow> flt" where
  "fl_cast fm (Fin r) = fl_pack fm (r < 0) r"
| "fl_cast fm x = x"

definition fl_of_nat :: "format \<Rightarrow> nat \<Rightarrow> flt" where
  "fl_of_nat fm n = fl_pack fm False (of_nat n)"

text \<open>\<open>x as u64\<close>: truncates toward zero and saturates; NaN becomes 0.\<close>

fun fl_to_u64 :: "flt \<Rightarrow> u64" where
  "fl_to_u64 FNaN = 0"
| "fl_to_u64 (FInf s) = (if s then 0 else - 1)"
| "fl_to_u64 FNegZero = 0"
| "fl_to_u64 (Fin r) = (if r < 0 then 0 else if 2 ^ 64 \<le> r then - 1 else of_int \<lfloor>r\<rfloor>)"

text \<open>A decimal literal of type \<open>f32\<close> is the nearest representable number.\<close>

definition lit :: "rat \<Rightarrow> flt" where
  "lit r = fl_pack b32 False r"

definition f32_epsilon :: flt where
  "f32_epsilon = Fin (pow2 (- 23))"

text \<open>\<open>iter().sum::<f32>()\<close> starts from the neutral element minus zero.\<close>

definition fl_sum :: "flt list \<Rightarrow> flt" where
  "fl_sum xs = foldl (fl_add b32) FNegZero xs"


section \<open>Order\<close>

text \<open>
  The order of the non-NaN values is the lexicographic order of a key; the two zeros have
  the same key. Every comparison with a NaN is false.
\<close>

fun fl_key :: "flt \<Rightarrow> int \<times> rat" where
  "fl_key (FInf s) = (if s then - 1 else 1, 0)"
| "fl_key (Fin r) = (0, r)"
| "fl_key _ = (0, 0)"

definition fl_lt :: "flt \<Rightarrow> flt \<Rightarrow> bool" where
  "fl_lt x y \<longleftrightarrow> \<not> fl_is_nan x \<and> \<not> fl_is_nan y \<and> fl_key x < fl_key y"

definition fl_le :: "flt \<Rightarrow> flt \<Rightarrow> bool" where
  "fl_le x y \<longleftrightarrow> \<not> fl_is_nan x \<and> \<not> fl_is_nan y \<and> fl_key x \<le> fl_key y"

definition fl_eq :: "flt \<Rightarrow> flt \<Rightarrow> bool" where
  "fl_eq x y \<longleftrightarrow> \<not> fl_is_nan x \<and> \<not> fl_is_nan y \<and> fl_key x = fl_key y"

text \<open>\<open>partial_cmp(..).unwrap_or(Equal)\<close>, the comparison of every float sort of the code.\<close>

definition fl_cmp :: "flt \<Rightarrow> flt \<Rightarrow> ordering" where
  "fl_cmp x y = (if fl_lt x y then Less else if fl_lt y x then Greater else Equal)"

text \<open>
  \<open>f32::max\<close> and \<open>f32::min\<close> ignore a NaN operand. \<open>f32::clamp\<close> panics (\<open>None\<close>)
  unless \<open>lo \<le> hi\<close>; a NaN receiver stays NaN.
\<close>

definition fl_max :: "flt \<Rightarrow> flt \<Rightarrow> flt" where
  "fl_max x y = (if fl_is_nan x then y else if fl_is_nan y then x else if fl_lt x y then y else x)"

definition fl_min :: "flt \<Rightarrow> flt \<Rightarrow> flt" where
  "fl_min x y = (if fl_is_nan x then y else if fl_is_nan y then x else if fl_lt y x then y else x)"

definition clamp_to :: "flt \<Rightarrow> flt \<Rightarrow> flt \<Rightarrow> flt" where
  "clamp_to lo hi x = (if fl_lt x lo then lo else if fl_lt hi x then hi else x)"

definition fl_clamp :: "flt \<Rightarrow> flt \<Rightarrow> flt \<Rightarrow> flt option" where
  "fl_clamp lo hi x = (if fl_le lo hi then Some (clamp_to lo hi x) else None)"

abbreviation clamp01 :: "flt \<Rightarrow> flt" where
  "clamp01 \<equiv> clamp_to (Fin 0) (Fin 1)"

abbreviation in_unit :: "flt \<Rightarrow> bool" where
  "in_unit x \<equiv> fl_le (Fin 0) x \<and> fl_le x (Fin 1)"

lemma fl_le_refl [simp]: "fl_le x x \<longleftrightarrow> \<not> fl_is_nan x"
  by (simp add: fl_le_def)

lemma fl_le_trans: "fl_le x y \<Longrightarrow> fl_le y z \<Longrightarrow> fl_le x z"
  unfolding fl_le_def by (blast intro: order_trans)

lemma fl_le_lt_trans: "fl_le x y \<Longrightarrow> fl_lt y z \<Longrightarrow> fl_lt x z"
  unfolding fl_le_def fl_lt_def by (blast intro: le_less_trans)

lemma fl_lt_le_trans: "fl_lt x y \<Longrightarrow> fl_le y z \<Longrightarrow> fl_lt x z"
  unfolding fl_le_def fl_lt_def by (blast intro: less_le_trans)

lemma fl_lt_imp_le: "fl_lt x y \<Longrightarrow> fl_le x y"
  unfolding fl_le_def fl_lt_def by (blast intro: less_imp_le)

lemma fl_lt_not_le: "fl_lt x y \<Longrightarrow> \<not> fl_le y x"
  unfolding fl_le_def fl_lt_def by (meson leD)

lemma fl_not_lt: "\<not> fl_is_nan x \<Longrightarrow> \<not> fl_is_nan y \<Longrightarrow> \<not> fl_lt x y \<longleftrightarrow> fl_le y x"
  by (auto simp: fl_le_def fl_lt_def)

lemma fl_not_le: "\<not> fl_is_nan x \<Longrightarrow> \<not> fl_is_nan y \<Longrightarrow> \<not> fl_le x y \<longleftrightarrow> fl_lt y x"
  by (auto simp: fl_le_def fl_lt_def)

lemma fl_lt_irrefl [simp]: "\<not> fl_lt x x"
  by (simp add: fl_lt_def)

lemma fl_nan_cmp [simp]:
  "\<not> fl_lt FNaN x" "\<not> fl_lt x FNaN" "\<not> fl_le FNaN x" "\<not> fl_le x FNaN"
  by (simp_all add: fl_lt_def fl_le_def)

lemma fl_le_not_nan: "fl_le x y \<Longrightarrow> \<not> fl_is_nan x \<and> \<not> fl_is_nan y"
  by (simp add: fl_le_def)

lemma fl_is_nan_iff: "fl_is_nan x \<longleftrightarrow> x = FNaN"
  by (cases x) auto

lemma fl_key_finite: "fl_is_finite x \<Longrightarrow> fl_key x = (0, fl_val x)"
  by (cases x) auto

lemma finite_not_nan: "fl_is_finite x \<Longrightarrow> \<not> fl_is_nan x"
  by (cases x) auto

lemma fl_le_finite: "fl_is_finite x \<Longrightarrow> fl_is_finite y \<Longrightarrow> fl_le x y \<longleftrightarrow> fl_val x \<le> fl_val y"
  by (simp add: fl_le_def fl_key_finite finite_not_nan)

lemma fl_lt_finite: "fl_is_finite x \<Longrightarrow> fl_is_finite y \<Longrightarrow> fl_lt x y \<longleftrightarrow> fl_val x < fl_val y"
  by (simp add: fl_lt_def fl_key_finite finite_not_nan)

lemma fl_cmp_simps [simp]:
  "fl_le (Fin x) (Fin y) \<longleftrightarrow> x \<le> y" "fl_lt (Fin x) (Fin y) \<longleftrightarrow> x < y"
  by (simp_all add: fl_le_finite fl_lt_finite)

lemma between_finite: "fl_le a x \<Longrightarrow> fl_le x b \<Longrightarrow> fl_is_finite a \<Longrightarrow> fl_is_finite b \<Longrightarrow> fl_is_finite x"
  by (cases x) (auto simp: fl_le_def fl_key_finite split: if_splits)

lemma in_unit_finite: "in_unit x \<Longrightarrow> fl_is_finite x \<and> 0 \<le> fl_val x \<and> fl_val x \<le> 1"
  using between_finite [of "Fin 0" x "Fin 1"] by (auto simp: fl_le_finite)

text \<open>Clamping, minimum and maximum.\<close>

lemma clamp_to_bounds:
  assumes "fl_le lo hi" "\<not> fl_is_nan x"
  shows "fl_le lo (clamp_to lo hi x)" and "fl_le (clamp_to lo hi x) hi"
  using assms fl_le_not_nan [OF assms(1)]
  by (auto simp: clamp_to_def fl_not_lt)

lemma clamp_to_id: "fl_le lo x \<Longrightarrow> fl_le x hi \<Longrightarrow> clamp_to lo hi x = x"
  by (auto simp: clamp_to_def fl_lt_def fl_le_def)

lemma clamp_to_nan [simp]: "clamp_to lo hi FNaN = FNaN"
  by (simp add: clamp_to_def)

lemma clamp_to_le: "fl_le lo x \<Longrightarrow> fl_le (clamp_to lo hi x) x"
  using fl_le_not_nan [of lo x]
  by (auto simp: clamp_to_def fl_lt_imp_le dest: fl_lt_le_trans)

lemma clamp01_unit: "\<not> fl_is_nan x \<Longrightarrow> in_unit (clamp01 x)"
  by (intro conjI clamp_to_bounds) auto

lemma fl_max_ge:
  "\<not> fl_is_nan y \<Longrightarrow> fl_le y (fl_max x y)" "\<not> fl_is_nan x \<Longrightarrow> fl_le x (fl_max x y)"
  by (auto simp: fl_max_def fl_not_lt fl_lt_imp_le fl_is_nan_iff)

lemma fl_min_le:
  "\<not> fl_is_nan y \<Longrightarrow> fl_le (fl_min x y) y" "\<not> fl_is_nan x \<Longrightarrow> fl_le (fl_min x y) x"
  by (auto simp: fl_min_def fl_not_lt fl_lt_imp_le fl_is_nan_iff)

lemma fl_max_least: "fl_le x z \<Longrightarrow> fl_le y z \<Longrightarrow> fl_le (fl_max x y) z"
  by (auto simp: fl_max_def dest: fl_le_not_nan)

lemma fl_min_greatest: "fl_le z x \<Longrightarrow> fl_le z y \<Longrightarrow> fl_le z (fl_min x y)"
  by (auto simp: fl_min_def dest: fl_le_not_nan)

lemma fl_max_cases: "fl_max x y = x \<or> fl_max x y = y"
  by (auto simp: fl_max_def)

lemma fl_min_cases: "fl_min x y = x \<or> fl_min x y = y"
  by (auto simp: fl_min_def)

lemma fl_max_not_nan: "\<not> fl_is_nan y \<Longrightarrow> \<not> fl_is_nan (fl_max x y)"
  by (auto simp: fl_max_def)

lemma fl_min_not_nan: "\<not> fl_is_nan y \<Longrightarrow> \<not> fl_is_nan (fl_min x y)"
  by (auto simp: fl_min_def)

section \<open>Rounded results\<close>

lemma fl_pack_not_nan [simp]: "\<not> fl_is_nan (fl_pack fm s r)" "fl_pack fm s r \<noteq> FNaN"
  by (auto simp: fl_pack_def Let_def)

lemma fl_key_pack: "fl_key (fl_pack fm s r) =
   (let q = rnd fm r in if pow2 (f_emax fm) \<le> \<bar>q\<bar> then (if q < 0 then - 1 else 1, 0) else (0, q))"
  using pow2_pos [of "f_emax fm"] by (auto simp: fl_pack_def Let_def)

lemma fl_pack_mono [mono_facts]:
  assumes "1 \<le> f_prec fm" "x \<le> y" shows "fl_le (fl_pack fm s x) (fl_pack fm t y)"
  using rnd_mono [OF assms] pow2_pos [of "f_emax fm"]
  by (auto simp: fl_le_def fl_key_pack Let_def)

text \<open>Membership of a format: a finite value that rounding leaves alone and that is in range.\<close>

definition fl_wf :: "format \<Rightarrow> flt \<Rightarrow> bool" where
  "fl_wf fm x \<longleftrightarrow> (fl_is_finite x \<longrightarrow> rnd fm (fl_val x) = fl_val x \<and> \<bar>fl_val x\<bar> < pow2 (f_emax fm))"

lemma fl_wf_pack: "1 \<le> f_prec fm \<Longrightarrow> fl_wf fm (fl_pack fm s r)"
  by (auto simp: fl_wf_def fl_pack_def Let_def rnd_idem)

lemma fl_key_pack_wf:
  assumes "fl_wf fm x" "fl_is_finite x" shows "fl_key (fl_pack fm s (fl_val x)) = fl_key x"
  using assms by (auto simp: fl_wf_def fl_key_pack fl_key_finite)

lemma fl_wf_special [simp]: "fl_wf fm FNaN" "fl_wf fm (FInf s)" "fl_wf fm FNegZero" "fl_wf fm (Fin 0)"
  by (simp_all add: fl_wf_def)

lemma fl_wf_1 [simp]: "fl_wf b32 (Fin 1)"
  by (simp add: fl_wf_def b32_def pow2_def) (simp add: b32_def [symmetric])

lemma fl_key_add:
  assumes "fl_is_finite x" "fl_is_finite y"
  shows "fl_key (fl_add fm x y) = fl_key (fl_pack fm s (fl_val x + fl_val y))"
  using assms by (cases x; cases y) (auto simp: fl_key_pack Let_def)

lemma fl_add_nan_iff: "fl_is_finite x \<Longrightarrow> fl_is_finite y \<Longrightarrow> \<not> fl_is_nan (fl_add fm x y)"
  by (cases x; cases y) auto

lemma fl_mul_finite:
  "fl_is_finite x \<Longrightarrow> fl_is_finite y \<Longrightarrow>
   fl_mul fm x y = fl_pack fm (fl_sign x \<noteq> fl_sign y) (fl_val x * fl_val y)"
  by (cases x; cases y) auto

lemma fl_div_finite:
  "fl_is_finite x \<Longrightarrow> fl_is_finite y \<Longrightarrow> fl_val y \<noteq> 0 \<Longrightarrow>
   fl_div fm x y = fl_pack fm (fl_sign x \<noteq> fl_sign y) (fl_val x / fl_val y)"
  by (cases x; cases y) auto

lemma fl_neg_finite [simp]: "fl_is_finite (fl_neg x) = fl_is_finite x" "fl_val (fl_neg x) = - fl_val x"
  by (cases x; simp)+

lemma fl_le_packI: "1 \<le> f_prec fm \<Longrightarrow> fl_wf fm x \<Longrightarrow> fl_is_finite x \<Longrightarrow> fl_val x \<le> r \<Longrightarrow> fl_le x (fl_pack fm s r)"
  using fl_pack_mono [of fm "fl_val x" r s s] fl_key_pack_wf [of fm x s]
  by (auto simp: fl_le_def finite_not_nan)

lemma fl_pack_leI: "1 \<le> f_prec fm \<Longrightarrow> fl_wf fm x \<Longrightarrow> fl_is_finite x \<Longrightarrow> r \<le> fl_val x \<Longrightarrow> fl_le (fl_pack fm s r) x"
  using fl_pack_mono [of fm r "fl_val x" s s] fl_key_pack_wf [of fm x s]
  by (auto simp: fl_le_def finite_not_nan)

text \<open>Scaling a non-negative number by a factor of the unit interval never raises it.\<close>

lemma fl_mul_shrinks [mono_facts]:
  assumes "fl_wf b32 w" "fl_is_finite w" "0 \<le> fl_val w" "fl_is_finite f" "0 \<le> fl_val f" "fl_val f \<le> 1"
  shows "fl_le (fl_mul b32 w f) w" and "fl_le (Fin 0) (fl_mul b32 w f)"
proof -
  have "fl_val w * fl_val f \<le> fl_val w"
    using assms by (intro mult_left_le)
  then show "fl_le (fl_mul b32 w f) w"
    using assms by (simp add: fl_mul_finite fl_pack_leI)
  show "fl_le (Fin 0) (fl_mul b32 w f)"
    using assms by (simp add: fl_mul_finite fl_le_packI)
qed

lemma fl_mul_unit: "fl_wf b32 w \<Longrightarrow> in_unit w \<Longrightarrow> in_unit f \<Longrightarrow> in_unit (fl_mul b32 w f)"
  using fl_mul_shrinks [of w f] in_unit_finite [of w] in_unit_finite [of f]
  by (meson fl_le_trans)

text \<open>Adding a non-negative number never lowers, adding a non-positive one never raises.\<close>

lemma fl_add_ge [mono_facts]:
  assumes "fl_wf b32 x" "fl_is_finite x" "fl_is_finite d" "0 \<le> fl_val d"
  shows "fl_le x (fl_add b32 x d)"
  using fl_le_packI [of b32 x "fl_val x + fl_val d" False] fl_key_add [of x d b32 False] assms
  by (simp add: fl_le_def fl_add_nan_iff)

lemma fl_add_le [mono_facts]:
  assumes "fl_wf b32 x" "fl_is_finite x" "fl_is_finite d" "fl_val d \<le> 0"
  shows "fl_le (fl_add b32 x d) x"
  using fl_pack_leI [of b32 x "fl_val x + fl_val d" False] fl_key_add [of x d b32 False] assms
  by (simp add: fl_le_def fl_add_nan_iff)

lemma fl_wf_add: "1 \<le> f_prec fm \<Longrightarrow> fl_wf fm (fl_add fm x y)"
  by (cases x; cases y) (auto simp: fl_wf_pack)

lemma fl_wf_mul: "1 \<le> f_prec fm \<Longrightarrow> fl_wf fm (fl_mul fm x y)"
  by (cases x; cases y) (auto simp: fl_wf_pack)

lemma fl_wf_div: "1 \<le> f_prec fm \<Longrightarrow> fl_wf fm (fl_div fm x y)"
  by (cases x; cases y) (auto simp: fl_wf_pack)

lemma fl_wf_lit [simp]: "fl_wf b32 (lit r)"
  by (simp add: lit_def fl_wf_pack)

lemma fl_wf_max: "fl_wf fm x \<Longrightarrow> fl_wf fm y \<Longrightarrow> fl_wf fm (fl_max x y)"
  by (simp add: fl_max_def)

lemma fl_wf_min: "fl_wf fm x \<Longrightarrow> fl_wf fm y \<Longrightarrow> fl_wf fm (fl_min x y)"
  by (simp add: fl_min_def)

lemma fl_wf_clamp: "fl_wf fm x \<Longrightarrow> fl_wf fm lo \<Longrightarrow> fl_wf fm hi \<Longrightarrow> fl_wf fm (clamp_to lo hi x)"
  by (simp add: clamp_to_def)

lemmas fl_wf_ops = fl_wf_add fl_wf_mul fl_wf_div fl_wf_max fl_wf_min fl_wf_clamp fl_wf_pack

lemma fl_cmp_neq_Greater: "\<not> fl_is_nan a \<Longrightarrow> \<not> fl_is_nan b \<Longrightarrow> fl_cmp b a \<noteq> Greater \<longleftrightarrow> fl_le b a"
  using fl_not_lt [of a b] fl_lt_not_le [of b a] fl_lt_imp_le [of b a] by (auto simp: fl_cmp_def)

lemma fl_cmp_total: "fl_cmp x y = Greater \<Longrightarrow> fl_cmp y x \<noteq> Greater"
  by (auto simp: fl_cmp_def split: if_splits dest: fl_lt_not_le fl_lt_imp_le)

text \<open>The descending comparison of the score and weight sorts.\<close>

interpretation fl_desc: comparator "\<lambda>x. \<not> fl_is_nan x" "\<lambda>a b. fl_cmp b a"
  by unfold_locales (auto simp: fl_cmp_neq_Greater dest: fl_le_trans fl_cmp_total)

end
