(* ===== verification/Rng.thy ===== *)
theory Rng
  imports Binary_Float
begin

text \<open>
  Time and randomness as injected dependencies (\<open>runtime/ntl-core/src/time.rs\<close> and
  \<open>rng.rs\<close>). A \<open>dyn Clock\<close> is the timestamp it returns; a \<open>dyn Rng\<close> is its step
  \<open>'s \<Rightarrow> u64 \<times> 's\<close> on its own state. The rejection loop of \<open>next_below\<close> may run for
  ever on a hostile generator, so it is a partial function whose \<open>None\<close> is "does not
  return"; for \<open>SplitMix64\<close> it is shown to return, because the generator's output is a
  bijection of a state that walks through all \<open>2 ^ 64\<close> words.
\<close>

section \<open>Time\<close>

definition NANOS_PER_SEC :: u64 where
  "NANOS_PER_SEC = 1000000000"

definition NANOS_PER_HOUR :: u64 where
  "NANOS_PER_HOUR = 3600 * NANOS_PER_SEC"

definition ns_to_hours :: "u64 \<Rightarrow> flt" where
  "ns_to_hours ns = fl_cast b32 (fl_div b64 (fl_of_nat b64 (unat ns)) (fl_of_nat b64 (unat NANOS_PER_HOUR)))"

text \<open>
  The host clock reads a duration since the epoch in nanoseconds (\<open>None\<close> when the host
  is set before the epoch), truncated to what a \<open>u64\<close> holds.
\<close>

definition system_now_ns :: "nat option \<Rightarrow> u64" where
  "system_now_ns since_epoch = (case since_epoch of None \<Rightarrow> 0
     | Some d \<Rightarrow> if d < 2 ^ 64 then of_nat d else - 1)"

record ManualClock =
  mc_now_ns :: u64

definition starting_at :: "u64 \<Rightarrow> ManualClock" where
  "starting_at now = \<lparr>mc_now_ns = now\<rparr>"

definition advance_ns :: "ManualClock \<Rightarrow> u64 \<Rightarrow> ManualClock" where
  "advance_ns c delta = c\<lparr>mc_now_ns := mc_now_ns c + delta\<rparr>"

definition advance_secs :: "ManualClock \<Rightarrow> u64 \<Rightarrow> ManualClock" where
  "advance_secs c secs = advance_ns c (sat_mul secs NANOS_PER_SEC)"

definition advance_hours :: "ManualClock \<Rightarrow> u64 \<Rightarrow> ManualClock" where
  "advance_hours c hours = advance_secs c (sat_mul hours 3600)"

section \<open>The generator interface\<close>

type_synonym 's rng = "'s \<Rightarrow> u64 \<times> 's"

definition next_f32 :: "'s rng \<Rightarrow> 's \<Rightarrow> flt \<times> 's" where
  "next_f32 nx s = (let (x, s') = nx s
     in (fl_div b32 (fl_of_nat b32 (unat (drop_bit 40 x))) (Fin 16777216), s'))"

text \<open>One round of Lemire's method: the accepted result, or \<open>None\<close> to draw again.\<close>

definition lemire_draw :: "u64 \<Rightarrow> u64 \<Rightarrow> u64 option" where
  "lemire_draw n x = (let m = (ucast x :: u128) * ucast n in
     if (- n) mod n \<le> (ucast m :: u64) then Some (ucast (drop_bit 64 m)) else None)"

partial_function (option) lemire_loop :: "'s rng \<Rightarrow> u64 \<Rightarrow> 's \<Rightarrow> (u64 \<times> 's) option" where
  [code]: "lemire_loop nx n s = (case nx s of (x, s') \<Rightarrow>
     (case lemire_draw n x of Some r \<Rightarrow> Some (r, s') | None \<Rightarrow> lemire_loop nx n s'))"

definition next_below :: "'s rng \<Rightarrow> u64 \<Rightarrow> 's \<Rightarrow> (u64 option \<times> 's) option" where
  "next_below nx n s = (if n = 0 then Some (None, s)
     else map_option (\<lambda>(r, s'). (Some r, s')) (lemire_loop nx n s))"

section \<open>SplitMix64\<close>

record SplitMix64 =
  sm_state :: u64

definition seeded :: "u64 \<Rightarrow> SplitMix64" where
  "seeded seed = \<lparr>sm_state = seed\<rparr>"

function chunks :: "nat \<Rightarrow> 'a list \<Rightarrow> 'a list list" where
  "chunks n xs = (if n = 0 \<or> xs = [] then [] else take n xs # chunks n (drop n xs))"
  by pat_completeness auto
termination by (relation "measure (\<lambda>(n, xs). length xs)") auto

declare chunks.simps [simp del]

definition u64_from_le_bytes :: "u8 list \<Rightarrow> u64" where
  "u64_from_le_bytes bs = foldr (\<lambda>b acc. ucast b + 256 * acc) bs 0"

definition from_identity :: "u8 list \<Rightarrow> u64 \<Rightarrow> SplitMix64" where
  "from_identity node_id now_ns = \<lparr>sm_state =
     foldl (\<lambda>st chunk. (st XOR u64_from_le_bytes (chunk @ replicate (8 - length chunk) 0))
       * 0x9E3779B97F4A7C15) now_ns (chunks 8 node_id)\<rparr>"

definition splitmix_mix :: "u64 \<Rightarrow> u64" where
  "splitmix_mix z0 =
    (let z1 = (z0 XOR drop_bit 30 z0) * 0xBF58476D1CE4E5B9;
         z2 = (z1 XOR drop_bit 27 z1) * 0x94D049BB133111EB
     in z2 XOR drop_bit 31 z2)"

definition splitmix_next :: "SplitMix64 rng" where
  "splitmix_next g = (let st = sm_state g + 0x9E3779B97F4A7C15
     in (splitmix_mix st, g\<lparr>sm_state := st\<rparr>))"

section \<open>The fixed sequence\<close>

record FixedRng =
  fr_values :: "u64 list"
  fr_cursor :: nat

definition fixed_new :: "u64 list \<Rightarrow> FixedRng option" where
  "fixed_new vs = (if vs = [] then None else Some \<lparr>fr_values = vs, fr_cursor = 0\<rparr>)"

definition scale_f32 :: "flt \<Rightarrow> u64" where
  "scale_f32 v = push_bit 40 (fl_to_u64 (fl_mul b64 (fl_cast b64 (clamp_to (Fin 0) (lit 0.9999999) v)) (Fin 16777216)))"

definition fixed_from_f32s :: "flt list \<Rightarrow> FixedRng option" where
  "fixed_from_f32s vs = (if vs = [] then None else fixed_new (map scale_f32 vs))"

definition fixed_next :: "FixedRng rng" where
  "fixed_next g = (fr_values g ! (fr_cursor g mod length (fr_values g)), g\<lparr>fr_cursor := fr_cursor g + 1\<rparr>)"

lemma len64: "LENGTH(64) = 64" by simp

section \<open>Bijections of words\<close>

lemma bit_xor_shift: "bit (x XOR drop_bit k x) n \<longleftrightarrow> bit x n \<noteq> bit x (n + k)" for x :: "'a::len word"
  by (auto simp: bit_simps ac_simps)

lemma xor_shift_inj:
  fixes x y :: "'a::len word"
  assumes "0 < k" and eq: "x XOR drop_bit k x = y XOR drop_bit k y"
  shows "x = y"
proof (rule bit_word_eqI)
  fix n assume "n < LENGTH('a)"
  show "bit x n = bit y n"
  proof (induction "LENGTH('a) - n" arbitrary: n rule: less_induct)
    case less
    show ?case
    proof (cases "n < LENGTH('a)")
      case True
      then have "LENGTH('a) - (n + k) < LENGTH('a) - n" using assms(1) by simp
      then have "bit x (n + k) = bit y (n + k)" by (rule less)
      moreover have "(bit x n \<noteq> bit x (n + k)) = (bit y n \<noteq> bit y (n + k))"
        using eq by (metis bit_xor_shift)
      ultimately show ?thesis by blast
    qed (simp add: bit_word.rep_eq)
  qed
qed

lemma mult_inj: "c * d = 1 \<Longrightarrow> x * c = y * c \<Longrightarrow> x = y" for x y c d :: "'a::len word"
  by (metis mult.assoc mult.right_neutral)

lemma splitmix_constants:
  "0x9E3779B97F4A7C15 * 17428512612931826493 = (1 :: u64)"
  "0xBF58476D1CE4E5B9 * 10871156337175269513 = (1 :: u64)"
  "0x94D049BB133111EB * 3573116690164977347 = (1 :: u64)"
  by simp_all

lemma inj_splitmix_mix: "inj splitmix_mix"
proof (rule injI)
  fix x y assume "splitmix_mix x = splitmix_mix y"
  then show "x = y"
    unfolding splitmix_mix_def Let_def
    by (blast dest: xor_shift_inj [of 31, simplified] xor_shift_inj [of 27, simplified]
        xor_shift_inj [of 30, simplified] mult_inj [OF splitmix_constants(2)]
        mult_inj [OF splitmix_constants(3)])
qed

lemma bij_splitmix_mix: "bij splitmix_mix"
  by (simp add: bij_def inj_splitmix_mix finite_UNIV_inj_surj)

text \<open>The state after \<open>k\<close> draws, and the draw it yields.\<close>

lemma splitmix_iter:
  "sm_state (((\<lambda>g. snd (splitmix_next g)) ^^ k) g) = sm_state g + of_nat k * 0x9E3779B97F4A7C15"
  by (induction k) (simp_all add: splitmix_next_def Let_def algebra_simps)

lemma splitmix_draw: "fst (splitmix_next g) = splitmix_mix (sm_state g + 0x9E3779B97F4A7C15)"
  by (simp add: splitmix_next_def Let_def)

lemma bij_walk: "bij_betw (\<lambda>k. s + of_nat (k + 1) * 0x9E3779B97F4A7C15) {..< 2 ^ 64} (UNIV :: u64 set)"
proof -
  let ?f = "\<lambda>k::nat. s + of_nat (k + 1) * 0x9E3779B97F4A7C15 :: u64"
  have inj: "inj_on ?f {..< 2 ^ 64}"
  proof (rule inj_onI)
    fix i j :: nat assume b: "i \<in> {..< 2 ^ 64}" "j \<in> {..< 2 ^ 64}" and "?f i = ?f j"
    then have "(of_nat (i + 1) :: u64) * 0x9E3779B97F4A7C15 = of_nat (j + 1) * 0x9E3779B97F4A7C15"
      by (simp only: add_left_cancel)
    then have "(of_nat (i + 1) :: u64) = of_nat (j + 1)"
      by (rule mult_inj [OF splitmix_constants(1)])
    then have "(of_nat i :: u64) = of_nat j" by simp
    then have "unat (of_nat i :: u64) = unat (of_nat j :: u64)" by simp
    then show "i = j" using b by (simp add: unsigned_of_nat take_bit_nat_eq_self)
  qed
  have "card (?f ` {..< 2 ^ 64}) = card (UNIV :: u64 set)"
    by (simp only: card_image [OF inj] card_lessThan card_word) simp
  then have "?f ` {..< 2 ^ 64} = UNIV" by (intro card_subset_eq) simp_all
  with inj show ?thesis by (simp only: bij_betw_def)
qed

text \<open>
  \<open>SplitMix64\<close> has full period and is equidistributed: from any state, the first
  \<open>2 ^ 64\<close> draws are each 64-bit word exactly once.
\<close>

theorem splitmix_full_period:
  "bij_betw (\<lambda>k. fst (splitmix_next (((\<lambda>g. snd (splitmix_next g)) ^^ k) g))) {..< 2 ^ 64} (UNIV :: u64 set)"
proof -
  have "bij_betw (splitmix_mix \<circ> (\<lambda>k. sm_state g + of_nat (k + 1) * 0x9E3779B97F4A7C15)) {..< 2 ^ 64} UNIV"
    by (rule bij_betw_trans [OF bij_walk bij_splitmix_mix])
  moreover have "(splitmix_mix \<circ> (\<lambda>k. sm_state g + of_nat (k + 1) * 0x9E3779B97F4A7C15)) =
      (\<lambda>k. fst (splitmix_next (((\<lambda>g. snd (splitmix_next g)) ^^ k) g)))"
    by (simp add: fun_eq_iff splitmix_draw splitmix_iter algebra_simps)
  ultimately show ?thesis by simp
qed

text \<open>
  One observed draw determines the generator: two \<open>SplitMix64\<close> states that produce
  the same next value are the same state (so all later draws coincide), and every value
  is the next draw of some state. This is the weakness the module documentation warns of.
\<close>

theorem splitmix_state_recoverable: "bij (\<lambda>g. fst (splitmix_next g))"
proof (rule bijI)
  show "inj (\<lambda>g. fst (splitmix_next g))"
    by (auto simp: inj_def splitmix_draw inj_splitmix_mix [THEN inj_eq])
  have "\<exists>g. y = fst (splitmix_next g)" for y
  proof -
    obtain z where z: "y = splitmix_mix z"
      using bij_splitmix_mix by (metis bij_pointE)
    then have "y = fst (splitmix_next \<lparr>sm_state = z - 0x9E3779B97F4A7C15\<rparr>)"
      by (simp add: splitmix_draw)
    then show ?thesis by blast
  qed
  then show "surj (\<lambda>g. fst (splitmix_next g))" by (auto simp: surj_def)
qed

section \<open>Unit-interval draws\<close>

lemma fl_of_nat_24: "k \<le> 2 ^ 24 \<Longrightarrow> fl_of_nat b32 k = Fin (of_nat k)"
  using rnd_b32_int [of "int k" 0]
  by (simp add: fl_of_nat_def fl_pack_def b32_def pow2_def Let_def)

lemma rnd_24th: "k < 2 ^ 24 \<Longrightarrow> rnd b32 (of_nat k / 16777216) = of_nat k / 16777216"
  using rnd_b32_int [of "int k" "- 24"] by (simp add: pow2_def)

lemma unat_top24: "unat (drop_bit 40 x) = unat x div 2 ^ 40" for x :: u64
  using unat_bound [of x]
  by (simp add: unsigned_drop_bit_eq drop_bit_nat_def take_bit_nat_eq_self)

lemma fl_pack_24th: "k < 2 ^ 24 \<Longrightarrow> fl_pack b32 False (of_nat k / 16777216) = Fin (of_nat k / 16777216)"
proof -
  assume k: "k < 2 ^ 24"
  then have "(of_nat k :: rat) < 2 ^ 24"
    by (metis of_nat_less_iff of_nat_numeral of_nat_power)
  then have "(of_nat k :: rat) / 16777216 < pow2 (f_emax b32)"
    by (simp add: b32_def pow2_def field_simps)
  with rnd_24th [OF k] show ?thesis
    by (auto simp: fl_pack_def Let_def)
qed

lemma next_f32_draw:
  "fst (next_f32 nx s) = Fin (of_nat (unat (fst (nx s)) div 2 ^ 40) / 2 ^ 24)"
proof -
  let ?k = "unat (fst (nx s)) div 2 ^ 40"
  have k: "?k < 2 ^ 24"
    using unat_bound [of "fst (nx s)"] by (simp add: less_mult_imp_div_less)
  have "fst (next_f32 nx s) = fl_pack b32 False (of_nat ?k / 16777216)"
    using k by (simp add: next_f32_def Let_def case_prod_beta unat_top24 fl_of_nat_24)
  then show ?thesis using fl_pack_24th [OF k] by simp
qed

text \<open>
  \<open>next_f32\<close> is exact and lies in \<open>[0, 1)\<close>: it is the top 24 bits of the draw over
  \<open>2 ^ 24\<close>, never rounded up to 1, for every generator.
\<close>

theorem next_f32_unit:
  "\<exists>k < 2 ^ 24. k = unat (fst (nx s)) div 2 ^ 40 \<and> fst (next_f32 nx s) = Fin (of_nat k / 2 ^ 24) \<and>
     fl_le (Fin 0) (fst (next_f32 nx s)) \<and> fl_lt (fst (next_f32 nx s)) (Fin 1)"
proof (intro exI conjI)
  let ?k = "unat (fst (nx s)) div 2 ^ 40"
  show lt: "?k < 2 ^ 24"
    using unat_bound [of "fst (nx s)"] by (simp add: less_mult_imp_div_less)
  show draw: "fst (next_f32 nx s) = Fin (of_nat ?k / 2 ^ 24)"
    by (rule next_f32_draw)
  have "(of_nat ?k :: rat) < 2 ^ 24"
    using lt by (metis of_nat_less_iff of_nat_numeral of_nat_power)
  then show "fl_lt (fst (next_f32 nx s)) (Fin 1)" "fl_le (Fin 0) (fst (next_f32 nx s))"
    unfolding draw by simp_all
qed simp

section \<open>Lemire's method\<close>

lemma lemire_threshold:
  fixes n :: u64
  assumes "n \<noteq> 0" shows "unat ((- n) mod n) = 2 ^ 64 mod unat n"
proof -
  have n: "0 < unat n" "unat n < 2 ^ 64"
    using assms unat_bound [of n] by (auto simp: unat_gt_0)
  have "unat (- n) + unat n = 2 ^ 64"
    using assms unat_word_ariths(1) [of "- n" n] n unat_bound [of "- n"]
    by (cases "unat (- n) + unat n < 2 ^ 64") (auto simp: mod_if split: if_splits)
  then have "unat (- n) = 2 ^ 64 - unat n"
    using n by linarith
  then have "unat ((- n) mod n) = (2 ^ 64 - unat n) mod unat n"
    by (simp add: unat_mod_distrib)
  also have "\<dots> = 2 ^ 64 mod unat n"
    using n by (simp add: le_mod_geq)
  finally show ?thesis .
qed

lemma lemire_product:
  fixes x n :: u64
  defines "m \<equiv> (ucast x :: u128) * ucast n"
  shows "unat (ucast m :: u64) = (unat x * unat n) mod 2 ^ 64"
    and "unat (ucast (drop_bit 64 m) :: u64) = (unat x * unat n) div 2 ^ 64"
proof -
  have "unat x * unat n < 2 ^ 64 * 2 ^ 64"
    using unat_bound [of x] unat_bound [of n] by (intro mult_strict_mono) auto
  then have lt: "unat x * unat n < 2 ^ 128" by simp
  then have m: "unat m = unat x * unat n"
    using unat_bound [of x] unat_bound [of n]
    by (simp add: m_def unat_word_ariths unsigned_ucast_eq take_bit_nat_eq_self)
  show "unat (ucast m :: u64) = (unat x * unat n) mod 2 ^ 64"
    by (simp add: unsigned_ucast_eq m take_bit_nat_def)
  have "(unat x * unat n) div 2 ^ 64 < 2 ^ 64"
    using \<open>unat x * unat n < 2 ^ 64 * 2 ^ 64\<close> by (simp add: less_mult_imp_div_less)
  then show "unat (ucast (drop_bit 64 m) :: u64) = (unat x * unat n) div 2 ^ 64"
    using lt by (simp add: unsigned_ucast_eq unsigned_drop_bit_eq m drop_bit_nat_def take_bit_nat_eq_self)
qed

lemma lemire_draw_iff:
  assumes "n \<noteq> 0"
  shows "lemire_draw n x = Some r \<longleftrightarrow>
    2 ^ 64 mod unat n \<le> (unat x * unat n) mod 2 ^ 64 \<and> unat r = (unat x * unat n) div 2 ^ 64"
  using lemire_threshold [OF assms] lemire_product [of x n]
  by (auto simp: lemire_draw_def Let_def word_le_nat_alt word_unat_eq_iff)

lemma lemire_draw_less:
  assumes "lemire_draw n x = Some r" "n \<noteq> 0" shows "r < n"
proof -
  have "0 < unat n" using assms(2) by (simp add: unat_gt_0)
  then have "unat x * unat n < 2 ^ 64 * unat n"
    using unat_bound [of x] by (intro mult_strict_right_mono) auto
  then have "(unat x * unat n) div 2 ^ 64 < unat n"
    by (simp add: less_mult_imp_div_less mult.commute)
  then show ?thesis
    using assms by (simp add: lemire_draw_iff word_less_nat_alt)
qed

lemma div_mod_window:
  fixes t p r M :: nat
  assumes "0 < M"
  shows "t \<le> p mod M \<and> r = p div M \<longleftrightarrow> r * M + t \<le> p \<and> p < (r + 1) * M"
proof
  assume w: "t \<le> p mod M \<and> r = p div M"
  then have "p = r * M + p mod M" by simp
  moreover have "p mod M < M" using assms by simp
  ultimately show "r * M + t \<le> p \<and> p < (r + 1) * M"
    using w unfolding add_mult_distrib by linarith
next
  assume w: "r * M + t \<le> p \<and> p < (r + 1) * M"
  then have "p div M = r" by (intro div_nat_eqI) (auto simp: mult.commute)
  with w div_mult_mod_eq [of p M] show "t \<le> p mod M \<and> r = p div M" by auto
qed

text \<open>The multiples of \<open>n\<close> in a half-open interval whose length is a multiple of \<open>n\<close>.\<close>

lemma card_multiples:
  fixes a n q :: nat
  assumes "0 < n" shows "card {k. a \<le> k * n \<and> k * n < a + q * n} = q"
proof -
  define c where "c = (a + n - 1) div n"
  have lower: "a \<le> k * n \<longleftrightarrow> c \<le> k" for k
  proof -
    have "c \<le> k \<longleftrightarrow> (a + n - 1) div n < Suc k" by (simp add: c_def less_Suc_eq_le)
    also have "\<dots> \<longleftrightarrow> a + n - 1 < Suc k * n" using assms by (rule div_less_iff_less_mult)
    also have "\<dots> \<longleftrightarrow> a \<le> k * n" using assms by auto
    finally show ?thesis by simp
  qed
  have "k * n < a + q * n \<longleftrightarrow> k < c + q" for k
  proof (cases "q \<le> k")
    case True
    then have "k * n = (k - q) * n + q * n"
      by (metis add_mult_distrib le_add_diff_inverse2)
    then have "k * n < a + q * n \<longleftrightarrow> \<not> a \<le> (k - q) * n" by linarith
    also have "\<dots> \<longleftrightarrow> \<not> c \<le> k - q" by (simp only: lower)
    also have "\<dots> \<longleftrightarrow> k < c + q" using True by linarith
    finally show ?thesis .
  next
    case False
    then have "k * n < q * n" using assms by simp
    with False show ?thesis by linarith
  qed
  with lower have "{k. a \<le> k * n \<and> k * n < a + q * n} = {c ..< c + q}" by auto
  then show ?thesis by simp
qed

text \<open>
  C37: \<open>next_below\<close> is unbiased. Of the \<open>2 ^ 64\<close> words a generator can yield, exactly
  \<open>2 ^ 64 div n\<close> are accepted as each result \<open>r\<close> of \<open>[0, n)\<close>, and no other result
  is ever produced: the multiply-and-reject step favours no index.
\<close>

theorem lemire_unbiased:
  assumes "n \<noteq> 0"
  shows "card {x. lemire_draw n x = Some r} = (if r < n then 2 ^ 64 div unat n else 0)"
proof (cases "r < n")
  case False
  then have "{x. lemire_draw n x = Some r} = {}"
    using lemire_draw_less [OF _ assms] by auto
  with False show ?thesis by simp
next
  case True
  define t where "t = 2 ^ 64 mod unat n"
  define a where "a = unat r * 2 ^ 64 + t"
  let ?q = "2 ^ 64 div unat n"
  let ?K = "{k. a \<le> k * unat n \<and> k * unat n < a + ?q * unat n}"
  have n: "0 < unat n" using assms by (simp add: unat_gt_0)
  have len: "a + ?q * unat n = (unat r + 1) * 2 ^ 64"
    using div_mult_mod_eq [of "2 ^ 64" "unat n"] by (simp add: a_def t_def)
  have mem: "lemire_draw n x = Some r \<longleftrightarrow> unat x \<in> ?K" for x
  proof -
    let ?p = "unat x * unat n"
    have "lemire_draw n x = Some r \<longleftrightarrow> t \<le> ?p mod 2 ^ 64 \<and> unat r = ?p div 2 ^ 64"
      using assms by (simp add: lemire_draw_iff t_def)
    also have "\<dots> \<longleftrightarrow> a \<le> ?p \<and> ?p < (unat r + 1) * 2 ^ 64"
      unfolding a_def by (rule div_mod_window) (use n unat_bound [of n] in \<open>auto simp: t_def\<close>)
    finally show ?thesis unfolding len mem_Collect_eq .
  qed
  have "k < 2 ^ 64" if "k \<in> ?K" for k
  proof -
    have "k * unat n < (unat r + 1) * 2 ^ 64" using that len by simp
    also have "\<dots> \<le> unat n * 2 ^ 64"
      using True by (intro mult_right_mono) (auto simp: word_less_nat_alt)
    finally show ?thesis by (simp add: mult.commute)
  qed
  then have "unat (of_nat k :: u64) = k" if "k \<in> ?K" for k
    using that by (simp add: unsigned_of_nat take_bit_nat_eq_self)
  then have "?K = unat ` {x. lemire_draw n x = Some r}"
    using mem by (metis (mono_tags, lifting) Collect_mem_eq image_Collect_subsetI image_eqI mem_Collect_eq subsetI subset_antisym)
  moreover have "card (unat ` {x. lemire_draw n x = Some r}) = card {x. lemire_draw n x = Some r}"
    by (intro card_image inj_onI) (simp add: word_unat_eq_iff)
  ultimately have "card {x. lemire_draw n x = Some r} = card ?K" by metis
  also have "\<dots> = ?q" using n by (rule card_multiples)
  finally show ?thesis using True by simp
qed

lemma lemire_unbiased_witness:
  "card {x. lemire_draw 6 x = Some 2} = 3074457345618258602 \<and> card {x. lemire_draw 6 x = Some 7} = 0"
  using lemire_unbiased [of 6 2] lemire_unbiased [of 6 7] by simp

section \<open>The rejection loop\<close>

lemma lemire_loop_below:
  "lemire_loop nx n s = Some (r, s') \<Longrightarrow> n \<noteq> 0 \<Longrightarrow> r < n"
proof -
  have "n \<noteq> 0 \<longrightarrow> fst rs < n" if "lemire_loop nx n s = Some rs" for rs
    using that
    by (rule lemire_loop.raw_induct [rotated, where P = "\<lambda>nx n s rs. n \<noteq> 0 \<longrightarrow> fst rs < n"])
      (auto split: prod.splits option.splits intro: lemire_draw_less)
  then show "lemire_loop nx n s = Some (r, s') \<Longrightarrow> n \<noteq> 0 \<Longrightarrow> r < n" by fastforce
qed

lemma lemire_loop_returns:
  "lemire_draw n (fst (nx (((\<lambda>g. snd (nx g)) ^^ k) s))) \<noteq> None \<Longrightarrow> \<exists>r s'. lemire_loop nx n s = Some (r, s')"
proof (induction k arbitrary: s)
  case 0
  then show ?case
    by (subst lemire_loop.simps) (auto split: prod.splits option.splits)
next
  case (Suc k)
  then have "\<exists>r s'. lemire_loop nx n (snd (nx s)) = Some (r, s')"
    by (simp only: funpow_Suc_right comp_apply)
  then show ?case
    by (subst lemire_loop.simps) (auto split: prod.splits option.splits)
qed

lemma lemire_accepts_max: "n \<noteq> 0 \<Longrightarrow> lemire_draw n (- 1) \<noteq> None"
proof -
  assume n: "n \<noteq> 0"
  have "(ucast ((ucast (- 1 :: u64) :: u128) * ucast n) :: u64) = - 1 * n"
    by (simp only: word_unat_eq_iff lemire_product(1) unat_word_ariths(2) len64)
  moreover have "(- n) mod n \<le> - n"
    by (simp add: word_le_nat_alt unat_mod_distrib)
  ultimately show ?thesis
    by (simp add: lemire_draw_def Let_def)
qed

lemma next_below_cases:
  "next_below nx n s = Some (Some r, s') \<Longrightarrow> r < n"
  "n \<noteq> 0 \<Longrightarrow> next_below nx n s = Some (res, s') \<Longrightarrow> \<exists>r. res = Some r \<and> r < n"
  by (auto simp: next_below_def split: if_splits intro: lemire_loop_below)

lemma lemire_loop_splitmix:
  assumes "n \<noteq> 0" shows "\<exists>r g'. lemire_loop splitmix_next n g = Some (r, g')"
proof -
  have "- 1 \<in> (\<lambda>k. splitmix_mix (sm_state g + of_nat (k + 1) * 0x9E3779B97F4A7C15)) ` {..< 2 ^ 64}"
    using bij_betw_trans [OF bij_walk bij_splitmix_mix, of "sm_state g"]
    by (simp add: bij_betw_def comp_def)
  then obtain k where "fst (splitmix_next (((\<lambda>g. snd (splitmix_next g)) ^^ k) g)) = - 1"
    by (auto simp: splitmix_draw splitmix_iter algebra_simps)
  then show ?thesis
    using lemire_loop_returns [of n splitmix_next k g] lemire_accepts_max [OF assms] by auto
qed

lemma next_below_splitmix: "\<exists>r g'. next_below splitmix_next n g = Some (r, g')"
  using lemire_loop_splitmix [of n g] by (auto simp: next_below_def)

text \<open>
  The rejection loop of \<open>next_below\<close> ends on \<open>SplitMix64\<close>, from every state and for
  every bound, with a value below the bound: the generator's walk reaches a word the loop
  accepts.
\<close>

theorem next_below_splitmix_returns:
  assumes "n \<noteq> 0"
  shows "\<exists>r g'. next_below splitmix_next n g = Some (Some r, g') \<and> r < n"
  using lemire_loop_splitmix [OF assms, of g] assms lemire_loop_below
  by (fastforce simp: next_below_def)

lemma next_below_splitmix_returns_witness:
  "\<exists>r g'. next_below splitmix_next 7 (seeded 42) = Some (Some r, g') \<and> r < 7"
  by (rule next_below_splitmix_returns) simp

section \<open>The fixed generator and the clock\<close>

lemma fixed_next_cycle:
  assumes "fixed_new vs = Some g"
  shows "fst (fixed_next (((\<lambda>g. snd (fixed_next g)) ^^ k) g)) = vs ! (k mod length vs)"
proof -
  have "((\<lambda>g. snd (fixed_next g)) ^^ k) g = \<lparr>fr_values = vs, fr_cursor = k\<rparr>"
    using assms by (induction k) (auto simp: fixed_new_def fixed_next_def split: if_splits)
  then show ?thesis by (simp add: fixed_next_def)
qed

lemma advance_hours_secs: "advance_hours c 1 = advance_secs c 3600"
  by (simp add: advance_hours_def sat_mul_def)

end
