(* ===== verification/Core_Types.thy ===== *)
theory Core_Types
  imports Rng
begin

text \<open>
  The types every component shares: the error enums of \<open>runtime/ntl-core/src/error.rs\<close>
  and \<open>store/mod.rs\<close>, identifiers of \<open>signal.rs\<close>, and the outcome of a routing decision
  with its reward. A formatted error message is a value that records which message it is
  and the data it prints; the text itself is not modelled. \<open>Panicked\<close> and \<open>Diverged\<close> are not
  errors of the program: they are the two ways an operation fails to return at all.
\<close>

section \<open>Identifiers\<close>

text \<open>
  A \<open>SignalId\<close> wraps a \<open>Ulid\<close>, which wraps a \<open>u128\<close> compared as a number. The \<open>ulid\<close>
  crate's constructor and byte conversions are parameters where they are used.
\<close>

type_synonym SignalId = u128
type_synonym NodeId = "u8 list"
type_synonym SynapseId = string
type_synonym JournalId = u64

record ulid_api =
  ulid_from_parts :: "u64 \<Rightarrow> u128 \<Rightarrow> SignalId"
  ulid_timestamp_ms :: "SignalId \<Rightarrow> u64"
  ulid_to_bytes :: "SignalId \<Rightarrow> u8 list"
  ulid_from_bytes :: "u8 list \<Rightarrow> SignalId"
  ulid_from_string :: "string \<Rightarrow> SignalId option"
  ulid_to_text :: "SignalId \<Rightarrow> string"

text \<open>\<open>SignalId::generate\<close>: the clock reading in milliseconds and two draws of randomness.\<close>

definition id_generate :: "ulid_api \<Rightarrow> u64 \<Rightarrow> 's rng \<Rightarrow> 's \<Rightarrow> SignalId \<times> 's" where
  "id_generate ul now_ns nx s =
    (let ms = now_ns div 1000000; (hi, s1) = nx s; (lo, s2) = nx s1
     in (ulid_from_parts ul ms (push_bit 64 (ucast hi) OR ucast lo), s2))"

text \<open>
  The deserialisation visitor: raw bytes must be sixteen, a sequence supplies the first
  sixteen elements one at a time (an error names the index that is missing), text is
  parsed by the crate.
\<close>

datatype visit_error = InvalidLength nat | CustomInvalidUlid string

definition visit_bytes :: "ulid_api \<Rightarrow> u8 list \<Rightarrow> visit_error + SignalId" where
  "visit_bytes ul v = (if length v = 16 then Inr (ulid_from_bytes ul v) else Inl (InvalidLength (length v)))"

fun visit_seq_loop :: "nat \<Rightarrow> nat \<Rightarrow> u8 list \<Rightarrow> u8 list \<Rightarrow> visit_error + u8 list" where
  "visit_seq_loop 0 i acc elems = Inr acc"
| "visit_seq_loop (Suc n) i acc [] = Inl (InvalidLength i)"
| "visit_seq_loop (Suc n) i acc (e # es) = visit_seq_loop n (i + 1) (acc @ [e]) es"

definition visit_seq :: "ulid_api \<Rightarrow> u8 list \<Rightarrow> visit_error + SignalId" where
  "visit_seq ul elems = map_sum id (ulid_from_bytes ul) (visit_seq_loop 16 0 [] elems)"

definition visit_str :: "ulid_api \<Rightarrow> string \<Rightarrow> visit_error + SignalId" where
  "visit_str ul v = (case ulid_from_string ul v of Some i \<Rightarrow> Inr i | None \<Rightarrow> Inl (CustomInvalidUlid v))"

section \<open>Errors\<close>

datatype StoreError =
    Unavailable string
  | Migration u32 string
  | Corrupt string string
  | WriteFailed string
  | Unsupported string

datatype signal_fault =
    WeightOutOfRange flt
  | MissingSignature
  | EncodedTooLong nat
  | InputTooLong nat
  | InCooldown NodeId u64

datatype serial_fault = CodecFault string | StoreFault StoreError

datatype learning_fault =
    LearningRateRange flt
  | HalfLifeNotPositive flt
  | TemperatureNotPositive
  | WeightBounds flt flt
  | BudgetTooSmall flt flt
  | InfluenceCapNotPositive
  | PenaltyRange flt

datatype activation_fault =
    BatchZero
  | DepthZero
  | ThresholdNotPositive flt
  | PotentialBelowThreshold flt flt
  | LeakRange flt
  | LatencyBelowRefractory u64 u64

datatype propagation_fault =
    FanoutZero
  | DefaultTtlZero
  | MinPropagationRange flt
  | AttenuationRange flt
  | DedupTooShort u64 u64

datatype config_fault =
    LearningFault learning_fault
  | ActivationFault activation_fault
  | PropagationFault propagation_fault
  | CryptoModuleUnsupported string "string list"
  | SynapseMaxExceeds flt flt
  | ReadFailed string string
  | ParseFailed string
  | InvalidFile string config_fault
  | SerializeFailed string
  | WriteFileFailed string string
  | MigrationFailed StoreError
  | StoreRefused StoreError
  | NoStore
  | NoClock

datatype crypto_fault =
    SeedLength nat
  | PrivateKeyLength nat
  | PublicKeyLength nat
  | InvalidPublicKey string
  | NoEntropySource
  | EncryptionUnsupported
  | DecryptionUnsupported
  | KeyAgreementUnsupported

datatype Error =
    InvalidSignal signal_fault
  | InvalidPayload string
  | Crypto crypto_fault
  | SignatureVerification SignalId NodeId
  | SynapseError string
  | HandshakeFailed string string
  | NoCryptoModule string
  | PropagationError string
  | TtlExpired SignalId
  | DuplicateSignal string
  | ConfigError config_fault
  | AdapterError string
  | CorrelationTimeout string u64
  | CapacityExceeded string
  | TransportError string
  | Serialization serial_fault
  | Shutdown

datatype stop = Err Error | Panicked | Diverged

section \<open>The outcome of a decision\<close>

datatype Outcome = Pending | Delivered | Rejected | TimedOut | TransportFailed | SignatureFailed

definition reward :: "Outcome \<Rightarrow> flt" where
  "reward r = (case r of
     Delivered \<Rightarrow> Fin 1
   | Pending \<Rightarrow> Fin 0
   | TimedOut \<Rightarrow> Fin (- 1 / 4)
   | Rejected \<Rightarrow> Fin (- 1 / 2)
   | TransportFailed \<Rightarrow> Fin (- 1 / 2)
   | SignatureFailed \<Rightarrow> Fin (- 1))"

definition is_resolved :: "Outcome \<Rightarrow> bool" where
  "is_resolved r \<longleftrightarrow> r \<noteq> Pending"

lemma reward_finite [simp]: "fl_is_finite (reward r)"
  by (simp add: reward_def split: Outcome.split)

lemma reward_wf [simp]: "fl_wf b32 (reward r)"
  using rnd_b32_int [of "- 1" "- 2"] rnd_b32_int [of "- 1" "- 1"] rnd_b32_int [of "- 1" 0]
  by (auto simp: reward_def fl_wf_def b32_def pow2_def split: Outcome.split)

lemma reward_positive: "0 < fl_val (reward r) \<longleftrightarrow> r = Delivered"
  by (simp add: reward_def split: Outcome.split)

lemma visit_seq_loop_take:
  "visit_seq_loop n i acc es = (if n \<le> length es then Inr (acc @ take n es) else Inl (InvalidLength (i + length es)))"
  by (induction n i acc es rule: visit_seq_loop.induct) auto

text \<open>
  The three deserialisation paths agree: reading sixteen bytes as a byte string or as a
  sequence gives the same identifier, and a short sequence is refused at its length.
\<close>

lemma visit_seq_bytes: "length v = 16 \<Longrightarrow> visit_seq ul v = visit_bytes ul v"
  by (simp add: visit_seq_def visit_bytes_def visit_seq_loop_take)

lemma visit_seq_short: "length v < 16 \<Longrightarrow> visit_seq ul v = Inl (InvalidLength (length v))"
  by (simp add: visit_seq_def visit_seq_loop_take)

end
