(* ===== verification/Delivery.thy ===== *)
theory Delivery
  imports Core_Types
begin

text \<open>
  Delivery classes, receipts and the sender's retry policy
  (\<open>runtime/ntl-core/src/delivery.rs\<close>).
\<close>

section \<open>Classes and reasons\<close>

datatype DeliveryClass = BestEffort | Acknowledged

definition class_to_wire :: "DeliveryClass \<Rightarrow> u8" where
  "class_to_wire c = (case c of BestEffort \<Rightarrow> 0 | Acknowledged \<Rightarrow> 1)"

definition class_from_wire :: "u8 \<Rightarrow> DeliveryClass option" where
  "class_from_wire b = (if b = 0 then Some BestEffort else if b = 1 then Some Acknowledged else None)"

definition class_requires_receipt :: "DeliveryClass \<Rightarrow> bool" where
  "class_requires_receipt c \<longleftrightarrow> c = Acknowledged"

datatype RejectReason =
    BelowThreshold
  | TtlExhausted
  | NoRoute
  | TransportFailure
  | QueueFull
  | UnsupportedType
  | Refused

definition is_transient :: "RejectReason \<Rightarrow> bool" where
  "is_transient r = (case r of
     NoRoute \<Rightarrow> True | QueueFull \<Rightarrow> True | BelowThreshold \<Rightarrow> True | TransportFailure \<Rightarrow> True
   | TtlExhausted \<Rightarrow> False | UnsupportedType \<Rightarrow> False | Refused \<Rightarrow> False)"

definition reason_str :: "RejectReason \<Rightarrow> string" where
  "reason_str r = (case r of
     BelowThreshold \<Rightarrow> ''below_threshold''
   | TtlExhausted \<Rightarrow> ''ttl_exhausted''
   | NoRoute \<Rightarrow> ''no_route''
   | TransportFailure \<Rightarrow> ''transport_failure''
   | QueueFull \<Rightarrow> ''queue_full''
   | UnsupportedType \<Rightarrow> ''unsupported_type''
   | Refused \<Rightarrow> ''refused'')"

section \<open>Receipts\<close>

datatype ReceiptStatus = StDelivered | StRejected RejectReason

record Receipt =
  rc_correlation_id :: SignalId
  rc_status :: ReceiptStatus
  rc_hops :: u16

definition receipt_delivered :: "SignalId \<Rightarrow> u16 \<Rightarrow> Receipt" where
  "receipt_delivered cid hops = \<lparr>rc_correlation_id = cid, rc_status = StDelivered, rc_hops = hops\<rparr>"

definition receipt_rejected :: "SignalId \<Rightarrow> RejectReason \<Rightarrow> u16 \<Rightarrow> Receipt" where
  "receipt_rejected cid r hops = \<lparr>rc_correlation_id = cid, rc_status = StRejected r, rc_hops = hops\<rparr>"

definition receipt_is_delivered :: "Receipt \<Rightarrow> bool" where
  "receipt_is_delivered rc \<longleftrightarrow> rc_status rc = StDelivered"

definition receipt_outcome :: "Receipt \<Rightarrow> Outcome" where
  "receipt_outcome rc = (case rc_status rc of StDelivered \<Rightarrow> Delivered | StRejected _ \<Rightarrow> Rejected)"

section \<open>Retrying\<close>

record RetryPolicy =
  rp_base_ms :: u64
  rp_cap_ms :: u64
  rp_max_attempts :: u32
  rp_total_deadline_secs :: u64

definition retry_default :: RetryPolicy where
  "retry_default = \<lparr>rp_base_ms = 1000, rp_cap_ms = 30000, rp_max_attempts = 5, rp_total_deadline_secs = 300\<rparr>"

text \<open>The ceiling of the draw before \<open>attempt\<close>; the shift is by at most 31.\<close>

definition backoff_ceiling :: "RetryPolicy \<Rightarrow> u32 \<Rightarrow> u64" where
  "backoff_ceiling p attempt =
     (let ex = min (attempt - 2) 31 in min (sat_mul (rp_base_ms p) (push_bit (unat ex) 1)) (rp_cap_ms p))"

definition backoff_ms :: "RetryPolicy \<Rightarrow> u32 \<Rightarrow> 's rng \<Rightarrow> 's \<Rightarrow> (u64 \<times> 's) option" where
  "backoff_ms p attempt nx s =
     (if attempt \<le> 1 then Some (0, s)
      else case next_below nx (max (backoff_ceiling p attempt) 1) s of
        None \<Rightarrow> None
      | Some (r, s') \<Rightarrow> Some (case r of None \<Rightarrow> 0 | Some v \<Rightarrow> v, s'))"

definition should_retry :: "RetryPolicy \<Rightarrow> u32 \<Rightarrow> u64 \<Rightarrow> RejectReason option \<Rightarrow> bool" where
  "should_retry p attempts_made elapsed_secs last_reason =
     (case last_reason of
        Some r \<Rightarrow> (if is_transient r
                   then attempts_made < rp_max_attempts p \<and> elapsed_secs < rp_total_deadline_secs p
                   else False)
      | None \<Rightarrow> attempts_made < rp_max_attempts p \<and> elapsed_secs < rp_total_deadline_secs p)"

definition required_dedup_secs :: "RetryPolicy \<Rightarrow> u64" where
  "required_dedup_secs p = rp_total_deadline_secs p"

section \<open>Properties\<close>

lemma class_wire_roundtrip [simp]: "class_from_wire (class_to_wire c) = Some c"
  by (cases c) (simp_all add: class_to_wire_def class_from_wire_def)

lemma class_wire_canonical: "class_from_wire b = Some c \<Longrightarrow> class_to_wire c = b"
  by (auto simp: class_to_wire_def class_from_wire_def split: if_splits)

lemma reason_str_inj: "reason_str r = reason_str r' \<longleftrightarrow> r = r'"
  by (cases r; cases r') (simp_all add: reason_str_def)

lemma receipt_outcome_resolved [simp]: "is_resolved (receipt_outcome rc)"
  by (simp add: receipt_outcome_def is_resolved_def split: ReceiptStatus.split)

lemma receipt_outcome_simps [simp]:
  "receipt_outcome (receipt_delivered cid h) = Delivered"
  "receipt_outcome (receipt_rejected cid r h) = Rejected"
  by (simp_all add: receipt_outcome_def receipt_delivered_def receipt_rejected_def)

lemma receipt_reward_sign: "0 < fl_val (reward (receipt_outcome rc)) \<longleftrightarrow> receipt_is_delivered rc"
  by (simp add: reward_positive receipt_outcome_def receipt_is_delivered_def split: ReceiptStatus.split)

lemma shift_value:
  assumes "k \<le> 31" shows "unat (push_bit k (1::u64)) = 2 ^ k"
proof -
  have "take_bit 64 (push_bit k (1::nat)) = 2 ^ k"
    using assms by (simp add: take_bit_push_bit)
  then show ?thesis
    by (simp only: unsigned_push_bit_eq unsigned_1 len64)
qed

lemma unat_min: "unat (min a b) = min (unat a) (unat b)"
  by (simp add: min_def word_le_nat_alt)

lemma backoff_ceiling_value:
  assumes "2 \<le> attempt"
  shows "unat (backoff_ceiling p attempt) =
    min (unat (rp_base_ms p) * 2 ^ min (unat attempt - 2) 31) (unat (rp_cap_ms p))"
proof -
  have "unat (attempt - 2) = unat attempt - 2"
    using assms by (simp add: unat_sub)
  then have ex: "unat (min (attempt - 2) 31) = min (unat attempt - 2) 31"
    by (simp add: unat_min)
  have sh: "unat (push_bit (unat (min (attempt - 2) 31)) (1::u64)) = 2 ^ min (unat attempt - 2) 31"
    unfolding ex by (rule shift_value) simp
  have "min (min x (2 ^ 64 - 1)) (unat (rp_cap_ms p)) = min x (unat (rp_cap_ms p))" for x
    using unat_bound [of "rp_cap_ms p"] by (simp add: min_def)
  then show ?thesis
    by (simp only: backoff_ceiling_def Let_def unat_min [of "sat_mul _ _"] unat_sat_mul sh len64)
qed

text \<open>
  A backoff never exceeds the policy. The first attempt waits nothing; attempt
  \<open>n \<ge> 2\<close> waits less than \<open>min (base * 2 ^ min (n - 2) 31) cap\<close> milliseconds (and
  nothing when that ceiling is 0), computed without wrap-around for every policy, attempt
  number and generator.
\<close>

theorem backoff_bounded:
  assumes "backoff_ms p attempt nx s = Some (d, s')"
  shows "if attempt \<le> 1 then d = 0 \<and> s' = s
    else unat d < max 1 (min (unat (rp_base_ms p) * 2 ^ min (unat attempt - 2) 31) (unat (rp_cap_ms p)))"
proof (cases "attempt \<le> 1")
  case True
  with assms show ?thesis by (simp add: backoff_ms_def)
next
  case False
  then have two: "2 \<le> attempt"
    by (simp add: word_le_nat_alt not_le)
  let ?n = "max (backoff_ceiling p attempt) 1"
  have n: "?n \<noteq> 0"
    by (metis linorder_not_le max.cobounded2 not_one_le_zero word_gt_0 zero_neq_one)
  obtain r where "next_below nx ?n s = Some (Some r, s')" "d = r" "r < ?n"
    using assms False next_below_cases(2) [OF n]
    by (fastforce simp: backoff_ms_def split: option.splits)
  then have "unat d < unat ?n" by (simp add: word_less_nat_alt)
  also have "unat ?n = max (unat (backoff_ceiling p attempt)) 1"
    by (simp add: max_def word_le_nat_alt)
  finally show ?thesis
    using False by (simp add: backoff_ceiling_value [OF two] max.commute)
qed

lemma backoff_bounded_witness:
  "backoff_ms retry_default 3 (\<lambda>s. (0x8000010000000000, s)) () = Some (1000, ()) \<and> unat (1000 :: u64) < max 1 (min (1000 * 2 ^ 1) 30000)"
proof -
  have "lemire_draw 2000 0x8000010000000000 = Some 1000" by code_simp
  then have r: "backoff_ms retry_default 3 (\<lambda>s. (0x8000010000000000, s)) () = Some (1000, ())"
    by (simp add: backoff_ms_def backoff_ceiling_def retry_default_def next_below_def
        lemire_loop.simps sat_mul_def Let_def min_def max_def word_le_nat_alt)
  show ?thesis
    using backoff_bounded [OF r] r by (simp add: retry_default_def)
qed

text \<open>
  A retry is granted exactly when the budget allows it and the last rejection, if
  any, was one that can pass: a terminal rejection stops the sender whatever is left of
  its attempts and its deadline.
\<close>

theorem should_retry_iff:
  "should_retry p n t why \<longleftrightarrow>
     n < rp_max_attempts p \<and> t < rp_total_deadline_secs p \<and>
     why \<notin> {Some TtlExhausted, Some UnsupportedType, Some Refused}"
  by (auto simp: should_retry_def is_transient_def split: option.splits RejectReason.splits)

end
