(* ===== verification/Signal.thy ===== *)
theory Signal
  imports Delivery
begin

text \<open>
  Signals: their type, builder, validation, per-hop mutation, wire codec and the bytes a
  signature covers (\<open>runtime/ntl-core/src/signal.rs\<close>), with \<open>PropagationScope\<close> of
  \<open>propagation.rs\<close>, which a signal carries. The payload is a \<open>serde_json::Value\<close>, a type
  variable here; \<open>serde_json\<close> and \<open>serde_cbor\<close> are parameters.
\<close>

section \<open>Data\<close>

datatype SignalType =
    Data | Query | Event | Command | Heartbeat | Discovery | ReceiptType | CustomType string

definition to_type_byte :: "SignalType \<Rightarrow> u8" where
  "to_type_byte t = (case t of
     Data \<Rightarrow> 0 | Query \<Rightarrow> 1 | Event \<Rightarrow> 2 | Command \<Rightarrow> 3 | Heartbeat \<Rightarrow> 4 | Discovery \<Rightarrow> 5
   | ReceiptType \<Rightarrow> 6 | CustomType _ \<Rightarrow> 15)"

definition can_be_acknowledged :: "SignalType \<Rightarrow> bool" where
  "can_be_acknowledged t \<longleftrightarrow> t \<noteq> ReceiptType"

definition from_type_byte :: "u8 \<Rightarrow> SignalType option" where
  "from_type_byte b =
     (if b = 0 then Some Data else if b = 1 then Some Query else if b = 2 then Some Event
      else if b = 3 then Some Command else if b = 4 then Some Heartbeat
      else if b = 5 then Some Discovery else if b = 6 then Some ReceiptType else None)"

datatype Encoding = Cbor | Protobuf | Raw

datatype PropagationScope =
    Flood u16
  | Weighted flt
  | Targeted NodeId
  | Gradient string

definition scope_default :: PropagationScope where
  "scope_default = Weighted (Fin 0)"

record 'p Signal =
  sg_id :: SignalId
  sg_type :: SignalType
  sg_version :: u8
  sg_origin :: NodeId
  sg_signature :: "u8 list"
  sg_timestamp :: u64
  sg_payload :: 'p
  sg_encoding :: Encoding
  sg_weight :: flt
  sg_ttl :: u16
  sg_scope :: PropagationScope
  sg_correlation_id :: "SignalId option"
  sg_trace :: "NodeId list"
  sg_tags :: "string list"
  sg_delivery :: DeliveryClass

record 'p SignalBuilder =
  sb_signal_type :: SignalType
  sb_topic :: string
  sb_payload :: 'p
  sb_weight :: flt
  sb_ttl :: u16
  sb_scope :: PropagationScope
  sb_correlation_id :: "SignalId option"
  sb_tags :: "string list"
  sb_delivery :: DeliveryClass

text \<open>The parts of \<open>serde_json\<close> and \<open>serde_cbor\<close> the code calls.\<close>

record 'p json_api =
  js_null :: 'p
  js_receipt :: "Receipt \<Rightarrow> 'p option"
  js_text_len :: "'p \<Rightarrow> nat"

record 'p cbor_api =
  cb_to_vec :: "'p Signal \<Rightarrow> string + u8 list"
  cb_from_slice :: "u8 list \<Rightarrow> string + 'p Signal"

section \<open>The builder\<close>

definition builder_new :: "'p json_api \<Rightarrow> SignalType \<Rightarrow> string \<Rightarrow> 'p SignalBuilder" where
  "builder_new js t topic = \<lparr>sb_signal_type = t, sb_topic = topic, sb_payload = js_null js,
     sb_weight = lit 0.5, sb_ttl = 10, sb_scope = scope_default, sb_correlation_id = None,
     sb_tags = [], sb_delivery = BestEffort\<rparr>"

definition with_payload :: "'p SignalBuilder \<Rightarrow> 'p \<Rightarrow> 'p SignalBuilder" where
  "with_payload b p = b\<lparr>sb_payload := p\<rparr>"

definition with_weight :: "'p SignalBuilder \<Rightarrow> flt \<Rightarrow> 'p SignalBuilder" where
  "with_weight b w = b\<lparr>sb_weight := clamp01 w\<rparr>"

definition with_ttl :: "'p SignalBuilder \<Rightarrow> u16 \<Rightarrow> 'p SignalBuilder" where
  "with_ttl b t = b\<lparr>sb_ttl := t\<rparr>"

definition with_scope :: "'p SignalBuilder \<Rightarrow> PropagationScope \<Rightarrow> 'p SignalBuilder" where
  "with_scope b sc = b\<lparr>sb_scope := sc\<rparr>"

definition with_correlation :: "'p SignalBuilder \<Rightarrow> SignalId \<Rightarrow> 'p SignalBuilder" where
  "with_correlation b i = b\<lparr>sb_correlation_id := Some i\<rparr>"

definition with_tags :: "'p SignalBuilder \<Rightarrow> string list \<Rightarrow> 'p SignalBuilder" where
  "with_tags b ts = b\<lparr>sb_tags := ts\<rparr>"

definition with_delivery :: "'p SignalBuilder \<Rightarrow> DeliveryClass \<Rightarrow> 'p SignalBuilder" where
  "with_delivery b d = b\<lparr>sb_delivery := d\<rparr>"

definition acknowledged :: "'p SignalBuilder \<Rightarrow> 'p SignalBuilder" where
  "acknowledged b = (if can_be_acknowledged (sb_signal_type b) then b\<lparr>sb_delivery := Acknowledged\<rparr> else b)"

definition signal_data :: "'p json_api \<Rightarrow> string \<Rightarrow> 'p SignalBuilder" where
  "signal_data js topic = builder_new js Data topic"

definition signal_query :: "'p json_api \<Rightarrow> string \<Rightarrow> 'p SignalBuilder" where
  "signal_query js topic = builder_new js Query topic"

definition signal_event :: "'p json_api \<Rightarrow> string \<Rightarrow> 'p SignalBuilder" where
  "signal_event js topic = builder_new js Event topic"

definition signal_command :: "'p json_api \<Rightarrow> string \<Rightarrow> 'p SignalBuilder" where
  "signal_command js topic = builder_new js Command topic"

definition signal_discovery :: "'p json_api \<Rightarrow> 'p SignalBuilder" where
  "signal_discovery js = builder_new js Discovery ''discovery''"

definition signal_heartbeat :: "'p json_api \<Rightarrow> 'p SignalBuilder" where
  "signal_heartbeat js = builder_new js Heartbeat ''heartbeat''"

definition signal_receipt :: "'p json_api \<Rightarrow> Receipt \<Rightarrow> NodeId \<Rightarrow> 'p SignalBuilder" where
  "signal_receipt js rc origin =
     with_payload (with_scope (with_correlation (builder_new js ReceiptType ''receipt'') (rc_correlation_id rc))
       (Targeted origin)) (case js_receipt js rc of Some v \<Rightarrow> v | None \<Rightarrow> js_null js)"

text \<open>
  \<open>build_unsigned_with\<close> reads the clock twice: once for the timestamp, once inside
  \<open>SignalId::generate\<close>.
\<close>

definition build_unsigned_with ::
  "ulid_api \<Rightarrow> 'p SignalBuilder \<Rightarrow> NodeId \<Rightarrow> u64 \<Rightarrow> u64 \<Rightarrow> 's rng \<Rightarrow> 's \<Rightarrow> 'p Signal \<times> 's" where
  "build_unsigned_with ul b origin now now2 nx s =
    (let (i, s') = id_generate ul now2 nx s;
         tags = (if sb_topic b \<noteq> [] then sb_topic b # sb_tags b else sb_tags b)
     in (\<lparr>sg_id = i, sg_type = sb_signal_type b, sg_version = 1, sg_origin = origin,
          sg_signature = [], sg_timestamp = now, sg_payload = sb_payload b, sg_encoding = Cbor,
          sg_weight = sb_weight b, sg_ttl = sb_ttl b, sg_scope = sb_scope b,
          sg_correlation_id = sb_correlation_id b, sg_trace = [], sg_tags = tags,
          sg_delivery = sb_delivery b\<rparr>, s'))"

section \<open>Operations\<close>

definition MAX_SIZE :: nat where
  "MAX_SIZE = 1048576"

definition validate :: "'p Signal \<Rightarrow> Error + unit" where
  "validate g =
    (if \<not> (fl_le (Fin 0) (sg_weight g) \<and> fl_le (sg_weight g) (Fin 1))
       then Inl (InvalidSignal (WeightOutOfRange (sg_weight g)))
     else if sg_ttl g = 0 then Inl (TtlExpired (sg_id g))
     else if sg_signature g = [] then Inl (InvalidSignal MissingSignature)
     else Inr ())"

definition is_expired :: "'p Signal \<Rightarrow> bool" where
  "is_expired g \<longleftrightarrow> sg_ttl g = 0"

definition hop :: "'p Signal \<Rightarrow> NodeId \<Rightarrow> 'p Signal" where
  "hop g node =
    (let g1 = g\<lparr>sg_ttl := sat_sub (sg_ttl g) 1\<rparr>
     in if length (sg_trace g1) < 64 then g1\<lparr>sg_trace := sg_trace g1 @ [node]\<rparr> else g1)"

definition attenuate :: "'p Signal \<Rightarrow> flt \<Rightarrow> 'p Signal" where
  "attenuate g factor = g\<lparr>sg_weight := clamp01 (fl_mul b32 (sg_weight g) factor)\<rparr>"

definition has_visited :: "'p Signal \<Rightarrow> NodeId \<Rightarrow> bool" where
  "has_visited g node \<longleftrightarrow> node \<in> set (sg_trace g)"

definition estimated_size :: "'p json_api \<Rightarrow> 'p Signal \<Rightarrow> nat" where
  "estimated_size js g = 8 + 16 + length (sg_origin g) + length (sg_signature g) + 8 + 4 + 2
     + js_text_len js (sg_payload g) + length (sg_trace g) * 32 + sum_list (map length (sg_tags g))"

definition signal_requires_receipt :: "'p Signal \<Rightarrow> bool" where
  "signal_requires_receipt g = class_requires_receipt (sg_delivery g)"

definition attenuate_for_hop :: "'p Signal \<Rightarrow> flt \<Rightarrow> flt \<Rightarrow> 'p Signal" where
  "attenuate_for_hop g factor min_weight =
    (let attenuated = fl_mul b32 (sg_weight g) factor
     in g\<lparr>sg_weight := clamp01
          (if signal_requires_receipt g \<and> 0 < sg_ttl g then fl_max attenuated min_weight else attenuated)\<rparr>)"

definition encode :: "'p cbor_api \<Rightarrow> 'p Signal \<Rightarrow> Error + u8 list" where
  "encode cb g = (case cb_to_vec cb g of
     Inl e \<Rightarrow> Inl (Serialization (CodecFault e))
   | Inr bytes \<Rightarrow> if MAX_SIZE < length bytes
       then Inl (InvalidSignal (EncodedTooLong (length bytes))) else Inr bytes)"

definition decode :: "'p cbor_api \<Rightarrow> u8 list \<Rightarrow> Error + 'p Signal" where
  "decode cb bytes =
    (if MAX_SIZE < length bytes then Inl (InvalidSignal (InputTooLong (length bytes)))
     else map_sum (\<lambda>e. Serialization (CodecFault e)) id (cb_from_slice cb bytes))"

text \<open>The signal with the four mutable header fields blanked, and its encoding.\<close>

definition unsigned_part :: "'p Signal \<Rightarrow> 'p Signal" where
  "unsigned_part g = g\<lparr>sg_signature := [], sg_trace := [], sg_ttl := 0, sg_weight := Fin 0\<rparr>"

definition signing_bytes :: "'p cbor_api \<Rightarrow> 'p Signal \<Rightarrow> Error + u8 list" where
  "signing_bytes cb g = map_sum (\<lambda>e. Serialization (CodecFault e)) id (cb_to_vec cb (unsigned_part g))"

section \<open>Types and the builder\<close>

lemma type_byte_roundtrip [simp]:
  "from_type_byte (to_type_byte t) = (case t of CustomType _ \<Rightarrow> None | _ \<Rightarrow> Some t)"
  by (cases t) (simp_all add: to_type_byte_def from_type_byte_def)

lemma type_byte_canonical: "from_type_byte b = Some t \<Longrightarrow> to_type_byte t = b"
  by (auto simp: to_type_byte_def from_type_byte_def split: if_splits)

lemma builder_type [simp]:
  "sb_signal_type (with_payload b p) = sb_signal_type b" "sb_signal_type (with_scope b sc) = sb_signal_type b"
  "sb_signal_type (with_correlation b i) = sb_signal_type b" "sb_signal_type (with_weight b w) = sb_signal_type b"
  "sb_signal_type (builder_new js t topic) = t"
  by (simp_all add: with_payload_def with_scope_def with_correlation_def with_weight_def builder_new_def)

lemma acknowledged_delivery:
  "sb_delivery (acknowledged b) = (if sb_signal_type b = ReceiptType then sb_delivery b else Acknowledged)"
  by (simp add: acknowledged_def can_be_acknowledged_def)

lemma receipt_builder:
  "acknowledged (signal_receipt js rc origin) = signal_receipt js rc origin"
  "sb_delivery (signal_receipt js rc origin) = BestEffort"
  "sb_scope (signal_receipt js rc origin) = Targeted origin"
  "sb_correlation_id (signal_receipt js rc origin) = Some (rc_correlation_id rc)"
  by (simp_all add: signal_receipt_def acknowledged_def can_be_acknowledged_def with_payload_def
      with_scope_def with_correlation_def builder_new_def)

lemma with_weight_unit: "\<not> fl_is_nan w \<Longrightarrow> in_unit (sb_weight (with_weight b w))"
  using clamp01_unit by (simp add: with_weight_def)

section \<open>What a relay may change\<close>

lemma hop_fields [frame_facts, simp]:
  "sg_id (hop g n) = sg_id g" "sg_weight (hop g n) = sg_weight g" "sg_scope (hop g n) = sg_scope g"
  "sg_origin (hop g n) = sg_origin g" "sg_delivery (hop g n) = sg_delivery g"
  "sg_ttl (hop g n) = sat_sub (sg_ttl g) 1" "unsigned_part (hop g n) = unsigned_part g"
  by (simp_all add: hop_def Let_def unsigned_part_def)

lemma hop_trace: "sg_trace (hop g n) = (if length (sg_trace g) < 64 then sg_trace g @ [n] else sg_trace g)"
  by (simp add: hop_def Let_def)

lemma attenuate_fields [frame_facts, simp]:
  "unsigned_part (attenuate g f) = unsigned_part g" "unsigned_part (attenuate_for_hop g f m) = unsigned_part g"
  "sg_trace (attenuate_for_hop g f m) = sg_trace g" "sg_ttl (attenuate_for_hop g f m) = sg_ttl g"
  by (simp_all add: attenuate_def attenuate_for_hop_def Let_def unsigned_part_def)

text \<open>
  The mutations a node applies to a signal it relays, as a step relation. The \<open>Overwrite\<close>
  step is the hostile relay: it may set the four header fields to anything.
\<close>

inductive relay_step :: "'p Signal \<Rightarrow> 'p Signal \<Rightarrow> bool" where
  Hop: "relay_step g (hop g n)"
| Attenuate: "relay_step g (attenuate g f)"
| Attenuate_hop: "relay_step g (attenuate_for_hop g f m)"
| Overwrite: "relay_step g (g\<lparr>sg_signature := si, sg_trace := tr, sg_ttl := t, sg_weight := w\<rparr>)"

inductive_cases relay_stepE: "relay_step g h"

lemma relay_step_unsigned: "relay_step g h \<Longrightarrow> unsigned_part h = unsigned_part g"
  by (induction rule: relay_step.induct) (simp_all, simp add: unsigned_part_def)

lemma relay_steps_unsigned: "relay_step\<^sup>*\<^sup>* g h \<Longrightarrow> unsigned_part h = unsigned_part g"
  by (induction rule: rtranclp_induct) (simp_all add: relay_step_unsigned)

text \<open>The relation reaches exactly the signals that agree on the signed fields.\<close>

lemma relay_reach: "unsigned_part h = unsigned_part g \<Longrightarrow> relay_step g h"
proof -
  assume eq: "unsigned_part h = unsigned_part g"
  have "h = g\<lparr>sg_signature := sg_signature h, sg_trace := sg_trace h, sg_ttl := sg_ttl h, sg_weight := sg_weight h\<rparr>"
    using eq by (cases g; cases h) (simp add: unsigned_part_def)
  then show ?thesis using relay_step.Overwrite [of g] by metis
qed

lemma signing_bytes_iff:
  assumes codec: "\<And>g b. cb_to_vec cb g = Inr b \<Longrightarrow> cb_from_slice cb b = Inr g"
    and signed: "signing_bytes cb g = Inr bytes"
  shows "signing_bytes cb h = Inr bytes \<longleftrightarrow> relay_step\<^sup>*\<^sup>* g h"
proof
  assume "relay_step\<^sup>*\<^sup>* g h"
  then show "signing_bytes cb h = Inr bytes"
    using signed relay_steps_unsigned [of g h] by (simp add: signing_bytes_def)
next
  assume "signing_bytes cb h = Inr bytes"
  then have "cb_to_vec cb (unsigned_part h) = Inr bytes" "cb_to_vec cb (unsigned_part g) = Inr bytes"
    using signed by (auto simp: signing_bytes_def map_sum_def split: sum.splits)
  then have "unsigned_part h = unsigned_part g"
    using codec by (metis sum.inject(2))
  then show "relay_step\<^sup>*\<^sup>* g h" by (auto intro: relay_reach)
qed

text \<open>
  C20: The signing bytes cover exactly what a relay may not change. No sequence of hops,
  attenuations or overwrites of the four mutable header fields changes them; and under a
  codec that distinguishes signals, two signals with the same signing bytes differ in
  nothing but those four fields, so no rewrite of the identifier, type, origin,
  timestamp, payload, scope, correlation, tags or delivery class keeps the signature.
\<close>

theorem signing_bytes_exact:
  assumes codec: "\<And>g b. cb_to_vec cb g = Inr b \<Longrightarrow> cb_from_slice cb b = Inr g"
    and signed: "signing_bytes cb g = Inr bytes"
  shows "signing_bytes cb h = Inr bytes \<longleftrightarrow> relay_step\<^sup>*\<^sup>* g h"
  by (rule signing_bytes_iff [OF assms])

definition sample_signal :: "unit Signal" where
  "sample_signal = \<lparr>sg_id = 1, sg_type = Data, sg_version = 1, sg_origin = [7], sg_signature = [],
     sg_timestamp = 5, sg_payload = (), sg_encoding = Cbor, sg_weight = Fin 0, sg_ttl = 0,
     sg_scope = scope_default, sg_correlation_id = None, sg_trace = [], sg_tags = [],
     sg_delivery = Acknowledged\<rparr>"

definition sample_codec :: "unit cbor_api" where
  "sample_codec = \<lparr>cb_to_vec = (\<lambda>g. if g = sample_signal then Inr [1] else Inl ''unsupported''),
     cb_from_slice = (\<lambda>b. if b = [1] then Inr sample_signal else Inl ''eof'')\<rparr>"

lemma signing_bytes_exact_witness:
  "signing_bytes sample_codec (hop (sample_signal\<lparr>sg_ttl := 9\<rparr>) [3]) = Inr [1] \<longleftrightarrow>
     relay_step\<^sup>*\<^sup>* sample_signal (hop (sample_signal\<lparr>sg_ttl := 9\<rparr>) [3])"
  by (rule signing_bytes_exact)
    (auto simp: sample_codec_def signing_bytes_def unsigned_part_def sample_signal_def split: if_splits)

lemma hop_path_trace:
  "sg_trace (foldl hop g path) = sg_trace g @ take (64 - length (sg_trace g)) path"
proof (induction path arbitrary: g)
  case (Cons n path)
  then show ?case by (auto simp: hop_trace take_Cons' Suc_diff_le)
qed simp

lemma hop_path_visited:
  "n \<in> set path \<Longrightarrow> length (sg_trace g) + length path \<le> 64 \<Longrightarrow> has_visited (foldl hop g path) n"
  by (simp add: has_visited_def hop_path_trace)

text \<open>
  A signal's hop count and budget. Along any path, the TTL falls by one per hop and
  stops at zero, and the trace is the path in order, cut off at 64 entries; nothing else
  changes.
\<close>

theorem hop_path:
  "unat (sg_ttl (foldl hop g path)) = unat (sg_ttl g) - length path \<and>
   sg_trace (foldl hop g path) = sg_trace g @ take (64 - length (sg_trace g)) path \<and>
   sg_weight (foldl hop g path) = sg_weight g \<and> unsigned_part (foldl hop g path) = unsigned_part g"
proof -
  have "unat (sg_ttl (foldl hop g path)) = unat (sg_ttl g) - length path \<and>
      sg_weight (foldl hop g path) = sg_weight g \<and> unsigned_part (foldl hop g path) = unsigned_part g"
    by (induction path arbitrary: g) simp_all
  then show ?thesis by (simp add: hop_path_trace)
qed

text \<open>
  Attenuation at a hop keeps a valid weight valid and cannot amplify. Without the
  acknowledged exception the weight never rises; with it (acknowledged, TTL left) the
  result is at least the propagation floor, which is what keeps a long path from
  rejecting it, and at most the larger of the old weight and that floor.
\<close>

theorem attenuate_for_hop_bounds:
  assumes w: "fl_wf b32 (sg_weight g)" "in_unit (sg_weight g)" and f: "in_unit f"
  shows "in_unit (sg_weight (attenuate_for_hop g f m)) \<and>
    (if signal_requires_receipt g \<and> 0 < sg_ttl g
     then in_unit m \<longrightarrow> fl_le m (sg_weight (attenuate_for_hop g f m)) \<and>
        fl_le (sg_weight (attenuate_for_hop g f m)) (fl_max (sg_weight g) m)
     else fl_le (sg_weight (attenuate_for_hop g f m)) (sg_weight g))"
proof -
  let ?a = "fl_mul b32 (sg_weight g) f"
  have a: "in_unit ?a" by (rule fl_mul_unit [OF w f])
  have le: "fl_le ?a (sg_weight g)"
    using in_unit_finite [OF w(2)] in_unit_finite [OF f] w(1) by (intro fl_mul_shrinks) auto
  have nan: "\<not> fl_is_nan (fl_max ?a m)"
    using a fl_le_not_nan by (auto simp: fl_max_def)
  have id: "clamp01 ?a = ?a" using a by (simp add: clamp_to_id)
  show ?thesis
  proof (cases "signal_requires_receipt g \<and> 0 < sg_ttl g")
    case False
    then show ?thesis using a le id by (auto simp: attenuate_for_hop_def Let_def)
  next
    case True
    then have new: "sg_weight (attenuate_for_hop g f m) = clamp01 (fl_max ?a m)"
      by (simp add: attenuate_for_hop_def Let_def)
    have "in_unit (fl_max ?a m)" if "in_unit m"
      using that a fl_max_cases [of ?a m] by auto
    moreover have "fl_le m (fl_max ?a m)" "fl_le (fl_max ?a m) (fl_max (sg_weight g) m)" if "in_unit m"
    proof -
      have nn: "\<not> fl_is_nan m" "\<not> fl_is_nan (sg_weight g)"
        using that w(2) by (auto dest: fl_le_not_nan)
      show "fl_le m (fl_max ?a m)" using nn by (intro fl_max_ge)
      have "fl_le ?a (fl_max (sg_weight g) m)"
        using le fl_max_ge(2) [OF nn(2)] by (rule fl_le_trans)
      then show "fl_le (fl_max ?a m) (fl_max (sg_weight g) m)"
        using fl_max_ge(1) [OF nn(1)] by (rule fl_max_least)
    qed
    ultimately show ?thesis
      using True clamp01_unit [OF nan] by (auto simp: new clamp_to_id)
  qed
qed

lemma attenuate_for_hop_bounds_witness:
  "let g = sample_signal\<lparr>sg_weight := Fin (1/2), sg_ttl := 3\<rparr>
   in fl_le (lit 0.01) (sg_weight (attenuate_for_hop g (Fin 0) (lit 0.01)))"
proof -
  have "lit 0.01 = Fin (10737418 / 1073741824)" by code_simp
  moreover have "fl_wf b32 (Fin (1/2))"
    using rnd_b32_int [of 1 "- 1"] by (simp add: fl_wf_def pow2_def b32_def)
  ultimately show ?thesis
    using attenuate_for_hop_bounds [of "sample_signal\<lparr>sg_weight := Fin (1/2), sg_ttl := 3\<rparr>" "Fin 0" "lit 0.01"]
    by (simp add: sample_signal_def signal_requires_receipt_def class_requires_receipt_def Let_def)
qed

section \<open>The wire\<close>

text \<open>
  Encoding and decoding. Under a codec that reads back what it writes, an encoded
  signal decodes to itself and fits the size limit; input over the limit is refused
  before the codec sees it, whatever the codec would have made of it.
\<close>

theorem encode_decode:
  assumes codec: "\<And>b. cb_to_vec cb g = Inr b \<Longrightarrow> cb_from_slice cb b = Inr g"
    and enc: "encode cb g = Inr bytes"
  shows "decode cb bytes = Inr g \<and> length bytes \<le> MAX_SIZE \<and>
    decode cb' (bytes @ replicate (MAX_SIZE + 1 - length bytes) x) = Inl (InvalidSignal (InputTooLong (MAX_SIZE + 1)))"
  using assms by (auto simp: encode_def decode_def split: sum.splits if_splits)

lemma encode_decode_witness: "decode sample_codec [1] = Inr sample_signal"
  by (rule encode_decode [THEN conjunct1])
    (auto simp: sample_codec_def encode_def MAX_SIZE_def)

lemma validate_ok_iff:
  "validate g = Inr () \<longleftrightarrow> in_unit (sg_weight g) \<and> \<not> is_expired g \<and> sg_signature g \<noteq> []"
  by (auto simp: validate_def is_expired_def)

end
