(* ===== verification/Crypto.thy ===== *)
theory Crypto
  imports Signal
begin

text \<open>
  The pluggable crypto interface and its classical module
  (\<open>runtime/ntl-core/src/crypto.rs\<close>). Ed25519 and BLAKE3 are crates: they are parameters,
  and what the code relies on of the signature scheme is the predicate \<open>ed_sound\<close>. The
  list of supported modules is in the configuration theory, its reader.
\<close>

section \<open>The interface\<close>

type_synonym PublicKey = "u8 list"
type_synonym PrivateKey = "u8 list"
type_synonym Signature = "u8 list"
type_synonym SharedSecret = "u8 list"
type_synonym Hash = "u8 list"

record CryptoModule =
  cm_id :: string
  cm_generate_keypair :: "Error + PublicKey \<times> PrivateKey"
  cm_sign :: "u8 list \<Rightarrow> PrivateKey \<Rightarrow> Error + Signature"
  cm_verify :: "u8 list \<Rightarrow> Signature \<Rightarrow> PublicKey \<Rightarrow> Error + bool"
  cm_encrypt :: "u8 list \<Rightarrow> PublicKey \<Rightarrow> Error + u8 list"
  cm_decrypt :: "u8 list \<Rightarrow> PrivateKey \<Rightarrow> Error + u8 list"
  cm_key_exchange :: "PrivateKey \<Rightarrow> PublicKey \<Rightarrow> Error + SharedSecret"
  cm_hash :: "u8 list \<Rightarrow> Hash"

text \<open>What the code calls of \<open>ed25519_dalek\<close>: a signing key \<open>'k\<close> and its bytes, the bytes of
  its verifying key, signing, reading a verifying key \<open>'v\<close>, verifying.\<close>

record ('k, 'v) ed25519 =
  ed_signing_key :: "u8 list \<Rightarrow> 'k"
  ed_signing_bytes :: "'k \<Rightarrow> u8 list"
  ed_public_bytes :: "'k \<Rightarrow> u8 list"
  ed_sign :: "'k \<Rightarrow> u8 list \<Rightarrow> u8 list"
  ed_verifying_key :: "u8 list \<Rightarrow> string + 'v"
  ed_verify :: "'v \<Rightarrow> u8 list \<Rightarrow> u8 list \<Rightarrow> bool"

type_synonym blake3 = "u8 list \<Rightarrow> u8 list"

definition blake3_hash :: "blake3 \<Rightarrow> u8 list \<Rightarrow> Hash" where
  "blake3_hash bl data = bl data"

definition node_id_from_public_key :: "blake3 \<Rightarrow> PublicKey \<Rightarrow> NodeId" where
  "node_id_from_public_key bl key = blake3_hash bl key"

section \<open>The classical module\<close>

definition CLASSICAL_ID :: string where
  "CLASSICAL_ID = ''classical-v1''"

definition keypair_from_seed :: "('k, 'v) ed25519 \<Rightarrow> u8 list \<Rightarrow> Error + PublicKey \<times> PrivateKey" where
  "keypair_from_seed ed seed = (if length seed \<noteq> 32 then Inl (Crypto (SeedLength (length seed)))
     else let k = ed_signing_key ed seed in Inr (ed_public_bytes ed k, ed_signing_bytes ed k))"

definition signing_key :: "('k, 'v) ed25519 \<Rightarrow> PrivateKey \<Rightarrow> Error + 'k" where
  "signing_key ed key = (if length key \<noteq> 32 then Inl (Crypto (PrivateKeyLength (length key)))
     else Inr (ed_signing_key ed key))"

definition verifying_key :: "('k, 'v) ed25519 \<Rightarrow> PublicKey \<Rightarrow> Error + 'v" where
  "verifying_key ed key = (if length key \<noteq> 32 then Inl (Crypto (PublicKeyLength (length key)))
     else case ed_verifying_key ed key of Inl e \<Rightarrow> Inl (Crypto (InvalidPublicKey e)) | Inr v \<Rightarrow> Inr v)"

definition classical_sign :: "('k, 'v) ed25519 \<Rightarrow> u8 list \<Rightarrow> PrivateKey \<Rightarrow> Error + Signature" where
  "classical_sign ed data key = (case signing_key ed key of Inl e \<Rightarrow> Inl e | Inr k \<Rightarrow> Inr (ed_sign ed k data))"

text \<open>A signature of the wrong length is a failed verification; a malformed key is an error.\<close>

definition classical_verify :: "('k, 'v) ed25519 \<Rightarrow> u8 list \<Rightarrow> Signature \<Rightarrow> PublicKey \<Rightarrow> Error + bool" where
  "classical_verify ed data signature key = (case verifying_key ed key of Inl e \<Rightarrow> Inl e
     | Inr v \<Rightarrow> Inr (length signature = 64 \<and> ed_verify ed v data signature))"

definition classical_module :: "('k, 'v) ed25519 \<Rightarrow> blake3 \<Rightarrow> CryptoModule" where
  "classical_module ed bl = \<lparr>cm_id = CLASSICAL_ID, cm_generate_keypair = Inl (Crypto NoEntropySource),
     cm_sign = classical_sign ed, cm_verify = classical_verify ed,
     cm_encrypt = (\<lambda>_ _. Inl (Crypto EncryptionUnsupported)), cm_decrypt = (\<lambda>_ _. Inl (Crypto DecryptionUnsupported)),
     cm_key_exchange = (\<lambda>_ _. Inl (Crypto KeyAgreementUnsupported)), cm_hash = blake3_hash bl\<rparr>"

section \<open>Signals\<close>

definition verify_signal :: "'p cbor_api \<Rightarrow> CryptoModule \<Rightarrow> 'p Signal \<Rightarrow> PublicKey \<Rightarrow> Error + bool" where
  "verify_signal cb cm sig public_key = (case signing_bytes cb sig of Inl e \<Rightarrow> Inl e
     | Inr bytes \<Rightarrow> cm_verify cm bytes (sg_signature sig) public_key)"

definition sign_signal :: "'p cbor_api \<Rightarrow> CryptoModule \<Rightarrow> 'p Signal \<Rightarrow> PrivateKey \<Rightarrow> Error + 'p Signal" where
  "sign_signal cb cm sig private_key = (case signing_bytes cb sig of Inl e \<Rightarrow> Inl e
     | Inr bytes \<Rightarrow> (case cm_sign cm bytes private_key of Inl e \<Rightarrow> Inl e | Inr s \<Rightarrow> Inr (sig\<lparr>sg_signature := s\<rparr>)))"

section \<open>What signatures give\<close>

text \<open>The documented behaviour of the signature scheme: keys are 32 bytes and survive their
  byte form, signatures are 64 bytes, and what a key signs its public key verifies.\<close>

definition ed_sound :: "('k, 'v) ed25519 \<Rightarrow> bool" where
  "ed_sound ed \<longleftrightarrow> (\<forall>b. length b = 32 \<longrightarrow> ed_signing_bytes ed (ed_signing_key ed b) = b) \<and>
     (\<forall>k. length (ed_public_bytes ed k) = 32) \<and> (\<forall>k m. length (ed_sign ed k m) = 64) \<and>
     (\<forall>k. \<exists>v. ed_verifying_key ed (ed_public_bytes ed k) = Inr v \<and> (\<forall>m. ed_verify ed v m (ed_sign ed k m)))"

lemma sign_verify:
  assumes "ed_sound ed" "keypair_from_seed ed seed = Inr (pub, priv)"
  obtains s where "classical_sign ed data priv = Inr s" "classical_verify ed data s pub = Inr True"
proof -
  let ?k = "ed_signing_key ed seed"
  have k: "length seed = 32" "pub = ed_public_bytes ed ?k" "priv = seed"
    using assms by (auto simp: keypair_from_seed_def ed_sound_def Let_def split: if_splits)
  obtain v where v: "ed_verifying_key ed pub = Inr v" "\<forall>m. ed_verify ed v m (ed_sign ed ?k m)"
    using assms(1) k(2) unfolding ed_sound_def by metis
  have "length pub = 32" "\<forall>m. length (ed_sign ed ?k m) = 64" using assms(1) k(2) by (simp_all add: ed_sound_def)
  then show ?thesis using that [of "ed_sign ed ?k data"] k v
    by (simp add: classical_sign_def classical_verify_def signing_key_def verifying_key_def)
qed

lemma unsigned_signature [simp]: "unsigned_part (g\<lparr>sg_signature := s\<rparr>) = unsigned_part g"
  by (simp add: unsigned_part_def)

lemma signing_bytes_signature [simp]: "signing_bytes cb (g\<lparr>sg_signature := s\<rparr>) = signing_bytes cb g"
  by (simp add: signing_bytes_def)

text \<open>Whoever holds the key can sign anything that encodes, and the result verifies.\<close>

lemma sign_signal_verifies:
  assumes "ed_sound ed" "keypair_from_seed ed seed = Inr (pub, priv)" "signing_bytes cb g = Inr b"
  obtains s where "sign_signal cb (classical_module ed bl) g priv = Inr (g\<lparr>sg_signature := s\<rparr>)"
    "verify_signal cb (classical_module ed bl) (g\<lparr>sg_signature := s\<rparr>) pub = Inr True"
proof -
  obtain s where "classical_sign ed b priv = Inr s" "classical_verify ed b s pub = Inr True"
    by (rule sign_verify [OF assms(1,2)])
  then show ?thesis using that [of s] assms(3) by (simp add: sign_signal_def verify_signal_def classical_module_def)
qed


text \<open>A toy scheme that keeps the laws: the signature tells one message from the others.\<close>

definition sample_ed :: "(u8 list, u8 list) ed25519" where
  "sample_ed = \<lparr>ed_signing_key = id, ed_signing_bytes = id, ed_public_bytes = (\<lambda>k. take 32 (k @ replicate 32 0)),
     ed_sign = (\<lambda>k m. replicate 64 (if m = [1] then 1 else 0)), ed_verifying_key = Inr,
     ed_verify = (\<lambda>v m s. s = replicate 64 (if m = [1] then 1 else 0))\<rparr>"

lemma sample_ed_sound: "ed_sound sample_ed"
  by (auto simp: ed_sound_def sample_ed_def min_def)

definition sample_seed :: "u8 list" where
  "sample_seed = replicate 32 5"

lemma sample_keypair: "keypair_from_seed sample_ed sample_seed = Inr (sample_seed, sample_seed)"
  by (simp add: keypair_from_seed_def sample_ed_def sample_seed_def Let_def)


end
