(* ===== verification/Frame.thy ===== *)
theory Frame
  imports Crypto
begin

text \<open>
  Length-prefixed framing (\<open>runtime/ntl-net/src/frame.rs\<close>): four big-endian length bytes and
  that many bytes of CBOR. A \<open>tokio\<close> reader or writer is a parameter, a state with its
  operations; a byte slice and a growing buffer are the two the proofs use.
\<close>

section \<open>Readers and writers\<close>

datatype io_error = UnexpectedEof | OtherIo string

record 'r source_api =
  so_read_exact :: "nat \<Rightarrow> ('r, io_error, u8 list) op"

record 'w sink_api =
  sk_write_all :: "u8 list \<Rightarrow> ('w, io_error, unit) op"
  sk_flush :: "('w, io_error, unit) op"

datatype frame_fault = ZeroLength | SignalFault Error

datatype FrameError =
    Io io_error
  | Closed
  | TooLarge nat nat
  | MalformedSignal frame_fault

text \<open>An operation with its error mapped: \<open>map_err(f)?\<close>\<close>

definition op_map_err :: "('e \<Rightarrow> 'f) \<Rightarrow> ('s, 'e, 'a) op \<Rightarrow> ('s, 'f, 'a) op" where
  "op_map_err f m s = (case m s of (Inl e, s') \<Rightarrow> (Inl (f e), s') | (Inr x, s') \<Rightarrow> (Inr x, s'))"

lemma op_map_err_simps [simp]:
  "m s = (Inl e, s') \<Longrightarrow> op_map_err f m s = (Inl (f e), s')"
  "m s = (Inr x, s') \<Longrightarrow> op_map_err f m s = (Inr x, s')"
  by (simp_all add: op_map_err_def)

definition u32_from_be_bytes :: "u8 list \<Rightarrow> u32" where
  "u32_from_be_bytes bs = foldl (\<lambda>acc b. 256 * acc + ucast b) 0 bs"

definition u32_to_be_bytes :: "u32 \<Rightarrow> u8 list" where
  "u32_to_be_bytes x = map (\<lambda>k. of_nat (unat x div 256 ^ k)) [3, 2, 1, 0]"

section \<open>Frames\<close>

text \<open>A reader that ends inside the length prefix is a closed connection; inside the body it
  is an I/O error.\<close>

definition read_header :: "'r source_api \<Rightarrow> ('r, FrameError, u8 list) op" where
  "read_header so = op_map_err (\<lambda>e. if e = UnexpectedEof then Closed else Io e) (so_read_exact so 4)"

definition read_signal :: "'r source_api \<Rightarrow> 'p cbor_api \<Rightarrow> ('r, FrameError, 'p Signal) op" where
  "read_signal so cb =
     op_bind (read_header so) (\<lambda>len_buf.
     let claimed = unat (u32_from_be_bytes len_buf)
     in if MAX_SIZE < claimed then op_fail (TooLarge claimed MAX_SIZE)
        else if claimed = 0 then op_fail (MalformedSignal ZeroLength)
        else op_bind (op_map_err Io (so_read_exact so claimed)) (\<lambda>body.
          case decode cb body of Inl e \<Rightarrow> op_fail (MalformedSignal (SignalFault e)) | Inr g \<Rightarrow> op_ret g))"

definition write_signal :: "'w sink_api \<Rightarrow> 'p cbor_api \<Rightarrow> 'p Signal \<Rightarrow> ('w, FrameError, unit) op" where
  "write_signal sk cb sig = (case encode cb sig of
     Inl e \<Rightarrow> op_fail (MalformedSignal (SignalFault e))
   | Inr body \<Rightarrow> if 2 ^ 32 \<le> length body then op_fail (TooLarge (length body) MAX_SIZE)
       else op_bind (op_map_err Io (sk_write_all sk (u32_to_be_bytes (of_nat (length body))))) (\<lambda>_.
            op_bind (op_map_err Io (sk_write_all sk body)) (\<lambda>_. op_map_err Io (sk_flush sk))))"

section \<open>Round trip\<close>

text \<open>\<open>&[u8]\<close> as a reader, \<open>Vec<u8>\<close> as a writer.\<close>

definition slice_source :: "u8 list source_api" where
  "slice_source = \<lparr>so_read_exact = (\<lambda>n s. if n \<le> length s then (Inr (take n s), drop n s) else (Inl UnexpectedEof, []))\<rparr>"

definition buffer_sink :: "u8 list sink_api" where
  "buffer_sink = \<lparr>sk_write_all = (\<lambda>bs w. (Inr (), w @ bs)), sk_flush = op_ret ()\<rparr>"

lemma be_bytes_length [simp]: "length (u32_to_be_bytes x) = 4"
  by (simp add: u32_to_be_bytes_def)

lemma be_bytes_roundtrip [simp]: "u32_from_be_bytes (u32_to_be_bytes x) = x"
proof -
  define n where "n = unat x"
  have u: "(ucast (of_nat a :: u8) :: u32) = of_nat (a mod 256)" for a
    by (simp add: unsigned_of_nat take_bit_eq_mod)
  have eq: "n div 256 ^ 3 mod 256 * 256 ^ 3 + n div 256 ^ 2 mod 256 * 256 ^ 2 + n div 256 mod 256 * 256 + n mod 256 = n"
    if "n < 2 ^ 32"
  proof -
    have "n div 256 ^ 3 mod 256 = n div 256 ^ 3" using that by simp
    moreover have "n div 256 ^ 2 = 256 * (n div 256 ^ 3) + n div 256 ^ 2 mod 256"
      by (simp add: div_mult2_eq [of n "256 ^ 2" 256, simplified])
    moreover have "n div 256 = 256 * (n div 256 ^ 2) + n div 256 mod 256"
      by (simp add: div_mult2_eq [of n 256 256, simplified])
    ultimately show ?thesis by simp (use div_mult_mod_eq [of n 256] in linarith)
  qed
  have lt: "n < 2 ^ 32" using unsigned_less [of x, where ?'a = nat] by (simp add: n_def)
  have "u32_from_be_bytes (u32_to_be_bytes x) =
      of_nat (n div 256 ^ 3 mod 256 * 256 ^ 3 + n div 256 ^ 2 mod 256 * 256 ^ 2 + n div 256 mod 256 * 256 + n mod 256)"
    unfolding u32_from_be_bytes_def u32_to_be_bytes_def n_def [symmetric] by (simp add: u algebra_simps)
  also have "\<dots> = of_nat n" using eq [OF lt] by (simp only:)
  finally show ?thesis by (simp add: n_def)
qed

text \<open>Reading everything a connection delivers, until the first error.\<close>

partial_function (option) read_all :: "'r source_api \<Rightarrow> 'p cbor_api \<Rightarrow> 'r \<Rightarrow> ('p Signal list \<times> FrameError) option" where
  "read_all so cb r = (case read_signal so cb r of
     (Inl e, _) \<Rightarrow> Some ([], e)
   | (Inr g, r') \<Rightarrow> Option.bind (read_all so cb r') (\<lambda>(gs, e). Some (g # gs, e)))"

fun write_each :: "'w sink_api \<Rightarrow> 'p cbor_api \<Rightarrow> 'p Signal list \<Rightarrow> ('w, FrameError, unit) op" where
  "write_each sk cb [] = op_ret ()"
| "write_each sk cb (g # gs) = op_bind (write_signal sk cb g) (\<lambda>_. write_each sk cb gs)"

lemma max_size_u32: "n \<le> MAX_SIZE \<Longrightarrow> unat (of_nat n :: u32) = n"
  by (simp add: MAX_SIZE_def unat_of_nat)

lemma write_signal_buffer:
  assumes "write_signal buffer_sink cb g w = (Inr (), w')"
  obtains body where "encode cb g = Inr body" "length body \<le> MAX_SIZE" "w' = w @ u32_to_be_bytes (of_nat (length body)) @ body"
  using assms by (auto simp: write_signal_def encode_def buffer_sink_def op_bind_def op_map_err_def split: sum.splits if_splits prod.splits)

lemma read_written:
  assumes "encode cb g = Inr body" "decode cb body = Inr g" "length body \<le> MAX_SIZE" "body \<noteq> []"
  shows "read_signal slice_source cb (u32_to_be_bytes (of_nat (length body)) @ body @ rest) = (Inr g, rest)"
  using assms max_size_u32 [of "length body"]
  by (simp add: read_signal_def read_header_def slice_source_def op_bind_def op_map_err_def Let_def)

text \<open>
  C19: Framing is a faithful channel. Under a codec that reads back what it writes and never
  writes an empty body, whatever signals are written to a buffer one after the other are
  read back from it in the same order, all of them and nothing else, and then the reader
  reports a clean close. Cut inside a length prefix, the stream yields exactly the frames
  before the cut.
\<close>

theorem frames_roundtrip:
  assumes codec: "\<And>g b. cb_to_vec cb g = Inr b \<Longrightarrow> cb_from_slice cb b = Inr g \<and> b \<noteq> []"
    and written: "write_each buffer_sink cb gs [] = (Inr (), stream)"
    and cut: "length tail < 4"
  shows "read_all slice_source cb (stream @ tail) = Some (gs, Closed)"
proof -
  have "\<exists>s. w' = w @ s \<and> read_all slice_source cb (s @ tail) = Some (gs, Closed)"
    if "write_each buffer_sink cb gs w = (Inr (), w')" for w w'
    using that
  proof (induction gs arbitrary: w)
    case Nil
    have "\<not> 4 \<le> length tail" using cut by simp
    then have "read_all slice_source cb tail = Some ([], Closed)"
      by (subst read_all.simps)
        (simp add: read_signal_def read_header_def slice_source_def op_bind_def op_map_err_def)
    then show ?case using Nil by simp
  next
    case (Cons g gs)
    then obtain w1 where w1: "write_signal buffer_sink cb g w = (Inr (), w1)" "write_each buffer_sink cb gs w1 = (Inr (), w')"
      by (auto simp: op_bind_def split: prod.splits sum.splits)
    from w1(1) obtain body where body: "encode cb g = Inr body" "length body \<le> MAX_SIZE"
      "w1 = w @ u32_to_be_bytes (of_nat (length body)) @ body" by (rule write_signal_buffer)
    have d: "decode cb body = Inr g" "body \<noteq> []"
      using body(1,2) codec [of g body] by (auto simp: encode_def decode_def split: sum.splits if_splits)
    obtain s where s: "w' = w1 @ s" "read_all slice_source cb (s @ tail) = Some (gs, Closed)"
      using Cons.IH [OF w1(2)] by blast
    have "read_all slice_source cb (u32_to_be_bytes (of_nat (length body)) @ body @ s @ tail) = Some (g # gs, Closed)"
      by (subst read_all.simps) (simp add: read_written [OF body(1) d(1) body(2) d(2)] s(2))
    then show ?case using body(3) s(1) by auto
  qed
  from this [OF written] show ?thesis by simp
qed

lemma frames_roundtrip_witness:
  "\<exists>stream. write_each buffer_sink sample_codec [sample_signal, sample_signal] [] = (Inr (), stream) \<and>
     read_all slice_source sample_codec (stream @ [0, 0]) = Some ([sample_signal, sample_signal], Closed)"
proof -
  have w: "write_each buffer_sink sample_codec [sample_signal, sample_signal] [] =
      (Inr (), u32_to_be_bytes 1 @ [1] @ u32_to_be_bytes 1 @ [1])"
    by (simp add: write_signal_def encode_def sample_codec_def MAX_SIZE_def buffer_sink_def op_bind_def op_map_err_def)
  have "read_all slice_source sample_codec ((u32_to_be_bytes 1 @ [1] @ u32_to_be_bytes 1 @ [1]) @ [0, 0]) =
      Some ([sample_signal, sample_signal], Closed)"
    by (rule frames_roundtrip [OF _ w]) (auto simp: sample_codec_def split: if_splits)
  then show ?thesis using w by blast
qed

text \<open>
  A length prefix cannot make the reader allocate. Whatever the connection delivers, a
  frame is decided by reads of at most \<open>MAX_SIZE\<close> bytes: two connections that answer
  those alike are indistinguishable, even if one would answer larger reads. A prefix
  that claims more is refused with the claim, before the body is touched.
\<close>

theorem reads_bounded:
  assumes "\<And>k. k \<le> MAX_SIZE \<Longrightarrow> so_read_exact a k = so_read_exact b k"
  shows "read_signal a cb = read_signal b cb \<and>
    (so_read_exact a 4 r = (Inr hdr, r') \<and> MAX_SIZE < unat (u32_from_be_bytes hdr) \<longrightarrow>
       read_signal a cb r = (Inl (TooLarge (unat (u32_from_be_bytes hdr)) MAX_SIZE), r'))"
proof
  have h: "read_header a = read_header b" using assms [of 4] by (simp add: read_header_def MAX_SIZE_def)
  have step: "(if MAX_SIZE < unat l then op_fail (TooLarge (unat l) MAX_SIZE)
        else if unat l = 0 then op_fail (MalformedSignal ZeroLength)
        else op_bind (op_map_err Io (so_read_exact a (unat l))) f) =
      (if MAX_SIZE < unat l then op_fail (TooLarge (unat l) MAX_SIZE)
        else if unat l = 0 then op_fail (MalformedSignal ZeroLength)
        else op_bind (op_map_err Io (so_read_exact b (unat l))) f)" for l :: u32 and f
    using assms [of "unat l"] by simp
  show "read_signal a cb = read_signal b cb"
    unfolding read_signal_def h Let_def by (rule arg_cong [where f = "op_bind _"], rule ext, rule step)
  show "so_read_exact a 4 r = (Inr hdr, r') \<and> MAX_SIZE < unat (u32_from_be_bytes hdr) \<longrightarrow>
       read_signal a cb r = (Inl (TooLarge (unat (u32_from_be_bytes hdr)) MAX_SIZE), r')"
    by (simp add: read_signal_def read_header_def op_bind_def Let_def)
qed

lemma reads_bounded_witness:
  "fst (read_signal slice_source sample_codec [255, 255, 255, 255]) = Inl (TooLarge 4294967295 MAX_SIZE)"
proof -
  have "unat (u32_from_be_bytes [255, 255, 255, 255]) = 4294967295" by (simp add: u32_from_be_bytes_def)
  then show ?thesis
    using reads_bounded [of slice_source slice_source sample_codec "[255, 255, 255, 255]" "[255, 255, 255, 255]" "[]"]
    by (simp add: slice_source_def MAX_SIZE_def)
qed

end
