(* ===== verification/Learning.thy ===== *)
theory Learning
  imports Delivery
begin

text \<open>
  The online routing model (\<open>runtime/ntl-core/src/learning.rs\<close>): hyperparameters and their
  validation, the reward-driven weight update with its influence cap, penalties, half-life
  decay, divisive normalisation, and the stochastic choice of paths. \<open>exp\<close>, \<open>exp2\<close> and
  \<open>log2\<close> come from the platform's mathematical library and are parameters. A result of
  \<open>None\<close> from \<open>apply_reward\<close> is the panic of \<open>f32::clamp\<close> on an empty interval; from the
  samplers it is a rejection loop that does not return.
\<close>

section \<open>Hyperparameters\<close>

record libm =
  lm_exp :: "flt \<Rightarrow> flt"
  lm_exp2 :: "flt \<Rightarrow> flt"
  lm_log2 :: "flt \<Rightarrow> flt"

datatype DeploymentClass = DcEdge | FullNode | HighTraffic

record LearningConfig =
  lc_enabled :: bool
  lc_learning_rate :: flt
  lc_decay_half_life_hours :: flt
  lc_exploration_temperature :: flt
  lc_min_temperature :: flt
  lc_receipt_window_secs :: u64
  lc_min_weight :: flt
  lc_max_weight :: flt
  lc_max_total_outbound_weight :: flt
  lc_influence_cap_per_peer :: flt
  lc_influence_window_secs :: u64
  lc_signature_failure_penalty :: flt
  lc_signature_failure_prune_threshold :: u32
  lc_signature_failure_cooldown_secs :: u64

definition default_signature_failure_cooldown_secs :: u64 where
  "default_signature_failure_cooldown_secs = 3600"

definition learning_for_class :: "DeploymentClass \<Rightarrow> LearningConfig" where
  "learning_for_class cls =
    (let (rate, half_life, temp, min_temp, window, budget, cap) = (case cls of
        DcEdge \<Rightarrow> (lit 0.05, lit 168, lit 0.15, lit 0.02, 30, lit 8, lit 0.20)
      | FullNode \<Rightarrow> (lit 0.02, lit 72, lit 0.10, lit 0.02, 15, lit 32, lit 0.10)
      | HighTraffic \<Rightarrow> (lit 0.01, lit 24, lit 0.05, lit 0.01, 5, lit 128, lit 0.05))
     in \<lparr>lc_enabled = True, lc_learning_rate = rate, lc_decay_half_life_hours = half_life,
         lc_exploration_temperature = temp, lc_min_temperature = min_temp,
         lc_receipt_window_secs = window, lc_min_weight = lit 0.001, lc_max_weight = lit 1,
         lc_max_total_outbound_weight = budget, lc_influence_cap_per_peer = cap,
         lc_influence_window_secs = 3600, lc_signature_failure_penalty = lit 0.5,
         lc_signature_failure_prune_threshold = 5,
         lc_signature_failure_cooldown_secs = default_signature_failure_cooldown_secs\<rparr>)"

definition learning_default :: LearningConfig where
  "learning_default = learning_for_class DcEdge"

definition effective_temperature :: "LearningConfig \<Rightarrow> flt" where
  "effective_temperature c = fl_max (lc_exploration_temperature c) (lc_min_temperature c)"

definition influence_window_start :: "LearningConfig \<Rightarrow> u64 \<Rightarrow> u64" where
  "influence_window_start c now = sat_sub now (sat_mul (lc_influence_window_secs c) 1000000000)"

definition receipt_deadline :: "LearningConfig \<Rightarrow> u64 \<Rightarrow> u64" where
  "receipt_deadline c now = sat_sub now (sat_mul (lc_receipt_window_secs c) 1000000000)"

definition learning_validate :: "LearningConfig \<Rightarrow> learning_fault + unit" where
  "learning_validate c =
    (if \<not> (fl_lt (Fin 0) (lc_learning_rate c) \<and> fl_le (lc_learning_rate c) (Fin 1))
       then Inl (LearningRateRange (lc_learning_rate c))
     else if fl_le (lc_decay_half_life_hours c) (Fin 0)
       then Inl (HalfLifeNotPositive (lc_decay_half_life_hours c))
     else if fl_le (lc_min_temperature c) (Fin 0) then Inl TemperatureNotPositive
     else if fl_le (lc_min_weight c) (Fin 0) \<or> fl_le (lc_max_weight c) (lc_min_weight c)
       then Inl (WeightBounds (lc_min_weight c) (lc_max_weight c))
     else if fl_le (lc_max_total_outbound_weight c) (lc_max_weight c)
       then Inl (BudgetTooSmall (lc_max_total_outbound_weight c) (lc_max_weight c))
     else if fl_le (lc_influence_cap_per_peer c) (Fin 0) then Inl InfluenceCapNotPositive
     else if \<not> (fl_lt (Fin 0) (lc_signature_failure_penalty c) \<and> fl_le (lc_signature_failure_penalty c) (Fin 1))
       then Inl (PenaltyRange (lc_signature_failure_penalty c))
     else Inr ())"

section \<open>Weight updates\<close>

record WeightUpdate =
  wu_before :: flt
  wu_after :: flt
  wu_applied_delta :: flt
  wu_capped :: bool

definition is_noop :: "WeightUpdate \<Rightarrow> bool" where
  "is_noop u = fl_lt (fl_abs (fl_sub b32 (wu_after u) (wu_before u))) f32_epsilon"

text \<open>The raw step and its capped form, with the flag that says the cap interfered.\<close>

definition raw_delta :: "LearningConfig \<Rightarrow> Outcome \<Rightarrow> flt \<Rightarrow> flt" where
  "raw_delta c out sw = fl_mul b32 (fl_mul b32 (lc_learning_rate c) (reward out)) (clamp01 sw)"

definition capped_delta :: "LearningConfig \<Rightarrow> flt \<Rightarrow> flt \<Rightarrow> flt \<times> bool" where
  "capped_delta c used raw =
    (if fl_lt (Fin 0) raw \<and> fl_le (lc_influence_cap_per_peer c) used then (Fin 0, True)
     else if fl_lt (Fin 0) raw then
       (let headroom = fl_sub b32 (lc_influence_cap_per_peer c) used
        in if fl_lt headroom raw then (headroom, True) else (raw, False))
     else (raw, False))"

definition apply_reward :: "flt \<Rightarrow> Outcome \<Rightarrow> flt \<Rightarrow> flt \<Rightarrow> LearningConfig \<Rightarrow> WeightUpdate option" where
  "apply_reward weight out signal_weight peer_influence_used c =
    (let (delta, capped) = capped_delta c peer_influence_used (raw_delta c out signal_weight)
     in case fl_clamp (lc_min_weight c) (lc_max_weight c) (fl_add b32 weight delta) of
       None \<Rightarrow> None
     | Some after \<Rightarrow> Some \<lparr>wu_before = weight, wu_after = after,
         wu_applied_delta = fl_sub b32 after weight, wu_capped = capped\<rparr>)"

definition apply_signature_penalty :: "flt \<Rightarrow> LearningConfig \<Rightarrow> flt" where
  "apply_signature_penalty weight c =
     fl_max (fl_mul b32 weight (fl_sub b32 (Fin 1) (lc_signature_failure_penalty c))) (lc_min_weight c)"

definition apply_affinity_update :: "flt \<Rightarrow> Outcome \<Rightarrow> LearningConfig \<Rightarrow> flt" where
  "apply_affinity_update affinity out c =
     clamp01 (fl_add b32 affinity (fl_mul b32 (lc_learning_rate c) (reward out)))"

definition decayed_weight :: "libm \<Rightarrow> flt \<Rightarrow> u64 \<Rightarrow> u64 \<Rightarrow> LearningConfig \<Rightarrow> flt" where
  "decayed_weight lm weight last_active now c =
    (if now \<le> last_active then weight
     else let elapsed = ns_to_hours (now - last_active);
              ex = fl_div b32 (fl_neg elapsed) (lc_decay_half_life_hours c)
          in fl_max (fl_mul b32 weight (lm_exp2 lm ex)) (lc_min_weight c))"

definition time_to_decay_to :: "libm \<Rightarrow> flt \<Rightarrow> flt \<Rightarrow> LearningConfig \<Rightarrow> u64 option" where
  "time_to_decay_to lm weight target c =
    (if fl_le target (Fin 0) \<or> fl_le weight target then None
     else let halvings = lm_log2 lm (fl_div b32 weight target);
              hours = fl_mul b32 halvings (lc_decay_half_life_hours c)
          in Some (fl_to_u64 (fl_mul b64 (fl_cast b64 hours) (fl_of_nat b64 (unat NANOS_PER_HOUR)))))"

definition normalize_outbound :: "flt list \<Rightarrow> LearningConfig \<Rightarrow> (flt \<times> flt list) option" where
  "normalize_outbound weights c =
    (let total = fl_sum weights
     in if fl_le total (lc_max_total_outbound_weight c) \<or> fl_le total (Fin 0) then None
        else let factor = fl_div b32 (lc_max_total_outbound_weight c) total
             in Some (factor, map (\<lambda>w. fl_max (fl_mul b32 w factor) (lc_min_weight c)) weights))"

section \<open>Configuration facts\<close>

text \<open>What validation establishes, for a configuration whose numbers are finite.\<close>

definition config_numbers :: "LearningConfig \<Rightarrow> bool" where
  "config_numbers c \<longleftrightarrow> (\<forall>x \<in> {lc_min_weight c, lc_max_weight c, lc_influence_cap_per_peer c,
     lc_max_total_outbound_weight c, lc_decay_half_life_hours c, lc_min_temperature c,
     lc_learning_rate c, lc_signature_failure_penalty c}. fl_is_finite x \<and> fl_wf b32 x)"

lemma learning_validate_ok:
  "learning_validate c = Inr () \<longleftrightarrow>
    fl_lt (Fin 0) (lc_learning_rate c) \<and> fl_le (lc_learning_rate c) (Fin 1) \<and>
    \<not> fl_le (lc_decay_half_life_hours c) (Fin 0) \<and> \<not> fl_le (lc_min_temperature c) (Fin 0) \<and>
    \<not> fl_le (lc_min_weight c) (Fin 0) \<and> \<not> fl_le (lc_max_weight c) (lc_min_weight c) \<and>
    \<not> fl_le (lc_max_total_outbound_weight c) (lc_max_weight c) \<and>
    \<not> fl_le (lc_influence_cap_per_peer c) (Fin 0) \<and>
    fl_lt (Fin 0) (lc_signature_failure_penalty c) \<and> fl_le (lc_signature_failure_penalty c) (Fin 1)"
  unfolding learning_validate_def by (simp only: split: if_split) blast

lemma fl_not_le_finite: "\<not> fl_le x y \<Longrightarrow> fl_is_finite x \<Longrightarrow> fl_is_finite y \<Longrightarrow> fl_lt y x"
  by (simp add: fl_not_le finite_not_nan)

lemma learning_validate_bounds:
  assumes "learning_validate c = Inr ()" and "config_numbers c"
  shows "fl_lt (Fin 0) (lc_min_weight c)" "fl_lt (lc_min_weight c) (lc_max_weight c)"
    "fl_lt (lc_max_weight c) (lc_max_total_outbound_weight c)"
    "fl_lt (Fin 0) (lc_influence_cap_per_peer c)"
    "fl_lt (Fin 0) (lc_learning_rate c)" "fl_le (lc_learning_rate c) (Fin 1)"
    "fl_lt (Fin 0) (lc_signature_failure_penalty c)" "fl_le (lc_signature_failure_penalty c) (Fin 1)"
    "fl_lt (Fin 0) (lc_decay_half_life_hours c)"
proof -
  have fin: "fl_is_finite (lc_min_weight c)" "fl_is_finite (lc_max_weight c)"
    "fl_is_finite (lc_influence_cap_per_peer c)" "fl_is_finite (lc_max_total_outbound_weight c)"
    "fl_is_finite (lc_decay_half_life_hours c)" "fl_is_finite (Fin 0)"
    using assms(2) by (simp_all add: config_numbers_def)
  note ok = assms(1) [unfolded learning_validate_ok]
  show "fl_lt (Fin 0) (lc_min_weight c)" "fl_lt (lc_min_weight c) (lc_max_weight c)"
    "fl_lt (lc_max_weight c) (lc_max_total_outbound_weight c)"
    "fl_lt (Fin 0) (lc_influence_cap_per_peer c)" "fl_lt (Fin 0) (lc_decay_half_life_hours c)"
    using ok fin by (metis fl_not_le_finite)+
  show "fl_lt (Fin 0) (lc_learning_rate c)" "fl_le (lc_learning_rate c) (Fin 1)"
    "fl_lt (Fin 0) (lc_signature_failure_penalty c)" "fl_le (lc_signature_failure_penalty c) (Fin 1)"
    using ok by blast+
qed

lemma lit_values:
  "lit 0.05 = Fin (13421773/268435456)" "lit 0.02 = Fin (5368709/268435456)"
  "lit 0.01 = Fin (5368709/536870912)" "lit 0.15 = Fin (5033165/33554432)"
  "lit 0.10 = Fin (13421773/134217728)" "lit 0.20 = Fin (13421773/67108864)"
  "lit 0.001 = Fin (8589935/8589934592)" "lit 0.5 = Fin (1/2)" "lit 1 = Fin 1"
  "lit 8 = Fin 8" "lit 32 = Fin 32" "lit 128 = Fin 128" "lit 24 = Fin 24" "lit 72 = Fin 72"
  "lit 168 = Fin 168"
  by code_simp+

lemma learning_for_class_valid: "learning_validate (learning_for_class cls) = Inr ()"
  unfolding learning_validate_ok by (cases cls) (simp_all only: learning_for_class_def lit_values
    DeploymentClass.case Let_def prod.case LearningConfig.simps fl_cmp_simps, simp_all)

lemma lit_not_nan [simp]: "\<not> fl_is_nan (lit r)"
  by (simp add: lit_def)

lemma lit_finite: "\<bar>r\<bar> \<le> 2 ^ 24 \<Longrightarrow> fl_is_finite (lit r)"
proof -
  assume r: "\<bar>r\<bar> \<le> 2 ^ 24"
  have e: "fl_wf b32 (Fin (of_int (k * 2 ^ 24)))" if "\<bar>k\<bar> = 1" for k
    using rnd_b32_int [of "k * 2 ^ 24" 0] that
    by (simp add: fl_wf_def abs_mult) (simp add: b32_def pow2_def abs_mult)
  have "fl_le (lit r) (Fin (of_int (1 * 2 ^ 24)))" "fl_le (Fin (of_int ((- 1) * 2 ^ 24))) (lit r)"
    unfolding lit_def using r e [of 1] e [of "- 1"] by (auto intro!: fl_pack_leI fl_le_packI)
  then show ?thesis
    using between_finite [of "Fin (of_int ((- 1) * 2 ^ 24))" "lit r" "Fin (of_int (1 * 2 ^ 24))"] by simp
qed

lemma learning_for_class_numbers: "config_numbers (learning_for_class cls)"
  by (cases cls) (simp_all add: config_numbers_def learning_for_class_def lit_finite)

section \<open>The reward update\<close>

lemma fl_sub_le:
  assumes "fl_wf b32 x" "fl_is_finite x" "fl_is_finite y" "0 \<le> fl_val y"
  shows "fl_le (fl_sub b32 x y) x"
  using assms by (simp add: fl_sub_def fl_add_le)

lemma fl_pack_small:
  assumes "\<bar>r\<bar> \<le> 1"
  shows "fl_is_finite (fl_pack b32 s r)" "\<bar>fl_val (fl_pack b32 s r)\<bar> \<le> 1"
    "0 \<le> r \<Longrightarrow> 0 \<le> fl_val (fl_pack b32 s r)" "r \<le> 0 \<Longrightarrow> fl_val (fl_pack b32 s r) \<le> 0"
proof -
  have m1: "fl_wf b32 (Fin (- 1))"
    using reward_wf [of SignatureFailed] by (simp add: reward_def)
  have "fl_le (fl_pack b32 s r) (Fin 1)" "fl_le (Fin (- 1)) (fl_pack b32 s r)"
    using assms m1 by (auto intro!: fl_pack_leI fl_le_packI)
  moreover from this show fin: "fl_is_finite (fl_pack b32 s r)"
    by (auto intro: between_finite)
  ultimately show "\<bar>fl_val (fl_pack b32 s r)\<bar> \<le> 1"
    by (simp add: fl_le_finite)
  show "0 \<le> fl_val (fl_pack b32 s r)" if "0 \<le> r"
    using that fl_le_packI [of b32 "Fin 0" r s] fin by (simp add: fl_le_finite)
  show "fl_val (fl_pack b32 s r) \<le> 0" if "r \<le> 0"
    using that fl_pack_leI [of b32 "Fin 0" r s] fin by (simp add: fl_le_finite)
qed

lemma fl_mul_small:
  assumes "fl_is_finite x" "fl_is_finite y" "\<bar>fl_val x\<bar> \<le> 1" "\<bar>fl_val y\<bar> \<le> 1"
  shows "fl_is_finite (fl_mul b32 x y)" "\<bar>fl_val (fl_mul b32 x y)\<bar> \<le> 1"
    "0 \<le> fl_val x * fl_val y \<Longrightarrow> 0 \<le> fl_val (fl_mul b32 x y)"
    "fl_val x * fl_val y \<le> 0 \<Longrightarrow> fl_val (fl_mul b32 x y) \<le> 0"
  using assms mult_mono [of "\<bar>fl_val x\<bar>" 1 "\<bar>fl_val y\<bar>" 1]
  by (simp_all add: fl_mul_finite abs_mult fl_pack_small)

lemma raw_delta_val:
  assumes lr: "fl_lt (Fin 0) (lc_learning_rate c)" "fl_le (lc_learning_rate c) (Fin 1)"
    and sw: "\<not> fl_is_nan sw"
  shows "fl_is_finite (raw_delta c out sw)" "\<bar>fl_val (raw_delta c out sw)\<bar> \<le> 1"
    and "0 \<le> fl_val (reward out) \<Longrightarrow> 0 \<le> fl_val (raw_delta c out sw)"
    and "fl_val (reward out) \<le> 0 \<Longrightarrow> fl_val (raw_delta c out sw) \<le> 0"
proof -
  let ?lr = "lc_learning_rate c" and ?s = "clamp01 sw"
  have l: "fl_is_finite ?lr" "0 \<le> fl_val ?lr" "\<bar>fl_val ?lr\<bar> \<le> 1"
    using in_unit_finite [of ?lr] lr fl_lt_imp_le by auto
  have s: "fl_is_finite ?s" "0 \<le> fl_val ?s" "\<bar>fl_val ?s\<bar> \<le> 1"
    using in_unit_finite [OF clamp01_unit [OF sw]] by auto
  have r: "\<bar>fl_val (reward out)\<bar> \<le> 1"
    by (simp add: reward_def split: Outcome.split)
  let ?m = "fl_mul b32 ?lr (reward out)"
  have m: "fl_is_finite ?m" "\<bar>fl_val ?m\<bar> \<le> 1"
    using fl_mul_small [OF l(1) reward_finite l(3) r] by auto
  note d = fl_mul_small [OF m(1) s(1) m(2) s(3), folded raw_delta_def]
  show "fl_is_finite (raw_delta c out sw)" "\<bar>fl_val (raw_delta c out sw)\<bar> \<le> 1"
    by (rule d)+
  show "0 \<le> fl_val (raw_delta c out sw)" if "0 \<le> fl_val (reward out)"
    using that l s fl_mul_small(3) [OF l(1) reward_finite l(3) r] by (intro d) simp
  show "fl_val (raw_delta c out sw) \<le> 0" if "fl_val (reward out) \<le> 0"
    using that l s fl_mul_small(4) [OF l(1) reward_finite l(3) r]
    by (intro d) (simp add: mult_nonneg_nonpos mult_nonpos_nonneg)
qed

lemma fl_add_zero:
  assumes "fl_wf b32 w" "fl_lt (Fin 0) w" "fl_is_finite w" "fl_is_finite d" "fl_val d = 0"
  shows "fl_add b32 w d = w"
proof -
  obtain r where "w = Fin r" using assms(2,3) by (cases w) (auto simp: fl_lt_def)
  with assms show ?thesis by (cases d) (auto simp: fl_wf_def fl_pack_def Let_def)
qed

lemma fl_add_mono:
  assumes "fl_is_finite x" "fl_is_finite y" "fl_is_finite z" "fl_val y \<le> fl_val z"
  shows "fl_le (fl_add b32 x y) (fl_add b32 x z)"
  using fl_pack_mono [of b32 "fl_val x + fl_val y" "fl_val x + fl_val z" False False]
    fl_key_add [of x y b32 False] fl_key_add [of x z b32 False] assms
  by (simp add: fl_le_def fl_add_nan_iff)

lemma fl_le_key: "fl_key y = fl_key z \<Longrightarrow> \<not> fl_is_nan y \<Longrightarrow> fl_le x z \<Longrightarrow> fl_le x y"
  by (simp add: fl_le_def)

text \<open>The capped step helps by no more than the headroom, and leaves penalties alone.\<close>

lemma capped_delta_penalty: "fl_is_finite raw \<Longrightarrow> fl_val raw \<le> 0 \<Longrightarrow> capped_delta c used raw = (raw, False)"
  by (simp add: capped_delta_def fl_lt_finite)

lemma capped_delta_help:
  assumes raw: "fl_is_finite raw" "\<bar>fl_val raw\<bar> \<le> 1" "0 \<le> fl_val raw"
    and cap: "fl_is_finite (lc_influence_cap_per_peer c)" "fl_wf b32 (lc_influence_cap_per_peer c)"
    and used: "fl_le (Fin 0) used"
  defines "d \<equiv> fst (capped_delta c used raw)"
  shows "fl_is_finite d" "0 \<le> fl_val d" "fl_val d \<le> fl_val raw"
    and "fl_le (lc_influence_cap_per_peer c) used \<Longrightarrow> fl_val d = 0"
    and "\<not> fl_le (lc_influence_cap_per_peer c) used \<Longrightarrow>
      fl_is_finite (fl_sub b32 (lc_influence_cap_per_peer c) used) \<and>
      fl_val d \<le> fl_val (fl_sub b32 (lc_influence_cap_per_peer c) used)"
proof -
  let ?cap = "lc_influence_cap_per_peer c" and ?h = "fl_sub b32 (lc_influence_cap_per_peer c) used"
  have h: "fl_is_finite ?h \<and> 0 \<le> fl_val ?h" if "\<not> fl_le ?cap used"
  proof -
    have lt: "fl_lt used ?cap"
      using that used cap by (simp add: fl_not_le finite_not_nan fl_le_not_nan)
    then have fin: "fl_is_finite used"
      using used cap between_finite [of "Fin 0" used ?cap] fl_lt_imp_le by simp
    have "fl_le ?h ?cap"
      using cap fin used by (intro fl_sub_le) (simp_all add: fl_le_finite)
    moreover have "fl_le (Fin 0) ?h"
    proof (rule fl_le_key)
      show "fl_key ?h = fl_key (fl_pack b32 False (fl_val ?cap + - fl_val used))"
        using fl_key_add [of ?cap "fl_neg used" b32 False] cap fin by (simp add: fl_sub_def)
      show "\<not> fl_is_nan ?h" using cap fin by (simp add: fl_sub_def fl_add_nan_iff)
      show "fl_le (Fin 0) (fl_pack b32 False (fl_val ?cap + - fl_val used))"
        using lt fin cap by (intro fl_le_packI) (simp_all add: fl_lt_finite)
    qed
    ultimately have "fl_is_finite ?h" using cap between_finite [of "Fin 0" ?h ?cap] by simp
    with \<open>fl_le (Fin 0) ?h\<close> show ?thesis by (simp add: fl_le_finite)
  qed
  have "fl_is_finite d \<and> 0 \<le> fl_val d \<and> fl_val d \<le> fl_val raw \<and> (fl_le ?cap used \<longrightarrow> fl_val d = 0) \<and>
      (\<not> fl_le ?cap used \<longrightarrow> fl_is_finite ?h \<and> fl_val d \<le> fl_val ?h)"
  proof (cases "fl_le ?cap used")
    case True
    then show ?thesis
      using raw by (auto simp: d_def capped_delta_def fl_lt_finite)
  next
    case False
    note hh = h [OF False] raw(1,3)
    show ?thesis
    proof (cases "0 < fl_val raw \<and> fl_val ?h < fl_val raw")
      case True
      then have "d = ?h" using hh False by (simp add: d_def capped_delta_def fl_lt_finite Let_def)
      then show ?thesis using hh False True by simp
    next
      case F: False
      then have "d = raw" using hh False by (auto simp: d_def capped_delta_def fl_lt_finite Let_def)
      then show ?thesis using hh False F by auto
    qed
  qed
  note conj = this
  show "fl_is_finite d" "0 \<le> fl_val d" "fl_val d \<le> fl_val raw"
    using conj by blast+
  show "fl_le ?cap used \<Longrightarrow> fl_val d = 0"
    "\<not> fl_le ?cap used \<Longrightarrow> fl_is_finite ?h \<and> fl_val d \<le> fl_val ?h"
    using conj by blast+
qed

lemma apply_reward_eq:
  assumes "fl_le (lc_min_weight c) (lc_max_weight c)"
  shows "apply_reward w out sw used c = Some
    (let (d, capped) = capped_delta c used (raw_delta c out sw);
         after = clamp_to (lc_min_weight c) (lc_max_weight c) (fl_add b32 w d)
     in \<lparr>wu_before = w, wu_after = after, wu_applied_delta = fl_sub b32 after w, wu_capped = capped\<rparr>)"
  using assms by (simp add: apply_reward_def fl_clamp_def Let_def split: prod.split)

lemma clamp_to_ge: "fl_le x hi \<Longrightarrow> fl_le x y \<Longrightarrow> fl_le x (clamp_to lo hi y)"
  using fl_le_not_nan [of x y] fl_lt_imp_le fl_le_trans
  by (auto simp: clamp_to_def)

lemma apply_reward_range:
  assumes valid: "learning_validate c = Inr ()" and num: "config_numbers c"
    and w: "fl_is_finite w" "fl_wf b32 w" and sw: "\<not> fl_is_nan sw" and used: "fl_le (Fin 0) used"
    and run: "apply_reward w out sw used c = Some u"
  shows "fl_wf b32 (wu_after u)" "fl_le (lc_min_weight c) (wu_after u)" "fl_le (wu_after u) (lc_max_weight c)"
proof -
  note b = learning_validate_bounds [OF valid num]
  have mm: "fl_le (lc_min_weight c) (lc_max_weight c)" using b(2) by (rule fl_lt_imp_le)
  have c: "fl_is_finite (lc_influence_cap_per_peer c)" "fl_wf b32 (lc_influence_cap_per_peer c)"
    "fl_wf b32 (lc_min_weight c)" "fl_wf b32 (lc_max_weight c)"
    using num by (simp_all add: config_numbers_def)
  let ?d = "fst (capped_delta c used (raw_delta c out sw))"
  note raw = raw_delta_val [OF b(5,6) sw, of out]
  have "fl_is_finite ?d"
    using raw capped_delta_help(1) [OF raw(1,2) _ c(1,2) used]
    by (cases "0 \<le> fl_val (raw_delta c out sw)") (simp_all add: capped_delta_penalty)
  then have "\<not> fl_is_nan (fl_add b32 w ?d)" using w by (simp add: fl_add_nan_iff)
  moreover have "wu_after u = clamp_to (lc_min_weight c) (lc_max_weight c) (fl_add b32 w ?d)"
    using run by (auto simp: apply_reward_eq [OF mm] Let_def case_prod_beta)
  ultimately show "fl_wf b32 (wu_after u)" "fl_le (lc_min_weight c) (wu_after u)" "fl_le (wu_after u) (lc_max_weight c)"
    using clamp_to_bounds [OF mm] c by (simp_all add: fl_wf_clamp fl_wf_add)
qed

lemma clamp_to_upper: "fl_le lo y \<Longrightarrow> fl_le x y \<Longrightarrow> fl_le (clamp_to lo hi x) y"
  by (auto simp: clamp_to_def intro: fl_le_trans [OF fl_lt_imp_le])

lemma config_finite:
  assumes "config_numbers c"
  shows "fl_is_finite (lc_min_weight c)" "fl_is_finite (lc_max_weight c)"
    "fl_is_finite (lc_influence_cap_per_peer c)" "fl_wf b32 (lc_influence_cap_per_peer c)"
  using assms by (simp_all add: config_numbers_def)

text \<open>A step of nothing leaves a weight that is in range where it is.\<close>

lemma zero_step_stays:
  assumes valid: "learning_validate c = Inr ()" and num: "config_numbers c"
    and w: "fl_wf b32 w" "fl_le (lc_min_weight c) w" "fl_le w (lc_max_weight c)"
    and d: "fl_is_finite d" "fl_val d = 0"
  shows "clamp_to (lc_min_weight c) (lc_max_weight c) (fl_add b32 w d) = w"
proof -
  have "fl_lt (Fin 0) w"
    using learning_validate_bounds(1) [OF valid num] w(2) by (rule fl_lt_le_trans)
  moreover have "fl_is_finite w" using w(2,3) config_finite(1,2) [OF num] by (rule between_finite)
  ultimately show ?thesis using fl_add_zero [OF w(1) _ _ d] w by (simp add: clamp_to_id)
qed

lemma apply_reward_delivered:
  assumes valid: "learning_validate c = Inr ()" and num: "config_numbers c"
    and w: "fl_wf b32 w" "fl_le (lc_min_weight c) w" "fl_le w (lc_max_weight c)"
    and sw: "\<not> fl_is_nan sw" and used: "fl_le (Fin 0) used"
    and run: "apply_reward w Delivered sw used c = Some u"
  shows "fl_le w (wu_after u)"
    and "fl_le (lc_influence_cap_per_peer c) used \<Longrightarrow> wu_after u = w"
    and "\<not> fl_le (lc_influence_cap_per_peer c) used \<Longrightarrow>
      fl_le (wu_after u) (fl_add b32 w (fl_sub b32 (lc_influence_cap_per_peer c) used))"
proof -
  note b = learning_validate_bounds [OF valid num] and fin = config_finite [OF num]
  let ?raw = "raw_delta c Delivered sw"
  let ?d = "fst (capped_delta c used ?raw)"
  have wfin: "fl_is_finite w" using w(2,3) fin(1,2) by (rule between_finite)
  note raw = raw_delta_val [OF b(5,6) sw, of Delivered]
  have "0 \<le> fl_val ?raw" using raw(3) by (simp add: reward_def)
  note cd = capped_delta_help [OF raw(1,2) this fin(3,4) used]
  have after: "wu_after u = clamp_to (lc_min_weight c) (lc_max_weight c) (fl_add b32 w ?d)"
    using run b(2) by (auto simp: apply_reward_eq fl_lt_imp_le Let_def case_prod_beta)
  have ge: "fl_le w (fl_add b32 w ?d)" using w(1) wfin cd(1,2) by (rule fl_add_ge)
  then have "fl_le (lc_min_weight c) (fl_add b32 w ?d)" using w(2) fl_le_trans by blast
  then have "fl_le (wu_after u) (fl_add b32 w ?d)" unfolding after by (rule clamp_to_le)
  then show "fl_le (wu_after u) (fl_add b32 w (fl_sub b32 (lc_influence_cap_per_peer c) used))"
    if "\<not> fl_le (lc_influence_cap_per_peer c) used"
    using fl_add_mono [OF wfin cd(1)] cd(5) [OF that] fl_le_trans by blast
  show "fl_le w (wu_after u)" unfolding after using w(3) ge by (rule clamp_to_ge)
  show "wu_after u = w" if "fl_le (lc_influence_cap_per_peer c) used"
    unfolding after using zero_step_stays [OF valid num w cd(1)] cd(4) [OF that] by simp
qed

lemma apply_reward_penalty:
  assumes valid: "learning_validate c = Inr ()" and num: "config_numbers c"
    and w: "fl_wf b32 w" "fl_le (lc_min_weight c) w" "fl_le w (lc_max_weight c)"
    and sw: "\<not> fl_is_nan sw" and out: "out \<noteq> Delivered"
    and run: "apply_reward w out sw used c = Some u"
  shows "fl_le (wu_after u) w" "\<not> wu_capped u" "apply_reward w out sw used' c = Some u"
    and "out = Pending \<Longrightarrow> wu_after u = w"
proof -
  note b = learning_validate_bounds [OF valid num]
  let ?raw = "raw_delta c out sw"
  have wfin: "fl_is_finite w" using w(2,3) config_finite(1,2) [OF num] by (rule between_finite)
  note raw = raw_delta_val [OF b(5,6) sw, of out]
  have neg: "fl_val ?raw \<le> 0" using raw(4) out by (simp add: reward_def split: Outcome.splits)
  have cd: "capped_delta c used'' ?raw = (?raw, False)" for used''
    using raw(1) neg by (rule capped_delta_penalty)
  have u: "u = \<lparr>wu_before = w, wu_after = clamp_to (lc_min_weight c) (lc_max_weight c) (fl_add b32 w ?raw),
      wu_applied_delta = fl_sub b32 (clamp_to (lc_min_weight c) (lc_max_weight c) (fl_add b32 w ?raw)) w,
      wu_capped = False\<rparr>"
    using run b(2) by (simp add: apply_reward_eq fl_lt_imp_le cd Let_def)
  show "fl_le (wu_after u) w"
    using fl_add_le [OF w(1) wfin raw(1) neg] w(2) by (simp add: u clamp_to_upper)
  show "\<not> wu_capped u" by (simp add: u)
  show "apply_reward w out sw used' c = Some u"
    using run b(2) by (simp add: apply_reward_eq fl_lt_imp_le cd)
  show "wu_after u = w" if "out = Pending"
    using zero_step_stays [OF valid num w raw(1)] raw(3) neg that by (simp add: u reward_def)
qed


lemma learning_default_bounds:
  "lc_min_weight learning_default = Fin (8589935/8589934592)" "lc_max_weight learning_default = Fin 1"
  "lc_influence_cap_per_peer learning_default = Fin (13421773/67108864)"
  "lc_max_total_outbound_weight learning_default = Fin 8"
  "lc_decay_half_life_hours learning_default = Fin 168"
  by (simp_all only: learning_default_def learning_for_class_def lit_values
    DeploymentClass.case Let_def prod.case LearningConfig.simps)

lemma learning_default_valid:
  "learning_validate learning_default = Inr ()" "config_numbers learning_default"
  by (simp_all add: learning_default_def learning_for_class_valid learning_for_class_numbers)

lemma fl_wf_half [simp]: "fl_wf b32 (Fin (1/2))"
  using rnd_b32_int [of 1 "- 1"] by (simp add: fl_wf_def pow2_def b32_def)


text \<open>
  A NaN bound passes validation and then makes the weight update panic: every
  comparison of \<open>validate\<close> with a NaN is false, so \<open>min_weight = nan\<close> (which TOML can
  write) is accepted, and \<open>f32::clamp\<close> aborts on it for every weight and outcome.
\<close>

theorem nan_config_panics:
  "let c = learning_default\<lparr>lc_min_weight := FNaN\<rparr>
   in learning_validate c = Inr () \<and> apply_reward w out sw used c = None"
  using learning_for_class_valid [of DcEdge]
  by (simp add: learning_validate_ok learning_default_def apply_reward_def fl_clamp_def Let_def
      case_prod_beta learning_for_class_def lit_values)

section \<open>Penalty, decay and normalisation\<close>

lemma fl_mul_mono:
  assumes "fl_is_finite x" "fl_is_finite y" "fl_is_finite f" "0 \<le> fl_val f" "fl_val x \<le> fl_val y"
  shows "fl_le (fl_mul b32 x f) (fl_mul b32 y f)"
  using assms by (simp add: fl_mul_finite fl_pack_mono mult_right_mono)

lemma fl_max_mono:
  assumes "fl_le x y" "\<not> fl_is_nan m" shows "fl_le (fl_max x m) (fl_max y m)"
proof -
  have "\<not> fl_is_nan y" using fl_le_not_nan [OF assms(1)] by simp
  then have "fl_le x (fl_max y m)" using assms(1) fl_max_ge(2) fl_le_trans by blast
  then show ?thesis using fl_max_ge(1) [OF assms(2)] by (rule fl_max_least)
qed

lemma fl_add_nonneg:
  assumes "fl_le (Fin 0) x" "fl_le (Fin 0) y" shows "fl_le (Fin 0) (fl_add b32 x y)"
proof (cases "fl_is_finite x \<and> fl_is_finite y")
  case True
  have "fl_le (Fin 0) (fl_pack b32 False (fl_val x + fl_val y))"
    using True assms by (intro fl_le_packI) (simp_all add: fl_le_finite)
  then show ?thesis
    using True fl_key_add [of x y b32 False] fl_add_nan_iff by (auto intro: fl_le_key)
next
  case False
  then show ?thesis
    using assms by (cases x; cases y) (auto simp: fl_le_def split: if_splits)
qed

lemma fl_sum_nonneg:
  assumes "\<forall>x \<in> set xs. fl_le (Fin 0) x" shows "fl_le (Fin 0) (fl_sum xs)"
proof -
  have "fl_le (Fin 0) (foldl (fl_add b32) a xs)" if "fl_le (Fin 0) a" for a
    using assms that by (induction xs arbitrary: a) (simp_all add: fl_add_nonneg)
  moreover have "fl_le (Fin 0) FNegZero" by (simp add: fl_le_def)
  ultimately show ?thesis by (simp add: fl_sum_def)
qed

lemma fl_div_nonneg:
  assumes "fl_le (Fin 0) x" "fl_lt (Fin 0) y" "1 \<le> f_prec fm"
  shows "fl_le (Fin 0) (fl_div fm x y) \<or> fl_is_nan (fl_div fm x y)"
proof (cases "fl_is_finite x \<and> fl_is_finite y")
  case True
  then have "fl_div fm x y = fl_pack fm (fl_sign x \<noteq> fl_sign y) (fl_val x / fl_val y)"
    using assms by (intro fl_div_finite) (simp_all add: fl_lt_finite)
  moreover have "0 \<le> fl_val x / fl_val y"
    using True assms by (simp add: fl_le_finite fl_lt_finite)
  ultimately show ?thesis using assms(3) by (simp add: fl_le_packI)
next
  case False
  then show ?thesis
    using assms by (cases x; cases y) (auto simp: fl_le_def fl_lt_def split: if_splits)
qed

lemma signature_penalty_bounds:
  assumes "learning_validate c = Inr ()" "config_numbers c" "fl_wf b32 w" "fl_is_finite w" "fl_le (Fin 0) w"
  shows "fl_le (lc_min_weight c) (apply_signature_penalty w c)"
    and "fl_le (apply_signature_penalty w c) (fl_max w (lc_min_weight c))"
proof -
  note b = learning_validate_bounds [OF assms(1,2)]
  let ?f = "fl_sub b32 (Fin 1) (lc_signature_failure_penalty c)"
  have p: "fl_is_finite (lc_signature_failure_penalty c)" "0 \<le> fl_val (lc_signature_failure_penalty c)"
    "fl_val (lc_signature_failure_penalty c) \<le> 1"
    using b(7,8) in_unit_finite fl_lt_imp_le by blast+
  have "fl_key ?f = fl_key (fl_pack b32 False (1 + - fl_val (lc_signature_failure_penalty c)))"
    using fl_key_add [of "Fin 1" "fl_neg (lc_signature_failure_penalty c)" b32 False] p by (simp add: fl_sub_def)
  moreover have "fl_is_finite ?f \<and> 0 \<le> fl_val ?f \<and> fl_val ?f \<le> 1"
  proof -
    have "fl_le ?f (Fin 1)" using p by (intro fl_sub_le) auto
    moreover have "fl_le (Fin 0) ?f"
    proof (rule fl_le_key)
      show "fl_key ?f = fl_key (fl_pack b32 False (1 + - fl_val (lc_signature_failure_penalty c)))" by fact
      show "\<not> fl_is_nan ?f" using p by (simp add: fl_sub_def fl_add_nan_iff)
      show "fl_le (Fin 0) (fl_pack b32 False (1 + - fl_val (lc_signature_failure_penalty c)))"
        using p by (intro fl_le_packI) simp_all
    qed
    ultimately show ?thesis using in_unit_finite by blast
  qed
  ultimately have le: "fl_le (fl_mul b32 w ?f) w"
    using assms by (intro fl_mul_shrinks) (simp_all add: fl_le_finite)
  have m: "\<not> fl_is_nan (lc_min_weight c)" using b(1) by (auto simp: fl_lt_def)
  show "fl_le (lc_min_weight c) (apply_signature_penalty w c)"
    using m by (simp add: apply_signature_penalty_def fl_max_ge)
  show "fl_le (apply_signature_penalty w c) (fl_max w (lc_min_weight c))"
    unfolding apply_signature_penalty_def using le m by (rule fl_max_mono)
qed

lemma hour_exact: "fl_of_nat b64 (unat NANOS_PER_HOUR) = Fin 3600000000000"
proof -
  have "fl_pack b64 False 3600000000000 = Fin 3600000000000" by code_simp
  then show ?thesis by (simp add: fl_of_nat_def NANOS_PER_HOUR_def NANOS_PER_SEC_def)
qed

lemma fl_of_nat_nonneg: "1 \<le> f_prec fm \<Longrightarrow> fl_le (Fin 0) (fl_of_nat fm n)"
  by (simp add: fl_of_nat_def fl_le_packI)

lemma ns_to_hours_nonneg: "fl_le (Fin 0) (ns_to_hours ns)"
proof -
  let ?q = "fl_div b64 (fl_of_nat b64 (unat ns)) (Fin 3600000000000)"
  have "\<not> fl_is_nan ?q"
    using fl_pack_not_nan(1) by (cases "fl_of_nat b64 (unat ns)")
      (use fl_of_nat_nonneg [of b64 "unat ns"] in \<open>auto simp: fl_le_def\<close>)
  then have "fl_le (Fin 0) ?q"
    using fl_div_nonneg [of "fl_of_nat b64 (unat ns)" "Fin 3600000000000" b64] by (simp add: fl_of_nat_nonneg)
  then have "fl_le (Fin 0) (fl_cast b32 ?q)"
    by (cases ?q) (auto simp: fl_le_packI fl_le_def [of _ "FInf _"] fl_le_def [of _ FNegZero])
  then show ?thesis by (simp add: ns_to_hours_def hour_exact)
qed

lemma decayed_bounds:
  assumes valid: "learning_validate c = Inr ()" "config_numbers c"
    and w: "fl_wf b32 w" "fl_is_finite w" "fl_le (Fin 0) w"
    and exp2: "\<And>x. fl_le x (Fin 0) \<Longrightarrow> in_unit (lm_exp2 lm x)"
  shows "if now \<le> last_active then decayed_weight lm w last_active now c = w
    else fl_le (lc_min_weight c) (decayed_weight lm w last_active now c) \<and>
      fl_le (decayed_weight lm w last_active now c) (fl_max w (lc_min_weight c))"
proof (cases "now \<le> last_active")
  case True
  then show ?thesis by (simp add: decayed_weight_def)
next
  case False
  note b = learning_validate_bounds [OF valid]
  let ?e = "ns_to_hours (now - last_active)" and ?h = "lc_decay_half_life_hours c"
  have h: "fl_is_finite ?h" "fl_lt (Fin 0) ?h" using valid(2) b by (simp_all add: config_numbers_def)
  have ex: "fl_le (fl_div b32 (fl_neg ?e) ?h) (Fin 0)"
  proof (cases "fl_is_finite ?e")
    case True
    then have "fl_div b32 (fl_neg ?e) ?h = fl_pack b32 (fl_sign (fl_neg ?e) \<noteq> fl_sign ?h) (- fl_val ?e / fl_val ?h)"
      using h by (subst fl_div_finite) (simp_all add: fl_lt_finite)
    moreover have "- fl_val ?e / fl_val ?h \<le> 0"
      using True h ns_to_hours_nonneg [of "now - last_active"] by (simp add: fl_le_finite fl_lt_finite)
    ultimately show ?thesis by (simp only:) (intro fl_pack_leI, simp_all)
  next
    case False
    then have "?e = FInf False"
      using ns_to_hours_nonneg [of "now - last_active"] by (cases ?e) (auto simp: fl_le_def split: if_splits)
    then show ?thesis using h by (cases ?h) (auto simp: fl_le_def fl_lt_def)
  qed
  let ?f = "lm_exp2 lm (fl_div b32 (fl_neg ?e) ?h)"
  have "fl_is_finite ?f \<and> 0 \<le> fl_val ?f \<and> fl_val ?f \<le> 1"
    using exp2 [OF ex] by (rule in_unit_finite)
  then have le: "fl_le (fl_mul b32 w ?f) w"
    using w by (intro fl_mul_shrinks) (simp_all add: fl_le_finite)
  have m: "\<not> fl_is_nan (lc_min_weight c)" using b(1) by (auto simp: fl_lt_def)
  have "decayed_weight lm w last_active now c = fl_max (fl_mul b32 w ?f) (lc_min_weight c)"
    using False by (simp add: decayed_weight_def Let_def)
  then show ?thesis
    using False fl_max_mono [OF le m] fl_max_ge(1) [OF m] by simp
qed

text \<open>
  Decay never raises a weight above what it was (or the floor) and never lets it fall
  below the floor, and it does nothing to a synapse active at or after \<open>now\<close> (a clock that
  ran backwards decays nothing), given only that the platform's \<open>exp2\<close> maps non-positive
  arguments into the unit interval.
\<close>

theorem decayed_weight_bounds:
  assumes valid: "learning_validate c = Inr ()" "config_numbers c"
    and w: "fl_wf b32 w" "fl_is_finite w" "fl_le (Fin 0) w"
    and exp2: "\<And>x. fl_le x (Fin 0) \<Longrightarrow> in_unit (lm_exp2 lm x)"
  shows "if now \<le> last_active then decayed_weight lm w last_active now c = w
    else fl_le (lc_min_weight c) (decayed_weight lm w last_active now c) \<and>
      fl_le (decayed_weight lm w last_active now c) (fl_max w (lc_min_weight c))"
  using assms by (rule decayed_bounds)

definition sample_libm :: libm where
  "sample_libm = \<lparr>lm_exp = (\<lambda>x. Fin 1), lm_exp2 = (\<lambda>x. Fin (1/2)), lm_log2 = (\<lambda>x. Fin 1)\<rparr>"

lemma decayed_weight_bounds_witness:
  "fl_le (lc_min_weight learning_default) (decayed_weight sample_libm (Fin (1/2)) 0 5 learning_default)"
  using decayed_weight_bounds [OF learning_default_valid fl_wf_half, of sample_libm 5 0]
  by (simp add: sample_libm_def)

lemma normalize_outbound_facts:
  assumes valid: "learning_validate c = Inr ()" "config_numbers c"
    and ws: "\<forall>w \<in> set ws. fl_wf b32 w \<and> fl_is_finite w \<and> fl_le (Fin 0) w"
    and norm: "normalize_outbound ws c = Some (f, ws')"
  shows "length ws' = length ws" "in_unit f" "\<forall>w \<in> set ws'. fl_wf b32 w"
    "\<forall>i < length ws. fl_le (lc_min_weight c) (ws' ! i) \<and> fl_le (ws' ! i) (fl_max (ws ! i) (lc_min_weight c)) \<and>
      (\<forall>j < length ws. fl_le (ws ! i) (ws ! j) \<longrightarrow> fl_le (ws' ! i) (ws' ! j))"
proof -
  note b = learning_validate_bounds [OF valid]
  let ?t = "fl_sum ws" and ?B = "lc_max_total_outbound_weight c" and ?m = "lc_min_weight c"
  have B: "fl_is_finite ?B" "fl_lt (Fin 0) ?B"
    using valid(2) fl_lt_le_trans [OF b(1) fl_lt_imp_le [OF b(2)]] fl_lt_le_trans [OF _ fl_lt_imp_le [OF b(3)]]
    by (simp_all add: config_numbers_def)
  have m: "\<not> fl_is_nan ?m" using b(1) by (auto simp: fl_lt_def)
  have nt: "fl_le (Fin 0) ?t" using ws by (intro fl_sum_nonneg) auto
  have f: "f = fl_div b32 ?B ?t" "ws' = map (\<lambda>w. fl_max (fl_mul b32 w f) ?m) ws"
    and over: "\<not> fl_le ?t ?B" "\<not> fl_le ?t (Fin 0)"
    using norm by (auto simp: normalize_outbound_def Let_def split: if_splits)
  have lt: "fl_lt ?B ?t"
    using over(1) fl_le_not_nan [OF nt] B(1) by (simp add: fl_not_le finite_not_nan)
  have fu: "in_unit f"
  proof (cases "fl_is_finite ?t")
    case True
    have q: "0 \<le> fl_val ?B / fl_val ?t" "fl_val ?B / fl_val ?t \<le> 1" "fl_val ?t \<noteq> 0"
      using True B lt nt by (auto simp: fl_lt_finite fl_le_finite)
    then have "f = fl_pack b32 (fl_sign ?B \<noteq> fl_sign ?t) (fl_val ?B / fl_val ?t)"
      unfolding f(1) using True B by (intro fl_div_finite)
    then show ?thesis using q by (simp add: fl_le_packI fl_pack_leI)
  next
    case False
    then have "?t = FInf False" using nt by (cases ?t) (auto simp: fl_le_def split: if_splits)
    then show ?thesis unfolding f(1) using B by (cases ?B) (auto simp: fl_le_def fl_lt_def)
  qed
  note ff = in_unit_finite [OF fu]
  have shrink: "fl_le (fl_mul b32 w f) w" if "w \<in> set ws" for w
    using ws that ff by (intro fl_mul_shrinks) (auto simp: fl_le_finite)
  have order: "fl_le (fl_mul b32 v f) (fl_mul b32 w f)" if "v \<in> set ws" "w \<in> set ws" "fl_le v w" for v w
    using ws that ff by (intro fl_mul_mono) (auto simp: fl_le_finite)
  show "in_unit f" by (rule fu)
  show "length ws' = length ws" by (simp add: f(2))
  show "\<forall>w \<in> set ws'. fl_wf b32 w"
    using valid(2) by (auto simp: f(2) config_numbers_def fl_wf_max fl_wf_mul)
  show "\<forall>i < length ws. fl_le ?m (ws' ! i) \<and> fl_le (ws' ! i) (fl_max (ws ! i) ?m) \<and>
      (\<forall>j < length ws. fl_le (ws ! i) (ws ! j) \<longrightarrow> fl_le (ws' ! i) (ws' ! j))"
    using fl_max_mono [OF shrink m] fl_max_mono [OF order m] fl_max_ge(1) [OF m] by (simp add: f(2))
qed

text \<open>
  Divisive normalisation rescales without reordering. When it acts, the factor is at
  most 1, every weight ends at or above the floor and no higher than it was (or the
  floor), and a synapse that was no heavier than another is still no heavier, so the
  ranking the scores rely on survives.
\<close>

theorem normalize_outbound_sound:
  assumes valid: "learning_validate c = Inr ()" "config_numbers c"
    and ws: "\<forall>w \<in> set ws. fl_wf b32 w \<and> fl_is_finite w \<and> fl_le (Fin 0) w"
    and norm: "normalize_outbound ws c = Some (f, ws')"
  shows "length ws' = length ws \<and> in_unit f \<and>
    (\<forall>i < length ws. fl_le (lc_min_weight c) (ws' ! i) \<and> fl_le (ws' ! i) (fl_max (ws ! i) (lc_min_weight c)) \<and>
      (\<forall>j < length ws. fl_le (ws ! i) (ws ! j) \<longrightarrow> fl_le (ws' ! i) (ws' ! j)))"
  using normalize_outbound_facts [OF assms] by blast

definition tight_config :: LearningConfig where
  "tight_config = learning_default\<lparr>lc_min_weight := Fin (1/2), lc_max_total_outbound_weight := Fin (3/2)\<rparr>"

lemma normalize_outbound_sound_witness:
  "\<exists>f ws'. normalize_outbound [Fin 1, Fin 1, Fin (1/2)] (learning_default\<lparr>lc_max_total_outbound_weight := Fin (3/2)\<rparr>)
     = Some (f, ws') \<and> in_unit f"
proof -
  let ?c = "learning_default\<lparr>lc_max_total_outbound_weight := Fin (3/2)\<rparr>"
  have wf: "fl_wf b32 (Fin (3/2))"
    using rnd_b32_int [of 3 "- 1"] by (simp add: fl_wf_def pow2_def b32_def)
  have v: "learning_validate ?c = Inr ()" "config_numbers ?c"
    using learning_default_valid wf by (simp_all add: learning_validate_ok config_numbers_def learning_default_bounds)
  have "fl_sum [Fin 1, Fin 1, Fin (1/2)] = Fin (5/2)" by code_simp
  then obtain f ws' where n: "normalize_outbound [Fin 1, Fin 1, Fin (1/2)] ?c = Some (f, ws')"
    by (simp add: normalize_outbound_def Let_def)
  with normalize_outbound_sound [OF v _ n] show ?thesis by auto
qed

text \<open>
  The budget is not a bound. With a valid configuration (floor 1/2, budget 3/2) four
  synapses at the floor total 2 before normalisation and 2 after it: the clamp to
  \<open>min_weight\<close> undoes the rescaling, although the factor reported says it was applied.
\<close>

theorem normalize_outbound_exceeds_budget:
  "learning_validate tight_config = Inr () \<and>
   (let ws = replicate 4 (Fin (1/2)) in
     fl_sum ws = Fin 2 \<and> normalize_outbound ws tight_config = Some (Fin (3/4), ws) \<and>
     fl_lt (lc_max_total_outbound_weight tight_config) (fl_sum ws))"
proof -
  have "learning_validate tight_config = Inr ()"
    using learning_default_valid(1)
    by (simp add: tight_config_def learning_validate_ok learning_default_bounds)
  moreover have "fl_sum [Fin (1/2), Fin (1/2), Fin (1/2), Fin (1/2)] = Fin 2"
    "fl_div b32 (Fin (3/2)) (Fin 2) = Fin (3/4)" "fl_mul b32 (Fin (1/2)) (Fin (3/4)) = Fin (3/8)"
    by code_simp+
  ultimately show ?thesis
    by (simp add: normalize_outbound_def tight_config_def fl_max_def numeral_eq_Suc Let_def)
qed

end
