(* ===== verification/Activation.thy ===== *)
theory Activation
  imports Learning Signal
begin

text \<open>
  The activation gate (\<open>runtime/ntl-core/src/activation.rs\<close>): a bounded queue in front of a
  threshold that rises with load, a refractory period, a latency guard and batched firing
  in weight order. Queue lengths are naturals; counters are 64-bit words that wrap.
\<close>

section \<open>Configuration\<close>

datatype ActivationFunction = StepFn | Sigmoid | Leaky
datatype NodeClass = NcEdge | Standard | Server | Infrastructure
datatype OverflowPolicy = DropLowestWeight | DropNewest | DropOldest

record ActivationConfig =
  ac_node_class :: NodeClass
  ac_base_threshold :: flt
  ac_activation_function :: ActivationFunction
  ac_refractory_period_ms :: u64
  ac_max_potential :: flt
  ac_dynamic_threshold :: bool
  ac_fire_batch_size :: nat
  ac_max_queue_depth :: nat
  ac_overflow_policy :: OverflowPolicy
  ac_leak_rate :: flt
  ac_max_queue_latency_ms :: u64

definition activation_for_class :: "NodeClass \<Rightarrow> ActivationConfig" where
  "activation_for_class cls =
    (let (refractory_ms, batch, depth, max_potential, latency_guard_ms) = (case cls of
        NcEdge \<Rightarrow> (10, 8, 256, lit 10, 1000)
      | Standard \<Rightarrow> (1, 16, 1024, lit 10, 500)
      | Server \<Rightarrow> (0, 64, 8192, lit 50, 250)
      | Infrastructure \<Rightarrow> (0, 128, 32768, lit 100, 100))
     in \<lparr>ac_node_class = cls, ac_base_threshold = lit 0.5, ac_activation_function = StepFn,
         ac_refractory_period_ms = refractory_ms, ac_max_potential = max_potential,
         ac_dynamic_threshold = True, ac_fire_batch_size = batch, ac_max_queue_depth = depth,
         ac_overflow_policy = DropLowestWeight, ac_leak_rate = lit 0.01,
         ac_max_queue_latency_ms = latency_guard_ms\<rparr>)"

definition activation_default :: ActivationConfig where
  "activation_default = activation_for_class NcEdge"

definition activation_validate :: "ActivationConfig \<Rightarrow> activation_fault + unit" where
  "activation_validate c =
    (if ac_fire_batch_size c = 0 then Inl BatchZero
     else if ac_max_queue_depth c = 0 then Inl DepthZero
     else if fl_le (ac_base_threshold c) (Fin 0) then Inl (ThresholdNotPositive (ac_base_threshold c))
     else if fl_lt (ac_max_potential c) (ac_base_threshold c)
       then Inl (PotentialBelowThreshold (ac_max_potential c) (ac_base_threshold c))
     else if \<not> (fl_le (Fin 0) (ac_leak_rate c) \<and> fl_le (ac_leak_rate c) (Fin 1)) then Inl (LeakRange (ac_leak_rate c))
     else if 0 < ac_max_queue_latency_ms c \<and> ac_max_queue_latency_ms c < ac_refractory_period_ms c
       then Inl (LatencyBelowRefractory (ac_max_queue_latency_ms c) (ac_refractory_period_ms c))
     else Inr ())"

section \<open>The gate\<close>

record QueuedSignal =
  qs_id :: SignalId
  qs_origin :: NodeId
  qs_weight :: flt
  qs_delivery :: DeliveryClass
  qs_enqueued_at_ns :: u64

record AdmitOutcome =
  ao_fired :: "QueuedSignal list"
  ao_dropped :: "QueuedSignal option"
  ao_drop_reason :: "RejectReason option"

definition did_fire :: "AdmitOutcome \<Rightarrow> bool" where
  "did_fire a \<longleftrightarrow> ao_fired a \<noteq> []"

definition admit_needs_receipt :: "AdmitOutcome \<Rightarrow> bool" where
  "admit_needs_receipt a \<longleftrightarrow> (case ao_dropped a of None \<Rightarrow> False | Some d \<Rightarrow> class_requires_receipt (qs_delivery d))"

record ActivationState =
  as_potential :: flt
  as_threshold :: flt
  as_base_threshold :: flt
  as_refractory_until_ns :: u64
  as_refractory_period_ns :: u64
  as_function :: ActivationFunction
  as_max_potential :: flt
  as_dynamic :: bool
  as_fire_batch_size :: nat
  as_max_queue_depth :: nat
  as_overflow_policy :: OverflowPolicy
  as_leak_rate :: flt
  as_max_queue_latency_ns :: u64
  as_queue :: "QueuedSignal list"
  as_signals_fired :: u64
  as_signals_dropped :: u64
  as_overflow_events :: u64

record ActivationSnapshot =
  sn_potential :: flt
  sn_threshold :: flt
  sn_refractory_until_ns :: u64
  sn_signals_fired :: u64
  sn_taken_at_ns :: u64

definition gate_new :: "ActivationConfig \<Rightarrow> ActivationState" where
  "gate_new c = \<lparr>as_potential = Fin 0, as_threshold = ac_base_threshold c,
     as_base_threshold = ac_base_threshold c, as_refractory_until_ns = 0,
     as_refractory_period_ns = sat_mul (ac_refractory_period_ms c) 1000000,
     as_function = ac_activation_function c, as_max_potential = ac_max_potential c,
     as_dynamic = ac_dynamic_threshold c, as_fire_batch_size = max (ac_fire_batch_size c) 1,
     as_max_queue_depth = max (ac_max_queue_depth c) 1, as_overflow_policy = ac_overflow_policy c,
     as_leak_rate = ac_leak_rate c,
     as_max_queue_latency_ns = sat_mul (ac_max_queue_latency_ms c) 1000000, as_queue = [],
     as_signals_fired = 0, as_signals_dropped = 0, as_overflow_events = 0\<rparr>"

text \<open>\<open>restore\<close> panics (\<open>None\<close>) when \<open>max_potential\<close> is below 0 or NaN.\<close>

definition restore :: "ActivationState \<Rightarrow> ActivationSnapshot \<Rightarrow> ActivationState option" where
  "restore g sn = map_option (\<lambda>p. g\<lparr>as_potential := p, as_threshold := sn_threshold sn,
     as_refractory_until_ns := sn_refractory_until_ns sn, as_signals_fired := sn_signals_fired sn\<rparr>)
     (fl_clamp (Fin 0) (as_max_potential g) (sn_potential sn))"

definition snapshot :: "ActivationState \<Rightarrow> u64 \<Rightarrow> ActivationSnapshot" where
  "snapshot g now = \<lparr>sn_potential = as_potential g, sn_threshold = as_threshold g,
     sn_refractory_until_ns = as_refractory_until_ns g, sn_signals_fired = as_signals_fired g,
     sn_taken_at_ns = now\<rparr>"

text \<open>\<open>Iterator::min_by\<close>: the first of the least elements, with its index.\<close>

fun min_index_loop :: "('a \<Rightarrow> 'a \<Rightarrow> ordering) \<Rightarrow> nat \<times> 'a \<Rightarrow> nat \<Rightarrow> 'a list \<Rightarrow> nat \<times> 'a" where
  "min_index_loop cmp best i [] = best"
| "min_index_loop cmp best i (x # xs) =
     min_index_loop cmp (if cmp (snd best) x = Greater then (i, x) else best) (i + 1) xs"

definition min_index_by :: "('a \<Rightarrow> 'a \<Rightarrow> ordering) \<Rightarrow> 'a list \<Rightarrow> (nat \<times> 'a) option" where
  "min_index_by cmp xs = (case xs of [] \<Rightarrow> None | x # ys \<Rightarrow> Some (min_index_loop cmp (0, x) 1 ys))"

definition remove_at :: "nat \<Rightarrow> 'a list \<Rightarrow> 'a list" where
  "remove_at i xs = take i xs @ drop (i + 1) xs"

definition age_cmp :: "QueuedSignal \<Rightarrow> QueuedSignal \<Rightarrow> ordering" where
  "age_cmp a b = cmp_of (qs_enqueued_at_ns a, qs_id a) (qs_enqueued_at_ns b, qs_id b)"

text \<open>What the overflow policy drops from a full queue, and the queue that is left.\<close>

definition overflow_drop :: "OverflowPolicy \<Rightarrow> QueuedSignal list \<Rightarrow> QueuedSignal \<Rightarrow> QueuedSignal \<times> QueuedSignal list" where
  "overflow_drop policy queue sig = (case policy of
     DropNewest \<Rightarrow> (sig, queue)
   | DropOldest \<Rightarrow> (case min_index_by age_cmp queue of
       Some (i, old) \<Rightarrow> (queue ! i, remove_at i queue @ [sig])
     | None \<Rightarrow> (sig, queue))
   | DropLowestWeight \<Rightarrow> (case min_index_by (\<lambda>a b. fl_cmp (qs_weight a) (qs_weight b)) queue of
       Some (i, weak) \<Rightarrow> (if fl_lt (qs_weight weak) (qs_weight sig)
         then (queue ! i, remove_at i queue @ [sig]) else (sig, queue))
     | None \<Rightarrow> (sig, queue)))"

definition enqueue :: "ActivationState \<Rightarrow> QueuedSignal \<Rightarrow> (QueuedSignal option \<times> RejectReason option) \<times> ActivationState" where
  "enqueue g sig =
    (if length (as_queue g) < as_max_queue_depth g
     then ((None, None), g\<lparr>as_queue := as_queue g @ [sig]\<rparr>)
     else let (dropped, queue) = overflow_drop (as_overflow_policy g) (as_queue g) sig
          in ((Some dropped, Some QueueFull),
              g\<lparr>as_overflow_events := as_overflow_events g + 1, as_signals_dropped := as_signals_dropped g + 1,
                as_queue := queue\<rparr>))"

definition fire_cmp :: "QueuedSignal \<Rightarrow> QueuedSignal \<Rightarrow> ordering" where
  "fire_cmp a b = then_with (fl_cmp (qs_weight b) (qs_weight a)) (cmp_of (qs_id a) (qs_id b))"

definition fire :: "ActivationState \<Rightarrow> u64 \<Rightarrow> QueuedSignal list \<times> ActivationState" where
  "fire g now =
    (let sorted = sort_by fire_cmp (as_queue g);
         n = min (as_fire_batch_size g) (length sorted);
         batch = take n sorted
     in (batch, g\<lparr>as_queue := drop n sorted, as_potential := Fin 0,
          as_refractory_until_ns := sat_add now (as_refractory_period_ns g),
          as_signals_fired := as_signals_fired g + of_nat (length batch)\<rparr>))"

definition load_factor :: "ActivationState \<Rightarrow> flt" where
  "load_factor g = clamp01 (fl_div b32 (fl_of_nat b32 (length (as_queue g))) (fl_of_nat b32 (as_max_queue_depth g)))"

definition recompute_threshold :: "ActivationState \<Rightarrow> ActivationState" where
  "recompute_threshold g = g\<lparr>as_threshold := fl_mul b32 (as_base_threshold g) (fl_add b32 (Fin 1) (load_factor g))\<rparr>"

definition is_starving :: "ActivationState \<Rightarrow> u64 \<Rightarrow> bool" where
  "is_starving g now =
    (if as_max_queue_latency_ns g = 0 then False
     else list_ex (\<lambda>s. as_max_queue_latency_ns g \<le> sat_sub now (qs_enqueued_at_ns s)) (as_queue g))"

definition in_refractory :: "ActivationState \<Rightarrow> u64 \<Rightarrow> bool" where
  "in_refractory g now \<longleftrightarrow> now < as_refractory_until_ns g"

definition evaluate :: "libm \<Rightarrow> ActivationState \<Rightarrow> 's rng \<Rightarrow> 's \<Rightarrow> bool \<times> 's" where
  "evaluate lm g nx s =
    (if as_queue g = [] then (False, s)
     else case as_function g of
       StepFn \<Rightarrow> (fl_le (as_threshold g) (as_potential g), s)
     | Sigmoid \<Rightarrow>
         (let p = fl_div b32 (Fin 1) (fl_add b32 (Fin 1)
                (lm_exp lm (fl_mul b32 (Fin (- 10)) (fl_sub b32 (as_potential g) (as_threshold g)))));
              (u, s') = next_f32 nx s
          in (fl_lt u p, s'))
     | Leaky \<Rightarrow>
         (if fl_le (as_threshold g) (as_potential g) then (True, s)
          else let (u, s') = next_f32 nx s in (fl_lt u (as_leak_rate g), s')))"

definition admit ::
  "libm \<Rightarrow> ActivationState \<Rightarrow> QueuedSignal \<Rightarrow> flt \<Rightarrow> u64 \<Rightarrow> 's rng \<Rightarrow> 's \<Rightarrow> AdmitOutcome \<times> ActivationState \<times> 's" where
  "admit lm g sig synapse_weight now nx s =
    (let contribution = fl_mul b32 (qs_weight sig) synapse_weight;
         g1 = g\<lparr>as_potential := fl_min (fl_add b32 (as_potential g) contribution) (as_max_potential g)\<rparr>;
         ((dropped, why), g2) = enqueue g1 sig;
         g3 = (if as_dynamic g2 then recompute_threshold g2 else g2);
         (fired, g4, s') =
           (if in_refractory g3 now then ([], g3, s)
            else let (go, s1) = evaluate lm g3 nx s
                 in if go \<or> is_starving g3 now then (let (batch, g5) = fire g3 now in (batch, g5, s1))
                    else ([], g3, s1))
     in (\<lparr>ao_fired = fired, ao_dropped = dropped, ao_drop_reason = why\<rparr>, g4, s'))"

definition adjust_for_load :: "ActivationState \<Rightarrow> flt \<Rightarrow> ActivationState" where
  "adjust_for_load g load =
    (if as_dynamic g then g\<lparr>as_threshold := fl_mul b32 (as_base_threshold g) (fl_add b32 (Fin 1) (clamp01 load))\<rparr> else g)"

definition drain_if_starving :: "ActivationState \<Rightarrow> u64 \<Rightarrow> QueuedSignal list \<times> ActivationState" where
  "drain_if_starving g now = (if in_refractory g now \<or> \<not> is_starving g now then ([], g) else fire g now)"

definition drain_batch :: "ActivationState \<Rightarrow> u64 \<Rightarrow> QueuedSignal list \<times> ActivationState" where
  "drain_batch g now = (if as_queue g = [] then ([], g) else fire g now)"

definition gate_reset :: "ActivationState \<Rightarrow> ActivationState" where
  "gate_reset g = g\<lparr>as_potential := Fin 0, as_threshold := as_base_threshold g, as_refractory_until_ns := 0,
     as_queue := [], as_signals_fired := 0, as_signals_dropped := 0, as_overflow_events := 0\<rparr>"

section \<open>The queue\<close>

lemma min_index_loop_in:
  assumes "i = length done_part" "fst best < i" "(done_part @ xs) ! fst best = snd best"
  shows "fst (min_index_loop cmp best i xs) < length (done_part @ xs) \<and>
    (done_part @ xs) ! fst (min_index_loop cmp best i xs) = snd (min_index_loop cmp best i xs)"
  using assms
proof (induction cmp best i xs arbitrary: done_part rule: min_index_loop.induct)
  case (1 cmp best i)
  then show ?case by simp
next
  case (2 cmp best i x xs)
  have "i = length done_part" by fact
  then have "(done_part @ x # xs) ! i = x" by simp
  then show ?case
    using 2(1) [of "done_part @ [x]"] 2(2-4) by (auto simp: nth_append)
qed

lemma min_index_by_Some:
  assumes "min_index_by cmp xs = Some (i, x)" shows "i < length xs" "xs ! i = x"
proof -
  obtain y ys where xs: "xs = y # ys" using assms by (cases xs) (auto simp: min_index_by_def)
  then have "min_index_loop cmp (0, y) 1 ys = (i, x)" using assms by (simp add: min_index_by_def)
  with min_index_loop_in [of 1 "[y]" "(0, y)" ys cmp] xs show "i < length xs" "xs ! i = x" by simp_all
qed

lemma min_index_by_None: "min_index_by cmp xs = None \<longleftrightarrow> xs = []"
  by (cases xs) (simp_all add: min_index_by_def)

text \<open>Under a comparator the chosen element is least.\<close>

context comparator
begin

lemma refl_cmp: "carrier x \<Longrightarrow> cmp x x \<noteq> Greater"
  using total by blast

lemma min_index_loop_least:
  assumes "\<forall>x \<in> set (done_part @ xs). carrier x" "carrier (snd best)"
    "\<forall>y \<in> set done_part. cmp (snd best) y \<noteq> Greater" "y \<in> set (done_part @ xs)"
  shows "cmp (snd (min_index_loop cmp best i xs)) y \<noteq> Greater"
  using assms
proof (induction xs arbitrary: best i done_part)
  case (Cons x xs)
  define best' where "best' = (if cmp (snd best) x = Greater then (i, x) else best)"
  have cx: "carrier x" using Cons.prems(1) by simp
  have "cmp (snd best') z \<noteq> Greater" if "z \<in> set (done_part @ [x])" for z
  proof (cases "cmp (snd best) x = Greater")
    case True
    then have "cmp x (snd best) \<noteq> Greater" using total Cons.prems(2) cx by blast
    then have "cmp x z \<noteq> Greater" if "z \<in> set done_part" for z
      using trans [of x "snd best" z] that Cons.prems(1-3) cx by auto
    then show ?thesis using that True refl_cmp [OF cx] by (auto simp: best'_def)
  next
    case False
    then show ?thesis using that Cons.prems(3) by (auto simp: best'_def)
  qed
  moreover have "carrier (snd best')" using Cons.prems(2) cx by (simp add: best'_def)
  ultimately show ?case
    using Cons.IH [of "done_part @ [x]" best' "i + 1"] Cons.prems(1,4) by (simp add: best'_def)
qed simp

lemma min_index_least:
  assumes "\<forall>x \<in> set xs. carrier x" "min_index_by cmp xs = Some (i, x)" "y \<in> set xs"
  shows "cmp x y \<noteq> Greater"
proof -
  obtain z zs where xs: "xs = z # zs" using assms(3) by (cases xs) auto
  then have "min_index_loop cmp (0, z) 1 zs = (i, x)" using assms(2) by (simp add: min_index_by_def)
  with min_index_loop_least [of "[z]" zs "(0, z)" y 1] assms xs refl_cmp show ?thesis by simp
qed

end

interpretation age_order: comparator "\<lambda>_. True" age_cmp
  by unfold_locales (auto simp: age_cmp_def)

interpretation weight_order: comparator "\<lambda>q. \<not> fl_is_nan (qs_weight q)" "\<lambda>a b. fl_cmp (qs_weight a) (qs_weight b)"
  by unfold_locales (auto dest: fl_cmp_total simp: fl_cmp_neq_Greater intro: fl_le_trans)

interpretation fire_order: comparator "\<lambda>q. \<not> fl_is_nan (qs_weight q)" fire_cmp
proof
  have iff: "fire_cmp a b \<noteq> Greater \<longleftrightarrow>
      fl_lt (qs_weight b) (qs_weight a) \<or> fl_le (qs_weight b) (qs_weight a) \<and> qs_id a \<le> qs_id b"
    if "\<not> fl_is_nan (qs_weight a)" "\<not> fl_is_nan (qs_weight b)" for a b
    using that fl_not_lt [of "qs_weight a" "qs_weight b"] fl_lt_not_le [of "qs_weight a" "qs_weight b"]
    by (auto simp: fire_cmp_def then_with_def fl_cmp_def)
  fix x y z :: QueuedSignal
  assume n: "\<not> fl_is_nan (qs_weight x)" "\<not> fl_is_nan (qs_weight y)"
  show "fire_cmp x y = Greater \<Longrightarrow> fire_cmp y x \<noteq> Greater"
    by (auto simp: fire_cmp_def then_with_def fl_cmp_def split: if_splits dest: fl_lt_not_le fl_lt_imp_le)
  assume z: "\<not> fl_is_nan (qs_weight z)"
  show "fire_cmp x y \<noteq> Greater \<Longrightarrow> fire_cmp y z \<noteq> Greater \<Longrightarrow> fire_cmp x z \<noteq> Greater"
    using n z by (auto simp: iff intro: fl_le_lt_trans fl_lt_le_trans fl_le_trans fl_lt_imp_le)
qed

lemma fire_cmp_weight: "\<not> fl_is_nan (qs_weight a) \<Longrightarrow> \<not> fl_is_nan (qs_weight b) \<Longrightarrow>
    fire_cmp a b \<noteq> Greater \<Longrightarrow> fl_le (qs_weight b) (qs_weight a)"
  using fl_cmp_neq_Greater [of "qs_weight a" "qs_weight b"] fl_lt_imp_le [of "qs_weight b" "qs_weight a"]
    fl_not_lt [of "qs_weight a" "qs_weight b"]
  by (auto simp: fire_cmp_def then_with_def fl_cmp_def split: if_splits)

section \<open>Conservation\<close>

lemma mset_remove_at: "i < length xs \<Longrightarrow> add_mset (xs ! i) (mset (remove_at i xs)) = mset xs"
  by (metis (no_types, lifting) Cons_nth_drop_Suc Suc_eq_plus1 append_take_drop_id mset.simps(2) mset_append
      remove_at_def union_mset_add_mset_right)

lemma length_remove_at: "i < length xs \<Longrightarrow> length (remove_at i xs) = length xs - 1"
  by (simp add: remove_at_def)

abbreviation opt_mset :: "'a option \<Rightarrow> 'a multiset" where
  "opt_mset x \<equiv> (case x of None \<Rightarrow> {#} | Some y \<Rightarrow> {#y#})"

lemma evict_conserves:
  "min_index_by cmp q = Some (i, x) \<Longrightarrow> add_mset (q ! i) (mset (remove_at i q)) = mset q"
  by (rule mset_remove_at [OF min_index_by_Some(1)])

lemma overflow_conserves:
  "add_mset (fst (overflow_drop p q sig)) (mset (snd (overflow_drop p q sig))) = add_mset sig (mset q)"
  using evict_conserves by (auto simp: overflow_drop_def split: OverflowPolicy.split option.split)

lemma overflow_length: "length (snd (overflow_drop p q sig)) = length q"
  using arg_cong [OF overflow_conserves [of p q sig], of size] by simp

lemma enqueue_conserves:
  "mset (as_queue (snd (enqueue g sig))) + opt_mset (fst (fst (enqueue g sig))) = add_mset sig (mset (as_queue g))"
  using overflow_conserves [of "as_overflow_policy g" "as_queue g" sig] by (simp add: enqueue_def case_prod_beta)

lemma enqueue_length:
  "length (as_queue (snd (enqueue g sig))) =
     (if length (as_queue g) < as_max_queue_depth g then length (as_queue g) + 1 else length (as_queue g))"
  by (simp add: enqueue_def case_prod_beta overflow_length)

lemma enqueue_reason:
  "snd (fst (enqueue g sig)) = (case fst (fst (enqueue g sig)) of None \<Rightarrow> None | Some _ \<Rightarrow> Some QueueFull)"
  by (simp add: enqueue_def Let_def case_prod_beta)

lemma enqueue_frame [frame_facts, simp]:
  "as_max_queue_depth (snd (enqueue g sig)) = as_max_queue_depth g"
  "as_fire_batch_size (snd (enqueue g sig)) = as_fire_batch_size g"
  "as_refractory_until_ns (snd (enqueue g sig)) = as_refractory_until_ns g"
  "as_refractory_period_ns (snd (enqueue g sig)) = as_refractory_period_ns g"
  "as_max_queue_latency_ns (snd (enqueue g sig)) = as_max_queue_latency_ns g"
  "as_potential (snd (enqueue g sig)) = as_potential g" "as_dynamic (snd (enqueue g sig)) = as_dynamic g"
  "as_base_threshold (snd (enqueue g sig)) = as_base_threshold g"
  "as_max_potential (snd (enqueue g sig)) = as_max_potential g"
  by (simp_all add: enqueue_def Let_def case_prod_beta)

lemma recompute_frame [frame_facts, simp]:
  "as_queue (recompute_threshold g) = as_queue g" "as_max_queue_depth (recompute_threshold g) = as_max_queue_depth g"
  "as_fire_batch_size (recompute_threshold g) = as_fire_batch_size g"
  "as_refractory_until_ns (recompute_threshold g) = as_refractory_until_ns g"
  "as_refractory_period_ns (recompute_threshold g) = as_refractory_period_ns g"
  "as_max_queue_latency_ns (recompute_threshold g) = as_max_queue_latency_ns g"
  "as_max_potential (recompute_threshold g) = as_max_potential g"
  "as_potential (recompute_threshold g) = as_potential g"
  by (simp_all add: recompute_threshold_def)

lemma fire_conserves: "mset (fst (fire g now)) + mset (as_queue (snd (fire g now))) = mset (as_queue g)"
  by (simp add: fire_def Let_def flip: mset_append)

lemma fire_lengths:
  "length (fst (fire g now)) = min (as_fire_batch_size g) (length (as_queue g))"
  "length (as_queue (snd (fire g now))) = length (as_queue g) - as_fire_batch_size g"
  by (auto simp: fire_def Let_def)

lemma fire_frame [frame_facts, simp]:
  "as_max_queue_depth (snd (fire g now)) = as_max_queue_depth g"
  "as_fire_batch_size (snd (fire g now)) = as_fire_batch_size g"
  "as_refractory_period_ns (snd (fire g now)) = as_refractory_period_ns g"
  "as_max_queue_latency_ns (snd (fire g now)) = as_max_queue_latency_ns g"
  "as_refractory_until_ns (snd (fire g now)) = sat_add now (as_refractory_period_ns g)"
  "as_max_potential (snd (fire g now)) = as_max_potential g"
  "as_potential (snd (fire g now)) = Fin 0"
  by (simp_all add: fire_def Let_def)

text \<open>\<open>admit\<close> up to the firing decision: the gate after the enqueue and the threshold.\<close>

definition admitted :: "ActivationState \<Rightarrow> QueuedSignal \<Rightarrow> flt \<Rightarrow> ActivationState" where
  "admitted g sig w =
    (let g2 = snd (enqueue (g\<lparr>as_potential := fl_min (fl_add b32 (as_potential g) (fl_mul b32 (qs_weight sig) w))
                (as_max_potential g)\<rparr>) sig)
     in if as_dynamic g2 then recompute_threshold g2 else g2)"

lemma enqueue_potential: "fst (enqueue (g\<lparr>as_potential := p\<rparr>) sig) = fst (enqueue g sig)"
  by (simp add: enqueue_def Let_def case_prod_beta)

lemma enqueue_potential_queue: "as_queue (snd (enqueue (g\<lparr>as_potential := p\<rparr>) sig)) = as_queue (snd (enqueue g sig))"
  by (simp add: enqueue_def Let_def case_prod_beta)

lemma admitted_frame [frame_facts, simp]:
  "as_queue (admitted g sig w) = as_queue (snd (enqueue g sig))"
  "as_max_queue_depth (admitted g sig w) = as_max_queue_depth g"
  "as_fire_batch_size (admitted g sig w) = as_fire_batch_size g"
  "as_refractory_until_ns (admitted g sig w) = as_refractory_until_ns g"
  "as_refractory_period_ns (admitted g sig w) = as_refractory_period_ns g"
  "as_max_queue_latency_ns (admitted g sig w) = as_max_queue_latency_ns g"
  "as_max_potential (admitted g sig w) = as_max_potential g"
  by (simp_all add: admitted_def Let_def enqueue_potential_queue)

lemma admit_cases:
  assumes "admit lm g sig w now nx s = (a, g', s')"
  shows "ao_dropped a = fst (fst (enqueue g sig)) \<and> ao_drop_reason a = snd (fst (enqueue g sig)) \<and>
    (if \<not> in_refractory g now \<and> (fst (evaluate lm (admitted g sig w) nx s) \<or> is_starving (admitted g sig w) now)
     then (ao_fired a, g') = fire (admitted g sig w) now
     else ao_fired a = [] \<and> g' = admitted g sig w)"
  using assms enqueue_potential
  by (auto simp: admit_def admitted_def Let_def case_prod_beta in_refractory_def split: if_splits)

section \<open>Runs of the gate\<close>

text \<open>Arrivals and maintenance, in any order, and what a run of them fires and drops.\<close>

datatype gate_event = Offer QueuedSignal flt u64 | Poll u64 | Drain u64 | Load flt

fun gate_event_step :: "libm \<Rightarrow> 's rng \<Rightarrow> gate_event \<Rightarrow> ActivationState \<Rightarrow> 's \<Rightarrow>
    QueuedSignal list \<times> QueuedSignal list \<times> ActivationState \<times> 's" where
  "gate_event_step lm nx (Offer sig w now) g s =
     (let (a, g', s') = admit lm g sig w now nx s
      in (ao_fired a, (case ao_dropped a of None \<Rightarrow> [] | Some d \<Rightarrow> [d]), g', s'))"
| "gate_event_step lm nx (Poll now) g s = (let (b, g') = drain_if_starving g now in (b, [], g', s))"
| "gate_event_step lm nx (Drain now) g s = (let (b, g') = drain_batch g now in (b, [], g', s))"
| "gate_event_step lm nx (Load l) g s = ([], [], adjust_for_load g l, s)"

fun gate_run :: "libm \<Rightarrow> 's rng \<Rightarrow> gate_event list \<Rightarrow> ActivationState \<Rightarrow> 's \<Rightarrow>
    QueuedSignal list \<times> QueuedSignal list \<times> ActivationState \<times> 's" where
  "gate_run lm nx [] g s = ([], [], g, s)"
| "gate_run lm nx (e # es) g s =
     (let (f, d, g1, s1) = gate_event_step lm nx e g s; (fs, ds, g2, s2) = gate_run lm nx es g1 s1
      in (f @ fs, d @ ds, g2, s2))"

fun offered :: "gate_event list \<Rightarrow> QueuedSignal list" where
  "offered [] = []"
| "offered (Offer sig w now # es) = sig # offered es"
| "offered (_ # es) = offered es"

lemma drain_cases:
  "drain_if_starving g now = (if \<not> in_refractory g now \<and> is_starving g now then fire g now else ([], g))"
  "drain_batch g now = (if as_queue g = [] then ([], g) else fire g now)"
  by (auto simp: drain_if_starving_def drain_batch_def)

lemma adjust_frame [frame_facts, simp]:
  "as_queue (adjust_for_load g l) = as_queue g" "as_max_queue_depth (adjust_for_load g l) = as_max_queue_depth g"
  "as_refractory_until_ns (adjust_for_load g l) = as_refractory_until_ns g"
  by (simp_all add: adjust_for_load_def)

lemma fire_mset_length:
  assumes "fire g now = (b, g')"
  shows "mset b + mset (as_queue g') = mset (as_queue g)" "length (as_queue g') \<le> length (as_queue g)"
    "as_max_queue_depth g' = as_max_queue_depth g"
  using fire_conserves [of g now] fire_lengths [of g now] fire_frame(1) [of g now] assms by simp_all

lemma gate_event_conserves:
  assumes "gate_event_step lm nx e g s = (f, d, g', s')"
  shows "mset f + mset d + mset (as_queue g') = mset (as_queue g) + mset (offered [e])"
    and "as_max_queue_depth g' = as_max_queue_depth g"
    and "length (as_queue g) \<le> as_max_queue_depth g \<Longrightarrow> length (as_queue g') \<le> as_max_queue_depth g"
proof -
  have "mset f + mset d + mset (as_queue g') = mset (as_queue g) + mset (offered [e]) \<and>
    as_max_queue_depth g' = as_max_queue_depth g \<and>
    (length (as_queue g) \<le> as_max_queue_depth g \<longrightarrow> length (as_queue g') \<le> as_max_queue_depth g)"
  proof (cases e)
    case (Offer sig w now)
    obtain a h s1 where adm: "admit lm g sig w now nx s = (a, h, s1)" by (metis prod_cases3)
    then have r: "f = ao_fired a" "mset d = opt_mset (ao_dropped a)" "g' = h"
      using assms Offer by (auto split: option.splits)
    note c = admit_cases [OF adm]
    have "mset f + mset (as_queue g') = mset (as_queue (admitted g sig w)) \<and>
        length (as_queue g') \<le> length (as_queue (admitted g sig w)) \<and> as_max_queue_depth g' = as_max_queue_depth g"
      using c fire_mset_length [of "admitted g sig w" now f g'] r by (auto split: if_splits)
    moreover have "mset f + mset d + mset (as_queue g') = (mset f + mset (as_queue g')) + mset d"
      by (simp add: ac_simps)
    moreover have "mset d = opt_mset (fst (fst (enqueue g sig)))" using r(2) c by simp
    moreover have "length (as_queue g) \<le> as_max_queue_depth g \<longrightarrow>
        length (as_queue (admitted g sig w)) \<le> as_max_queue_depth g"
      using enqueue_length [of g sig] by auto
    ultimately show ?thesis
      using enqueue_conserves [of g sig] Offer by (simp only: admitted_frame) auto
  next
    case (Poll now)
    then show ?thesis
      using assms fire_mset_length [of g now f g'] by (auto simp: drain_cases split: prod.splits if_splits)
  next
    case (Drain now)
    then show ?thesis
      using assms fire_mset_length [of g now f g'] by (auto simp: drain_cases split: prod.splits if_splits)
  qed (use assms in auto)
  then show "mset f + mset d + mset (as_queue g') = mset (as_queue g) + mset (offered [e])"
    and "as_max_queue_depth g' = as_max_queue_depth g"
    and "length (as_queue g) \<le> as_max_queue_depth g \<Longrightarrow> length (as_queue g') \<le> as_max_queue_depth g"
    by blast+
qed

lemma gate_event_length:
  assumes "gate_event_step lm nx e g s = (f, d, g', s')"
  shows "length (as_queue g') \<le> max (length (as_queue g)) (as_max_queue_depth g)"
proof (cases e)
  case (Offer sig w now)
  obtain a h s1 where adm: "admit lm g sig w now nx s = (a, h, s1)" by (metis prod_cases3)
  then have "length (as_queue g') \<le> length (as_queue (admitted g sig w))"
    using assms Offer admit_cases [OF adm] fire_mset_length [of "admitted g sig w" now "ao_fired a" h]
    by (auto split: if_splits)
  then show ?thesis using enqueue_length [of g sig] by (auto split: if_splits)
next
  case (Poll now)
  then show ?thesis
    using assms fire_mset_length [of g now f g'] by (auto simp: drain_cases split: prod.splits if_splits)
next
  case (Drain now)
  then show ?thesis
    using assms fire_mset_length [of g now f g'] by (auto simp: drain_cases split: prod.splits if_splits)
qed (use assms in auto)

lemma offered_Cons: "mset (offered (e # es)) = mset (offered [e]) + mset (offered es)"
  by (cases e) simp_all

text \<open>
  C31: The gate loses nothing and duplicates nothing. Over any run of arrivals, polls,
  drains and load reports, the signals fired, the signals reported dropped and those
  still queued are together exactly the signals that were queued or offered; and the
  queue never outgrows its bound.
\<close>

theorem gate_conservation:
  "\<exists>fired dropped g' s'. gate_run lm nx es g s = (fired, dropped, g', s') \<and>
     mset fired + mset dropped + mset (as_queue g') = mset (as_queue g) + mset (offered es) \<and>
     length (as_queue g') \<le> max (length (as_queue g)) (as_max_queue_depth g)"
proof (induction es arbitrary: g s)
  case (Cons e es)
  obtain f d g1 s1 where st: "gate_event_step lm nx e g s = (f, d, g1, s1)" by (metis prod_cases4)
  obtain fs ds g2 s2 where run: "gate_run lm nx es g1 s1 = (fs, ds, g2, s2)"
    and ih: "mset fs + mset ds + mset (as_queue g2) = mset (as_queue g1) + mset (offered es)"
      "length (as_queue g2) \<le> max (length (as_queue g1)) (as_max_queue_depth g1)"
    using Cons by blast
  note ev = gate_event_conserves [OF st]
  have "mset (f @ fs) + mset (d @ ds) + mset (as_queue g2) =
      mset f + mset d + (mset fs + mset ds + mset (as_queue g2))" by (simp add: ac_simps)
  also have "\<dots> = (mset f + mset d + mset (as_queue g1)) + mset (offered es)"
    unfolding ih(1) by (simp add: ac_simps)
  also have "\<dots> = mset (as_queue g) + mset (offered (e # es))"
    unfolding ev(1) offered_Cons [of e es] by (simp add: ac_simps)
  finally have "mset (f @ fs) + mset (d @ ds) + mset (as_queue g2) = \<dots>" .
  moreover have "length (as_queue g2) \<le> max (length (as_queue g)) (as_max_queue_depth g)"
    using ih(2) ev(2,3) gate_event_length [OF st] by linarith
  ultimately show ?case using st run by simp
qed simp

section \<open>Firing\<close>

abbreviation numeric_queue :: "QueuedSignal list \<Rightarrow> bool" where
  "numeric_queue q \<equiv> \<forall>x \<in> set q. \<not> fl_is_nan (qs_weight x)"

text \<open>
  A fire releases the heaviest signals. With numeric weights the batch is in descending
  weight order, no signal left in the queue outweighs one released, the batch is as large
  as the queue and the batch size allow, and the gate is refractory for the whole period
  afterwards with its potential spent.
\<close>

theorem fire_heaviest:
  assumes nums: "numeric_queue (as_queue g)" and run: "fire g now = (batch, g')"
  shows "length batch = min (as_fire_batch_size g) (length (as_queue g)) \<and>
    sorted_wrt (\<lambda>a b. fl_le (qs_weight b) (qs_weight a)) (batch @ as_queue g') \<and>
    (\<forall>b \<in> set batch. \<forall>q \<in> set (as_queue g'). fl_le (qs_weight q) (qs_weight b)) \<and>
    as_potential g' = Fin 0 \<and> (\<forall>t. in_refractory g' t \<longleftrightarrow> t < sat_add now (as_refractory_period_ns g))"
proof -
  let ?s = "sort_by fire_cmp (as_queue g)"
  have app: "batch @ as_queue g' = ?s" using run by (auto simp: fire_def Let_def)
  have "sorted_wrt (\<lambda>a b. fire_cmp a b \<noteq> Greater) ?s"
    using nums by (intro fire_order.sorted_sort_by) auto
  then have sorted: "sorted_wrt (\<lambda>a b. fl_le (qs_weight b) (qs_weight a)) (batch @ as_queue g')"
    unfolding app by (rule sorted_wrt_mono_rel [rotated]) (use nums in \<open>auto intro: fire_cmp_weight\<close>)
  then show ?thesis
    using run fire_lengths(1) [of g now] fire_frame(5,7) [of g now]
    by (auto simp: sorted_wrt_append in_refractory_def)
qed

lemma fire_heaviest_witness:
  "let q = \<lambda>i w. \<lparr>qs_id = i, qs_origin = [], qs_weight = w, qs_delivery = BestEffort, qs_enqueued_at_ns = 0\<rparr>;
       g = (gate_new activation_default)\<lparr>as_queue := [q 1 (Fin 0), q 2 (Fin 1)], as_fire_batch_size := 1\<rparr>
   in length (fst (fire g 7)) = 1 \<and> as_potential (snd (fire g 7)) = Fin 0"
  using fire_heaviest [of "(gate_new activation_default)\<lparr>as_queue :=
      [\<lparr>qs_id = 1, qs_origin = [], qs_weight = Fin 0, qs_delivery = BestEffort, qs_enqueued_at_ns = 0\<rparr>,
       \<lparr>qs_id = 2, qs_origin = [], qs_weight = Fin 1, qs_delivery = BestEffort, qs_enqueued_at_ns = 0\<rparr>],
      as_fire_batch_size := 1\<rparr>" 7]
  by (cases "fire ((gate_new activation_default)\<lparr>as_queue :=
      [\<lparr>qs_id = 1, qs_origin = [], qs_weight = Fin 0, qs_delivery = BestEffort, qs_enqueued_at_ns = 0\<rparr>,
       \<lparr>qs_id = 2, qs_origin = [], qs_weight = Fin 1, qs_delivery = BestEffort, qs_enqueued_at_ns = 0\<rparr>],
      as_fire_batch_size := 1\<rparr>) 7") (simp add: Let_def)

fun quiet_before :: "u64 \<Rightarrow> gate_event \<Rightarrow> bool" where
  "quiet_before t (Offer sig w now) = (now < t)"
| "quiet_before t (Poll now) = (now < t)"
| "quiet_before t (Drain now) = False"
| "quiet_before t (Load l) = True"

lemma refractory_event:
  assumes "quiet_before (as_refractory_until_ns g) e" "gate_event_step lm nx e g s = (f, d, g', s')"
  shows "f = [] \<and> as_refractory_until_ns g' = as_refractory_until_ns g"
proof (cases e)
  case (Offer sig w now)
  obtain a h s1 where adm: "admit lm g sig w now nx s = (a, h, s1)" by (metis prod_cases3)
  show ?thesis using assms Offer adm admit_cases [OF adm] by (auto simp: in_refractory_def)
next
  case (Poll now)
  then show ?thesis using assms by (auto simp: drain_cases in_refractory_def)
qed (use assms in auto)

text \<open>
  The refractory period bounds the rate of firing. After a fire at \<open>now\<close>, no arrival,
  poll or load report before \<open>now + period\<close> releases anything, in any number and order:
  the threshold, the leak and the latency guard all give way to it.
\<close>

theorem refractory_silence:
  assumes "\<forall>e \<in> set es. quiet_before (sat_add now (as_refractory_period_ns g)) e"
  shows "fst (gate_run lm nx es (snd (fire g now)) s) = []"
proof -
  have "fst (gate_run lm nx es h s) = []"
    if "\<forall>e \<in> set es. quiet_before (as_refractory_until_ns h) e" for h
    using that
  proof (induction es arbitrary: h s)
    case (Cons e es)
    obtain f d g1 s1 where st: "gate_event_step lm nx e h s = (f, d, g1, s1)" by (metis prod_cases4)
    have "f = []" "as_refractory_until_ns g1 = as_refractory_until_ns h"
      using refractory_event [OF _ st] Cons.prems by auto
    then show ?case using Cons st by (simp add: case_prod_beta Let_def)
  qed simp
  then show ?thesis using assms by simp
qed

lemma refractory_silence_witness:
  "\<forall>q. fst (gate_run sample_libm splitmix_next [Offer q (Fin 1) 8, Poll 9]
     (snd (fire (gate_new activation_default) 5)) (seeded 0)) = []"
  by (intro allI refractory_silence)
    (simp add: gate_new_def activation_default_def activation_for_class_def sat_add_def sat_mul_def word_less_nat_alt)

text \<open>
  A starving queue is released. Once firing is permitted and some queued signal has
  waited the latency guard out, a poll releases a non-empty batch whatever the potential,
  and all of the queue when it fits in one batch.
\<close>

theorem starving_released:
  assumes ready: "\<not> in_refractory g now" and batch: "1 \<le> as_fire_batch_size g"
    and wait: "is_starving g now"
  shows "fst (drain_if_starving g now) \<noteq> [] \<and>
    (length (as_queue g) \<le> as_fire_batch_size g \<longrightarrow>
      mset (fst (drain_if_starving g now)) = mset (as_queue g) \<and> as_queue (snd (drain_if_starving g now)) = [])"
proof -
  have ne: "as_queue g \<noteq> []" using wait by (auto simp: is_starving_def split: if_splits)
  have eq: "drain_if_starving g now = fire g now" using ready wait by (simp add: drain_cases)
  have "0 < length (fst (fire g now))" using ne batch by (simp add: fire_lengths)
  then show ?thesis
    using fire_conserves [of g now] fire_lengths(2) [of g now] unfolding eq by auto
qed

abbreviation queued :: "SignalId \<Rightarrow> flt \<Rightarrow> u64 \<Rightarrow> QueuedSignal" where
  "queued i w t \<equiv> \<lparr>qs_id = i, qs_origin = [], qs_weight = w, qs_delivery = Acknowledged, qs_enqueued_at_ns = t\<rparr>"

lemma starving_released_witness:
  "fst (drain_if_starving ((gate_new activation_default)\<lparr>as_queue := [queued 1 (Fin 0) 0]\<rparr>) 1000000000) \<noteq> []"
proof -
  have l: "as_max_queue_latency_ns (gate_new activation_default) = 1000000000"
    "as_refractory_until_ns (gate_new activation_default) = 0" "as_fire_batch_size (gate_new activation_default) = 8"
    by (simp_all add: gate_new_def activation_default_def activation_for_class_def sat_mul_def)
  show ?thesis
    by (rule starving_released [THEN conjunct1]) (simp_all add: l in_refractory_def is_starving_def sat_sub_def)
qed

text \<open>
  The guard does not bound how long one signal waits. A gate with batch size 1 that
  holds a light signal older than the guard fires on every arrival, and every fire
  releases the arrival: after any number of heavier arrivals the starving signal is
  still queued, although the module documentation says the guard bounds queue latency.
\<close>

theorem guard_starves_light_signal:
  fixes n :: nat and nx :: "'s rng"
  defines "g0 \<equiv> (gate_new (activation_default\<lparr>ac_fire_batch_size := 1, ac_refractory_period_ms := 0\<rparr>))
      \<lparr>as_queue := [queued 1 (Fin 0) 0]\<rparr>"
    and "heavy \<equiv> queued 2 (Fin 1) 1000000000"
  shows "\<exists>g s'. gate_run lm nx (replicate n (Offer heavy (Fin 1) 1000000000)) g0 s = (replicate n heavy, [], g, s') \<and>
    as_queue g = [queued 1 (Fin 0) 0] \<and> is_starving g 1000000000"
proof -
  define inv :: "ActivationState \<Rightarrow> bool" where "inv = (\<lambda>g. as_queue g = [queued 1 (Fin 0) 0] \<and> as_fire_batch_size g = 1 \<and> 2 \<le> as_max_queue_depth g \<and>
    as_refractory_until_ns g \<le> 1000000000 \<and> as_refractory_period_ns g = 0 \<and> as_max_queue_latency_ns g = 1000000000)"
  have start: "inv g0"
    by (simp add: inv_def g0_def gate_new_def activation_default_def activation_for_class_def sat_mul_def)
  have step: "\<exists>a g' s'. admit lm g heavy (Fin 1) 1000000000 nx s = (a, g', s') \<and> ao_fired a = [heavy] \<and>
      ao_dropped a = None \<and> inv g'" if "inv g" for g s
  proof -
    obtain a g' s' where adm: "admit lm g heavy (Fin 1) 1000000000 nx s = (a, g', s')" by (metis prod_cases3)
    let ?h = "admitted g heavy (Fin 1)"
    have q: "as_queue ?h = [queued 1 (Fin 0) 0, heavy]" "fst (fst (enqueue g heavy)) = None"
      using that by (simp_all add: inv_def enqueue_def)
    have "is_starving ?h 1000000000" "\<not> in_refractory g 1000000000"
      using that by (simp_all add: is_starving_def inv_def q sat_sub_def in_refractory_def not_less del: admitted_frame(1))
    then have "(ao_fired a, g') = fire ?h 1000000000" "ao_dropped a = None"
      using admit_cases [OF adm] q by auto
    moreover have "sort_by fire_cmp (as_queue ?h) = [heavy, queued 1 (Fin 0) 0]"
      unfolding q(1) by (simp add: heavy_def fire_cmp_def then_with_def fl_cmp_def)
    moreover have "length (as_queue (snd (enqueue g heavy))) = 2" using q(1) by simp
    ultimately show ?thesis
      using that adm by (auto simp: fire_def Let_def inv_def sat_add_def)
  qed
  have "\<exists>g s'. gate_run lm nx (replicate n (Offer heavy (Fin 1) 1000000000)) h s = (replicate n heavy, [], g, s') \<and> inv g"
    if "inv h" for h s
    using that
  proof (induction n arbitrary: h s)
    case (Suc n)
    obtain a g' s' where st: "admit lm h heavy (Fin 1) 1000000000 nx s = (a, g', s')" "ao_fired a = [heavy]"
      "ao_dropped a = None" "inv g'" using step [OF Suc.prems] by blast
    with Suc.IH [OF st(4), of s'] show ?case by (auto simp: Let_def)
  qed simp
  from this [OF start, of s] obtain g s' where
    run: "gate_run lm nx (replicate n (Offer heavy (Fin 1) 1000000000)) g0 s = (replicate n heavy, [], g, s')"
    and g: "inv g" by blast
  have "as_queue g = [queued 1 (Fin 0) 0] \<and> is_starving g 1000000000"
    using g by (simp add: inv_def is_starving_def sat_sub_def)
  with run show ?thesis by blast
qed

section \<open>Overflow, threshold and restore\<close>

text \<open>
  Overflow sheds what the policy names. A drop happens exactly when the queue is full
  and always carries the reason \<open>queue_full\<close>; \<open>drop_newest\<close> sheds the arrival,
  \<open>drop_oldest\<close> the earliest enqueued signal (ties by identifier), and
  \<open>drop_lowest_weight\<close> a signal no heavier than any that stays, the arrival itself
  when it does not strictly outweigh the queue.
\<close>

theorem overflow_policy:
  assumes nums: "numeric_queue (sig # as_queue g)" and depth: "1 \<le> as_max_queue_depth g"
    and run: "enqueue g sig = ((dropped, why), g')"
  shows "if length (as_queue g) < as_max_queue_depth g then dropped = None \<and> why = None \<and> as_queue g' = as_queue g @ [sig]
    else \<exists>d. dropped = Some d \<and> why = Some QueueFull \<and> (case as_overflow_policy g of
      DropNewest \<Rightarrow> d = sig
    | DropOldest \<Rightarrow> d \<in> set (as_queue g) \<and> (\<forall>q \<in> set (as_queue g). (qs_enqueued_at_ns d, qs_id d) \<le> (qs_enqueued_at_ns q, qs_id q))
    | DropLowestWeight \<Rightarrow> (\<forall>q \<in> set (as_queue g'). fl_le (qs_weight d) (qs_weight q)) \<and>
        (d = sig \<or> fl_lt (qs_weight d) (qs_weight sig)))"
proof (cases "length (as_queue g) < as_max_queue_depth g")
  case True
  with run show ?thesis by (auto simp: enqueue_def)
next
  case False
  then have ne: "as_queue g \<noteq> []" using depth by auto
  obtain d q where od: "overflow_drop (as_overflow_policy g) (as_queue g) sig = (d, q)" by fastforce
  then have r: "dropped = Some d" "why = Some QueueFull" "as_queue g' = q"
    using run False by (auto simp: enqueue_def)
  have old: "d \<in> set (as_queue g) \<and> (\<forall>x \<in> set (as_queue g). (qs_enqueued_at_ns d, qs_id d) \<le> (qs_enqueued_at_ns x, qs_id x))"
    if p: "as_overflow_policy g = DropOldest"
  proof -
    obtain i x where m: "min_index_by age_cmp (as_queue g) = Some (i, x)"
      using ne min_index_by_None by (metis not_Some_eq surj_pair)
    note ix = min_index_by_Some [OF m]
    have "\<forall>y \<in> set (as_queue g). age_cmp x y \<noteq> Greater"
      using age_order.min_index_least [OF _ m] by blast
    then show ?thesis using od ix m p nth_mem [OF ix(1)] by (auto simp: overflow_drop_def age_cmp_def)
  qed
  have low: "(\<forall>x \<in> set q. fl_le (qs_weight d) (qs_weight x)) \<and> (d = sig \<or> fl_lt (qs_weight d) (qs_weight sig))"
    if p: "as_overflow_policy g = DropLowestWeight"
  proof -
    obtain i x where m: "min_index_by (\<lambda>a b. fl_cmp (qs_weight a) (qs_weight b)) (as_queue g) = Some (i, x)"
      using ne min_index_by_None by (metis not_Some_eq surj_pair)
    note ix = min_index_by_Some [OF m]
    have xq: "x \<in> set (as_queue g)" using ix nth_mem by fastforce
    have least: "\<forall>y \<in> set (as_queue g). fl_le (qs_weight x) (qs_weight y)"
      using weight_order.min_index_least [OF _ m] nums xq by (auto simp: fl_cmp_neq_Greater)
    show ?thesis
    proof (cases "fl_lt (qs_weight x) (qs_weight sig)")
      case True
      then have "d = x" "q = remove_at i (as_queue g) @ [sig]"
        using od m p ix by (auto simp: overflow_drop_def)
      moreover have "set (remove_at i (as_queue g)) \<subseteq> set (as_queue g)"
        by (auto simp: remove_at_def dest: in_set_takeD in_set_dropD)
      ultimately show ?thesis using least True fl_lt_imp_le by auto
    next
      case F: False
      then have d: "d = sig" "q = as_queue g" using od m p ix by (auto simp: overflow_drop_def)
      have "fl_le (qs_weight sig) (qs_weight x)" using F nums xq by (auto simp: fl_not_lt)
      then show ?thesis using d least fl_le_trans by blast
    qed
  qed
  show ?thesis
    using False r od old low by (auto simp: overflow_drop_def split: OverflowPolicy.splits)
qed

lemma overflow_policy_witness:
  "\<exists>d. fst (fst (enqueue (gate_new (activation_default\<lparr>ac_max_queue_depth := 1\<rparr>)
      \<lparr>as_queue := [queued 1 (Fin 1) 0]\<rparr>) (queued 2 (Fin (1/2)) 1))) = Some d"
proof -
  let ?g = "gate_new (activation_default\<lparr>ac_max_queue_depth := 1\<rparr>)\<lparr>as_queue := [queued 1 (Fin 1) 0]\<rparr>"
  have g: "as_queue ?g = [queued 1 (Fin 1) 0]" "as_max_queue_depth ?g = 1"
    by (simp_all add: gate_new_def activation_default_def activation_for_class_def)
  obtain d y g' where run: "enqueue ?g (queued 2 (Fin (1/2)) 1) = ((d, y), g')" by (metis prod.exhaust)
  have "\<exists>x. d = Some x" using overflow_policy [OF _ _ run] unfolding g by auto
  then show ?thesis unfolding run by simp
qed

text \<open>The load factor lies in \<open>[0, 1]\<close>, so the dynamic threshold lies between the
  base threshold and its double.\<close>

lemma scaled_between:
  assumes base: "fl_wf b32 b" "fl_is_finite b" "0 \<le> fl_val b" and l: "in_unit l"
  shows "fl_le b (fl_mul b32 b (fl_add b32 (Fin 1) l))"
    "fl_le (fl_mul b32 b (fl_add b32 (Fin 1) l)) (fl_mul b32 b (Fin 2))"
proof -
  let ?k = "fl_add b32 (Fin 1) l"
  have l: "fl_is_finite l" "0 \<le> fl_val l" "fl_val l \<le> 1" using in_unit_finite [OF l] by simp_all
  have wf2: "fl_wf b32 (Fin 2)" using rnd_b32_int [of 1 1] by (simp add: fl_wf_def pow2_def b32_def)
  have up: "fl_le ?k (Fin 2)"
    using fl_pack_leI [OF fmt_prec(1) wf2, of "1 + fl_val l" False] fl_key_add [of "Fin 1" l b32 False] l
    by (simp add: fl_le_def fl_add_nan_iff)
  have lo: "fl_le (Fin 1) ?k" using fl_add_ge [of "Fin 1" l] l by simp
  have k: "fl_is_finite ?k" using between_finite [OF lo up] by simp
  then have kv: "1 \<le> fl_val ?k" "fl_val ?k \<le> 2" using lo up by (simp_all add: fl_le_finite)
  have "fl_val b \<le> fl_val b * fl_val ?k" using mult_left_mono [OF kv(1) base(3)] by simp
  then show "fl_le b (fl_mul b32 b ?k)"
    using base k fl_le_packI [OF fmt_prec(1)] by (simp add: fl_mul_finite)
  show "fl_le (fl_mul b32 b ?k) (fl_mul b32 b (Fin 2))"
    using base k mult_left_mono [OF kv(2) base(3)] by (simp add: fl_mul_finite fl_pack_mono)
qed

lemma fl_of_nat_u64_finite: "n < 2 ^ 64 \<Longrightarrow> fl_is_finite (fl_of_nat b32 n)"
proof -
  assume "n < 2 ^ 64"
  then have "(of_nat n :: rat) \<le> pow2 64"
    by (metis less_imp_le of_nat_le_iff of_nat_numeral of_nat_power pow2_def zero_le_numeral nat_numeral)
  then have "rnd b32 (of_nat n) \<le> rnd b32 (pow2 64)" by (simp add: rnd_mono)
  also have "\<dots> = pow2 64" using rnd_b32_int [of 1 64] by simp
  also have "\<dots> < pow2 (f_emax b32)" by (simp add: b32_def)
  finally have "rnd b32 (of_nat n) < pow2 (f_emax b32)" .
  moreover have "0 \<le> rnd b32 (of_nat n)" by (simp add: rnd_nonneg)
  ultimately show ?thesis by (simp add: fl_of_nat_def fl_pack_def Let_def)
qed

lemma load_factor_unit:
  assumes "1 \<le> as_max_queue_depth g" "as_max_queue_depth g < 2 ^ 64"
  shows "in_unit (load_factor g)"
proof -
  let ?n = "fl_of_nat b32 (length (as_queue g))" and ?d = "fl_of_nat b32 (as_max_queue_depth g)"
  have "fl_le (Fin 1) ?d" using assms by (simp add: fl_of_nat_def fl_le_packI)
  then have d: "fl_is_finite ?d" "fl_val ?d \<noteq> 0" using fl_of_nat_u64_finite assms by (auto simp: fl_le_finite)
  have "\<not> fl_is_nan ?n" by (simp add: fl_of_nat_def)
  then have "\<not> fl_is_nan (fl_div b32 ?n ?d)" using d by (cases ?n; cases ?d) auto
  then show ?thesis by (simp add: load_factor_def clamp01_unit)
qed

text \<open>
  The gate stays calibrated. When the base threshold and the ceiling are usable
  numbers, an arrival leaves the potential at or below its ceiling and, on a dynamic gate,
  the threshold between the base threshold and its double, whatever the signal's weight,
  the synapse's weight and the libm function return.
\<close>

theorem admit_calibrated:
  assumes base: "fl_wf b32 (as_base_threshold g)" "fl_is_finite (as_base_threshold g)" "0 \<le> fl_val (as_base_threshold g)"
    and ceiling: "fl_le (Fin 0) (as_max_potential g)" and dyn: "as_dynamic g"
    and depth: "1 \<le> as_max_queue_depth g" "as_max_queue_depth g < 2 ^ 64"
    and run: "admit lm g sig w now nx s = (a, g', s')"
  shows "fl_le (as_base_threshold g) (as_threshold g') \<and>
    fl_le (as_threshold g') (fl_mul b32 (as_base_threshold g) (Fin 2)) \<and>
    fl_le (as_potential g') (as_max_potential g)"
proof -
  let ?h = "admitted g sig w"
  have thr: "as_threshold ?h = fl_mul b32 (as_base_threshold g) (fl_add b32 (Fin 1) (load_factor ?h))"
    using dyn by (simp add: admitted_def Let_def recompute_threshold_def load_factor_def)
  have "in_unit (load_factor ?h)" by (rule load_factor_unit) (simp_all only: admitted_frame depth)
  then have "fl_le (as_base_threshold g) (as_threshold ?h)"
    "fl_le (as_threshold ?h) (fl_mul b32 (as_base_threshold g) (Fin 2))"
    using scaled_between [OF base] by (simp_all add: thr)
  moreover have "fl_le (as_potential ?h) (as_max_potential g)"
    using fl_min_le(1) fl_le_not_nan [OF ceiling] by (simp add: admitted_def Let_def)
  moreover have "as_threshold g' = as_threshold ?h" "as_potential g' = as_potential ?h \<or> as_potential g' = Fin 0"
    using admit_cases [OF run] by (auto simp: fire_def Let_def split: if_splits)
  ultimately show ?thesis using ceiling by auto
qed

lemma admit_calibrated_witness:
  "\<exists>a g' s'. admit sample_libm (gate_new activation_default) (queued 1 (Fin 1) 0) (Fin 1) 0 splitmix_next (seeded 0) = (a, g', s') \<and>
     fl_le (as_potential g') (lit 10)"
proof -
  let ?g = "gate_new activation_default"
  obtain a g' s' where run: "admit sample_libm ?g (queued 1 (Fin 1) 0) (Fin 1) 0 splitmix_next (seeded 0) = (a, g', s')"
    by (metis prod_cases3)
  have v: "as_max_potential ?g = lit 10" "as_base_threshold ?g = lit 0.5" "as_dynamic ?g" "as_max_queue_depth ?g = 256"
    by (simp_all add: gate_new_def activation_default_def activation_for_class_def)
  have "fl_is_finite (lit 0.5) \<and> 0 \<le> fl_val (lit 0.5) \<and> fl_le (Fin 0) (lit 10)" by code_simp
  then have "fl_le (as_potential g') (lit 10)"
    using admit_calibrated [OF _ _ _ _ _ _ _ run] v by simp
  with run show ?thesis by blast
qed

text \<open>
  A restart keeps the backpressure. Restoring a snapshot of a gate whose potential is
  within its bounds gives a fresh gate of the same configuration the potential, threshold,
  refractory deadline and counter it had, so it is refractory for exactly as long; only
  the in-flight queue is lost.
\<close>

theorem restart_keeps_backpressure:
  assumes "fl_le (Fin 0) (as_potential g)" "fl_le (as_potential g) (ac_max_potential c)"
  shows "\<exists>g'. restore (gate_new c) (snapshot g now) = Some g' \<and> snapshot g' later = (snapshot g now)\<lparr>sn_taken_at_ns := later\<rparr> \<and>
    (\<forall>t. in_refractory g' t \<longleftrightarrow> in_refractory g t) \<and> as_queue g' = []"
proof -
  have "fl_clamp (Fin 0) (ac_max_potential c) (as_potential g) = Some (as_potential g)"
    using assms fl_le_trans [OF assms] by (auto simp: fl_clamp_def clamp_to_id)
  then show ?thesis by (simp add: restore_def snapshot_def in_refractory_def gate_new_def)
qed

lemma restart_keeps_backpressure_witness:
  "\<exists>g'. restore (gate_new activation_default) (snapshot ((gate_new activation_default)\<lparr>as_potential := lit 0.5\<rparr>) 7) = Some g'"
proof -
  have "fl_le (Fin 0) (lit 0.5)" "fl_le (lit 0.5) (lit 10)" by code_simp+
  then show ?thesis
    using restart_keeps_backpressure [of "(gate_new activation_default)\<lparr>as_potential := lit 0.5\<rparr>" activation_default 7]
    by (auto simp: activation_default_def activation_for_class_def)
qed

end
