(* ===== verification/Exploration.thy ===== *)
theory Exploration
  imports Learning
begin

text \<open>
  The choice of paths (\<open>runtime/ntl-core/src/learning.rs\<close>, "Exploration"): softmax sampling
  without replacement and the cheaper epsilon-greedy rule. \<open>None\<close> is a rejection loop that
  does not return. The lemmas show that a sample is a set of distinct candidates of the
  asked size in score order, that the exploration flag is truthful, and that sampling
  returns for the generator the node uses.
\<close>

section \<open>Choosing paths\<close>

datatype ExplorationPolicy = Softmax | EpsilonGreedy flt

record Selection =
  sl_index :: nat
  sl_score :: flt
  sl_explored :: bool

text \<open>The index of the maximum score: the accumulator is kept while it is at least the next score.\<close>

fun argmax_loop :: "(nat \<times> flt) option \<Rightarrow> nat \<Rightarrow> flt list \<Rightarrow> (nat \<times> flt) option" where
  "argmax_loop acc i [] = acc"
| "argmax_loop acc i (s # ss) =
     argmax_loop (case acc of Some (j, best) \<Rightarrow> if fl_le s best then acc else Some (i, s) | None \<Rightarrow> Some (i, s))
       (i + 1) ss"

definition argmax :: "flt list \<Rightarrow> nat option" where
  "argmax scores = map_option fst (argmax_loop None 0 scores)"

text \<open>\<open>Vec::swap_remove\<close>: the last element takes the removed one's place.\<close>

definition swap_remove :: "'a list \<Rightarrow> nat \<Rightarrow> 'a \<times> 'a list" where
  "swap_remove xs i = (xs ! i, butlast (xs[i := last xs]))"

text \<open>Walk the cumulative weights until they reach the target; the last slot is the default.\<close>

fun pick_slot :: "flt \<Rightarrow> flt \<Rightarrow> nat \<Rightarrow> nat \<Rightarrow> flt list \<Rightarrow> nat" where
  "pick_slot target acc slot dflt [] = dflt"
| "pick_slot target acc slot dflt (w # ws) =
     (let acc' = fl_add b32 acc w in if fl_le target acc' then slot else pick_slot target acc' (slot + 1) dflt ws)"

definition softmax_weights :: "libm \<Rightarrow> flt list \<Rightarrow> flt \<Rightarrow> nat list \<Rightarrow> flt list" where
  "softmax_weights lm scores temperature remaining =
    (let max_score = foldl fl_max (FInf True) (map (\<lambda>i. scores ! i) remaining)
     in map (\<lambda>i. lm_exp lm (fl_div b32 (fl_sub b32 (scores ! i) max_score) temperature)) remaining)"

definition softmax_pick :: "flt list \<Rightarrow> 's rng \<Rightarrow> 's \<Rightarrow> (nat \<times> 's) option" where
  "softmax_pick weights nx s =
    (let total = fl_sum weights
     in if fl_lt (Fin 0) total \<and> fl_is_finite total
        then (let (u, s') = next_f32 nx s; target = fl_mul b32 u total
              in Some (pick_slot target (Fin 0) 0 (length weights - 1) weights, s'))
        else (case next_below nx (of_nat (length weights)) s of
                None \<Rightarrow> None
              | Some (r, s') \<Rightarrow> Some (case r of None \<Rightarrow> 0 | Some v \<Rightarrow> unat v, s')))"

fun softmax_loop :: "libm \<Rightarrow> flt list \<Rightarrow> flt \<Rightarrow> 's rng \<Rightarrow> nat \<Rightarrow> nat list \<Rightarrow> Selection list \<Rightarrow> 's \<Rightarrow> (Selection list \<times> 's) option" where
  "softmax_loop lm scores temperature nx 0 remaining chosen s = Some (chosen, s)"
| "softmax_loop lm scores temperature nx (Suc n) remaining chosen s =
     (if remaining = [] then Some (chosen, s)
      else case softmax_pick (softmax_weights lm scores temperature remaining) nx s of
        None \<Rightarrow> None
      | Some (pick, s') \<Rightarrow>
          (let (index, remaining') = swap_remove remaining pick
           in softmax_loop lm scores temperature nx n remaining'
                (chosen @ [\<lparr>sl_index = index, sl_score = scores ! index,
                            sl_explored = (Some index \<noteq> argmax scores)\<rparr>]) s'))"

definition softmax_sample :: "libm \<Rightarrow> flt list \<Rightarrow> nat \<Rightarrow> flt \<Rightarrow> 's rng \<Rightarrow> 's \<Rightarrow> (Selection list \<times> 's) option" where
  "softmax_sample lm scores k temperature nx s =
     softmax_loop lm scores temperature nx (min k (length scores)) [0..<length scores] [] s"

definition greedy_cmp :: "flt list \<Rightarrow> nat \<Rightarrow> nat \<Rightarrow> ordering" where
  "greedy_cmp scores a b = then_with (fl_cmp (scores ! b) (scores ! a)) (cmp_of a b)"

text \<open>
  Top-k by score. The draw that decides whether to explore is made first, whatever the
  length of the order; an exploratory pick from the rest replaces the weakest choice.
\<close>

definition epsilon_greedy_sample :: "flt list \<Rightarrow> nat \<Rightarrow> flt \<Rightarrow> 's rng \<Rightarrow> 's \<Rightarrow> (Selection list \<times> 's) option" where
  "epsilon_greedy_sample scores k0 epsilon nx s =
    (let k = min k0 (length scores);
         order = sort_by (greedy_cmp scores) [0..<length scores];
         chosen = take k order;
         sel = (\<lambda>ex i. \<lparr>sl_index = i, sl_score = scores ! i, sl_explored = (Some i = ex)\<rparr>);
         (u, s1) = next_f32 nx s
     in if fl_lt u epsilon \<and> k < length order
        then (let pool = drop k order
              in case next_below nx (of_nat (length pool)) s1 of
                   None \<Rightarrow> None
                 | Some (None, s2) \<Rightarrow> Some (map (sel None) chosen, s2)
                 | Some (Some pick, s2) \<Rightarrow>
                     (let swapped_in = pool ! unat pick
                      in Some (map (sel (Some swapped_in)) (chosen[k - 1 := swapped_in]), s2)))
        else Some (map (sel None) chosen, s1))"

definition sample_paths ::
  "libm \<Rightarrow> flt list \<Rightarrow> nat \<Rightarrow> ExplorationPolicy \<Rightarrow> LearningConfig \<Rightarrow> 's rng \<Rightarrow> 's \<Rightarrow> (Selection list \<times> 's) option" where
  "sample_paths lm scores k policy c nx s =
    (if scores = [] \<or> k = 0 then Some ([], s)
     else map_option (\<lambda>(out, s'). (sort_by (\<lambda>a b. fl_cmp (sl_score b) (sl_score a)) out, s'))
       (case policy of
          Softmax \<Rightarrow> softmax_sample lm scores k (effective_temperature c) nx s
        | EpsilonGreedy epsilon \<Rightarrow> epsilon_greedy_sample scores k epsilon nx s))"

section \<open>Slots and removal\<close>

lemma mset_swap_remove:
  assumes "i < length xs"
  shows "add_mset (fst (swap_remove xs i)) (mset (snd (swap_remove xs i))) = mset xs"
proof -
  let ?ys = "xs[i := last xs]"
  have ne: "xs \<noteq> []" "?ys \<noteq> []" using assms by auto
  have last: "last ?ys = last xs"
    using assms ne by (auto simp: last_conv_nth nth_list_update)
  have "mset ?ys = add_mset (last xs) (mset xs - {#xs ! i#})"
    using assms by (simp add: mset_update)
  moreover have "mset ?ys = add_mset (last xs) (mset (butlast ?ys))"
    using ne last by (metis append_butlast_last_id mset.simps(2) mset_append mset_single_iff_right
        union_mset_add_mset_right add.right_neutral mset_zero_iff)
  ultimately have "mset (butlast ?ys) = mset xs - {#xs ! i#}" by simp
  then show ?thesis using assms by (simp add: swap_remove_def)
qed

lemma length_swap_remove: "length (snd (swap_remove xs i)) = length xs - 1"
  by (simp add: swap_remove_def)

lemma pick_slot_less: "slot + length ws \<le> n \<Longrightarrow> dflt < n \<Longrightarrow> pick_slot target acc slot dflt ws < n"
  by (induction target acc slot dflt ws rule: pick_slot.induct) (auto simp: Let_def)

lemma next_below_nat:
  assumes "next_below nx (of_nat n) s = Some (r, s')" "0 < n"
  shows "(case r of None \<Rightarrow> 0 | Some v \<Rightarrow> unat v) < n"
proof (cases r)
  case (Some v)
  then have "v < of_nat n" using assms(1) next_below_cases(1) by auto
  then have "unat v < unat (of_nat n :: u64)" by (simp add: word_less_nat_alt)
  also have "\<dots> \<le> n" by (simp add: unsigned_of_nat)
  finally show ?thesis using Some by simp
qed (use assms in simp)

lemma softmax_pick_less:
  "softmax_pick ws nx s = Some (p, s') \<Longrightarrow> ws \<noteq> [] \<Longrightarrow> p < length ws"
  using next_below_nat [of nx "length ws" s]
  by (fastforce simp: softmax_pick_def Let_def intro!: pick_slot_less split: if_splits prod.splits option.splits)

section \<open>Softmax sampling\<close>

abbreviation mk_selection :: "flt list \<Rightarrow> nat option \<Rightarrow> nat \<Rightarrow> Selection" where
  "mk_selection scores best i \<equiv> \<lparr>sl_index = i, sl_score = scores ! i, sl_explored = (Some i \<noteq> best)\<rparr>"

lemma softmax_loop_spec:
  "softmax_loop lm scores t nx n remaining chosen s = Some (out, s') \<Longrightarrow>
   \<exists>idx. out = chosen @ map (mk_selection scores (argmax scores)) idx \<and>
     length idx = min n (length remaining) \<and> mset idx \<subseteq># mset remaining"
proof (induction n arbitrary: remaining chosen s)
  case (Suc n)
  show ?case
  proof (cases "remaining = []")
    case True
    with Suc.prems show ?thesis by auto
  next
    case False
    obtain p s1 where p: "softmax_pick (softmax_weights lm scores t remaining) nx s = Some (p, s1)"
      using Suc.prems False by (auto split: option.splits)
    have "length (softmax_weights lm scores t remaining) = length remaining"
      by (simp add: softmax_weights_def Let_def)
    then have lt: "p < length remaining"
      using softmax_pick_less [OF p] False by force
    let ?r = "snd (swap_remove remaining p)" and ?i = "fst (swap_remove remaining p)"
    have "softmax_loop lm scores t nx n ?r (chosen @ [mk_selection scores (argmax scores) ?i]) s1 = Some (out, s')"
      using Suc.prems False p by (simp add: Let_def case_prod_beta)
    from Suc.IH [OF this] obtain idx where
      idx: "out = (chosen @ [mk_selection scores (argmax scores) ?i]) @ map (mk_selection scores (argmax scores)) idx"
        "length idx = min n (length ?r)" "mset idx \<subseteq># mset ?r" by blast
    have "mset (?i # idx) \<subseteq># mset remaining"
      using idx(3) mset_swap_remove [OF lt] by (metis mset.simps(2) mset_subset_eq_add_mset_cancel)
    moreover have "length (?i # idx) = min (Suc n) (length remaining)"
      using idx(2) lt by (auto simp: length_swap_remove)
    ultimately show ?thesis using idx(1) by (intro exI [of _ "?i # idx"]) simp
  qed
qed simp

lemma softmax_pick_returns:
  assumes "\<And>n g. \<exists>r g'. next_below nx n g = Some (r, g')"
  shows "\<exists>p s1. softmax_pick ws nx s = Some (p, s1)"
  using assms [of "of_nat (length ws)" s]
  by (cases "fl_lt (Fin 0) (fl_sum ws) \<and> fl_is_finite (fl_sum ws)")
    (auto simp: softmax_pick_def Let_def case_prod_beta)

lemma softmax_loop_returns:
  assumes "\<And>n g. \<exists>r g'. next_below nx n g = Some (r, g')"
  shows "\<exists>out s'. softmax_loop lm scores t nx n remaining chosen s = Some (out, s')"
proof (induction n arbitrary: remaining chosen s)
  case (Suc n)
  obtain p s1 where p: "softmax_pick (softmax_weights lm scores t remaining) nx s = Some (p, s1)"
    using softmax_pick_returns [OF assms] by blast
  show ?case
    using Suc [of "snd (swap_remove remaining p)"] by (simp add: p Let_def case_prod_beta)
qed simp

section \<open>The best candidate\<close>

lemma argmax_loop_spec:
  assumes "\<forall>x \<in> set ss. \<not> fl_is_nan x"
    and "case acc of Some (j, b) \<Rightarrow> j < i \<and> \<not> fl_is_nan b \<and> hd_part ! j = b \<and> (\<forall>x \<in> set hd_part. fl_le x b) | None \<Rightarrow> hd_part = []"
    and "length hd_part = i"
  shows "case argmax_loop acc i ss of
     Some (j, b) \<Rightarrow> j < i + length ss \<and> (hd_part @ ss) ! j = b \<and> (\<forall>x \<in> set (hd_part @ ss). fl_le x b)
   | None \<Rightarrow> hd_part @ ss = []"
  using assms
proof (induction acc i ss arbitrary: hd_part rule: argmax_loop.induct)
  case (1 acc i)
  then show ?case by (auto split: option.splits)
next
  case (2 acc i s ss)
  define acc' where "acc' = (case acc of Some (j, best) \<Rightarrow> if fl_le s best then acc else Some (i, s) | None \<Rightarrow> Some (i, s))"
  have s: "\<not> fl_is_nan s" using 2 by simp
  have inv: "case acc' of Some (j, b) \<Rightarrow> j < i + 1 \<and> \<not> fl_is_nan b \<and> (hd_part @ [s]) ! j = b \<and> (\<forall>x \<in> set (hd_part @ [s]). fl_le x b)
      | None \<Rightarrow> hd_part @ [s] = []"
  proof (cases acc)
    case None
    with 2 s show ?thesis by (auto simp: acc'_def)
  next
    case (Some p)
    obtain j b where p: "p = (j, b)" by fastforce
    then have b: "j < i" "\<not> fl_is_nan b" "hd_part ! j = b" "\<forall>x \<in> set hd_part. fl_le x b"
      using 2(3) Some by auto
    have "fl_le x s" if "\<not> fl_le s b" "x \<in> set hd_part" for x
      using that b s fl_le_trans fl_lt_imp_le by (metis fl_not_le)
    then show ?thesis using b s Some p 2(4) by (auto simp: acc'_def nth_append)
  qed
  have "case argmax_loop acc' (i + 1) ss of
      Some (j, b) \<Rightarrow> j < i + 1 + length ss \<and> ((hd_part @ [s]) @ ss) ! j = b \<and> (\<forall>x \<in> set ((hd_part @ [s]) @ ss). fl_le x b)
    | None \<Rightarrow> (hd_part @ [s]) @ ss = []"
    using 2(1) [of "hd_part @ [s]", folded acc'_def] inv 2(2,4) by simp
  moreover have "argmax_loop acc i (s # ss) = argmax_loop acc' (i + 1) ss" by (simp add: acc'_def)
  ultimately show ?case by (auto split: option.splits)
qed

lemma argmax_best:
  assumes "scores \<noteq> []" "\<forall>x \<in> set scores. \<not> fl_is_nan x"
  shows "\<exists>i < length scores. argmax scores = Some i \<and> (\<forall>x \<in> set scores. fl_le x (scores ! i))"
  using argmax_loop_spec [where ss = scores and acc = None and i = 0 and hd_part = "[]"] assms
  by (auto simp: argmax_def split: option.splits)

interpretation selection_order: comparator "\<lambda>x. \<not> fl_is_nan (sl_score x)" "\<lambda>a b. fl_cmp (sl_score b) (sl_score a)"
  by unfold_locales (auto dest: fl_desc.total fl_desc.trans)

interpretation greedy_order: comparator "\<lambda>i. \<not> fl_is_nan (scores ! i)" "greedy_cmp scores" for scores
proof
  fix x y assume n: "\<not> fl_is_nan (scores ! x)" "\<not> fl_is_nan (scores ! y)"
  then show "greedy_cmp scores x y = Greater \<Longrightarrow> greedy_cmp scores y x \<noteq> Greater"
    by (auto simp: greedy_cmp_def then_with_def fl_cmp_def split: if_splits dest: fl_lt_not_le fl_lt_imp_le)
  fix z assume z: "\<not> fl_is_nan (scores ! z)"
  have iff: "greedy_cmp scores a b \<noteq> Greater \<longleftrightarrow> fl_lt (scores ! b) (scores ! a) \<or> (fl_le (scores ! b) (scores ! a) \<and> a \<le> b)"
    if "\<not> fl_is_nan (scores ! a)" "\<not> fl_is_nan (scores ! b)" for a b
    using that fl_not_lt [of "scores ! a" "scores ! b"] fl_lt_not_le [of "scores ! a" "scores ! b"]
    by (auto simp: greedy_cmp_def then_with_def fl_cmp_def)
  show "greedy_cmp scores x y \<noteq> Greater \<Longrightarrow> greedy_cmp scores y z \<noteq> Greater \<Longrightarrow> greedy_cmp scores x z \<noteq> Greater"
    using n z by (auto simp: iff intro: fl_le_lt_trans fl_lt_le_trans fl_le_trans fl_lt_imp_le)
qed

section \<open>Epsilon-greedy\<close>

definition greedy_order_of :: "flt list \<Rightarrow> nat list" where
  "greedy_order_of scores = sort_by (greedy_cmp scores) [0..<length scores]"

lemma greedy_order_props:
  "distinct (greedy_order_of scores)" "set (greedy_order_of scores) = {..<length scores}"
  "length (greedy_order_of scores) = length scores"
  by (auto simp: greedy_order_of_def)

lemma greedy_order_sorted:
  assumes "\<forall>x \<in> set scores. \<not> fl_is_nan x" "a < b" "b < length scores"
  shows "fl_le (scores ! (greedy_order_of scores ! b)) (scores ! (greedy_order_of scores ! a))"
proof -
  have car: "\<forall>i \<in> set [0..<length scores]. \<not> fl_is_nan (scores ! i)" using assms(1) by simp
  have "sorted_wrt (\<lambda>a b. greedy_cmp scores a b \<noteq> Greater) (greedy_order_of scores)"
    unfolding greedy_order_of_def by (rule greedy_order.sorted_sort_by [OF car])
  then have "greedy_cmp scores (greedy_order_of scores ! a) (greedy_order_of scores ! b) \<noteq> Greater"
    using assms(2,3) by (simp add: sorted_wrt_iff_nth_less greedy_order_props)
  moreover have "greedy_order_of scores ! a < length scores" "greedy_order_of scores ! b < length scores"
    using assms greedy_order_props(2,3) [of scores] nth_mem [of _ "greedy_order_of scores"] by auto
  ultimately show ?thesis
    using assms(1) fl_lt_imp_le fl_not_lt
    by (fastforce simp: greedy_cmp_def then_with_def fl_cmp_def split: if_splits)
qed

lemma greedy_take_drop:
  assumes "\<forall>x \<in> set scores. \<not> fl_is_nan x" "i \<in> set (take k (greedy_order_of scores))"
    "j \<in> set (drop k (greedy_order_of scores))"
  shows "fl_le (scores ! j) (scores ! i)"
proof -
  obtain a where a: "a < k" "a < length scores" "i = greedy_order_of scores ! a"
    using assms(2) by (auto simp: in_set_conv_nth greedy_order_props)
  obtain b where b: "b < length scores - k" "j = greedy_order_of scores ! (k + b)"
    using assms(3) by (auto simp: in_set_conv_nth greedy_order_props)
  show ?thesis
    unfolding a(3) b(2) using a b by (intro greedy_order_sorted [OF assms(1)]) auto
qed

lemma epsilon_greedy_spec:
  assumes run: "epsilon_greedy_sample scores k0 epsilon nx s = Some (out, s')" and k0: "0 < k0"
  defines "k \<equiv> min k0 (length scores)" and "order \<equiv> greedy_order_of scores"
  shows "\<exists>idx ex. out = map (\<lambda>i. \<lparr>sl_index = i, sl_score = scores ! i, sl_explored = (Some i = ex)\<rparr>) idx \<and>
    (idx = take k order \<and> ex = None \<or>
     (\<exists>x \<in> set (drop k order). idx = (take k order)[k - 1 := x] \<and> ex = Some x \<and>
        fl_lt (fst (next_f32 nx s)) epsilon))"
proof -
  obtain u s1 where u: "next_f32 nx s = (u, s1)" by fastforce
  show ?thesis
  proof (cases "fl_lt u epsilon \<and> k < length order")
    case False
    then show ?thesis
      using run u by (auto simp: epsilon_greedy_sample_def Let_def k_def order_def greedy_order_of_def)
  next
    case True
    then obtain r s2 where r: "next_below nx (of_nat (length (drop k order))) s1 = Some (r, s2)"
      using run u by (auto simp: epsilon_greedy_sample_def Let_def k_def order_def greedy_order_of_def split: option.splits)
    show ?thesis
    proof (cases r)
      case None
      then show ?thesis
        using run u r True
        by (intro exI [of _ "take k order"] exI [of _ None]) (auto simp: epsilon_greedy_sample_def Let_def k_def order_def greedy_order_of_def)
    next
      case (Some v)
      have "unat v < length (drop k order)" using next_below_nat [OF r] True Some by simp
      then have "drop k order ! unat v \<in> set (drop k order)" by (rule nth_mem)
      then show ?thesis
        using run u r True Some
        by (intro exI [of _ "(take k order)[k - 1 := drop k order ! unat v]"] exI [of _ "Some (drop k order ! unat v)"])
          (auto simp: epsilon_greedy_sample_def Let_def k_def order_def greedy_order_of_def)
    qed
  qed
qed

section \<open>What a sample is\<close>

lemma distinct_submset:
  assumes "mset xs \<subseteq># mset ys" "distinct ys" shows "distinct xs"
proof -
  obtain zs where "mset ys = mset (xs @ zs)"
    using assms(1) by (metis ex_mset mset_append mset_subset_eq_exists_conv)
  then show ?thesis using assms(2) by (metis distinct_append mset_eq_imp_distinct_iff)
qed

lemma selection_list:
  assumes run: "sample_paths lm scores k policy c nx s = Some (out, s')"
  shows "\<exists>raw. mset out = mset raw \<and> out = sort_by (\<lambda>a b. fl_cmp (sl_score b) (sl_score a)) raw \<and>
    distinct (map sl_index raw) \<and> length raw = min k (length scores) \<and>
    (\<forall>x \<in> set raw. sl_index x < length scores \<and> sl_score x = scores ! sl_index x \<and>
      (policy = Softmax \<longrightarrow> sl_explored x = (Some (sl_index x) \<noteq> argmax scores)))"
proof (cases "scores = [] \<or> k = 0")
  case True
  then show ?thesis using run by (auto simp: sample_paths_def)
next
  case False
  show ?thesis
  proof (cases policy)
    case Softmax
    then obtain raw where raw: "softmax_sample lm scores k (effective_temperature c) nx s = Some (raw, s')"
      and out: "out = sort_by (\<lambda>a b. fl_cmp (sl_score b) (sl_score a)) raw"
      using run False by (auto simp: sample_paths_def)
    obtain idx where idx: "raw = map (mk_selection scores (argmax scores)) idx"
      "length idx = min (min k (length scores)) (length scores)" "mset idx \<subseteq># mset [0..<length scores]"
      using softmax_loop_spec [OF raw [unfolded softmax_sample_def]] by auto
    have "distinct idx"
      using idx(3) by (rule distinct_submset) simp
    moreover have "set idx \<subseteq> {..<length scores}"
      using set_mset_mono [OF idx(3)] by auto
    ultimately show ?thesis
      using idx out by (intro exI [of _ raw]) (auto simp: comp_def)
  next
    case (EpsilonGreedy epsilon)
    then obtain raw where raw: "epsilon_greedy_sample scores k epsilon nx s = Some (raw, s')"
      and out: "out = sort_by (\<lambda>a b. fl_cmp (sl_score b) (sl_score a)) raw"
      using run False by (auto simp: sample_paths_def)
    let ?k = "min k (length scores)" and ?o = "greedy_order_of scores"
    have k: "0 < k" using False by simp
    obtain idx ex where idx: "raw = map (\<lambda>i. \<lparr>sl_index = i, sl_score = scores ! i, sl_explored = (Some i = ex)\<rparr>) idx"
      "idx = take ?k ?o \<or> (\<exists>x \<in> set (drop ?k ?o). idx = (take ?k ?o)[?k - 1 := x])"
      using epsilon_greedy_spec [OF raw k] by blast
    have "distinct idx \<and> set idx \<subseteq> set ?o \<and> length idx = ?k"
      using idx(2) distinct_list_update [of "take ?k ?o"] greedy_order_props(1,3) [of scores]
        set_take_disj_set_drop_if_distinct [of ?o ?k ?k] set_update_subset_insert [of "take ?k ?o"]
        set_take_subset [of ?k ?o] set_drop_subset [of ?k ?o]
      by (auto simp: disjoint_iff) blast
    then show ?thesis
      using idx(1) out greedy_order_props(2) [of scores] EpsilonGreedy
      by (intro exI [of _ raw]) (auto simp: comp_def)
  qed
qed

text \<open>
  A sample of paths is what the routing engine needs: exactly \<open>min k n\<close> candidates,
  no index twice, every index in range with the score it was given, best score first
  (for scores that are numbers); and under softmax the exploration flag is off only for
  a candidate no other beats, so the journal's exploration ratio is truthful.
\<close>

theorem sample_paths_sound:
  assumes run: "sample_paths lm scores k policy c nx s = Some (out, s')"
    and nums: "\<forall>x \<in> set scores. \<not> fl_is_nan x"
  shows "length out = min k (length scores) \<and> distinct (map sl_index out) \<and>
    (\<forall>x \<in> set out. sl_index x < length scores \<and> sl_score x = scores ! sl_index x) \<and>
    sorted_wrt (\<lambda>a b. fl_le (sl_score b) (sl_score a)) out \<and>
    (policy = Softmax \<longrightarrow> (\<forall>x \<in> set out. \<not> sl_explored x \<longrightarrow> (\<forall>y \<in> set scores. fl_le y (sl_score x))))"
proof -
  obtain raw where raw: "mset out = mset raw" "out = sort_by (\<lambda>a b. fl_cmp (sl_score b) (sl_score a)) raw"
    "distinct (map sl_index raw)" "length raw = min k (length scores)"
    "\<forall>x \<in> set raw. sl_index x < length scores \<and> sl_score x = scores ! sl_index x \<and>
      (policy = Softmax \<longrightarrow> sl_explored x = (Some (sl_index x) \<noteq> argmax scores))"
    using selection_list [OF run] by blast
  have set: "set out = set raw" using raw(2) by simp
  have nn: "\<forall>x \<in> set out. \<not> fl_is_nan (sl_score x)" using raw(5) nums set by auto
  have "sorted_wrt (\<lambda>a b. fl_cmp (sl_score b) (sl_score a) \<noteq> Greater) out"
    unfolding raw(2) using nn set by (intro selection_order.sorted_sort_by) auto
  then have sorted: "sorted_wrt (\<lambda>a b. fl_le (sl_score b) (sl_score a)) out"
    by (rule sorted_wrt_mono_rel [rotated]) (use nn in \<open>auto simp: fl_cmp_neq_Greater\<close>)
  have "mset (map sl_index out) = mset (map sl_index raw)" using raw(1) by simp
  then have dist: "distinct (map sl_index out)" using raw(3) by (metis mset_eq_imp_distinct_iff)
  have len: "length out = min k (length scores)" using raw(1,4) by (metis size_mset)
  have best: "fl_le y (sl_score x)" if "policy = Softmax" "x \<in> set out" "\<not> sl_explored x" "y \<in> set scores" for x y
  proof -
    have "argmax scores = Some (sl_index x)" "sl_score x = scores ! sl_index x" using that raw(5) set by auto
    then show ?thesis using argmax_best [of scores] nums that(4) by fastforce
  qed
  show ?thesis using len dist raw(5) set sorted best by blast
qed

text \<open>Sampling returns on the code's generator, whatever the scores and the policy.\<close>

lemma sample_paths_total:
  "\<exists>out g'. sample_paths lm scores k policy c splitmix_next g = Some (out, g')"
proof -
  have "\<exists>out g'. epsilon_greedy_sample scores k e splitmix_next g = Some (out, g')" for e
    using next_below_splitmix [of "of_nat (length (drop (min k (length scores)) (sort_by (greedy_cmp scores) [0..<length scores])))"
        "snd (next_f32 splitmix_next g)"]
    by (auto simp: epsilon_greedy_sample_def Let_def case_prod_beta split: option.splits)
  then show ?thesis
    using softmax_loop_returns [OF next_below_splitmix]
    by (cases policy) (fastforce simp: sample_paths_def softmax_sample_def)+
qed

lemma sample_paths_sound_witness:
  "\<exists>out g'. sample_paths sample_libm [Fin 1, Fin 0, Fin 2] 2 (EpsilonGreedy (Fin 0)) learning_default splitmix_next (seeded 42) = Some (out, g') \<and>
     length out = 2 \<and> distinct (map sl_index out)"
proof -
  obtain out g' where run: "sample_paths sample_libm [Fin 1, Fin 0, Fin 2] 2 (EpsilonGreedy (Fin 0)) learning_default splitmix_next (seeded 42) = Some (out, g')"
    by (auto simp: sample_paths_def epsilon_greedy_sample_def Let_def next_f32_draw case_prod_beta)
  with sample_paths_sound [OF run] show ?thesis by auto
qed

lemma explored_count:
  "distinct idx \<Longrightarrow> length (filter sl_explored (map (\<lambda>i. \<lparr>sl_index = i, sl_score = f i, sl_explored = (Some i = ex)\<rparr>) idx)) \<le> 1"
  by (induction idx) (auto simp: filter_map comp_def filter_empty_conv)

lemma greedy_update_beats:
  assumes nums: "\<forall>x \<in> set scores. \<not> fl_is_nan x" and k: "0 < k" "k \<le> length scores"
    and x: "x \<in> set (drop k (greedy_order_of scores))"
    and i: "i \<in> set ((take k (greedy_order_of scores))[k - 1 := x])" "i \<noteq> x"
    and j: "j < length scores" "j \<notin> set ((take k (greedy_order_of scores))[k - 1 := x])"
  shows "fl_le (scores ! j) (scores ! i)"
proof -
  let ?o = "greedy_order_of scores"
  obtain a where a: "a < k" "a \<noteq> k - 1" "i = ?o ! a"
    using i k by (auto simp: in_set_conv_nth nth_list_update greedy_order_props split: if_splits)
  obtain b where b: "b < length scores" "j = ?o ! b"
    using j(1) greedy_order_props(2,3) [of scores] by (metis in_set_conv_nth lessThan_iff)
  have "k - 1 \<le> b"
  proof (rule ccontr)
    assume "\<not> k - 1 \<le> b"
    then have "(take k ?o)[k - 1 := x] ! b = j" "b < length ((take k ?o)[k - 1 := x])"
      using b k by (simp_all add: greedy_order_props)
    then show False using j(2) nth_mem by metis
  qed
  then show ?thesis
    unfolding a(3) b(2) using a b k by (intro greedy_order_sorted [OF nums]) auto
qed

text \<open>
  Epsilon-greedy is top-k with at most one exploratory pick. When the draw does not
  fall below epsilon, no candidate left out beats one that was chosen and nothing is
  marked explored; whatever the draw, at most one selection is marked explored, and every
  other selection beats or ties every candidate that was left out.
\<close>

theorem epsilon_greedy_top:
  assumes run: "epsilon_greedy_sample scores k epsilon nx s = Some (out, s')" and k: "0 < k"
    and nums: "\<forall>x \<in> set scores. \<not> fl_is_nan x"
  shows "length (filter sl_explored out) \<le> 1 \<and>
    (\<not> fl_lt (fst (next_f32 nx s)) epsilon \<longrightarrow> filter sl_explored out = []) \<and>
    (\<forall>x \<in> set out. \<not> sl_explored x \<longrightarrow>
      (\<forall>j < length scores. j \<notin> sl_index ` set out \<longrightarrow> fl_le (scores ! j) (sl_score x)))"
proof -
  let ?k = "min k (length scores)" and ?o = "greedy_order_of scores"
  obtain idx ex where out: "out = map (\<lambda>i. \<lparr>sl_index = i, sl_score = scores ! i, sl_explored = (Some i = ex)\<rparr>) idx"
    and cases: "idx = take ?k ?o \<and> ex = None \<or>
      (\<exists>x \<in> set (drop ?k ?o). idx = (take ?k ?o)[?k - 1 := x] \<and> ex = Some x \<and> fl_lt (fst (next_f32 nx s)) epsilon)"
    using epsilon_greedy_spec [OF run k] by blast
  have ix: "sl_index ` set out = set idx" by (simp add: out image_image)
  from cases show ?thesis
  proof
    assume top: "idx = take ?k ?o \<and> ex = None"
    have "fl_le (scores ! j) (scores ! i)" if "i \<in> set idx" "j < length scores" "j \<notin> set idx" for i j
    proof -
      have "j \<in> set ?o" using that(2) greedy_order_props(2) by auto
      then have "j \<in> set (drop ?k ?o)"
        using that(3) top by (metis UnE append_take_drop_id set_append)
      with that(1) top show ?thesis using greedy_take_drop [OF nums] by blast
    qed
    then show ?thesis unfolding ix using top by (auto simp: out filter_map comp_def)
  next
    assume "\<exists>x \<in> set (drop ?k ?o). idx = (take ?k ?o)[?k - 1 := x] \<and> ex = Some x \<and> fl_lt (fst (next_f32 nx s)) epsilon"
    then obtain x where x: "x \<in> set (drop ?k ?o)" "idx = (take ?k ?o)[?k - 1 := x]" "ex = Some x"
      "fl_lt (fst (next_f32 nx s)) epsilon" by blast
    have "x \<notin> set (take ?k ?o)"
      using x(1) greedy_order_props(1) [of scores] set_take_disj_set_drop_if_distinct [of ?o ?k ?k] by auto
    then have "distinct idx"
      unfolding x(2) using greedy_order_props(1) [of scores] by (intro distinct_list_update) auto
    moreover have k0: "0 < ?k" using x(1) k by (cases "scores = []") (auto simp: greedy_order_of_def)
    ultimately show ?thesis
      using explored_count [of idx "\<lambda>i. scores ! i" ex] greedy_update_beats [OF nums k0 _ x(1)] x(4)
      unfolding ix by (auto simp: out x(2,3))
  qed
qed

lemma epsilon_greedy_top_witness:
  "\<exists>out g'. epsilon_greedy_sample [Fin 1, Fin 0, Fin 2] 2 (Fin 0) splitmix_next (seeded 42) = Some (out, g') \<and>
     filter sl_explored out = []"
proof -
  obtain out g' where run: "epsilon_greedy_sample [Fin 1, Fin 0, Fin 2] 2 (Fin 0) splitmix_next (seeded 42) = Some (out, g')"
    by (auto simp: epsilon_greedy_sample_def Let_def next_f32_draw case_prod_beta)
  with epsilon_greedy_top [OF run] show ?thesis by (auto simp: next_f32_draw)
qed

end
