(* ===== verification/Synapse.thy ===== *)
theory Synapse
  imports Exploration Signal
begin

text \<open>
  Synapses (\<open>runtime/ntl-core/src/synapse.rs\<close>): the weighted connection to a peer, its
  lifecycle state machine, learning and penalty updates, and its persistent projection
  \<open>SynapseRecord\<close> (\<open>store/mod.rs\<close>). Counters and latencies are 64-bit words that wrap,
  as a release build does. The affinity table is a \<open>HashMap\<close>.
\<close>

section \<open>Data\<close>

datatype SynapseState = Forming | Active | Weakening | Dormant | Pruned

definition can_carry :: "SynapseState \<Rightarrow> bool" where
  "can_carry st \<longleftrightarrow> st = Active \<or> st = Weakening"

definition is_terminal :: "SynapseState \<Rightarrow> bool" where
  "is_terminal st \<longleftrightarrow> st = Pruned"

datatype Transport = Quic | Tcp | UnixSocket | BluetoothLe | CustomTransport string

record SignatureFailureOutcome =
  sf_failures_in_window :: u32
  sf_pruned :: bool

record Synapse =
  sy_id :: SynapseId
  sy_local_node :: NodeId
  sy_remote_node :: NodeId
  sy_weight :: flt
  sy_state :: SynapseState
  sy_transport :: Transport
  sy_established_at_ns :: u64
  sy_last_active_ns :: u64
  sy_signals_transmitted :: u64
  sy_signals_received :: u64
  sy_avg_latency_ns :: u64
  sy_error_rate :: flt
  sy_max_weight :: flt
  sy_decay_rate :: flt
  sy_active_threshold :: flt
  sy_dormancy_threshold :: flt
  sy_attenuation_factor :: flt
  sy_signature_failures :: u32
  sy_failure_window_start_ns :: u64
  sy_type_affinity :: "(string, u64) hashmap"

record SynapseConfig =
  sc_initial_weight :: flt
  sc_max_weight :: flt
  sc_decay_rate :: flt
  sc_active_threshold :: flt
  sc_dormancy_threshold :: flt
  sc_prune_after_hours :: u64
  sc_max_synapses :: u32
  sc_preferred_transport :: Transport
  sc_fallback_transport :: Transport
  sc_attenuation_factor :: flt

definition synapse_config_default :: SynapseConfig where
  "synapse_config_default = \<lparr>sc_initial_weight = lit 0.1, sc_max_weight = lit 1, sc_decay_rate = lit 0.01,
     sc_active_threshold = lit 0.1, sc_dormancy_threshold = lit 0.01, sc_prune_after_hours = 168,
     sc_max_synapses = 1000, sc_preferred_transport = Quic, sc_fallback_transport = Tcp,
     sc_attenuation_factor = lit 0.9\<rparr>"

record SynapseRecord =
  sr_id :: SynapseId
  sr_peer :: NodeId
  sr_weight :: flt
  sr_attenuation_factor :: flt
  sr_state :: SynapseState
  sr_type_affinity :: "(string, u64) hashmap"
  sr_established_at_ns :: u64
  sr_last_active_ns :: u64
  sr_signals_transmitted :: u64
  sr_signals_received :: u64
  sr_avg_latency_ns :: u64
  sr_error_rate :: flt
  sr_signature_failures :: u32
  sr_failure_window_start_ns :: u64

section \<open>Operations\<close>

definition new_with ::
  "ulid_api \<Rightarrow> NodeId \<Rightarrow> NodeId \<Rightarrow> SynapseConfig \<Rightarrow> u64 \<Rightarrow> 's rng \<Rightarrow> 's \<Rightarrow> Synapse \<times> 's" where
  "new_with ul local remote c now nx s =
    (let (hi, s1) = nx s; (lo, s2) = nx s1;
         id_bits = push_bit 64 (ucast hi) OR ucast lo
     in (\<lparr>sy_id = ulid_to_text ul (ulid_from_parts ul (now div 1000000) id_bits),
          sy_local_node = local, sy_remote_node = remote, sy_weight = sc_initial_weight c,
          sy_state = Forming, sy_transport = sc_preferred_transport c,
          sy_established_at_ns = now, sy_last_active_ns = now, sy_signals_transmitted = 0,
          sy_signals_received = 0, sy_avg_latency_ns = 0, sy_error_rate = Fin 0,
          sy_max_weight = sc_max_weight c, sy_decay_rate = sc_decay_rate c,
          sy_active_threshold = sc_active_threshold c,
          sy_dormancy_threshold = sc_dormancy_threshold c,
          sy_attenuation_factor = sc_attenuation_factor c, sy_signature_failures = 0,
          sy_failure_window_start_ns = 0, sy_type_affinity = []\<rparr>, s2))"

definition update_state :: "Synapse \<Rightarrow> Synapse" where
  "update_state s =
    (if sy_state s = Pruned \<or> sy_state s = Forming then s
     else if fl_le (sy_active_threshold s) (sy_weight s) then s\<lparr>sy_state := Active\<rparr>
     else if fl_le (sy_dormancy_threshold s) (sy_weight s) then s\<lparr>sy_state := Weakening\<rparr>
     else s\<lparr>sy_state := Dormant\<rparr>)"

definition strengthen :: "Synapse \<Rightarrow> flt \<Rightarrow> flt \<Rightarrow> Synapse" where
  "strengthen s signal_weight factor =
    (let delta = fl_mul b32 signal_weight factor
     in update_state (s\<lparr>sy_weight := fl_min (fl_add b32 (sy_weight s) delta) (sy_max_weight s)\<rparr>))"

definition weaken_failure :: "Synapse \<Rightarrow> Synapse" where
  "weaken_failure s = update_state (s\<lparr>sy_weight := fl_mul b32 (sy_weight s) (lit 0.9),
     sy_error_rate := fl_add b32 (fl_mul b32 (sy_error_rate s) (lit 0.9)) (lit 0.1)\<rparr>)"

definition decay :: "Synapse \<Rightarrow> Synapse" where
  "decay s = update_state (s\<lparr>sy_weight := fl_mul b32 (sy_weight s) (fl_sub b32 (Fin 1) (sy_decay_rate s))\<rparr>)"

text \<open>\<open>*entry(k).or_insert(0) += 1\<close>\<close>

definition bump :: "string \<Rightarrow> (string, u64) hashmap \<Rightarrow> (string, u64) hashmap" where
  "bump k m = AList.update k ((case map_of m k of Some n \<Rightarrow> n | None \<Rightarrow> 0) + 1) m"

definition record_transmission :: "Synapse \<Rightarrow> u64 \<Rightarrow> string \<Rightarrow> u64 \<Rightarrow> Synapse" where
  "record_transmission s latency signal_type now =
    s\<lparr>sy_signals_transmitted := sy_signals_transmitted s + 1, sy_last_active_ns := now,
      sy_avg_latency_ns := (if sy_avg_latency_ns s = 0 then latency
        else (sy_avg_latency_ns s * 9 + latency) div 10),
      sy_type_affinity := bump signal_type (sy_type_affinity s),
      sy_error_rate := fl_mul b32 (sy_error_rate s) (lit 0.99)\<rparr>"

definition record_reception :: "Synapse \<Rightarrow> u64 \<Rightarrow> Synapse" where
  "record_reception s now = s\<lparr>sy_signals_received := sy_signals_received s + 1, sy_last_active_ns := now\<rparr>"

definition affinity_for :: "Synapse \<Rightarrow> string \<Rightarrow> flt" where
  "affinity_for s signal_type =
    (let total = sum_list (hm_values (sy_type_affinity s))
     in if total = 0 then Fin 0
        else let count = (case map_of (sy_type_affinity s) signal_type of Some n \<Rightarrow> n | None \<Rightarrow> 0)
             in fl_div b32 (fl_of_nat b32 (unat count)) (fl_of_nat b32 (unat total)))"

definition activate :: "Synapse \<Rightarrow> Synapse" where
  "activate s = (if sy_state s = Forming then s\<lparr>sy_state := Active\<rparr> else s)"

definition reactivate :: "Synapse \<Rightarrow> SynapseConfig \<Rightarrow> Synapse" where
  "reactivate s c = (if sy_state s = Dormant
     then s\<lparr>sy_weight := sc_initial_weight c, sy_state := Active\<rparr> else s)"

definition to_record :: "Synapse \<Rightarrow> SynapseRecord" where
  "to_record s = \<lparr>sr_id = sy_id s, sr_peer = sy_remote_node s, sr_weight = sy_weight s,
     sr_attenuation_factor = sy_attenuation_factor s, sr_state = sy_state s,
     sr_type_affinity = sy_type_affinity s, sr_established_at_ns = sy_established_at_ns s,
     sr_last_active_ns = sy_last_active_ns s, sr_signals_transmitted = sy_signals_transmitted s,
     sr_signals_received = sy_signals_received s, sr_avg_latency_ns = sy_avg_latency_ns s,
     sr_error_rate = sy_error_rate s, sr_signature_failures = sy_signature_failures s,
     sr_failure_window_start_ns = sy_failure_window_start_ns s\<rparr>"

definition from_record :: "SynapseRecord \<Rightarrow> NodeId \<Rightarrow> SynapseConfig \<Rightarrow> Synapse" where
  "from_record r local c = \<lparr>sy_id = sr_id r, sy_local_node = local, sy_remote_node = sr_peer r,
     sy_weight = sr_weight r, sy_state = sr_state r, sy_transport = sc_preferred_transport c,
     sy_established_at_ns = sr_established_at_ns r, sy_last_active_ns = sr_last_active_ns r,
     sy_signals_transmitted = sr_signals_transmitted r, sy_signals_received = sr_signals_received r,
     sy_avg_latency_ns = sr_avg_latency_ns r, sy_error_rate = sr_error_rate r,
     sy_max_weight = sc_max_weight c, sy_decay_rate = sc_decay_rate c,
     sy_active_threshold = sc_active_threshold c, sy_dormancy_threshold = sc_dormancy_threshold c,
     sy_attenuation_factor = sr_attenuation_factor r, sy_signature_failures = sr_signature_failures r,
     sy_failure_window_start_ns = sr_failure_window_start_ns r, sy_type_affinity = sr_type_affinity r\<rparr>"

text \<open>\<open>None\<close> is the panic of the clamp in \<open>apply_reward\<close>.\<close>

definition apply_outcome ::
  "Synapse \<Rightarrow> Outcome \<Rightarrow> flt \<Rightarrow> string \<Rightarrow> flt \<Rightarrow> LearningConfig \<Rightarrow> (WeightUpdate \<times> Synapse) option" where
  "apply_outcome s out signal_weight signal_type used c =
    (case apply_reward (sy_weight s) out signal_weight used c of
       None \<Rightarrow> None
     | Some u \<Rightarrow>
        (let s1 = s\<lparr>sy_weight := fl_min (wu_after u) (sy_max_weight s)\<rparr>;
             aff = affinity_for s1 signal_type;
             upd = apply_affinity_update aff out c;
             s2 = (if fl_lt aff upd then s1\<lparr>sy_type_affinity := bump signal_type (sy_type_affinity s1)\<rparr> else s1)
         in Some (u, update_state s2)))"

text \<open>Count one failure in the current influence window; an elapsed window starts a fresh count.\<close>

definition count_failure :: "Synapse \<Rightarrow> u64 \<Rightarrow> LearningConfig \<Rightarrow> Synapse" where
  "count_failure s now c =
    (if sy_failure_window_start_ns s < influence_window_start c now
     then s\<lparr>sy_failure_window_start_ns := now, sy_signature_failures := 1\<rparr>
     else s\<lparr>sy_signature_failures := sat_add (sy_signature_failures s) 1\<rparr>)"

definition apply_signature_failure :: "Synapse \<Rightarrow> u64 \<Rightarrow> LearningConfig \<Rightarrow> SignatureFailureOutcome \<times> Synapse" where
  "apply_signature_failure s now c =
    (let s2 = count_failure (s\<lparr>sy_weight := apply_signature_penalty (sy_weight s) c\<rparr>) now c
     in if lc_signature_failure_prune_threshold c \<le> sy_signature_failures s2
        then (\<lparr>sf_failures_in_window = sy_signature_failures s2, sf_pruned = True\<rparr>,
              s2\<lparr>sy_state := Pruned, sy_last_active_ns := now\<rparr>)
        else (\<lparr>sf_failures_in_window = sy_signature_failures s2, sf_pruned = False\<rparr>, update_state s2))"

definition synapse_decayed_weight :: "libm \<Rightarrow> Synapse \<Rightarrow> u64 \<Rightarrow> LearningConfig \<Rightarrow> flt" where
  "synapse_decayed_weight lm s now c = decayed_weight lm (sy_weight s) (sy_last_active_ns s) now c"

definition apply_decay :: "libm \<Rightarrow> Synapse \<Rightarrow> u64 \<Rightarrow> LearningConfig \<Rightarrow> Synapse" where
  "apply_decay lm s now c = update_state (s\<lparr>sy_weight := synapse_decayed_weight lm s now c\<rparr>)"

section \<open>The lifecycle\<close>

text \<open>Every operation of the live struct that changes it, as a step relation.\<close>

inductive syn_step :: "Synapse \<Rightarrow> Synapse \<Rightarrow> bool" where
  Strengthen: "syn_step s (strengthen s w f)"
| Weaken: "syn_step s (weaken_failure s)"
| Decay: "syn_step s (decay s)"
| Transmit: "syn_step s (record_transmission s l t now)"
| Receive: "syn_step s (record_reception s now)"
| Activate: "syn_step s (activate s)"
| Reactivate: "syn_step s (reactivate s c)"
| Outcome: "apply_outcome s r w t used c = Some (u, s') \<Longrightarrow> syn_step s s'"
| Signature_failure: "syn_step s (snd (apply_signature_failure s now c))"
| Half_life: "syn_step s (apply_decay lm s now c)"

inductive_cases syn_stepE: "syn_step s s'"

lemma update_state_state: "sy_state (update_state s) =
  (if sy_state s \<in> {Pruned, Forming} then sy_state s
   else if fl_le (sy_active_threshold s) (sy_weight s) then Active
   else if fl_le (sy_dormancy_threshold s) (sy_weight s) then Weakening else Dormant)"
  by (simp add: update_state_def)

lemma update_state_fields [frame_facts, simp]:
  "sy_weight (update_state s) = sy_weight s" "sy_id (update_state s) = sy_id s"
  "sy_remote_node (update_state s) = sy_remote_node s" "sy_max_weight (update_state s) = sy_max_weight s"
  "sy_type_affinity (update_state s) = sy_type_affinity s"
  "sy_signature_failures (update_state s) = sy_signature_failures s"
  "sy_failure_window_start_ns (update_state s) = sy_failure_window_start_ns s"
  "sy_last_active_ns (update_state s) = sy_last_active_ns s"
  "sy_active_threshold (update_state s) = sy_active_threshold s"
  "sy_dormancy_threshold (update_state s) = sy_dormancy_threshold s"
  by (simp_all add: update_state_def)

text \<open>The moves the state machine allows.\<close>

definition state_move :: "SynapseState \<Rightarrow> SynapseState \<Rightarrow> bool" where
  "state_move a b \<longleftrightarrow> (case a of
     Pruned \<Rightarrow> b = Pruned
   | Forming \<Rightarrow> b \<in> {Forming, Active, Pruned}
   | _ \<Rightarrow> b \<noteq> Forming)"

lemma apply_outcome_state:
  "apply_outcome s r w t used c = Some (u, s') \<Longrightarrow> \<exists>s2. s' = update_state s2 \<and> sy_state s2 = sy_state s"
  by (auto simp: apply_outcome_def Let_def split: option.splits)

lemma signature_failure_kinds:
  "(\<exists>s2. snd (apply_signature_failure s now c) = update_state s2 \<and> sy_state s2 = sy_state s) \<or>
   sy_state (snd (apply_signature_failure s now c)) = Pruned \<and>
   lc_signature_failure_prune_threshold c \<le> sy_signature_failures (snd (apply_signature_failure s now c))"
proof -
  have "sy_state (count_failure s1 now c) = sy_state s1" for s1 by (simp add: count_failure_def)
  then show ?thesis by (auto simp: apply_signature_failure_def Let_def)
qed

lemma step_kinds:
  assumes "syn_step s s'"
  obtains (weight) s2 where "s' = update_state s2" "sy_state s2 = sy_state s"
  | (same) "sy_state s' = sy_state s"
  | (handshake) "s' = activate s"
  | (revived) "sy_state s = Dormant" "sy_state s' = Active"
  | (pruned) now c where "sy_state s' = Pruned" "s' = snd (apply_signature_failure s now c)"
      "lc_signature_failure_prune_threshold c \<le> sy_signature_failures s'"
  using assms
proof cases
  case (Outcome r w t used c u)
  then show ?thesis using apply_outcome_state that(1) by blast
next
  case (Signature_failure now c)
  then show ?thesis
    using signature_failure_kinds [of s now c] that(1,5) by auto
next
  case (Reactivate c)
  then show ?thesis using that(2,4) by (auto simp: reactivate_def split: if_splits)
qed (use that(1-3) in \<open>auto simp: strengthen_def weaken_failure_def decay_def record_transmission_def
    record_reception_def apply_decay_def Let_def\<close>)

lemma state_move_weight: "sy_state s2 = a \<Longrightarrow> state_move a (sy_state (update_state s2))"
  by (cases a) (simp_all add: state_move_def update_state_state)

lemma state_move_activate: "state_move (sy_state s) (sy_state (activate s))"
  by (cases "sy_state s") (simp_all add: state_move_def activate_def)

lemma state_move_pruned: "state_move a Pruned"
  by (cases a) (simp_all add: state_move_def)

lemma syn_step_move: "syn_step s s' \<Longrightarrow> state_move (sy_state s) (sy_state s')"
  by (erule step_kinds)
    (simp_all add: state_move_weight state_move_activate state_move_pruned, simp_all add: state_move_def split: SynapseState.split)



lemma pruned_forever: "syn_step\<^sup>*\<^sup>* s s' \<Longrightarrow> sy_state s = Pruned \<Longrightarrow> sy_state s' = Pruned"
  by (induction rule: rtranclp_induct) (auto dest!: syn_step_move simp: state_move_def)

section \<open>Signature failures\<close>

definition fail_at :: "LearningConfig \<Rightarrow> Synapse \<Rightarrow> u64 \<Rightarrow> Synapse" where
  "fail_at c s now = snd (apply_signature_failure s now c)"

lemma signature_failure_fields:
  "sy_signature_failures (fail_at c s now) =
     (if sy_failure_window_start_ns s < influence_window_start c now then 1 else sat_add (sy_signature_failures s) 1)"
  "sy_failure_window_start_ns (fail_at c s now) =
     (if sy_failure_window_start_ns s < influence_window_start c now then now else sy_failure_window_start_ns s)"
  "sf_pruned (fst (apply_signature_failure s now c)) \<longleftrightarrow>
     lc_signature_failure_prune_threshold c \<le> sy_signature_failures (fail_at c s now)"
  "sf_failures_in_window (fst (apply_signature_failure s now c)) = sy_signature_failures (fail_at c s now)"
  by (simp_all add: fail_at_def apply_signature_failure_def count_failure_def Let_def)

lemma signature_failure_pruned:
  "lc_signature_failure_prune_threshold c \<le> sy_signature_failures (fail_at c s now) \<Longrightarrow>
    sy_state (fail_at c s now) = Pruned \<and> sy_last_active_ns (fail_at c s now) = now"
  "\<not> lc_signature_failure_prune_threshold c \<le> sy_signature_failures (fail_at c s now) \<Longrightarrow>
    sy_state s \<noteq> Pruned \<Longrightarrow> sy_state (fail_at c s now) \<noteq> Pruned"
  by (auto simp: fail_at_def apply_signature_failure_def count_failure_def Let_def update_state_state split: if_splits)

lemma fail_at_run:
  "\<forall>t \<in> set ts. influence_window_start c t \<le> sy_failure_window_start_ns s \<Longrightarrow>
   unat (sy_signature_failures s) + length ts < 2 ^ 32 \<Longrightarrow>
   unat (sy_signature_failures (foldl (fail_at c) s ts)) = unat (sy_signature_failures s) + length ts \<and>
   sy_failure_window_start_ns (foldl (fail_at c) s ts) = sy_failure_window_start_ns s"
proof (induction ts arbitrary: s)
  case (Cons t ts)
  have w: "\<not> sy_failure_window_start_ns s < influence_window_start c t" using Cons.prems(1) by (simp add: not_less)
  then have "unat (sy_signature_failures (fail_at c s t)) = unat (sy_signature_failures s) + 1"
    using Cons.prems(2) by (simp add: signature_failure_fields unat_sat_add)
  moreover have "sy_failure_window_start_ns (fail_at c s t) = sy_failure_window_start_ns s"
    using w by (simp add: signature_failure_fields)
  ultimately show ?case using Cons.IH [of "fail_at c s t"] Cons.prems by simp
qed simp

text \<open>
  A synapse is pruned by exactly the configured number of signature failures in one
  window. The first failure after the window has elapsed starts a fresh count at its own
  time; if it and all later ones fall in one influence window, the synapse is \<open>Pruned\<close>
  after them if and only if their number has reached the threshold. Failures spread
  further apart do not accumulate.
\<close>

theorem signature_failures_prune:
  assumes live: "sy_state s \<noteq> Pruned" and fresh: "sy_failure_window_start_ns s < influence_window_start c t"
    and window: "\<forall>t' \<in> set ts. influence_window_start c t' \<le> t" and bound: "length ts < 2 ^ 32 - 1"
    and threshold: "0 < lc_signature_failure_prune_threshold c"
  shows "sy_state (foldl (fail_at c) s (t # ts)) = Pruned \<longleftrightarrow>
    unat (lc_signature_failure_prune_threshold c) \<le> length (t # ts)"
proof -
  let ?n = "lc_signature_failure_prune_threshold c"
  have first: "sy_signature_failures (fail_at c s t) = 1" "sy_failure_window_start_ns (fail_at c s t) = t"
    using fresh by (simp_all add: signature_failure_fields)
  have run: "unat (sy_signature_failures (foldl (fail_at c) (fail_at c s t) us)) = length us + 1 \<and>
      sy_failure_window_start_ns (foldl (fail_at c) (fail_at c s t) us) = t" if "set us \<subseteq> set ts" "length us \<le> length ts" for us
    using fail_at_run [of us c "fail_at c s t"] that window bound first by auto
  have "sy_state (foldl (fail_at c) (fail_at c s t) us) = Pruned \<longleftrightarrow> unat ?n \<le> length us + 1"
    if "set us \<subseteq> set ts" "length us \<le> length ts" for us
    using that
  proof (induction us rule: rev_induct)
    case Nil
    show ?case
      using signature_failure_pruned [of c s t] live first by (auto simp: word_le_nat_alt)
  next
    case (snoc u us)
    let ?s = "foldl (fail_at c) (fail_at c s t) us"
    have n: "unat (sy_signature_failures (fail_at c ?s u)) = length us + 2"
      using run [of "us @ [u]"] snoc.prems by simp
    have ih: "sy_state ?s = Pruned \<longleftrightarrow> unat ?n \<le> length us + 1" using snoc by simp
    show ?case
    proof (cases "unat ?n \<le> length us + 2")
      case True
      then show ?thesis using signature_failure_pruned(1) [of c ?s u] n by (simp add: word_le_nat_alt)
    next
      case False
      then show ?thesis using signature_failure_pruned(2) [of c ?s u] n ih by (simp add: word_le_nat_alt)
    qed
  qed
  from this [of ts] show ?thesis by simp
qed

definition sample_synapse :: Synapse where
  "sample_synapse = from_record \<lparr>sr_id = ''a'', sr_peer = [2], sr_weight = Fin (1/2),
     sr_attenuation_factor = Fin 1, sr_state = Active, sr_type_affinity = [], sr_established_at_ns = 0,
     sr_last_active_ns = 0, sr_signals_transmitted = 0, sr_signals_received = 0, sr_avg_latency_ns = 0,
     sr_error_rate = Fin 0, sr_signature_failures = 3, sr_failure_window_start_ns = 0\<rparr>
     [1] synapse_config_default"

lemma signature_failures_prune_witness:
  "sy_state (foldl (fail_at learning_default) sample_synapse
     [10000000000000, 10000000000001, 10000000000002, 10000000000003, 10000000000004]) = Pruned"
proof -
  have d: "lc_influence_window_secs learning_default = 3600" "lc_signature_failure_prune_threshold learning_default = 5"
    by (simp_all add: learning_default_def learning_for_class_def)
  have "influence_window_start learning_default t = t - 3600000000000" if "3600000000000 \<le> t" for t
    using that leD [OF that] by (simp add: influence_window_start_def d sat_mul_def sat_sub_def)
  then show ?thesis
    using signature_failures_prune [of sample_synapse learning_default 10000000000000
        "[10000000000001, 10000000000002, 10000000000003, 10000000000004]"]
    by (simp add: d sample_synapse_def from_record_def word_less_nat_alt word_le_nat_alt)
qed

section \<open>Weights stay weights\<close>

definition weight_ok :: "Synapse \<Rightarrow> bool" where
  "weight_ok s \<longleftrightarrow> fl_wf b32 (sy_weight s) \<and> in_unit (sy_weight s) \<and>
     fl_wf b32 (sy_max_weight s) \<and> in_unit (sy_max_weight s)"

text \<open>
  The updates a node applies, for its learning and synapse configuration; receipts carry
  a signal weight and an influence total that are numbers.
\<close>

inductive live_step :: "libm \<Rightarrow> LearningConfig \<Rightarrow> SynapseConfig \<Rightarrow> Synapse \<Rightarrow> Synapse \<Rightarrow> bool"
  for lm c sc where
  Learn: "apply_outcome s r w t used c = Some (u, s') \<Longrightarrow> \<not> fl_is_nan w \<Longrightarrow> fl_le (Fin 0) used \<Longrightarrow>
    live_step lm c sc s s'"
| Punish: "live_step lm c sc s (snd (apply_signature_failure s now c))"
| Age: "live_step lm c sc s (apply_decay lm s now c)"
| Handshake: "live_step lm c sc s (activate s)"
| Revive: "live_step lm c sc s (reactivate s sc)"

lemma count_failure_weight [simp]:
  "sy_weight (count_failure s now c) = sy_weight s" "sy_max_weight (count_failure s now c) = sy_max_weight s"
  by (simp_all add: count_failure_def)

lemma signature_failure_weight:
  "sy_weight (snd (apply_signature_failure s now c)) = apply_signature_penalty (sy_weight s) c"
  "sy_max_weight (snd (apply_signature_failure s now c)) = sy_max_weight s"
  by (simp_all add: apply_signature_failure_def Let_def)

lemma apply_outcome_weight:
  "apply_outcome s r w t used c = Some (u, s') \<Longrightarrow>
   apply_reward (sy_weight s) r w used c = Some u \<and> sy_weight s' = fl_min (wu_after u) (sy_max_weight s) \<and>
   sy_max_weight s' = sy_max_weight s"
  by (auto simp: apply_outcome_def Let_def split: option.splits)

lemma min_weight_unit:
  assumes "learning_validate c = Inr ()" "config_numbers c" "fl_le (lc_max_weight c) (Fin 1)"
  shows "fl_wf b32 (lc_min_weight c)" "in_unit (lc_min_weight c)"
proof -
  note b = learning_validate_bounds [OF assms(1,2)]
  show "fl_wf b32 (lc_min_weight c)" "in_unit (lc_min_weight c)"
    using assms(2,3) b(1,2) fl_lt_imp_le fl_le_trans [OF fl_lt_imp_le [OF b(2)]]
    by (auto simp: config_numbers_def)
qed

lemma weight_ok_facts: "weight_ok s \<Longrightarrow> fl_wf b32 (sy_weight s) \<and> fl_is_finite (sy_weight s) \<and> fl_le (Fin 0) (sy_weight s)"
  using in_unit_finite by (auto simp: weight_ok_def)

lemma learn_weight_ok:
  assumes valid: "learning_validate c = Inr ()" "config_numbers c" "fl_le (lc_max_weight c) (Fin 1)"
    and run: "apply_outcome s r w t used c = Some (u, s')" and nums: "\<not> fl_is_nan w" "fl_le (Fin 0) used"
    and s: "weight_ok s"
  shows "weight_ok s'" "\<not> fl_is_nan (wu_applied_delta u)"
proof -
  note a = apply_outcome_weight [OF run] and w = weight_ok_facts [OF s]
  have after: "fl_wf b32 (wu_after u)" "fl_le (lc_min_weight c) (wu_after u)" "fl_le (wu_after u) (lc_max_weight c)"
    using apply_reward_range [OF valid(1,2) _ _ nums] a w by blast+
  then have "fl_wf b32 (wu_after u) \<and> in_unit (wu_after u)"
    using min_weight_unit [OF valid] valid(3) fl_le_trans by blast
  then show "weight_ok s'"
    using a s fl_min_cases [of "wu_after u" "sy_max_weight s"] by (auto simp: weight_ok_def)
  have "fl_is_finite (wu_after u)" using \<open>_ \<and> in_unit (wu_after u)\<close> in_unit_finite by blast
  then show "\<not> fl_is_nan (wu_applied_delta u)"
    using a w by (auto simp: apply_reward_def Let_def fl_sub_def fl_add_nan_iff split: prod.splits option.splits)
qed

lemma punish_weight_ok:
  assumes valid: "learning_validate c = Inr ()" "config_numbers c" "fl_le (lc_max_weight c) (Fin 1)"
    and s: "weight_ok s"
  shows "weight_ok (snd (apply_signature_failure s now c))"
proof -
  note w = weight_ok_facts [OF s] and mn = min_weight_unit [OF valid]
  have mx: "in_unit (fl_max (sy_weight s) (lc_min_weight c))"
    using s mn fl_max_cases [of "sy_weight s" "lc_min_weight c"] by (auto simp: weight_ok_def)
  have "in_unit (apply_signature_penalty (sy_weight s) c)"
    using signature_penalty_bounds [OF valid(1,2)] w mn mx fl_le_trans by blast
  moreover have "fl_wf b32 (apply_signature_penalty (sy_weight s) c)"
    using mn by (simp add: apply_signature_penalty_def fl_wf_max fl_wf_mul)
  ultimately show ?thesis using s by (simp add: weight_ok_def signature_failure_weight)
qed

text \<open>
  Weights stay in \<open>[0, 1]\<close> for ever. Under a valid learning configuration whose upper
  bound is at most 1 and an initial weight in the unit interval, every synapse reachable
  from one with a proper weight by outcomes, penalties, decay, activation and
  reactivation has a weight that is a number of the unit interval: it never becomes NaN,
  negative or infinite.
\<close>

theorem live_weight_unit:
  assumes valid: "learning_validate c = Inr ()" "config_numbers c" "fl_le (lc_max_weight c) (Fin 1)"
    and init: "fl_wf b32 (sc_initial_weight sc)" "in_unit (sc_initial_weight sc)"
    and exp2: "\<And>x. fl_le x (Fin 0) \<Longrightarrow> in_unit (lm_exp2 lm x)"
    and reach: "(live_step lm c sc)\<^sup>*\<^sup>* s s'" and start: "weight_ok s"
  shows "weight_ok s'"
  using reach start
proof (induction rule: rtranclp_induct)
  case (step y z)
  then have y: "weight_ok y" by blast
  from step(2) show ?case
  proof cases
    case (Learn r w t used u)
    then show ?thesis using learn_weight_ok [OF valid] y by blast
  next
    case (Punish now)
    then show ?thesis using punish_weight_ok [OF valid y] by simp
  next
    case (Age now)
    let ?w = "decayed_weight lm (sy_weight y) (sy_last_active_ns y) now c"
    note yw = weight_ok_facts [OF y] and mn = min_weight_unit [OF valid]
    have mx: "in_unit (fl_max (sy_weight y) (lc_min_weight c))"
      using y mn fl_max_cases [of "sy_weight y" "lc_min_weight c"] by (auto simp: weight_ok_def)
    have "in_unit ?w"
      using decayed_bounds [OF valid(1,2) _ _ _ exp2, of "sy_weight y" now "sy_last_active_ns y"] yw y mn mx fl_le_trans
      by (cases "now \<le> sy_last_active_ns y") (auto simp: weight_ok_def)
    moreover have "fl_wf b32 ?w"
      using yw mn by (simp add: decayed_weight_def Let_def fl_wf_max fl_wf_mul)
    ultimately show ?thesis
      using y by (simp add: Age apply_decay_def synapse_decayed_weight_def weight_ok_def)
  qed (use y init in \<open>auto simp: activate_def reactivate_def weight_ok_def\<close>)
qed simp

lemma lit_unit: "0 \<le> r \<Longrightarrow> r \<le> 1 \<Longrightarrow> in_unit (lit r)"
  by (simp add: lit_def fl_le_packI fl_pack_leI)

lemma live_weight_unit_witness:
  "weight_ok (apply_decay sample_libm (snd (apply_signature_failure sample_synapse 9 learning_default)) 77 learning_default)"
proof (rule live_weight_unit)
  show "(live_step sample_libm learning_default synapse_config_default)\<^sup>*\<^sup>* sample_synapse
      (apply_decay sample_libm (snd (apply_signature_failure sample_synapse 9 learning_default)) 77 learning_default)"
    by (meson live_step.Age live_step.Punish rtranclp.rtrancl_into_rtrancl rtranclp.rtrancl_refl)
  show "fl_le (lc_max_weight learning_default) (Fin 1)" by (simp add: learning_default_bounds)
  show "weight_ok sample_synapse"
    by (simp add: weight_ok_def sample_synapse_def from_record_def synapse_config_default_def lit_unit)
qed (simp_all add: learning_default_valid synapse_config_default_def lit_unit sample_libm_def)

section \<open>Persistence and affinity\<close>

text \<open>
  The persistent record loses nothing. Writing a synapse and reading it back under the
  node's identity and configuration restores it exactly when its configuration fields
  are the node's; and reading a record and writing it back is the identity for every
  record, identity and configuration.
\<close>

theorem record_roundtrip:
  "to_record (from_record r local sc) = r \<and>
   (from_record (to_record s) local sc = s \<longleftrightarrow>
     sy_local_node s = local \<and> sy_transport s = sc_preferred_transport sc \<and> sy_max_weight s = sc_max_weight sc \<and>
     sy_decay_rate s = sc_decay_rate sc \<and> sy_active_threshold s = sc_active_threshold sc \<and>
     sy_dormancy_threshold s = sc_dormancy_threshold sc)"
  by (cases r; cases s) (auto simp: to_record_def from_record_def)

lemma sum_list_member_le:
  fixes x :: "'a::len word"
  assumes "x \<in> set xs" "sum_list (map unat xs) < 2 ^ LENGTH('a)"
  shows "unat (sum_list xs) = sum_list (map unat xs)" and "unat x \<le> unat (sum_list xs)"
proof -
  have "unat (sum_list ys) = sum_list (map unat ys)" if "sum_list (map unat ys) < 2 ^ LENGTH('a)" for ys :: "'a word list"
    using that
  proof (induction ys)
    case (Cons y ys)
    then show ?case by (simp add: unat_word_ariths)
  qed simp
  then show eq: "unat (sum_list xs) = sum_list (map unat xs)" using assms(2) by blast
  show "unat x \<le> unat (sum_list xs)"
    unfolding eq using assms(1) by (simp add: member_le_sum_list)
qed

lemma fl_of_nat_u64:
  fixes m n :: u64
  shows "fl_is_finite (fl_of_nat b32 (unat n))"
    and "m \<le> n \<Longrightarrow> fl_val (fl_of_nat b32 (unat m)) \<le> fl_val (fl_of_nat b32 (unat n))"
    and "n \<noteq> 0 \<Longrightarrow> 1 \<le> fl_val (fl_of_nat b32 (unat n))"
    and "0 \<le> fl_val (fl_of_nat b32 (unat n))"
proof -
  have top: "fl_wf b32 (Fin (2 ^ 64))"
    using rnd_b32_int [of 1 64] by (simp add: fl_wf_def pow2_def b32_def)
  have fin: "fl_is_finite (fl_of_nat b32 (unat k))" for k :: u64
  proof -
    have "unat k \<le> 2 ^ 64" using unat_bound [of k] by simp
    then have "(of_nat (unat k) :: rat) \<le> 2 ^ 64"
      by (metis of_nat_le_iff of_nat_numeral of_nat_power)
    then have "fl_le (fl_of_nat b32 (unat k)) (Fin (2 ^ 64))"
      unfolding fl_of_nat_def using top by (intro fl_pack_leI) simp_all
    with fl_of_nat_nonneg [of b32 "unat k"] show ?thesis
      using between_finite [of "Fin 0" _ "Fin (2 ^ 64)"] by simp
  qed
  show "fl_is_finite (fl_of_nat b32 (unat n))" by (rule fin)
  show "0 \<le> fl_val (fl_of_nat b32 (unat n))"
    using fl_of_nat_nonneg [of b32 "unat n"] fin [of n] by (simp add: fl_le_finite)
  show "fl_val (fl_of_nat b32 (unat m)) \<le> fl_val (fl_of_nat b32 (unat n))" if "m \<le> n"
  proof -
    have "(of_nat (unat m) :: rat) \<le> of_nat (unat n)"
      using that by (simp only: of_nat_le_iff word_le_nat_alt)
    then have "fl_le (fl_of_nat b32 (unat m)) (fl_of_nat b32 (unat n))"
      unfolding fl_of_nat_def by (intro fl_pack_mono) simp
    then show ?thesis using fin by (simp add: fl_le_finite)
  qed
  show "1 \<le> fl_val (fl_of_nat b32 (unat n))" if "n \<noteq> 0"
  proof -
    have "1 \<le> unat n" using that by (simp add: unat_gt_0 Suc_le_eq)
    then have "(1::rat) \<le> of_nat (unat n)" by (metis of_nat_1 of_nat_le_iff)
    then have "fl_le (Fin 1) (fl_of_nat b32 (unat n))"
      unfolding fl_of_nat_def by (intro fl_le_packI) simp_all
    then show ?thesis using fin by (simp add: fl_le_finite)
  qed
qed

text \<open>A share of counts, computed in single precision, is a number of the unit interval.\<close>

lemma share_unit:
  fixes m n :: u64
  assumes le: "m \<le> n" and n: "n \<noteq> 0"
  shows "in_unit (fl_div b32 (fl_of_nat b32 (unat m)) (fl_of_nat b32 (unat n)))"
    "m = 0 \<Longrightarrow> fl_val (fl_div b32 (fl_of_nat b32 (unat m)) (fl_of_nat b32 (unat n))) = 0"
proof -
  define a where "a = fl_of_nat b32 (unat m)"
  define b where "b = fl_of_nat b32 (unat n)"
  have ab: "fl_is_finite a" "fl_is_finite b" "0 \<le> fl_val a" "fl_val a \<le> fl_val b" "1 \<le> fl_val b"
    unfolding a_def b_def using fl_of_nat_u64(1,4) fl_of_nat_u64(2) [OF le] fl_of_nat_u64(3) [OF n] by blast+
  then have "fl_val b \<noteq> 0" by linarith
  then have d: "fl_div b32 a b = fl_pack b32 (fl_sign a \<noteq> fl_sign b) (fl_val a / fl_val b)"
    using ab(1,2) by (simp add: fl_div_finite)
  have "in_unit (fl_div b32 a b)"
    unfolding d using ab by (intro conjI fl_le_packI fl_pack_leI) simp_all
  then show "in_unit (fl_div b32 (fl_of_nat b32 (unat m)) (fl_of_nat b32 (unat n)))" by (simp add: a_def b_def)
  show "fl_val (fl_div b32 (fl_of_nat b32 (unat m)) (fl_of_nat b32 (unat n))) = 0" if "m = 0"
  proof -
    have "fl_val a = 0" using that by (simp add: a_def fl_of_nat_def fl_pack_def)
    then show ?thesis using d by (simp add: fl_pack_def flip: a_def b_def)
  qed
qed

lemma share_unit_nat:
  assumes "a \<le> b" "0 < b" "b < 2 ^ 64"
  shows "in_unit (fl_div b32 (fl_of_nat b32 a) (fl_of_nat b32 b))"
proof -
  have v: "unat (of_nat a :: u64) = a" "unat (of_nat b :: u64) = b"
    using assms by (simp_all add: unat_of_nat)
  then have "(of_nat a :: u64) \<le> of_nat b" "(of_nat b :: u64) \<noteq> 0"
    using assms by (auto simp: word_le_nat_alt)
  from share_unit(1) [OF this] show ?thesis by (simp only: v)
qed

text \<open>
  Affinity is a ratio: while the success counts sum to less than \<open>2 ^ 64\<close>, the affinity
  of every signal type lies in \<open>[0, 1]\<close>, rounding included, and it is 0 for a type never
  delivered.
\<close>

theorem affinity_unit:
  assumes "hm_wf (sy_type_affinity s)" and "sum_list (map unat (hm_values (sy_type_affinity s))) < 2 ^ 64"
  shows "in_unit (affinity_for s t) \<and> (map_of (sy_type_affinity s) t = None \<longrightarrow> fl_val (affinity_for s t) = 0)"
proof -
  let ?m = "sy_type_affinity s"
  define total where "total = sum_list (hm_values ?m)"
  define count where "count = (case map_of ?m t of Some n \<Rightarrow> n | None \<Rightarrow> 0)"
  have le: "count \<le> total"
  proof (cases "map_of ?m t")
    case (Some n)
    then have "n \<in> set (hm_values ?m)" by (auto simp: hm_values_iff [OF assms(1)])
    then have "unat n \<le> unat total"
      unfolding total_def using sum_list_member_le(2) [of n "hm_values ?m"] assms(2) by simp
    then show ?thesis using Some by (simp add: count_def word_le_nat_alt)
  qed (simp add: count_def)
  have eq: "affinity_for s t =
      (if total = 0 then Fin 0 else fl_div b32 (fl_of_nat b32 (unat count)) (fl_of_nat b32 (unat total)))"
    by (simp only: affinity_for_def total_def count_def Let_def)
  show ?thesis
  proof (cases "total = 0")
    case True
    then show ?thesis by (simp add: eq)
  next
    case False
    have "count = 0" if "map_of ?m t = None" using that by (simp add: count_def)
    then show ?thesis using share_unit [OF le False] False by (simp add: eq)
  qed
qed

lemma affinity_unit_witness:
  "in_unit (affinity_for (sample_synapse\<lparr>sy_type_affinity := [(''Data'', 3), (''Event'', 4)]\<rparr>) ''Data'')"
  using affinity_unit [of "sample_synapse\<lparr>sy_type_affinity := [(''Data'', 3), (''Event'', 4)]\<rparr>" "''Data''"]
  by (simp add: hm_values_def)

end
