(* ===== verification/Store.thy ===== *)
theory Store
  imports Activation Synapse
begin

text \<open>
  The storage interface (\<open>runtime/ntl-core/src/store/mod.rs\<close>): the records a node persists,
  the trait \<open>NodeStore\<close> as a record of operations over an arbitrary store state, and the
  laws the trait's documentation promises, one locale per concern. A client of a
  \<open>dyn NodeStore\<close> takes such a record; a backend provides one and proves the laws.
\<close>

section \<open>Records\<close>

datatype Durability = Durable | DurableBestEffort | MemoryOnly

record SynapseFilter =
  fi_states :: "SynapseState list"
  fi_min_weight :: "flt option"
  fi_last_active_before_ns :: "u64 option"
  fi_limit :: "nat option"

definition filter_default :: SynapseFilter where
  "filter_default = \<lparr>fi_states = [], fi_min_weight = None, fi_last_active_before_ns = None, fi_limit = None\<rparr>"

definition filter_active :: SynapseFilter where
  "filter_active = filter_default\<lparr>fi_states := [Active]\<rparr>"

definition filter_eligible :: SynapseFilter where
  "filter_eligible = filter_default\<lparr>fi_states := [Active, Weakening]\<rparr>"

datatype PeerSource = Configured | Bootstrap | Discovered | Observed

record PeerRecord =
  pr_id :: NodeId
  pr_addresses :: "string list"
  pr_region :: "string option"
  pr_advertised_types :: "string list"
  pr_last_seen_ns :: u64
  pr_source :: PeerSource

record JournalEntry =
  je_id :: "JournalId option"
  je_signal :: SignalId
  je_signal_type :: SignalType
  je_synapse :: SynapseId
  je_peer :: NodeId
  je_score :: flt
  je_signal_weight :: flt
  je_explored :: bool
  je_decided_at_ns :: u64
  je_outcome :: Outcome
  je_resolved_at_ns :: "u64 option"

section \<open>The trait\<close>

type_synonym ('m, 'a) sop = "'m \<Rightarrow> (StoreError + 'a) \<times> 'm"

record 'm store_api =
  st_migrate :: "('m, unit) sop"
  st_durability :: "'m \<Rightarrow> Durability"
  st_flush :: "('m, unit) sop"
  st_put_synapse :: "SynapseRecord \<Rightarrow> ('m, unit) sop"
  st_get_synapse :: "SynapseId \<Rightarrow> ('m, SynapseRecord option) sop"
  st_synapse_for_peer :: "NodeId \<Rightarrow> ('m, SynapseRecord option) sop"
  st_list_synapses :: "SynapseFilter \<Rightarrow> ('m, SynapseRecord list) sop"
  st_delete_synapse :: "SynapseId \<Rightarrow> ('m, unit) sop"
  st_put_peer :: "PeerRecord \<Rightarrow> ('m, unit) sop"
  st_get_peer :: "NodeId \<Rightarrow> ('m, PeerRecord option) sop"
  st_list_peers :: "string option \<Rightarrow> nat \<Rightarrow> ('m, PeerRecord list) sop"
  st_count_peers :: "PeerSource \<Rightarrow> ('m, u64) sop"
  st_check_and_set_seen :: "SignalId \<Rightarrow> u64 \<Rightarrow> u64 \<Rightarrow> ('m, bool) sop"
  st_has_seen :: "SignalId \<Rightarrow> u64 \<Rightarrow> ('m, bool) sop"
  st_purge_expired_seen :: "u64 \<Rightarrow> ('m, u64) sop"
  st_save_activation :: "ActivationSnapshot \<Rightarrow> ('m, unit) sop"
  st_load_activation :: "('m, ActivationSnapshot option) sop"
  st_append_decision :: "JournalEntry \<Rightarrow> ('m, JournalId) sop"
  st_resolve_decision :: "JournalId \<Rightarrow> Outcome \<Rightarrow> u64 \<Rightarrow> ('m, JournalEntry option) sop"
  st_pending_decision_for :: "SignalId \<Rightarrow> NodeId \<Rightarrow> ('m, JournalEntry option) sop"
  st_expired_decisions :: "u64 \<Rightarrow> nat \<Rightarrow> ('m, JournalEntry list) sop"
  st_recent_decisions :: "SignalType option \<Rightarrow> nat \<Rightarrow> ('m, JournalEntry list) sop"
  st_trim_journal :: "u64 \<Rightarrow> ('m, u64) sop"
  st_record_influence :: "NodeId \<Rightarrow> flt \<Rightarrow> u64 \<Rightarrow> u64 \<Rightarrow> ('m, flt) sop"
  st_influence_since :: "NodeId \<Rightarrow> u64 \<Rightarrow> ('m, flt) sop"
  st_purge_influence :: "u64 \<Rightarrow> ('m, u64) sop"
  st_put_meta :: "string \<Rightarrow> u8 list \<Rightarrow> ('m, unit) sop"
  st_get_meta :: "string \<Rightarrow> ('m, u8 list option) sop"
  st_signal_history_enabled :: "'m \<Rightarrow> bool"
  st_put_signal_history :: "SignalId \<Rightarrow> u8 list \<Rightarrow> u64 \<Rightarrow> ('m, unit) sop"
  st_get_signal_history :: "SignalId \<Rightarrow> ('m, u8 list option) sop"

text \<open>The defaults of the optional operations.\<close>

definition default_signal_history_enabled :: "'m \<Rightarrow> bool" where
  "default_signal_history_enabled m = False"

definition default_put_signal_history :: "SignalId \<Rightarrow> u8 list \<Rightarrow> u64 \<Rightarrow> ('m, unit) sop" where
  "default_put_signal_history i body now m = (Inl (Unsupported ''signal history''), m)"

definition default_get_signal_history :: "SignalId \<Rightarrow> ('m, u8 list option) sop" where
  "default_get_signal_history i m = (Inl (Unsupported ''signal history''), m)"

section \<open>What the operations promise\<close>

text \<open>Whether a record passes a filter, and whether a deduplication entry is live.\<close>

definition filter_matches :: "SynapseFilter \<Rightarrow> SynapseRecord \<Rightarrow> bool" where
  "filter_matches f r \<longleftrightarrow> (fi_states f = [] \<or> sr_state r \<in> set (fi_states f)) \<and>
     (case fi_min_weight f of None \<Rightarrow> True | Some m \<Rightarrow> fl_le m (sr_weight r)) \<and>
     (case fi_last_active_before_ns f of None \<Rightarrow> True | Some b \<Rightarrow> sr_last_active_ns r < b)"

definition seen_live :: "(SignalId \<rightharpoonup> u64) \<Rightarrow> SignalId \<Rightarrow> u64 \<Rightarrow> bool" where
  "seen_live seen i now \<longleftrightarrow> (case seen i of Some e \<Rightarrow> now < e | None \<Rightarrow> False)"

definition seen_expiry :: "u64 \<Rightarrow> u64 \<Rightarrow> u64" where
  "seen_expiry now ttl = sat_add now (sat_mul ttl 1000000000)"

definition resolve_entry :: "Outcome \<Rightarrow> u64 \<Rightarrow> JournalEntry \<Rightarrow> JournalEntry" where
  "resolve_entry out now e = (if is_resolved (je_outcome e) then e else e\<lparr>je_outcome := out, je_resolved_at_ns := Some now\<rparr>)"

abbreviation is_pending :: "JournalEntry \<Rightarrow> bool" where
  "is_pending e \<equiv> je_outcome e = Pending"

text \<open>
  The store of a healthy backend seen through three views: the synapse table, the
  deduplication table and the journal. Each locale states the laws of one of them, and
  that the operations of the others leave it alone.
\<close>

locale dedup_store =
  fixes api :: "'m store_api" and healthy :: "'m \<Rightarrow> bool" and seen :: "'m \<Rightarrow> SignalId \<rightharpoonup> u64"
  assumes check_and_set: "healthy m \<Longrightarrow> \<exists>m'. st_check_and_set_seen api i now ttl m = (Inr (seen_live (seen m) i now), m') \<and>
      healthy m' \<and> seen m' = (if seen_live (seen m) i now then seen m else (seen m)(i \<mapsto> seen_expiry now ttl))"
    and has_seen_law: "healthy m \<Longrightarrow> st_has_seen api i now m = (Inr (seen_live (seen m) i now), m)"
begin

text \<open>A second arrival inside the window is reported as seen; other signals are unaffected.\<close>

lemma check_twice:
  assumes "healthy m" "st_check_and_set_seen api i now ttl m = (Inr b, m1)"
  shows "healthy m1" "b = seen_live (seen m) i now" "\<not> b \<Longrightarrow> seen m1 i = Some (seen_expiry now ttl)"
    "j \<noteq> i \<Longrightarrow> seen m1 j = seen m j" "b \<Longrightarrow> seen m1 = seen m"
  using check_and_set [OF assms(1), of i now ttl] assms(2) by auto

lemma live_is_seen:
  assumes "healthy m" "seen m i = Some e" "now < e"
  shows "\<exists>m'. st_check_and_set_seen api i now ttl m = (Inr True, m') \<and> healthy m' \<and> seen m' = seen m"
  using check_and_set [OF assms(1), of i now ttl] assms(2,3) by (auto simp: seen_live_def)

end

locale synapse_store =
  fixes api :: "'m store_api" and healthy :: "'m \<Rightarrow> bool" and table :: "'m \<Rightarrow> SynapseId \<rightharpoonup> SynapseRecord"
  assumes keyed: "healthy m \<Longrightarrow> table m i = Some r \<Longrightarrow> sr_id r = i"
    and put_synapse_law: "healthy m \<Longrightarrow> \<exists>m'. st_put_synapse api r m = (Inr (), m') \<and> healthy m' \<and> table m' = (table m)(sr_id r \<mapsto> r)"
    and get_synapse_law: "healthy m \<Longrightarrow> st_get_synapse api i m = (Inr (table m i), m)"
    and for_peer_law: "healthy m \<Longrightarrow> \<exists>q. st_synapse_for_peer api p m = (Inr q, m) \<and>
      (case q of None \<Rightarrow> \<forall>r \<in> ran (table m). sr_peer r \<noteq> p | Some r \<Rightarrow> r \<in> ran (table m) \<and> sr_peer r = p)"
    and list_law: "healthy m \<Longrightarrow> \<exists>rs. st_list_synapses api f m = (Inr rs, m) \<and> distinct (map sr_id rs) \<and>
      (fi_limit f = None \<longrightarrow> set rs = {r \<in> ran (table m). filter_matches f r})"
begin

lemma put_get:
  assumes "healthy m" "st_put_synapse api r m = (res, m1)"
  shows "res = Inr () \<and> st_get_synapse api (sr_id r) m1 = (Inr (Some r), m1)"
  using put_synapse_law [OF assms(1), of r] get_synapse_law assms(2) by auto

text \<open>Writing back records one at a time leaves the table of the last writes.\<close>

lemma put_other:
  assumes "healthy m" "st_put_synapse api r m = (res, m1)" "i \<noteq> sr_id r"
  shows "table m1 i = table m i"
  using put_synapse_law [OF assms(1), of r] assms(2,3) by auto

end

locale journal_store =
  fixes api :: "'m store_api" and healthy :: "'m \<Rightarrow> bool" and journal :: "'m \<Rightarrow> JournalEntry list"
  assumes append_law: "healthy m \<Longrightarrow> \<exists>i m'. st_append_decision api e m = (Inr i, m') \<and> healthy m' \<and>
      journal m' = journal m @ [e\<lparr>je_id := Some i\<rparr>]"
    and resolve_none: "healthy m \<Longrightarrow> \<forall>e \<in> set (journal m). je_id e \<noteq> Some i \<Longrightarrow>
      st_resolve_decision api i out now m = (Inr None, m)"
    and resolve_some: "healthy m \<Longrightarrow> journal m = xs @ e # ys \<Longrightarrow> je_id e = Some i \<Longrightarrow>
      \<forall>x \<in> set xs. je_id x \<noteq> Some i \<Longrightarrow>
      \<exists>m'. st_resolve_decision api i out now m = (Inr (Some (resolve_entry out now e)), m') \<and> healthy m' \<and>
        journal m' = xs @ resolve_entry out now e # ys"
    and pending_law: "healthy m \<Longrightarrow> \<exists>q. st_pending_decision_for api s p m = (Inr q, m) \<and>
      (case q of None \<Rightarrow> \<forall>e \<in> set (journal m). \<not> (je_signal e = s \<and> je_peer e = p \<and> is_pending e)
        | Some e \<Rightarrow> e \<in> set (journal m) \<and> je_signal e = s \<and> je_peer e = p \<and> is_pending e)"
    and expired_law: "healthy m \<Longrightarrow> \<exists>es. st_expired_decisions api d n m = (Inr es, m) \<and>
      mset es \<subseteq># mset (filter (\<lambda>e. is_pending e \<and> je_decided_at_ns e < d) (journal m)) \<and>
      length es = min n (length (filter (\<lambda>e. is_pending e \<and> je_decided_at_ns e < d) (journal m)))"
    and recent_law: "healthy m \<Longrightarrow> \<exists>es. st_recent_decisions api ty n m = (Inr es, m) \<and>
      mset es \<subseteq># mset (filter (\<lambda>e. case ty of None \<Rightarrow> True | Some w \<Rightarrow> je_signal_type e = w) (journal m)) \<and>
      length es = min n (length (filter (\<lambda>e. case ty of None \<Rightarrow> True | Some w \<Rightarrow> je_signal_type e = w) (journal m)))"
begin

lemma split_first:
  assumes "e \<in> set es" "je_id e = Some i"
  obtains xs x ys where "es = xs @ x # ys" "je_id x = Some i" "\<forall>y \<in> set xs. je_id y \<noteq> Some i"
  using split_list_first_prop [of es "\<lambda>e. je_id e = Some i"] assms by blast

text \<open>First outcome wins: resolving again leaves the journal as the first resolution left it.\<close>

lemma resolve_twice:
  assumes "healthy m" "st_resolve_decision api i o1 t1 m = (Inr (Some e1), m1)" "is_resolved o1"
  shows "\<exists>m2. st_resolve_decision api i o2 t2 m1 = (Inr (Some e1), m2) \<and> healthy m2 \<and> journal m2 = journal m1"
proof -
  obtain e where "e \<in> set (journal m)" "je_id e = Some i"
    using resolve_none [OF assms(1), of i o1 t1] assms(2) by force
  then obtain xs x ys where x: "journal m = xs @ x # ys" "je_id x = Some i" "\<forall>y \<in> set xs. je_id y \<noteq> Some i"
    by (rule split_first)
  from resolve_some [OF assms(1) this, of o1 t1] assms(2)
  have e1: "e1 = resolve_entry o1 t1 x" "healthy m1" "journal m1 = xs @ e1 # ys" by auto
  have "je_id e1 = Some i" "is_resolved (je_outcome e1)"
    using x(2) assms(3) by (auto simp: e1(1) resolve_entry_def)
  then show ?thesis
    using resolve_some [OF e1(2,3) _ x(3), of o2 t2] by (auto simp: resolve_entry_def e1(3))
qed

end

text \<open>
  A whole backend: the three concerns and the frame between them. Accounting, peers,
  metadata and the snapshot touch none of the three views, the influence total of a peer
  is a number as long as what was recorded is, and a purge drops only entries that have
  expired.
\<close>

definition kept :: "('m, 'a) sop \<Rightarrow> ('m \<Rightarrow> bool) \<Rightarrow> ('m \<Rightarrow> SignalId \<rightharpoonup> u64) \<Rightarrow> ('m \<Rightarrow> SynapseId \<rightharpoonup> SynapseRecord) \<Rightarrow>
    ('m \<Rightarrow> JournalEntry list) \<Rightarrow> 'm \<Rightarrow> bool" where
  "kept f healthy seen table journal m \<longleftrightarrow> (\<exists>x m'. f m = (Inr x, m') \<and> healthy m' \<and> seen m' = seen m \<and>
     table m' = table m \<and> journal m' = journal m)"

locale node_store = dedup_store api healthy seen + synapse_store api healthy table + journal_store api healthy journal
  for api :: "'m store_api" and healthy :: "'m \<Rightarrow> bool" and seen :: "'m \<Rightarrow> SignalId \<rightharpoonup> u64"
    and table :: "'m \<Rightarrow> SynapseId \<rightharpoonup> SynapseRecord" and journal :: "'m \<Rightarrow> JournalEntry list" +
  assumes check_frame: "healthy m \<Longrightarrow> st_check_and_set_seen api sg now ttl m = (b, m') \<Longrightarrow> table m' = table m \<and> journal m' = journal m"
    and put_frame: "healthy m \<Longrightarrow> st_put_synapse api r m = (u, m') \<Longrightarrow> seen m' = seen m \<and> journal m' = journal m"
    and append_frame: "healthy m \<Longrightarrow> st_append_decision api e m = (j, m') \<Longrightarrow> seen m' = seen m \<and> table m' = table m"
    and resolve_frame: "healthy m \<Longrightarrow> st_resolve_decision api i out now m = (q, m') \<Longrightarrow> seen m' = seen m \<and> table m' = table m"
    and influence_law: "healthy m \<Longrightarrow> \<exists>y. st_influence_since api p w m = (Inr y, m) \<and> fl_le (Fin 0) y"
    and record_kept: "healthy m \<Longrightarrow> \<not> fl_is_nan x \<Longrightarrow> kept (st_record_influence api p x now w) healthy seen table journal m"
    and put_peer_kept: "healthy m \<Longrightarrow> kept (st_put_peer api pr) healthy seen table journal m"
    and save_kept: "healthy m \<Longrightarrow> kept (st_save_activation api sn) healthy seen table journal m"
    and flush_kept: "healthy m \<Longrightarrow> kept (st_flush api) healthy seen table journal m"
    and purge_law: "healthy m \<Longrightarrow> \<exists>n m'. st_purge_expired_seen api now m = (Inr n, m') \<and> healthy m' \<and> table m' = table m \<and>
      journal m' = journal m \<and> (\<forall>sg t. now \<le> t \<longrightarrow> seen_live (seen m') sg t = seen_live (seen m) sg t)"

section \<open>Deduplication over time\<close>

text \<open>Arrivals and purges in time order, and which arrivals were taken as new.\<close>

datatype dedup_event = Check SignalId u64 u64 | PurgeSeen u64

fun event_time :: "dedup_event \<Rightarrow> u64" where
  "event_time (Check i now ttl) = now"
| "event_time (PurgeSeen now) = now"

fun dedup_step :: "'m store_api \<Rightarrow> dedup_event \<Rightarrow> 'm \<Rightarrow> bool \<times> 'm" where
  "dedup_step api (Check i now ttl) m = (let (r, m') = st_check_and_set_seen api i now ttl m in (r = Inr False, m'))"
| "dedup_step api (PurgeSeen now) m = (False, snd (st_purge_expired_seen api now m))"

fun dedup_run :: "'m store_api \<Rightarrow> dedup_event list \<Rightarrow> 'm \<Rightarrow> bool list" where
  "dedup_run api [] m = []"
| "dedup_run api (ev # evs) m = (let (b, m') = dedup_step api ev m in b # dedup_run api evs m')"

text \<open>A window \<open>[now, e)\<close> in which a signal counts as seen survives every later event.\<close>

definition seen_through :: "(SignalId \<rightharpoonup> u64) \<Rightarrow> SignalId \<Rightarrow> u64 \<Rightarrow> u64 \<Rightarrow> bool" where
  "seen_through seen i now e \<longleftrightarrow> (\<forall>t. now \<le> t \<longrightarrow> t < e \<longrightarrow> seen_live seen i t)"

context node_store
begin

lemma step_seen_through:
  assumes "healthy m" "seen_through (seen m) i now e" "now \<le> event_time ev" "dedup_step api ev m = (b, m')"
  shows "healthy m' \<and> seen_through (seen m') i (event_time ev) e \<and> (\<forall>t ttl. ev = Check i t ttl \<and> b \<longrightarrow> e \<le> t)"
proof (cases ev)
  case (Check j t ttl)
  obtain r where r: "st_check_and_set_seen api j t ttl m = (r, m')" "b \<longleftrightarrow> r = Inr False"
    using assms(4) Check by (auto split: prod.splits)
  then have c: "r = Inr (seen_live (seen m) j t)" "healthy m'"
    "seen m' = (if seen_live (seen m) j t then seen m else (seen m)(j \<mapsto> seen_expiry t ttl))"
    using check_and_set [OF assms(1), of j t ttl] by auto
  have late: "e \<le> t" if "j = i" "\<not> seen_live (seen m) i t"
    using that assms(2,3) Check by (auto simp: seen_through_def not_less)
  have "seen_through (seen m') i t e"
  proof (cases "j = i \<and> \<not> seen_live (seen m) i t")
    case True
    then show ?thesis using late by (auto simp: seen_through_def)
  next
    case False
    then have "seen m' i = seen m i" using c(3) by auto
    then show ?thesis
      using assms(2,3) Check unfolding seen_through_def seen_live_def
      by (metis event_time.simps(1) order.trans)
  qed
  then show ?thesis using c late r(2) Check by auto
next
  case (PurgeSeen t)
  then have m': "m' = snd (st_purge_expired_seen api t m)" "b = False" using assms(4) by auto
  then have "healthy m'" "\<forall>sg u. t \<le> u \<longrightarrow> seen_live (seen m') sg u = seen_live (seen m) sg u"
    using purge_law [OF assms(1), of t] by auto
  then show ?thesis
    using assms(2,3) PurgeSeen m'(2) unfolding seen_through_def by (auto intro: order.trans)
qed

lemma run_seen_through:
  assumes "healthy m" "seen_through (seen m) i now e" "\<forall>ev \<in> set evs. now \<le> event_time ev" "sorted (map event_time evs)"
    "j < length evs" "evs ! j = Check i t ttl" "dedup_run api evs m ! j"
  shows "e \<le> t"
  using assms
proof (induction evs arbitrary: m now j)
  case (Cons ev evs)
  obtain b m' where st: "dedup_step api ev m = (b, m')" by fastforce
  note step = step_seen_through [OF Cons.prems(1,2) _ st]
  show ?case
  proof (cases j)
    case 0
    then show ?thesis using step Cons.prems st by auto
  next
    case (Suc k)
    then show ?thesis
      using Cons.IH [of m' "event_time ev" k] step Cons.prems st by auto
  qed
qed simp

text \<open>No signal is taken as new twice within the window of its first acceptance.\<close>

lemma accepted_once:
  assumes "healthy m" "sorted (map event_time evs)" "j < k" "k < length evs"
    "evs ! j = Check i t ttl" "evs ! k = Check i t' ttl'" "dedup_run api evs m ! j" "dedup_run api evs m ! k"
  shows "seen_expiry t ttl \<le> t'"
  using assms
proof (induction evs arbitrary: m j k)
  case (Cons ev evs)
  obtain b m' where st: "dedup_step api ev m = (b, m')" by fastforce
  have h: "healthy m'" using step_seen_through [OF Cons.prems(1), of undefined 0 0 ev b m'] st by (simp add: seen_through_def)
  obtain k' where k: "k = Suc k'" using Cons.prems(3) by (cases k) auto
  show ?case
  proof (cases j)
    case 0
    then obtain r where "st_check_and_set_seen api i t ttl m = (r, m')" "r = Inr False"
      using Cons.prems st by (auto split: prod.splits)
    then have "seen m' i = Some (seen_expiry t ttl)" using check_twice(3) [OF Cons.prems(1)] by blast
    then have "seen_through (seen m') i t (seen_expiry t ttl)" by (simp add: seen_through_def seen_live_def)
    then show ?thesis
      using run_seen_through [OF h, of i t "seen_expiry t ttl" evs k' t' ttl'] Cons.prems 0 k st by auto
  next
    case (Suc j')
    then show ?thesis using Cons.IH [OF h, of j' k'] Cons.prems k st by auto
  qed
qed simp

end

end
