(* ===== verification/Memory_Store.thy ===== *)
theory Memory_Store
  imports Store
begin

text \<open>
  The in-memory backend (\<open>runtime/ntl-core/src/store/memory.rs\<close>), the reference
  implementation of the storage interface. Each \<open>RwLock\<close> or \<open>Mutex\<close> is the field it guards;
  a poisoned lock makes every operation that takes it fail. A \<open>HashMap\<close> is an association
  list whose order stands for the iteration order.
\<close>

section \<open>State\<close>

datatype store_lock = SynapseLock | PeerLock | SeenLock | ActivationLock | JournalLock | NextIdLock
  | InfluenceLock | MetaLock | HistoryLock

record Influence =
  in_peer :: NodeId
  in_magnitude :: flt
  in_at_ns :: u64

record MemoryStore =
  ms_synapses :: "(SynapseId, SynapseRecord) hashmap"
  ms_peers :: "(NodeId, PeerRecord) hashmap"
  ms_seen :: "(SignalId, u64) hashmap"
  ms_activation :: "ActivationSnapshot option"
  ms_journal :: "JournalEntry list"
  ms_next_journal_id :: u64
  ms_influence :: "Influence list"
  ms_meta :: "(string, u8 list) hashmap"
  ms_history :: "(SignalId, u8 list) hashmap"
  ms_retain_history :: bool
  ms_poisoned :: "store_lock set"

definition memory_new :: MemoryStore where
  "memory_new = \<lparr>ms_synapses = [], ms_peers = [], ms_seen = [], ms_activation = None, ms_journal = [],
     ms_next_journal_id = 0, ms_influence = [], ms_meta = [], ms_history = [], ms_retain_history = False,
     ms_poisoned = {}\<rparr>"

definition memory_with_history :: MemoryStore where
  "memory_with_history = memory_new\<lparr>ms_retain_history := True\<rparr>"

definition seen_len :: "MemoryStore \<Rightarrow> nat" where
  "seen_len m = length (ms_seen m)"

definition journal_len :: "MemoryStore \<Rightarrow> nat" where
  "journal_len m = length (ms_journal m)"

definition poisoned :: "string \<Rightarrow> StoreError" where
  "poisoned what = Unavailable (what @ '' lock poisoned'')"

text \<open>Take a lock, or return the poisoned-lock error.\<close>

definition locked :: "store_lock \<Rightarrow> string \<Rightarrow> (MemoryStore, 'a) sop \<Rightarrow> (MemoryStore, 'a) sop" where
  "locked l what f m = (if l \<in> ms_poisoned m then (Inl (poisoned what), m) else f m)"

section \<open>Lifecycle and synapses\<close>

definition mem_migrate :: "(MemoryStore, unit) sop" where
  "mem_migrate m = (Inr (), m)"

definition mem_durability :: "MemoryStore \<Rightarrow> Durability" where
  "mem_durability m = MemoryOnly"

definition mem_flush :: "(MemoryStore, unit) sop" where
  "mem_flush m = (Inr (), m)"

definition mem_put_synapse :: "SynapseRecord \<Rightarrow> (MemoryStore, unit) sop" where
  "mem_put_synapse r = locked SynapseLock ''synapse''
     (\<lambda>m. (Inr (), m\<lparr>ms_synapses := AList.update (sr_id r) r (ms_synapses m)\<rparr>))"

definition mem_get_synapse :: "SynapseId \<Rightarrow> (MemoryStore, SynapseRecord option) sop" where
  "mem_get_synapse i = locked SynapseLock ''synapse'' (\<lambda>m. (Inr (map_of (ms_synapses m) i), m))"

definition mem_synapse_for_peer :: "NodeId \<Rightarrow> (MemoryStore, SynapseRecord option) sop" where
  "mem_synapse_for_peer p = locked SynapseLock ''synapse''
     (\<lambda>m. (Inr (find (\<lambda>r. sr_peer r = p) (hm_values (ms_synapses m))), m))"

definition heavier_first :: "SynapseRecord \<Rightarrow> SynapseRecord \<Rightarrow> ordering" where
  "heavier_first a b = then_with (fl_cmp (sr_weight b) (sr_weight a)) (cmp_of (sr_id a) (sr_id b))"

definition truncate :: "nat option \<Rightarrow> 'a list \<Rightarrow> 'a list" where
  "truncate limit xs = (case limit of None \<Rightarrow> xs | Some n \<Rightarrow> take n xs)"

definition mem_list_synapses :: "SynapseFilter \<Rightarrow> (MemoryStore, SynapseRecord list) sop" where
  "mem_list_synapses f = locked SynapseLock ''synapse''
     (\<lambda>m. (Inr (truncate (fi_limit f) (sort_by heavier_first (filter (filter_matches f) (hm_values (ms_synapses m))))), m))"

definition mem_delete_synapse :: "SynapseId \<Rightarrow> (MemoryStore, unit) sop" where
  "mem_delete_synapse i = locked SynapseLock ''synapse''
     (\<lambda>m. (Inr (), m\<lparr>ms_synapses := AList.delete i (ms_synapses m)\<rparr>))"

section \<open>Peers\<close>

definition mem_put_peer :: "PeerRecord \<Rightarrow> (MemoryStore, unit) sop" where
  "mem_put_peer p = locked PeerLock ''peer''
     (\<lambda>m. (Inr (), m\<lparr>ms_peers := AList.update (pr_id p) p (ms_peers m)\<rparr>))"

definition mem_get_peer :: "NodeId \<Rightarrow> (MemoryStore, PeerRecord option) sop" where
  "mem_get_peer i = locked PeerLock ''peer'' (\<lambda>m. (Inr (map_of (ms_peers m) i), m))"

definition newer_first :: "PeerRecord \<Rightarrow> PeerRecord \<Rightarrow> ordering" where
  "newer_first a b = then_with (cmp_of (pr_last_seen_ns b) (pr_last_seen_ns a)) (cmp_of (pr_id a) (pr_id b))"

definition mem_list_peers :: "string option \<Rightarrow> nat \<Rightarrow> (MemoryStore, PeerRecord list) sop" where
  "mem_list_peers region limit = locked PeerLock ''peer''
     (\<lambda>m. (Inr (take limit (sort_by newer_first
        (filter (\<lambda>p. case region of Some want \<Rightarrow> pr_region p = Some want | None \<Rightarrow> True) (hm_values (ms_peers m))))), m))"

definition mem_count_peers :: "PeerSource \<Rightarrow> (MemoryStore, u64) sop" where
  "mem_count_peers src = locked PeerLock ''peer''
     (\<lambda>m. (Inr (of_nat (length (filter (\<lambda>p. pr_source p = src) (hm_values (ms_peers m))))), m))"

section \<open>Deduplication and activation\<close>

definition mem_check_and_set_seen :: "SignalId \<Rightarrow> u64 \<Rightarrow> u64 \<Rightarrow> (MemoryStore, bool) sop" where
  "mem_check_and_set_seen i now ttl = locked SeenLock ''dedup''
     (\<lambda>m. let expires = sat_add now (sat_mul ttl 1000000000) in
        case map_of (ms_seen m) i of
          Some e \<Rightarrow> if now < e then (Inr True, m)
                    else (Inr False, m\<lparr>ms_seen := AList.update i expires (ms_seen m)\<rparr>)
        | None \<Rightarrow> (Inr False, m\<lparr>ms_seen := AList.update i expires (ms_seen m)\<rparr>))"

definition mem_has_seen :: "SignalId \<Rightarrow> u64 \<Rightarrow> (MemoryStore, bool) sop" where
  "mem_has_seen i now = locked SeenLock ''dedup''
     (\<lambda>m. (Inr (case map_of (ms_seen m) i of Some e \<Rightarrow> now < e | None \<Rightarrow> False), m))"

definition mem_purge_expired_seen :: "u64 \<Rightarrow> (MemoryStore, u64) sop" where
  "mem_purge_expired_seen now = locked SeenLock ''dedup''
     (\<lambda>m. let kept = filter (\<lambda>(_, e). now < e) (ms_seen m)
          in (Inr (of_nat (length (ms_seen m) - length kept)), m\<lparr>ms_seen := kept\<rparr>))"

definition mem_save_activation :: "ActivationSnapshot \<Rightarrow> (MemoryStore, unit) sop" where
  "mem_save_activation sn = locked ActivationLock ''activation'' (\<lambda>m. (Inr (), m\<lparr>ms_activation := Some sn\<rparr>))"

definition mem_load_activation :: "(MemoryStore, ActivationSnapshot option) sop" where
  "mem_load_activation = locked ActivationLock ''activation'' (\<lambda>m. (Inr (ms_activation m), m))"

section \<open>The journal\<close>

definition mem_append_decision :: "JournalEntry \<Rightarrow> (MemoryStore, JournalId) sop" where
  "mem_append_decision e = locked NextIdLock ''journal''
     (\<lambda>m. let i = ms_next_journal_id m + 1; m1 = m\<lparr>ms_next_journal_id := i\<rparr>
          in locked JournalLock ''journal''
               (\<lambda>m1. (Inr i, m1\<lparr>ms_journal := ms_journal m1 @ [e\<lparr>je_id := Some i\<rparr>]\<rparr>)) m1)"

text \<open>\<open>iter_mut().find\<close>: the first entry with the identifier, changed in place.\<close>

fun resolve_first :: "JournalId \<Rightarrow> Outcome \<Rightarrow> u64 \<Rightarrow> JournalEntry list \<Rightarrow> JournalEntry option \<times> JournalEntry list" where
  "resolve_first i out now [] = (None, [])"
| "resolve_first i out now (e # es) =
     (if je_id e = Some i then
        (if is_resolved (je_outcome e) then (Some e, e # es)
         else let e' = e\<lparr>je_outcome := out, je_resolved_at_ns := Some now\<rparr> in (Some e', e' # es))
      else let (r, es') = resolve_first i out now es in (r, e # es'))"

definition mem_resolve_decision :: "JournalId \<Rightarrow> Outcome \<Rightarrow> u64 \<Rightarrow> (MemoryStore, JournalEntry option) sop" where
  "mem_resolve_decision i out now = locked JournalLock ''journal''
     (\<lambda>m. let (r, es) = resolve_first i out now (ms_journal m) in (Inr r, m\<lparr>ms_journal := es\<rparr>))"

definition mem_pending_decision_for :: "SignalId \<Rightarrow> NodeId \<Rightarrow> (MemoryStore, JournalEntry option) sop" where
  "mem_pending_decision_for s p = locked JournalLock ''journal''
     (\<lambda>m. (Inr (find (\<lambda>e. je_signal e = s \<and> je_peer e = p \<and> \<not> is_resolved (je_outcome e)) (ms_journal m)), m))"

definition mem_expired_decisions :: "u64 \<Rightarrow> nat \<Rightarrow> (MemoryStore, JournalEntry list) sop" where
  "mem_expired_decisions deadline limit = locked JournalLock ''journal''
     (\<lambda>m. (Inr (take limit (filter (\<lambda>e. \<not> is_resolved (je_outcome e) \<and> je_decided_at_ns e < deadline) (ms_journal m))), m))"

definition mem_recent_decisions :: "SignalType option \<Rightarrow> nat \<Rightarrow> (MemoryStore, JournalEntry list) sop" where
  "mem_recent_decisions ty limit = locked JournalLock ''journal''
     (\<lambda>m. (Inr (take limit (sort_by (\<lambda>a b. cmp_of (je_decided_at_ns b) (je_decided_at_ns a))
        (filter (\<lambda>e. case ty of None \<Rightarrow> True | Some want \<Rightarrow> je_signal_type e = want) (ms_journal m)))), m))"

definition mem_trim_journal :: "u64 \<Rightarrow> (MemoryStore, u64) sop" where
  "mem_trim_journal older = locked JournalLock ''journal''
     (\<lambda>m. let kept = filter (\<lambda>e. older \<le> je_decided_at_ns e) (ms_journal m)
          in (Inr (of_nat (length (ms_journal m) - length kept)), m\<lparr>ms_journal := kept\<rparr>))"

section \<open>Influence, metadata and history\<close>

definition influence_total :: "NodeId \<Rightarrow> u64 \<Rightarrow> Influence list \<Rightarrow> flt" where
  "influence_total p start xs = fl_sum (map in_magnitude (filter (\<lambda>x. in_peer x = p \<and> start \<le> in_at_ns x) xs))"

definition mem_record_influence :: "NodeId \<Rightarrow> flt \<Rightarrow> u64 \<Rightarrow> u64 \<Rightarrow> (MemoryStore, flt) sop" where
  "mem_record_influence p x now start = locked InfluenceLock ''influence''
     (\<lambda>m. let xs = ms_influence m @ [\<lparr>in_peer = p, in_magnitude = fl_abs x, in_at_ns = now\<rparr>]
          in (Inr (influence_total p start xs), m\<lparr>ms_influence := xs\<rparr>))"

definition mem_influence_since :: "NodeId \<Rightarrow> u64 \<Rightarrow> (MemoryStore, flt) sop" where
  "mem_influence_since p start = locked InfluenceLock ''influence''
     (\<lambda>m. (Inr (influence_total p start (ms_influence m)), m))"

definition mem_purge_influence :: "u64 \<Rightarrow> (MemoryStore, u64) sop" where
  "mem_purge_influence older = locked InfluenceLock ''influence''
     (\<lambda>m. let kept = filter (\<lambda>x. older \<le> in_at_ns x) (ms_influence m)
          in (Inr (of_nat (length (ms_influence m) - length kept)), m\<lparr>ms_influence := kept\<rparr>))"

definition mem_put_meta :: "string \<Rightarrow> u8 list \<Rightarrow> (MemoryStore, unit) sop" where
  "mem_put_meta k v = locked MetaLock ''meta'' (\<lambda>m. (Inr (), m\<lparr>ms_meta := AList.update k v (ms_meta m)\<rparr>))"

definition mem_get_meta :: "string \<Rightarrow> (MemoryStore, u8 list option) sop" where
  "mem_get_meta k = locked MetaLock ''meta'' (\<lambda>m. (Inr (map_of (ms_meta m) k), m))"

definition mem_signal_history_enabled :: "MemoryStore \<Rightarrow> bool" where
  "mem_signal_history_enabled m = ms_retain_history m"

definition mem_put_signal_history :: "SignalId \<Rightarrow> u8 list \<Rightarrow> u64 \<Rightarrow> (MemoryStore, unit) sop" where
  "mem_put_signal_history i body now m =
     (if \<not> ms_retain_history m then (Inl (Unsupported ''signal history''), m)
      else locked HistoryLock ''history'' (\<lambda>m. (Inr (), m\<lparr>ms_history := AList.update i body (ms_history m)\<rparr>)) m)"

definition mem_get_signal_history :: "SignalId \<Rightarrow> (MemoryStore, u8 list option) sop" where
  "mem_get_signal_history i m =
     (if \<not> ms_retain_history m then (Inl (Unsupported ''signal history''), m)
      else locked HistoryLock ''history'' (\<lambda>m. (Inr (map_of (ms_history m) i), m)) m)"

definition memory_api :: "MemoryStore store_api" where
  "memory_api = \<lparr>st_migrate = mem_migrate, st_durability = mem_durability, st_flush = mem_flush,
     st_put_synapse = mem_put_synapse, st_get_synapse = mem_get_synapse,
     st_synapse_for_peer = mem_synapse_for_peer, st_list_synapses = mem_list_synapses,
     st_delete_synapse = mem_delete_synapse, st_put_peer = mem_put_peer, st_get_peer = mem_get_peer,
     st_list_peers = mem_list_peers, st_count_peers = mem_count_peers,
     st_check_and_set_seen = mem_check_and_set_seen, st_has_seen = mem_has_seen,
     st_purge_expired_seen = mem_purge_expired_seen, st_save_activation = mem_save_activation,
     st_load_activation = mem_load_activation, st_append_decision = mem_append_decision,
     st_resolve_decision = mem_resolve_decision, st_pending_decision_for = mem_pending_decision_for,
     st_expired_decisions = mem_expired_decisions, st_recent_decisions = mem_recent_decisions,
     st_trim_journal = mem_trim_journal, st_record_influence = mem_record_influence,
     st_influence_since = mem_influence_since, st_purge_influence = mem_purge_influence,
     st_put_meta = mem_put_meta, st_get_meta = mem_get_meta,
     st_signal_history_enabled = mem_signal_history_enabled,
     st_put_signal_history = mem_put_signal_history, st_get_signal_history = mem_get_signal_history\<rparr>"

section \<open>The contract holds\<close>

named_theorems mem_ops \<open>definitions of the backend's operations\<close>

declare mem_put_synapse_def [mem_ops] mem_get_synapse_def [mem_ops] mem_synapse_for_peer_def [mem_ops]
  mem_list_synapses_def [mem_ops] mem_check_and_set_seen_def [mem_ops] mem_has_seen_def [mem_ops]
  mem_purge_expired_seen_def [mem_ops] mem_save_activation_def [mem_ops] mem_append_decision_def [mem_ops]
  mem_resolve_decision_def [mem_ops] mem_pending_decision_for_def [mem_ops] mem_expired_decisions_def [mem_ops]
  mem_record_influence_def [mem_ops] mem_influence_since_def [mem_ops] mem_put_peer_def [mem_ops]
  mem_flush_def [mem_ops] locked_def [mem_ops]

lemma memory_api_simps [simp]:
  "st_put_synapse memory_api = mem_put_synapse" "st_get_synapse memory_api = mem_get_synapse"
  "st_synapse_for_peer memory_api = mem_synapse_for_peer" "st_list_synapses memory_api = mem_list_synapses"
  "st_check_and_set_seen memory_api = mem_check_and_set_seen" "st_has_seen memory_api = mem_has_seen"
  "st_purge_expired_seen memory_api = mem_purge_expired_seen" "st_save_activation memory_api = mem_save_activation"
  "st_append_decision memory_api = mem_append_decision" "st_resolve_decision memory_api = mem_resolve_decision"
  "st_pending_decision_for memory_api = mem_pending_decision_for" "st_expired_decisions memory_api = mem_expired_decisions"
  "st_record_influence memory_api = mem_record_influence" "st_influence_since memory_api = mem_influence_since"
  "st_put_peer memory_api = mem_put_peer" "st_flush memory_api = mem_flush" "st_get_meta memory_api = mem_get_meta"
  "st_put_meta memory_api = mem_put_meta" "st_migrate memory_api = mem_migrate"
  "st_load_activation memory_api = mem_load_activation" "st_recent_decisions memory_api = mem_recent_decisions"
  by (simp_all add: memory_api_def)

text \<open>A healthy store: no poisoned lock, maps with one entry per key, records under their own
  id, and influence magnitudes that are numbers.\<close>

definition mem_ok :: "MemoryStore \<Rightarrow> bool" where
  "mem_ok m \<longleftrightarrow> ms_poisoned m = {} \<and> hm_wf (ms_synapses m) \<and> hm_wf (ms_seen m) \<and>
     (\<forall>(i, r) \<in> set (ms_synapses m). sr_id r = i) \<and> (\<forall>x \<in> set (ms_influence m). fl_le (Fin 0) (in_magnitude x))"

abbreviation mem_table :: "MemoryStore \<Rightarrow> SynapseId \<rightharpoonup> SynapseRecord" where
  "mem_table m \<equiv> map_of (ms_synapses m)"

abbreviation mem_seen :: "MemoryStore \<Rightarrow> SignalId \<rightharpoonup> u64" where
  "mem_seen m \<equiv> map_of (ms_seen m)"

lemma memory_new_ok [simp]: "mem_ok memory_new"
  by (simp add: mem_ok_def memory_new_def)

lemma update_elems: "p \<in> set (AList.update k v xs) \<Longrightarrow> p = (k, v) \<or> p \<in> set xs"
  by (induction xs) (auto split: if_splits)

lemma keyed_update: "\<forall>(i, r) \<in> set xs. sr_id r = i \<Longrightarrow> \<forall>(i, r) \<in> set (AList.update (sr_id q) q xs). sr_id r = i"
  by (auto dest: update_elems)

lemma set_values_ran: "hm_wf m \<Longrightarrow> set (hm_values m) = ran (map_of m)"
  by (auto simp: hm_values_iff ran_def)

lemma fl_abs_nonneg: "\<not> fl_is_nan x \<Longrightarrow> fl_le (Fin 0) (fl_abs x)"
  by (cases x) (simp_all add: fl_le_def)

lemma find_case: "case find P xs of None \<Rightarrow> \<forall>x \<in> set xs. \<not> P x | Some x \<Rightarrow> x \<in> set xs \<and> P x"
  by (induction xs) (auto split: option.splits)

lemma take_submset: "mset (take n xs) \<subseteq># mset xs"
proof -
  have "mset (take n xs) \<subseteq># mset (take n xs) + mset (drop n xs)" by (rule mset_subset_eq_add_left)
  then show ?thesis by (simp only: mset_append [symmetric] append_take_drop_id)
qed

lemma values_keys:
  "\<forall>(i, r) \<in> set xs. sr_id r = i \<Longrightarrow> map sr_id (hm_values xs) = map fst xs"
  by (induction xs) (auto simp: hm_values_def)

lemma resolve_first_none: "\<forall>e \<in> set es. je_id e \<noteq> Some i \<Longrightarrow> resolve_first i out now es = (None, es)"
  by (induction es) auto

lemma resolve_first_some:
  "je_id e = Some i \<Longrightarrow> \<forall>x \<in> set xs. je_id x \<noteq> Some i \<Longrightarrow>
   resolve_first i out now (xs @ e # ys) = (Some (resolve_entry out now e), xs @ resolve_entry out now e # ys)"
  by (induction xs) (auto simp: resolve_entry_def Let_def)

lemma not_resolved [simp]: "\<not> is_resolved q \<longleftrightarrow> q = Pending"
  by (simp add: is_resolved_def)

interpretation mem: dedup_store memory_api mem_ok mem_seen
proof
  fix m i now ttl assume ok: "mem_ok m"
  then show "\<exists>m'. st_check_and_set_seen memory_api i now ttl m = (Inr (seen_live (mem_seen m) i now), m') \<and>
      mem_ok m' \<and> mem_seen m' = (if seen_live (mem_seen m) i now then mem_seen m else (mem_seen m)(i \<mapsto> seen_expiry now ttl))"
    by (auto simp: mem_ops mem_ok_def seen_live_def seen_expiry_def Let_def update_conv' split: option.splits)
  show "st_has_seen memory_api i now m = (Inr (seen_live (mem_seen m) i now), m)"
    using ok by (simp add: mem_ops mem_ok_def seen_live_def)
qed

interpretation mem: synapse_store memory_api mem_ok mem_table
proof
  fix m i r p f assume ok: "mem_ok m"
  then have wf: "hm_wf (ms_synapses m)" "ms_poisoned m = {}" and key: "\<forall>(i, r) \<in> set (ms_synapses m). sr_id r = i"
    by (auto simp: mem_ok_def)
  have ran: "ran (mem_table m) = set (hm_values (ms_synapses m))" using set_values_ran [OF wf(1)] by simp
  show "mem_table m i = Some r \<Longrightarrow> sr_id r = i"
    using key by (auto dest: map_of_SomeD)
  show "\<exists>m'. st_put_synapse memory_api r m = (Inr (), m') \<and> mem_ok m' \<and> mem_table m' = (mem_table m)(sr_id r \<mapsto> r)"
    using ok keyed_update [OF key, of r] by (auto simp: mem_ops mem_ok_def update_conv')
  show "st_get_synapse memory_api i m = (Inr (mem_table m i), m)"
    using wf by (simp add: mem_ops)
  show "\<exists>q. st_synapse_for_peer memory_api p m = (Inr q, m) \<and>
      (case q of None \<Rightarrow> \<forall>r \<in> ran (mem_table m). sr_peer r \<noteq> p | Some r \<Rightarrow> r \<in> ran (mem_table m) \<and> sr_peer r = p)"
  proof (intro exI conjI)
    let ?q = "find (\<lambda>r. sr_peer r = p) (hm_values (ms_synapses m))"
    show "st_synapse_for_peer memory_api p m = (Inr ?q, m)" using wf(2) by (simp add: mem_ops)
    show "case ?q of None \<Rightarrow> \<forall>r \<in> ran (mem_table m). sr_peer r \<noteq> p | Some r \<Rightarrow> r \<in> ran (mem_table m) \<and> sr_peer r = p"
      unfolding ran by (rule find_case)
  qed
  have "distinct (map sr_id (hm_values (ms_synapses m)))" using wf values_keys [OF key] by simp
  then have "distinct (map sr_id (filter (filter_matches f) (hm_values (ms_synapses m))))"
    by (rule distinct_map_filter)
  then have d: "distinct (map sr_id (sort_by heavier_first (filter (filter_matches f) (hm_values (ms_synapses m)))))"
    by (metis mset_eq_imp_distinct_iff mset_map mset_sort_by)
  show "\<exists>rs. st_list_synapses memory_api f m = (Inr rs, m) \<and> distinct (map sr_id rs) \<and>
      (fi_limit f = None \<longrightarrow> set rs = {r \<in> ran (mem_table m). filter_matches f r})"
    unfolding ran using wf d by (auto simp: mem_ops truncate_def take_map [symmetric] split: option.split)
qed

interpretation mem: journal_store memory_api mem_ok ms_journal
proof
  fix m assume ok: "mem_ok m"
  then have p: "ms_poisoned m = {}" by (simp add: mem_ok_def)
  show "\<exists>i m'. st_append_decision memory_api e m = (Inr i, m') \<and> mem_ok m' \<and> ms_journal m' = ms_journal m @ [e\<lparr>je_id := Some i\<rparr>]" for e
    using ok by (auto simp: mem_ops mem_ok_def Let_def)
  show "\<forall>e \<in> set (ms_journal m). je_id e \<noteq> Some i \<Longrightarrow> st_resolve_decision memory_api i out now m = (Inr None, m)" for i out now
    using p by (simp add: mem_ops resolve_first_none)
  show "\<exists>m'. st_resolve_decision memory_api i out now m = (Inr (Some (resolve_entry out now e)), m') \<and> mem_ok m' \<and>
        ms_journal m' = xs @ resolve_entry out now e # ys"
    if "ms_journal m = xs @ e # ys" "je_id e = Some i" "\<forall>x \<in> set xs. je_id x \<noteq> Some i" for i out now xs ys e
    using ok that by (auto simp: mem_ops mem_ok_def resolve_first_some)
  show "\<exists>q. st_pending_decision_for memory_api s r m = (Inr q, m) \<and>
      (case q of None \<Rightarrow> \<forall>e \<in> set (ms_journal m). \<not> (je_signal e = s \<and> je_peer e = r \<and> is_pending e)
        | Some e \<Rightarrow> e \<in> set (ms_journal m) \<and> je_signal e = s \<and> je_peer e = r \<and> is_pending e)" for s r
  proof (intro exI conjI)
    let ?q = "find (\<lambda>e. je_signal e = s \<and> je_peer e = r \<and> \<not> is_resolved (je_outcome e)) (ms_journal m)"
    show "st_pending_decision_for memory_api s r m = (Inr ?q, m)" using p by (simp add: mem_ops)
    show "case ?q of None \<Rightarrow> \<forall>e \<in> set (ms_journal m). \<not> (je_signal e = s \<and> je_peer e = r \<and> is_pending e)
        | Some e \<Rightarrow> e \<in> set (ms_journal m) \<and> je_signal e = s \<and> je_peer e = r \<and> is_pending e"
      unfolding not_resolved by (rule find_case)
  qed
  show "\<exists>es. st_expired_decisions memory_api d n m = (Inr es, m) \<and>
      mset es \<subseteq># mset (filter (\<lambda>e. is_pending e \<and> je_decided_at_ns e < d) (ms_journal m)) \<and>
      length es = min n (length (filter (\<lambda>e. is_pending e \<and> je_decided_at_ns e < d) (ms_journal m)))" for d n
  proof -
    let ?es = "filter (\<lambda>e. is_pending e \<and> je_decided_at_ns e < d) (ms_journal m)"
    have "mset (take n ?es) \<subseteq># mset ?es" by (rule take_submset)
    moreover have "st_expired_decisions memory_api d n m = (Inr (take n ?es), m)" using p by (simp add: mem_ops)
    ultimately show ?thesis by (intro exI [of _ "take n ?es"]) simp
  qed
  show "\<exists>es. st_recent_decisions memory_api ty n m = (Inr es, m) \<and>
      mset es \<subseteq># mset (filter (\<lambda>e. case ty of None \<Rightarrow> True | Some w \<Rightarrow> je_signal_type e = w) (ms_journal m)) \<and>
      length es = min n (length (filter (\<lambda>e. case ty of None \<Rightarrow> True | Some w \<Rightarrow> je_signal_type e = w) (ms_journal m)))" for ty n
  proof -
    let ?es = "filter (\<lambda>e. case ty of None \<Rightarrow> True | Some w \<Rightarrow> je_signal_type e = w) (ms_journal m)"
    let ?rs = "sort_by (\<lambda>a b. cmp_of (je_decided_at_ns b) (je_decided_at_ns a)) ?es"
    have ms: "mset ?rs = mset ?es" by (rule mset_sort_by)
    then have "length ?rs = length ?es" by (metis size_mset)
    moreover have "mset (take n ?rs) \<subseteq># mset ?es" unfolding ms [symmetric] by (rule take_submset)
    moreover have "st_recent_decisions memory_api ty n m = (Inr (take n ?rs), m)"
      using p by (simp add: mem_ops mem_recent_decisions_def)
    ultimately show ?thesis by (intro exI [of _ "take n ?rs"]) simp
  qed
qed

lemma purge_live:
  assumes "hm_wf xs" "now \<le> t"
  shows "seen_live (map_of (filter (\<lambda>(_, e). now < e) xs)) i t = seen_live (map_of xs) i t"
  using assms
proof (induction xs)
  case (Cons kv xs)
  obtain k e where kv: "kv = (k, e)" by fastforce
  have "map_of (filter (\<lambda>(_, e). now < e) xs) k = None" "map_of xs k = None"
    using Cons.prems(1) kv by (auto simp: map_of_eq_None_iff)
  then show ?case using Cons kv by (auto simp: seen_live_def)
qed simp

lemma hm_wf_filter: "hm_wf xs \<Longrightarrow> hm_wf (filter P xs)"
  by (rule distinct_map_filter)

interpretation mem: node_store memory_api mem_ok mem_seen mem_table ms_journal
proof
  fix m assume ok: "mem_ok m"
  then have p: "ms_poisoned m = {}" "hm_wf (ms_seen m)" by (simp_all add: mem_ok_def)
  show "st_check_and_set_seen memory_api sg now ttl m = (b, m') \<Longrightarrow> mem_table m' = mem_table m \<and> ms_journal m' = ms_journal m"
    for sg now ttl b m' using p by (auto simp: mem_ops Let_def split: option.splits if_splits)
  show "st_put_synapse memory_api r m = (u, m') \<Longrightarrow> mem_seen m' = mem_seen m \<and> ms_journal m' = ms_journal m" for r u m'
    using p by (auto simp: mem_ops)
  show "st_append_decision memory_api e m = (j, m') \<Longrightarrow> mem_seen m' = mem_seen m \<and> mem_table m' = mem_table m" for e j m'
    using p by (auto simp: mem_ops Let_def)
  show "st_resolve_decision memory_api i out now m = (q, m') \<Longrightarrow> mem_seen m' = mem_seen m \<and> mem_table m' = mem_table m"
    for i out now q m' using p by (auto simp: mem_ops split: prod.splits)
  show "\<exists>y. st_influence_since memory_api n w m = (Inr y, m) \<and> fl_le (Fin 0) y" for n w
    using ok p(1) fl_sum_nonneg [of "map in_magnitude (filter (\<lambda>x. in_peer x = n \<and> w \<le> in_at_ns x) (ms_influence m))"]
    by (simp add: mem_ops influence_total_def mem_ok_def)
  show "kept (st_record_influence memory_api n x now w) mem_ok mem_seen mem_table ms_journal m" if "\<not> fl_is_nan x" for n x now w
    using ok p(1) fl_abs_nonneg [OF that] by (simp add: kept_def mem_ops Let_def mem_ok_def)
  show "kept (st_put_peer memory_api pr) mem_ok mem_seen mem_table ms_journal m" for pr
    using ok p by (simp add: kept_def mem_ops mem_ok_def)
  show "kept (st_save_activation memory_api sn) mem_ok mem_seen mem_table ms_journal m" for sn
    using ok p by (simp add: kept_def mem_ops mem_ok_def)
  show "kept (st_flush memory_api) mem_ok mem_seen mem_table ms_journal m"
    using ok by (simp add: kept_def mem_ops)
  show "\<exists>n m'. st_purge_expired_seen memory_api now m = (Inr n, m') \<and> mem_ok m' \<and> mem_table m' = mem_table m \<and>
      ms_journal m' = ms_journal m \<and> (\<forall>sg t. now \<le> t \<longrightarrow> seen_live (mem_seen m') sg t = seen_live (mem_seen m) sg t)" for now
    using ok p purge_live [OF p(2)] hm_wf_filter [OF p(2)] by (simp add: mem_ops Let_def mem_ok_def)
qed


text \<open>
  No signal is processed twice within its window. Over any run of arrivals and purges
  in time order, two arrivals of one signal are both taken as new only when the second
  comes at or after the first one's expiry.
\<close>

theorem no_double_acceptance:
  assumes "mem_ok m" "sorted (map event_time evs)" "j < k" "k < length evs"
    and "evs ! j = Check i t ttl" "evs ! k = Check i t' ttl'"
    and "dedup_run memory_api evs m ! j" "dedup_run memory_api evs m ! k"
  shows "seen_expiry t ttl \<le> t'"
  using assms by (rule mem.accepted_once)

lemma no_double_acceptance_witness:
  "seen_expiry 5 1 \<le> 1000000005"
proof -
  let ?evs = "[Check 9 5 1, PurgeSeen 700, Check 9 900 1, Check 9 1000000005 1]"
  have "dedup_run memory_api ?evs memory_new = [True, False, False, True]"
    by (simp add: mem_ops memory_new_def sat_add_def sat_mul_def Let_def)
  then show ?thesis
    using no_double_acceptance [of memory_new ?evs 0 3 9 5 1 1000000005 1] by simp
qed

section \<open>Listing and the journal\<close>

text \<open>On the records of a table keyed by identifier the listing order is strict.\<close>

interpretation heavier: strict_comparator "\<lambda>r. \<not> fl_is_nan (sr_weight r) \<and> t (sr_id r) = Some r" heavier_first
  for t :: "SynapseId \<rightharpoonup> SynapseRecord"
proof
  fix x y z :: SynapseRecord
  have iff: "heavier_first a b \<noteq> Greater \<longleftrightarrow>
      fl_lt (sr_weight b) (sr_weight a) \<or> fl_le (sr_weight b) (sr_weight a) \<and> sr_id a \<le> sr_id b"
    if "\<not> fl_is_nan (sr_weight a)" "\<not> fl_is_nan (sr_weight b)" for a b
    using that fl_not_lt [of "sr_weight a" "sr_weight b"] fl_lt_not_le [of "sr_weight a" "sr_weight b"]
    by (auto simp: heavier_first_def then_with_def fl_cmp_def)
  assume x: "\<not> fl_is_nan (sr_weight x) \<and> t (sr_id x) = Some x" and y: "\<not> fl_is_nan (sr_weight y) \<and> t (sr_id y) = Some y"
  show "heavier_first x y = Greater \<Longrightarrow> heavier_first y x \<noteq> Greater"
    by (auto simp: heavier_first_def then_with_def fl_cmp_def split: if_splits dest: fl_lt_not_le fl_lt_imp_le)
  show "heavier_first x y \<noteq> Greater \<Longrightarrow> heavier_first y x \<noteq> Greater \<Longrightarrow> x = y"
  proof -
    assume "heavier_first x y \<noteq> Greater" "heavier_first y x \<noteq> Greater"
    then have le: "sr_id x \<le> sr_id y" "sr_id y \<le> sr_id x"
      using iff [of x y] iff [of y x] x y by (auto dest: fl_lt_not_le fl_lt_imp_le)
    have "sr_id x = sr_id y" by (rule order.antisym [OF le])
    then show "x = y" using x y by (metis option.inject)
  qed
  assume z: "\<not> fl_is_nan (sr_weight z) \<and> t (sr_id z) = Some z"
  show "heavier_first x y \<noteq> Greater \<Longrightarrow> heavier_first y z \<noteq> Greater \<Longrightarrow> heavier_first x z \<noteq> Greater"
    using x y z by (auto simp: iff intro: fl_le_lt_trans fl_lt_le_trans fl_le_trans fl_lt_imp_le)
qed

lemma heavier_first_weight:
  "heavier_first a b \<noteq> Greater \<Longrightarrow> \<not> fl_is_nan (sr_weight a) \<Longrightarrow> \<not> fl_is_nan (sr_weight b) \<Longrightarrow>
   fl_le (sr_weight b) (sr_weight a)"
  using fl_not_lt [of "sr_weight a" "sr_weight b"]
  by (auto simp: heavier_first_def then_with_def fl_cmp_def split: if_splits dest: fl_lt_imp_le)

text \<open>
  A listing is reproducible. Two healthy stores that hold the same synapses, in
  whatever order their hash maps iterate, list exactly the same records in the same order,
  heaviest first, for every filter and limit, provided the weights are numbers.
\<close>

theorem listing_reproducible:
  assumes ok: "mem_ok m1" "mem_ok m2" and same: "mset (ms_synapses m1) = mset (ms_synapses m2)"
    and nums: "\<forall>(i, r) \<in> set (ms_synapses m1). \<not> fl_is_nan (sr_weight r)"
  shows "\<exists>rs. mem_list_synapses f m1 = (Inr rs, m1) \<and> mem_list_synapses f m2 = (Inr rs, m2) \<and>
    sorted_wrt (\<lambda>a b. fl_le (sr_weight b) (sr_weight a)) rs"
proof -
  let ?xs = "\<lambda>m. filter (filter_matches f) (hm_values (ms_synapses m))"
  have key: "\<forall>(i, r) \<in> set (ms_synapses m1). sr_id r = i" "hm_wf (ms_synapses m1)" using ok(1) by (auto simp: mem_ok_def)
  have "mset (?xs m1) = mset (?xs m2)" using same by (simp add: hm_values_def flip: mset_map mset_filter)
    (simp add: mset_filter mset_map same)
  moreover have carrier: "\<forall>r \<in> set (?xs m1). \<not> fl_is_nan (sr_weight r) \<and> mem_table m1 (sr_id r) = Some r"
    using key nums by (auto simp: hm_values_def)
  ultimately have "sort_by heavier_first (?xs m1) = sort_by heavier_first (?xs m2)"
    by (rule heavier.sort_by_perm)
  moreover have "sorted_wrt (\<lambda>a b. fl_le (sr_weight b) (sr_weight a)) (sort_by heavier_first (?xs m1))"
    using heavier.sorted_sort_by [OF carrier]
    by (rule sorted_wrt_mono_rel [rotated]) (use carrier in \<open>auto dest: heavier_first_weight\<close>)
  then have "sorted_wrt (\<lambda>a b. fl_le (sr_weight b) (sr_weight a)) (truncate l (sort_by heavier_first (?xs m1)))" for l
    by (auto simp: truncate_def sorted_wrt_take split: option.split)
  ultimately show ?thesis using ok by (simp add: mem_ops mem_ok_def)
qed

definition sample_record :: "SynapseId \<Rightarrow> NodeId \<Rightarrow> flt \<Rightarrow> SynapseRecord" where
  "sample_record i p w = \<lparr>sr_id = i, sr_peer = p, sr_weight = w,
     sr_attenuation_factor = Fin 1, sr_state = Active, sr_type_affinity = [], sr_established_at_ns = 0,
     sr_last_active_ns = 0, sr_signals_transmitted = 0, sr_signals_received = 0, sr_avg_latency_ns = 0,
     sr_error_rate = Fin 0, sr_signature_failures = 0, sr_failure_window_start_ns = 0\<rparr>"

lemma listing_reproducible_witness:
  "let a = (''a'', sample_record ''a'' [1] (Fin 0)); b = (''b'', sample_record ''b'' [2] (Fin 1))
   in fst (mem_list_synapses filter_default (memory_new\<lparr>ms_synapses := [a, b]\<rparr>)) =
      fst (mem_list_synapses filter_default (memory_new\<lparr>ms_synapses := [b, a]\<rparr>))"
  using listing_reproducible [of "memory_new\<lparr>ms_synapses := [(''a'', sample_record ''a'' [1] (Fin 0)), (''b'', sample_record ''b'' [2] (Fin 1))]\<rparr>"
      "memory_new\<lparr>ms_synapses := [(''b'', sample_record ''b'' [2] (Fin 1)), (''a'', sample_record ''a'' [1] (Fin 0))]\<rparr>" filter_default]
  by (auto simp: mem_ok_def memory_new_def sample_record_def Let_def)

text \<open>
  The first outcome wins. Once a decision has been resolved, no later report, whatever
  it says and however many there are, changes the journal, and each of them is answered
  with the first resolution.
\<close>

theorem first_outcome_wins:
  assumes ok: "mem_ok m" and first: "mem_resolve_decision i o1 t1 m = (Inr (Some e1), m1)" and res: "is_resolved o1"
  shows "let m2 = foldl (\<lambda>m (out, t). snd (mem_resolve_decision i out t m)) m1 later
    in ms_journal m2 = ms_journal m1 \<and> (\<forall>out t. fst (mem_resolve_decision i out t m2) = Inr (Some e1))"
proof -
  have inv: "\<exists>m3. mem_resolve_decision i out t m2 = (Inr (Some e1), m3) \<and> mem_ok m3 \<and> ms_journal m3 = ms_journal m1"
    if "mem_ok m2" "ms_journal m2 = ms_journal m1" for m2 out t
  proof -
    have again: "mem_resolve_decision i out t m1 = (Inr (Some e1), m1')  \<Longrightarrow> ms_journal m1' = ms_journal m1 \<Longrightarrow>
        resolve_first i out t (ms_journal m1) = (Some e1, ms_journal m1)" for m1'
      using that ok first by (auto simp: mem_ops mem_ok_def split: prod.splits)
    obtain m1' where "mem_resolve_decision i out t m1 = (Inr (Some e1), m1')" "ms_journal m1' = ms_journal m1"
      using mem.resolve_twice [OF ok _ res, of i t1 e1 m1 out t] first by auto
    from again [OF this] show ?thesis using that by (simp add: mem_ops mem_ok_def)
  qed
  have "mem_ok m1" using ok first by (auto simp: mem_ops mem_ok_def split: prod.splits)
  then have "mem_ok (foldl (\<lambda>m (out, t). snd (mem_resolve_decision i out t m)) m1 later) \<and>
      ms_journal (foldl (\<lambda>m (out, t). snd (mem_resolve_decision i out t m)) m1 later) = ms_journal m1"
  proof (induction later rule: rev_induct)
    case (snoc ev later)
    obtain out t where ev: "ev = (out, t)" by fastforce
    let ?m2 = "foldl (\<lambda>m (out, t). snd (mem_resolve_decision i out t m)) m1 later"
    obtain m3 where "mem_resolve_decision i out t ?m2 = (Inr (Some e1), m3)" "mem_ok m3" "ms_journal m3 = ms_journal m1"
      using inv [of ?m2 out t] snoc by blast
    then show ?case by (simp add: ev)
  qed simp
  then show ?thesis using inv unfolding Let_def by (metis fst_conv)
qed

definition sample_entry :: JournalEntry where
  "sample_entry = \<lparr>je_id = Some 1, je_signal = 4, je_signal_type = Data, je_synapse = ''a'', je_peer = [2],
     je_score = Fin 1, je_signal_weight = Fin 1, je_explored = False, je_decided_at_ns = 3, je_outcome = Pending,
     je_resolved_at_ns = None\<rparr>"

lemma first_outcome_wins_witness:
  "fst (mem_resolve_decision 1 TimedOut 9 (snd (mem_resolve_decision 1 Delivered 5 (memory_new\<lparr>ms_journal := [sample_entry]\<rparr>)))) =
     Inr (Some (sample_entry\<lparr>je_outcome := Delivered, je_resolved_at_ns := Some 5\<rparr>))"
proof -
  let ?m = "memory_new\<lparr>ms_journal := [sample_entry]\<rparr>" and ?e = "sample_entry\<lparr>je_outcome := Delivered, je_resolved_at_ns := Some 5\<rparr>"
  have ok: "mem_ok ?m" by (simp add: mem_ok_def memory_new_def)
  obtain m1 where m1: "mem_resolve_decision 1 Delivered 5 ?m = (Inr (Some ?e), m1)"
    by (simp add: mem_ops memory_new_def sample_entry_def is_resolved_def Let_def)
  show ?thesis using first_outcome_wins [OF ok m1, of "[]"] by (simp add: m1 is_resolved_def)
qed

text \<open>Every identifier in the journal was issued by this store and none is issued twice.\<close>

definition ids_issued :: "MemoryStore \<Rightarrow> bool" where
  "ids_issued m \<longleftrightarrow> distinct (map je_id (ms_journal m)) \<and>
     (\<forall>e \<in> set (ms_journal m). \<exists>k. je_id e = Some k \<and> k \<le> ms_next_journal_id m)"

lemma append_issues:
  assumes "ids_issued m" "ms_next_journal_id m \<noteq> - 1"
  shows "ids_issued (snd (mem_append_decision e m))"
proof -
  let ?n = "ms_next_journal_id m"
  have "1 + ?n \<noteq> 0" using assms(2) by (metis add.commute eq_neg_iff_add_eq_0)
  then have lt: "?n < ?n + 1" by (simp add: word_less_nat_alt unatSuc add.commute)
  have "ids_issued (m\<lparr>ms_next_journal_id := ?n + 1, ms_journal := ms_journal m @ [e\<lparr>je_id := Some (?n + 1)\<rparr>]\<rparr>)"
    using assms(1) lt by (force simp: ids_issued_def)
  moreover have "ids_issued (m\<lparr>ms_next_journal_id := ?n + 1\<rparr>)"
    using assms(1) lt by (force simp: ids_issued_def)
  ultimately show ?thesis using assms(1) by (auto simp: mem_ops Let_def)
qed

lemma resolve_first_ids: "map je_id (snd (resolve_first i out now es)) = map je_id es"
  by (induction i out now es rule: resolve_first.induct) (auto simp: Let_def split: prod.splits)

lemma ids_issued_map:
  "map je_id es = map je_id (ms_journal m) \<Longrightarrow> ids_issued (m\<lparr>ms_journal := es\<rparr>) = ids_issued m"
proof -
  assume eq: "map je_id es = map je_id (ms_journal m)"
  then have "je_id ` set es = je_id ` set (ms_journal m)" by (metis set_map)
  then have "(\<forall>x \<in> je_id ` set es. P x) \<longleftrightarrow> (\<forall>x \<in> je_id ` set (ms_journal m). P x)" for P by simp
  then have "(\<forall>e \<in> set es. P (je_id e)) \<longleftrightarrow> (\<forall>e \<in> set (ms_journal m). P (je_id e))" for P by simp
  from this [of "\<lambda>x. \<exists>k. x = Some k \<and> k \<le> ms_next_journal_id m"] show ?thesis
    by (simp add: ids_issued_def eq)
qed

datatype journal_event = Append JournalEntry | Resolve JournalId Outcome u64 | Trim u64

fun journal_step :: "MemoryStore \<Rightarrow> journal_event \<Rightarrow> MemoryStore" where
  "journal_step m (Append e) = snd (mem_append_decision e m)"
| "journal_step m (Resolve i out now) = snd (mem_resolve_decision i out now m)"
| "journal_step m (Trim older) = snd (mem_trim_journal older m)"

lemma journal_step_ids:
  assumes "ids_issued m" "case ev of Append _ \<Rightarrow> ms_next_journal_id m \<noteq> - 1 | _ \<Rightarrow> True"
  shows "ids_issued (journal_step m ev)"
    "unat (ms_next_journal_id (journal_step m ev)) \<le> unat (ms_next_journal_id m) + (case ev of Append _ \<Rightarrow> 1 | _ \<Rightarrow> 0)"
proof -
  show "ids_issued (journal_step m ev)"
  proof (cases ev)
    case (Resolve i out now)
    have "ids_issued (m\<lparr>ms_journal := snd (resolve_first i out now (ms_journal m))\<rparr>)"
      using assms(1) by (simp add: ids_issued_map resolve_first_ids)
    then show ?thesis using Resolve assms(1) by (simp add: mem_ops case_prod_beta)
  next
    case (Trim older)
    then show ?thesis using assms(1)
      by (auto simp: mem_trim_journal_def locked_def ids_issued_def Let_def distinct_map_filter)
  qed (use assms append_issues in simp)
  have "unat (n + 1) \<le> Suc (unat n)" for n :: u64
    using mod_less_eq_dividend [of "unat n + 1" "2 ^ 64"] by (simp add: unat_word_ariths)
  then show "unat (ms_next_journal_id (journal_step m ev)) \<le> unat (ms_next_journal_id m) + (case ev of Append _ \<Rightarrow> 1 | _ \<Rightarrow> 0)"
    by (cases ev) (auto simp: mem_ops mem_trim_journal_def Let_def case_prod_beta)
qed

text \<open>
  Journal identifiers are never reused. Starting from a store whose identifiers it
  issued, any run of appends, resolutions and trims that makes fewer than \<open>2 ^ 64\<close> appends
  leaves every entry with an identifier of its own, so an outcome is never attributed to
  another decision.
\<close>

theorem journal_ids_unique:
  assumes "ids_issued m"
    and "unat (ms_next_journal_id m) + length (filter (\<lambda>ev. \<exists>e. ev = Append e) evs) < 2 ^ 64 - 1"
  shows "distinct (map je_id (ms_journal (foldl journal_step m evs))) \<and> ids_issued (foldl journal_step m evs)"
proof -
  have "ids_issued (foldl journal_step m evs)"
    using assms
  proof (induction evs arbitrary: m)
    case (Cons ev evs)
    have top: "unat (- 1 :: u64) = 2 ^ 64 - 1" by (simp add: unsigned_minus_1_eq_mask mask_eq_exp_minus_1)
    have "case ev of Append _ \<Rightarrow> ms_next_journal_id m \<noteq> - 1 | _ \<Rightarrow> True"
      using Cons.prems(2) top by (auto split: journal_event.split)
    note st = journal_step_ids [OF Cons.prems(1) this]
    show ?case
      using Cons.IH [OF st(1)] st(2) Cons.prems(2) by (cases ev) auto
  qed simp
  then show ?thesis by (simp add: ids_issued_def)
qed

lemma journal_ids_unique_witness:
  "distinct (map je_id (ms_journal (foldl journal_step memory_new [Append sample_entry, Resolve 1 Delivered 4, Append sample_entry, Trim 2])))"
  using journal_ids_unique [of memory_new "[Append sample_entry, Resolve 1 Delivered 4, Append sample_entry, Trim 2]"]
  by (simp add: ids_issued_def memory_new_def)

end
