(* ===== verification/Identity.thy ===== *)
theory Identity
  imports Crypto Memory_Store
begin

text \<open>
  A node's signing identity and its storage (\<open>runtime/ntl-net/src/identity.rs\<close>). What the
  operating system's generator writes into the seed buffer is an argument.
\<close>

record Identity =
  id_public :: PublicKey
  id_private :: PrivateKey
  id_node_id :: NodeId

datatype IdentityError = IdStore StoreError | IdMalformed Error

definition SEED_KEY :: string where
  "SEED_KEY = ''identity-seed''"

definition NODE_ID_KEY :: string where
  "NODE_ID_KEY = ''node-id''"

definition identity_from_seed :: "('k, 'v) ed25519 \<Rightarrow> blake3 \<Rightarrow> u8 list \<Rightarrow> IdentityError + Identity" where
  "identity_from_seed ed bl seed = (case keypair_from_seed ed seed of
     Inl e \<Rightarrow> Inl (IdMalformed e)
   | Inr (public, private) \<Rightarrow> Inr \<lparr>id_public = public, id_private = private, id_node_id = node_id_from_public_key bl public\<rparr>)"

text \<open>A store call with its error mapped to \<open>IdentityError::Store\<close>.\<close>

definition id_op :: "('m, 'a) sop \<Rightarrow> ('m, IdentityError, 'a) op" where
  "id_op f m = (case f m of (Inl e, m') \<Rightarrow> (Inl (IdStore e), m') | (Inr x, m') \<Rightarrow> (Inr x, m'))"

definition id_result :: "IdentityError + 'a \<Rightarrow> ('m, IdentityError, 'a) op" where
  "id_result r = (case r of Inl e \<Rightarrow> op_fail e | Inr x \<Rightarrow> op_ret x)"

definition load_or_create ::
  "'m store_api \<Rightarrow> ('k, 'v) ed25519 \<Rightarrow> blake3 \<Rightarrow> u8 list \<Rightarrow> ('m, IdentityError, Identity) op" where
  "load_or_create api ed bl entropy =
     op_bind (id_op (st_get_meta api SEED_KEY)) (\<lambda>found. case found of
       Some seed \<Rightarrow> id_result (identity_from_seed ed bl seed)
     | None \<Rightarrow>
         op_bind (id_result (identity_from_seed ed bl entropy)) (\<lambda>identity.
         op_bind (id_op (st_put_meta api SEED_KEY entropy)) (\<lambda>_.
         op_bind (id_op (st_put_meta api NODE_ID_KEY (id_node_id identity))) (\<lambda>_.
         op_bind (id_op (st_flush api)) (\<lambda>_.
         op_ret identity)))))"

text \<open>\<open>short\<close>: the first six bytes in lower-case hexadecimal, two digits each.\<close>

definition hex_digit :: "nat \<Rightarrow> char" where
  "hex_digit d = char_of (if d < 10 then 48 + d else 87 + d)"

definition hex_byte :: "u8 \<Rightarrow> string" where
  "hex_byte b = [hex_digit (unat b div 16), hex_digit (unat b mod 16)]"

definition short :: "Identity \<Rightarrow> string" where
  "short i = concat (map hex_byte (take 6 (id_node_id i)))"

lemma load_stored:
  assumes "mem_ok m" "map_of (ms_meta m) SEED_KEY = Some seed"
  shows "load_or_create memory_api ed bl entropy m = id_result (identity_from_seed ed bl seed) m"
  using assms by (simp add: load_or_create_def op_bind_def id_op_def mem_get_meta_def locked_def mem_ok_def)

lemma load_fresh:
  assumes "mem_ok m" "map_of (ms_meta m) SEED_KEY = None" "length entropy = 32"
  shows "\<exists>i. identity_from_seed ed bl entropy = Inr i \<and> load_or_create memory_api ed bl entropy m =
      (Inr i, m\<lparr>ms_meta := AList.update NODE_ID_KEY (id_node_id i) (AList.update SEED_KEY entropy (ms_meta m))\<rparr>)"
  using assms
  by (simp add: load_or_create_def identity_from_seed_def keypair_from_seed_def Let_def op_bind_def id_op_def id_result_def
      mem_get_meta_def mem_put_meta_def mem_flush_def locked_def mem_ok_def)

text \<open>
  An identity is created once. On the in-memory store, with 32 bytes of entropy and no
  usable seed yet, the first start makes an identity whose node id is the hash of its
  public key and persists it; every later start, whatever entropy it draws, returns that
  same identity and writes nothing. No other stored value is touched.
\<close>

theorem identity_persists:
  assumes m: "mem_ok m" and fresh: "map_of (ms_meta m) SEED_KEY = None" and entropy: "length entropy = 32"
  shows "\<exists>i m'. load_or_create memory_api ed bl entropy m = (Inr i, m') \<and> mem_ok m' \<and>
    id_node_id i = node_id_from_public_key bl (id_public i) \<and>
    map_of (ms_meta m') NODE_ID_KEY = Some (id_node_id i) \<and>
    (\<forall>e. load_or_create memory_api ed bl e m' = (Inr i, m')) \<and>
    (\<forall>k. k \<noteq> SEED_KEY \<longrightarrow> k \<noteq> NODE_ID_KEY \<longrightarrow> map_of (ms_meta m') k = map_of (ms_meta m) k) \<and>
    m'\<lparr>ms_meta := ms_meta m\<rparr> = m"
proof -
  obtain i where i: "identity_from_seed ed bl entropy = Inr i" and run: "load_or_create memory_api ed bl entropy m =
      (Inr i, m\<lparr>ms_meta := AList.update NODE_ID_KEY (id_node_id i) (AList.update SEED_KEY entropy (ms_meta m))\<rparr>)" (is "_ = (_, ?m)")
    using load_fresh [OF assms, of ed bl] by blast
  have "mem_ok ?m" using m by (auto simp: mem_ok_def)
  moreover have "map_of (ms_meta ?m) SEED_KEY = Some entropy" by (simp add: hm_get_update SEED_KEY_def NODE_ID_KEY_def)
  ultimately have "load_or_create memory_api ed bl e ?m = (Inr i, ?m)" for e
    using load_stored [of ?m entropy ed bl e] i by (simp add: id_result_def)
  moreover have "id_node_id i = node_id_from_public_key bl (id_public i)"
    using i by (auto simp: identity_from_seed_def split: sum.splits)
  ultimately show ?thesis using run \<open>mem_ok ?m\<close> by (simp add: hm_get_update)
qed

lemma identity_persists_witness:
  "\<exists>i m'. load_or_create memory_api sample_ed id sample_seed memory_new = (Inr i, m') \<and>
     load_or_create memory_api sample_ed id [] m' = (Inr i, m')"
proof -
  have "map_of (ms_meta memory_new) SEED_KEY = None" "length sample_seed = 32"
    by (simp_all add: memory_new_def sample_seed_def)
  from identity_persists [OF memory_new_ok this, of sample_ed id] show ?thesis by blast
qed

end
