(* ===== verification/Propagation.thy ===== *)
theory Propagation
  imports Synapse
begin

text \<open>
  Routing (\<open>runtime/ntl-core/src/propagation.rs\<close>): configuration and validation, the score
  of a synapse, stochastic selection of the synapses that carry a signal, the propagation
  rules, the receiver's own bounds on mutable header fields, and the depth of a flood.
  A chosen synapse is a value here: the code returns a shared reference.
\<close>

section \<open>Configuration\<close>

record ScoringWeights =
  sw_weight_factor :: flt
  sw_latency_factor :: flt
  sw_affinity_factor :: flt
  sw_recency_factor :: flt

record PropagationConfig =
  pc_default_strategy :: PropagationScope
  pc_default_ttl :: u16
  pc_max_accepted_ttl :: u16
  pc_min_propagation_weight :: flt
  pc_attenuation_factor :: flt
  pc_max_fanout :: nat
  pc_dedup_cache_seconds :: u64
  pc_scoring :: ScoringWeights
  pc_exploration :: ExplorationPolicy

definition scoring_default :: ScoringWeights where
  "scoring_default = \<lparr>sw_weight_factor = lit 0.4, sw_latency_factor = lit 0.2,
     sw_affinity_factor = lit 0.3, sw_recency_factor = lit 0.1\<rparr>"

definition default_max_accepted_ttl :: u16 where
  "default_max_accepted_ttl = 32"

definition propagation_default :: PropagationConfig where
  "propagation_default = \<lparr>pc_default_strategy = scope_default, pc_default_ttl = 10,
     pc_max_accepted_ttl = default_max_accepted_ttl, pc_min_propagation_weight = lit 0.01,
     pc_attenuation_factor = lit 0.9, pc_max_fanout = 5, pc_dedup_cache_seconds = 300,
     pc_scoring = scoring_default, pc_exploration = Softmax\<rparr>"

definition propagation_validate :: "PropagationConfig \<Rightarrow> u64 \<Rightarrow> propagation_fault + unit" where
  "propagation_validate c retry_deadline_secs =
    (if pc_max_fanout c = 0 then Inl FanoutZero
     else if pc_default_ttl c = 0 then Inl DefaultTtlZero
     else if \<not> (fl_le (Fin 0) (pc_min_propagation_weight c) \<and> fl_lt (pc_min_propagation_weight c) (Fin 1))
       then Inl (MinPropagationRange (pc_min_propagation_weight c))
     else if \<not> (fl_le (Fin 0) (pc_attenuation_factor c) \<and> fl_le (pc_attenuation_factor c) (Fin 1))
       then Inl (AttenuationRange (pc_attenuation_factor c))
     else if pc_dedup_cache_seconds c < retry_deadline_secs
       then Inl (DedupTooShort (pc_dedup_cache_seconds c) retry_deadline_secs)
     else Inr ())"

definition scoring_sum :: "ScoringWeights \<Rightarrow> flt" where
  "scoring_sum w = fl_add b32 (fl_add b32 (fl_add b32 (sw_weight_factor w) (sw_latency_factor w))
     (sw_affinity_factor w)) (sw_recency_factor w)"

definition is_normalized :: "ScoringWeights \<Rightarrow> bool" where
  "is_normalized w \<longleftrightarrow> fl_lt (fl_abs (fl_sub b32 (scoring_sum w) (Fin 1))) (lit 0.001)"

section \<open>Scores\<close>

definition latency_score :: "u64 \<Rightarrow> flt" where
  "latency_score avg = (if avg = 0 then Fin 1
     else fl_div b32 (Fin 1) (fl_add b32 (Fin 1) (fl_div b32 (fl_of_nat b32 (unat avg)) (lit 1000000))))"

definition recency_score :: "u64 \<Rightarrow> u64 \<Rightarrow> flt" where
  "recency_score now last_active = fl_div b32 (Fin 1) (fl_add b32 (Fin 1)
     (if last_active < now then fl_div b32 (fl_of_nat b32 (unat (now - last_active))) (lit 3600000000000) else Fin 0))"

definition score_synapse :: "Synapse \<Rightarrow> string \<Rightarrow> u64 \<Rightarrow> ScoringWeights \<Rightarrow> flt" where
  "score_synapse s signal_type now w =
     fl_add b32 (fl_add b32 (fl_add b32
       (fl_mul b32 (sy_weight s) (sw_weight_factor w))
       (fl_mul b32 (latency_score (sy_avg_latency_ns s)) (sw_latency_factor w)))
       (fl_mul b32 (affinity_for s signal_type) (sw_affinity_factor w)))
       (fl_mul b32 (recency_score now (sy_last_active_ns s)) (sw_recency_factor w))"

section \<open>Selection\<close>

record Chosen =
  ch_synapse :: Synapse
  ch_score :: flt
  ch_explored :: bool

definition eligible :: "PropagationScope \<Rightarrow> SynapseId option \<Rightarrow> Synapse \<Rightarrow> bool" where
  "eligible scope arrival s \<longleftrightarrow>
     (case arrival of Some a \<Rightarrow> sy_id s \<noteq> a | None \<Rightarrow> True) \<and> can_carry (sy_state s) \<and>
     (case scope of Weighted min_weight \<Rightarrow> fl_le min_weight (sy_weight s) | _ \<Rightarrow> True)"

definition direct_synapse :: "PropagationScope \<Rightarrow> Synapse list \<Rightarrow> Synapse option" where
  "direct_synapse scope candidates = (case scope of
     Targeted destination \<Rightarrow> find (\<lambda>s. sy_remote_node s = destination) candidates | _ \<Rightarrow> None)"

definition select_synapses ::
  "libm \<Rightarrow> Synapse list \<Rightarrow> PropagationScope \<Rightarrow> string \<Rightarrow> SynapseId option \<Rightarrow> PropagationConfig \<Rightarrow>
   LearningConfig \<Rightarrow> u64 \<Rightarrow> 's rng \<Rightarrow> 's \<Rightarrow> (Chosen list \<times> 's) option" where
  "select_synapses lm synapses scope signal_type arrival c lc now nx s =
    (let candidates = filter (eligible scope arrival) synapses;
         score = (\<lambda>x. score_synapse x signal_type now (pc_scoring c))
     in if candidates = [] then Some ([], s)
        else case direct_synapse scope candidates of
          Some d \<Rightarrow> Some ([\<lparr>ch_synapse = d, ch_score = score d, ch_explored = False\<rparr>], s)
        | None \<Rightarrow>
            (let scores = map score candidates;
                 k = (case scope of Flood _ \<Rightarrow> length candidates | Targeted _ \<Rightarrow> 1 | _ \<Rightarrow> pc_max_fanout c)
             in case scope of
               Flood _ \<Rightarrow> Some (sort_by (\<lambda>a b. fl_cmp (ch_score b) (ch_score a))
                 (map (\<lambda>x. \<lparr>ch_synapse = x, ch_score = score x, ch_explored = False\<rparr>) candidates), s)
             | _ \<Rightarrow> map_option (\<lambda>(out, s'). (map (\<lambda>sel. \<lparr>ch_synapse = candidates ! sl_index sel,
                 ch_score = sl_score sel, ch_explored = sl_explored sel\<rparr>) out, s'))
                 (sample_paths lm scores k (pc_exploration c) lc nx s)))"

section \<open>Propagation rules and header bounds\<close>

definition check_propagable :: "'p Signal \<Rightarrow> NodeId \<Rightarrow> PropagationConfig \<Rightarrow> RejectReason + unit" where
  "check_propagable sig local c =
    (if sg_ttl sig = 0 then Inl TtlExhausted
     else if has_visited sig local then Inl NoRoute
     else if fl_lt (sg_weight sig) (pc_min_propagation_weight c) then Inl BelowThreshold
     else Inr ())"

record HeaderClamp =
  hc_weight_clamped :: bool
  hc_ttl_clamped :: bool

definition clamp_any :: "HeaderClamp \<Rightarrow> bool" where
  "clamp_any h \<longleftrightarrow> hc_weight_clamped h \<or> hc_ttl_clamped h"

definition clamp_inbound_headers :: "'p Signal \<Rightarrow> PropagationConfig \<Rightarrow> HeaderClamp \<times> 'p Signal" where
  "clamp_inbound_headers sig c =
    (let bad_weight = (fl_lt (sg_weight sig) (Fin 0) \<or> fl_lt (Fin 1) (sg_weight sig));
         sig1 = (if bad_weight then sig\<lparr>sg_weight := clamp01 (sg_weight sig)\<rparr> else sig);
         bad_ttl = (pc_max_accepted_ttl c < sg_ttl sig1);
         sig2 = (if bad_ttl then sig1\<lparr>sg_ttl := pc_max_accepted_ttl c\<rparr> else sig1)
     in (\<lparr>hc_weight_clamped = bad_weight, hc_ttl_clamped = bad_ttl\<rparr>, sig2))"

definition flood_depth_reached :: "'p Signal \<Rightarrow> bool" where
  "flood_depth_reached sig = (case sg_scope sig of
     Flood max_hops \<Rightarrow> unat max_hops \<le> length (sg_trace sig) | _ \<Rightarrow> False)"

section \<open>Monotone arithmetic\<close>

declare fl_le_trans [trans]

lemma fl_add_mono_left:
  assumes "fl_le x y" "\<not> fl_is_nan (fl_add b32 x z)" "\<not> fl_is_nan (fl_add b32 y z)"
  shows "fl_le (fl_add b32 x z) (fl_add b32 y z)"
proof (cases "fl_is_finite x \<and> fl_is_finite y \<and> fl_is_finite z")
  case True
  then have "fl_val x + fl_val z \<le> fl_val y + fl_val z" using assms(1) by (simp add: fl_le_finite)
  then have "fl_le (fl_pack b32 False (fl_val x + fl_val z)) (fl_pack b32 False (fl_val y + fl_val z))"
    by (simp add: fl_pack_mono)
  then show ?thesis
    using True fl_key_add [of x z b32 False] fl_key_add [of y z b32 False] by (simp add: fl_le_def fl_add_nan_iff)
next
  case False
  have top: "fl_le u (FInf False)" "fl_le (FInf True) u" if "\<not> fl_is_nan u" for u
    using that by (cases u; simp add: fl_le_def)+
  show ?thesis
    using False assms top [OF assms(2)] top [OF assms(3)]
    by (cases x; cases y; cases z) (auto simp: fl_le_def split: if_splits)
qed

lemma fl_add_comm: "fl_add fm x y = fl_add fm y x"
  by (cases x; cases y) (auto simp: add.commute)

lemma fl_add_mono_both:
  assumes "fl_le x x'" "fl_le y y'" "fl_le (Fin 0) x" "fl_le (Fin 0) y"
  shows "fl_le (fl_add b32 x y) (fl_add b32 x' y')" and "fl_le (Fin 0) (fl_add b32 x y)"
proof -
  have nn: "\<not> fl_is_nan (fl_add b32 u v)" if "fl_le (Fin 0) u" "fl_le (Fin 0) v" for u v
    using that by (cases u; cases v) (auto simp: fl_le_def)
  note pos = assms(3,4) fl_le_trans [OF assms(3,1)] fl_le_trans [OF assms(4,2)]
  have "fl_le (fl_add b32 x y) (fl_add b32 x' y)" using assms(1) nn pos by (intro fl_add_mono_left)
  also have "fl_le (fl_add b32 x' y) (fl_add b32 x' y')"
    unfolding fl_add_comm [of b32 x'] using assms(2) nn pos by (intro fl_add_mono_left)
  finally show "fl_le (fl_add b32 x y) (fl_add b32 x' y')" .
  have "fl_le (fl_add b32 (Fin 0) (Fin 0)) (fl_add b32 x (Fin 0))"
    using pos nn by (intro fl_add_mono_left) simp_all
  also have "fl_le (fl_add b32 x (Fin 0)) (fl_add b32 x y)"
    unfolding fl_add_comm [of b32 x] using pos nn by (intro fl_add_mono_left) simp_all
  finally show "fl_le (Fin 0) (fl_add b32 x y)" by (simp add: fl_pack_def)
qed

lemma fl_add_nonneg_le: "fl_le (Fin 0) x \<Longrightarrow> fl_le (Fin 0) y \<Longrightarrow> fl_le (Fin 0) (fl_add b32 x y)"
  using fl_add_mono_both(2) [of x x y y] by (auto dest: fl_le_not_nan)

lemma reciprocal_unit: "fl_le (Fin 1) k \<Longrightarrow> in_unit (fl_div b32 (Fin 1) k)"
proof (cases "fl_is_finite k")
  case True
  moreover assume "fl_le (Fin 1) k"
  ultimately have k: "1 \<le> fl_val k" by (simp add: fl_le_finite)
  then have "fl_div b32 (Fin 1) k = fl_pack b32 (fl_sign (Fin 1) \<noteq> fl_sign k) (1 / fl_val k)"
    using True by (subst fl_div_finite) auto
  then show ?thesis using k by (auto intro!: fl_le_packI fl_pack_leI)
qed (cases k; simp add: fl_le_def)

lemma reciprocal_antimono:
  assumes "fl_le (Fin 1) k" "fl_le k k'" shows "fl_le (fl_div b32 (Fin 1) k') (fl_div b32 (Fin 1) k)"
proof (cases "fl_is_finite k'")
  case True
  then have fin: "fl_is_finite k" using between_finite [OF assms] by simp
  then have "1 \<le> fl_val k" "fl_val k \<le> fl_val k'" using assms True by (simp_all add: fl_le_finite)
  moreover from this have "1 / fl_val k' \<le> 1 / fl_val k" by (intro divide_left_mono) auto
  ultimately show ?thesis using fin True by (auto simp: fl_div_finite fl_pack_mono)
next
  case False
  then have "fl_div b32 (Fin 1) k' = Fin 0" using assms fl_le_trans [OF assms] by (cases k') (auto simp: fl_le_def)
  moreover have "fl_le (Fin 0) (fl_div b32 (Fin 1) k)" using reciprocal_unit [OF assms(1)] by simp
  ultimately show ?thesis by simp
qed

lemma fl_div_const:
  fixes m n :: u64
  assumes "m \<le> n" "0 < c"
  shows "fl_le (fl_div b32 (fl_of_nat b32 (unat m)) (Fin c)) (fl_div b32 (fl_of_nat b32 (unat n)) (Fin c))"
    "fl_le (Fin 0) (fl_div b32 (fl_of_nat b32 (unat m)) (Fin c))"
proof -
  have "fl_val (fl_of_nat b32 (unat m)) / c \<le> fl_val (fl_of_nat b32 (unat n)) / c"
    using fl_of_nat_u64(2) [OF assms(1)] assms(2) by (simp add: divide_right_mono)
  then show "fl_le (fl_div b32 (fl_of_nat b32 (unat m)) (Fin c)) (fl_div b32 (fl_of_nat b32 (unat n)) (Fin c))"
    using assms(2) fl_of_nat_u64(1) by (auto simp: fl_div_finite fl_pack_mono)
  show "fl_le (Fin 0) (fl_div b32 (fl_of_nat b32 (unat m)) (Fin c))"
    using assms(2) fl_of_nat_u64(1,4) by (auto simp: fl_div_finite intro!: fl_le_packI)
qed

lemma fl_mul_mono_factor:
  assumes "fl_le x y" "in_unit y" "fl_le (Fin 0) x" "in_unit f"
  shows "fl_le (fl_mul b32 x f) (fl_mul b32 y f)" "fl_le (Fin 0) (fl_mul b32 x f)"
proof -
  have fin: "fl_is_finite x" "fl_is_finite y" "fl_is_finite f" "0 \<le> fl_val f"
    using between_finite [OF assms(3,1)] in_unit_finite assms by auto
  moreover have "fl_val x * fl_val f \<le> fl_val y * fl_val f" "0 \<le> fl_val x * fl_val f"
    using assms(1,3) fin by (auto simp: fl_le_finite intro!: mult_right_mono)
  ultimately show "fl_le (fl_mul b32 x f) (fl_mul b32 y f)" "fl_le (Fin 0) (fl_mul b32 x f)"
    by (auto simp: fl_mul_finite fl_pack_mono intro!: fl_le_packI)
qed

section \<open>Scores order synapses by quality\<close>

lemma lit_scales: "lit 1000000 = Fin 1000000" "0 < fl_val (lit 3600000000000)"
  "fl_is_finite (lit 3600000000000)"
  by code_simp+

lemma one_plus: "fl_le (Fin 0) q \<Longrightarrow> fl_le (Fin 1) (fl_add b32 (Fin 1) q)"
proof -
  assume q: "fl_le (Fin 0) q"
  have "fl_add b32 (Fin 1) (Fin 0) = Fin 1" by code_simp
  then show ?thesis using fl_add_mono_both(1) [of "Fin 1" "Fin 1" "Fin 0" q] q by (simp add: fl_le_finite)
qed

lemma latency_score_antimono:
  assumes "a \<le> b" shows "fl_le (latency_score b) (latency_score a)" "in_unit (latency_score a)"
proof -
  let ?k = "\<lambda>n :: u64. fl_add b32 (Fin 1) (fl_div b32 (fl_of_nat b32 (unat n)) (Fin 1000000))"
  have one: "fl_le (Fin 1) (?k n)" for n using fl_div_const(2) [of n n 1000000] by (intro one_plus) simp
  have mono: "fl_le (?k a) (?k b)"
    using fl_div_const [OF assms, of 1000000] by (intro fl_add_mono_both) (simp_all add: fl_le_finite)
  show "in_unit (latency_score a)"
    using reciprocal_unit [OF one, of a] by (simp add: latency_score_def lit_scales fl_le_finite)
  show "fl_le (latency_score b) (latency_score a)"
  proof (cases "a = 0")
    case True
    then show ?thesis using reciprocal_unit [OF one, of b] by (simp add: latency_score_def lit_scales fl_le_finite)
  next
    case False
    then have "b \<noteq> 0" using assms by auto
    then show ?thesis using False reciprocal_antimono [OF one mono] by (simp add: latency_score_def lit_scales)
  qed
qed

lemma recency_score_mono:
  assumes "l \<le> l'" shows "fl_le (recency_score now l) (recency_score now l')" "in_unit (recency_score now l)"
proof -
  obtain c where c: "lit 3600000000000 = Fin c" "0 < c"
    using lit_scales by (cases "lit 3600000000000") auto
  let ?q = "\<lambda>l. if l < now then fl_div b32 (fl_of_nat b32 (unat (now - l))) (Fin c) else Fin 0"
  have q0: "fl_le (Fin 0) (?q x)" for x using fl_div_const(2) [of "now - x" "now - x" c] c by (simp add: fl_le_finite)
  have one: "fl_le (Fin 1) (fl_add b32 (Fin 1) (?q x))" for x using q0 by (rule one_plus)
  have eq: "recency_score now x = fl_div b32 (Fin 1) (fl_add b32 (Fin 1) (?q x))" for x
    by (simp add: recency_score_def c)
  show "in_unit (recency_score now l)" unfolding eq using one by (rule reciprocal_unit)
  have "fl_le (?q l') (?q l)"
  proof (cases "l' < now")
    case True
    then have "now - l' \<le> now - l" "l < now" using assms by (auto simp: word_le_nat_alt word_less_nat_alt unat_sub)
    then show ?thesis using True fl_div_const(1) c by simp
  next
    case False
    then show ?thesis using q0 [of l] by simp
  qed
  then have "fl_le (fl_add b32 (Fin 1) (?q l')) (fl_add b32 (Fin 1) (?q l))"
    using q0 by (intro fl_add_mono_both) (simp_all add: fl_le_finite)
  then show "fl_le (recency_score now l) (recency_score now l')" unfolding eq using one by (intro reciprocal_antimono)
qed

text \<open>
  Scores respect quality. With scoring factors in the unit interval, a synapse that is
  at least as heavy, at least as fast, at least as apt for the signal's type and at least
  as recently active as another scores at least as high, rounding included, and no score
  is negative or NaN.
\<close>

theorem score_dominance:
  assumes factors: "in_unit (sw_weight_factor w)" "in_unit (sw_latency_factor w)"
      "in_unit (sw_affinity_factor w)" "in_unit (sw_recency_factor w)"
    and heavier: "fl_le (Fin 0) (sy_weight a)" "fl_le (sy_weight a) (sy_weight b)" "fl_le (sy_weight b) (Fin 1)"
    and apter: "fl_le (Fin 0) (affinity_for a t)" "fl_le (affinity_for a t) (affinity_for b t)" "fl_le (affinity_for b t) (Fin 1)"
    and faster: "sy_avg_latency_ns b \<le> sy_avg_latency_ns a" and newer: "sy_last_active_ns a \<le> sy_last_active_ns b"
  shows "fl_le (score_synapse a t now w) (score_synapse b t now w) \<and> fl_le (Fin 0) (score_synapse a t now w)"
proof -
  have lat: "in_unit (latency_score n)" and rec: "in_unit (recency_score now n)" for n
    by (rule latency_score_antimono(2) recency_score_mono(2), rule order_refl)+
  have unit: "in_unit (sy_weight b)" "in_unit (affinity_for b t)"
    using fl_le_trans [OF heavier(1,2)] fl_le_trans [OF apter(1,2)] heavier(3) apter(3) by simp_all
  note parts = fl_mul_mono_factor [OF heavier(2) unit(1) heavier(1) factors(1)]
    fl_mul_mono_factor [OF latency_score_antimono(1) [OF faster] lat conjunct1 [OF lat] factors(2)]
    fl_mul_mono_factor [OF apter(2) unit(2) apter(1) factors(3)]
    fl_mul_mono_factor [OF recency_score_mono(1) [OF newer] rec conjunct1 [OF rec] factors(4)]
  show ?thesis
    unfolding score_synapse_def by (intro conjI fl_add_mono_both(1) fl_add_nonneg_le parts)
qed

lemma score_dominance_witness:
  "fl_le (score_synapse sample_synapse ''Data'' 7 scoring_default)
    (score_synapse (sample_synapse\<lparr>sy_weight := Fin 1\<rparr>) ''Data'' 7 scoring_default)"
proof -
  have "in_unit (lit 0.4)" "in_unit (lit 0.2)" "in_unit (lit 0.3)" "in_unit (lit 0.1)" by code_simp+
  moreover have "affinity_for (sample_synapse\<lparr>sy_weight := x\<rparr>) t = Fin 0" "affinity_for sample_synapse t = Fin 0"
    "sy_weight sample_synapse = Fin (1/2)" for x t
    by (simp_all add: sample_synapse_def from_record_def affinity_for_def hm_values_def)
  ultimately show ?thesis
    using score_dominance [of scoring_default sample_synapse "sample_synapse\<lparr>sy_weight := Fin 1\<rparr>" "''Data''" 7]
    by (simp add: scoring_default_def fl_le_finite)
qed

section \<open>What is selected\<close>

lemma direct_synapse_Some:
  assumes "direct_synapse scope xs = Some d"
  shows "d \<in> set xs \<and> scope = Targeted (sy_remote_node d)"
  using assms by (auto simp: direct_synapse_def find_Some_iff split: PropagationScope.splits)

lemma map_nth_submset:
  assumes "distinct idx" "set idx \<subseteq> {..<length xs}"
  shows "mset (map ((!) xs) idx) \<subseteq># mset xs"
proof -
  have "mset idx \<subseteq># mset [0..<length xs]"
    using assms by (simp add: mset_subset_eqI distinct_count_atmost_1 subset_iff)
  then have "image_mset ((!) xs) (mset idx) \<subseteq># image_mset ((!) xs) (mset [0..<length xs])"
    by (rule image_mset_subseteq_mono)
  then show ?thesis by (simp only: mset_map [symmetric] map_nth)
qed

interpretation choice_order: comparator "\<lambda>x. \<not> fl_is_nan (ch_score x)" "\<lambda>a b. fl_cmp (ch_score b) (ch_score a)"
  by unfold_locales (auto dest: fl_cmp_total simp: fl_cmp_neq_Greater intro: fl_le_trans)

definition choices_of :: "(Synapse \<Rightarrow> flt) \<Rightarrow> Synapse list \<Rightarrow> Chosen list \<Rightarrow> bool" where
  "choices_of f xs out \<longleftrightarrow> mset (map ch_synapse out) \<subseteq># mset xs \<and>
     (\<forall>x \<in> set out. ch_score x = f (ch_synapse x)) \<and>
     ((\<forall>x \<in> set xs. \<not> fl_is_nan (f x)) \<longrightarrow> sorted_wrt (\<lambda>a b. fl_le (ch_score b) (ch_score a)) out)"

lemma flood_choices:
  shows "choices_of f xs (sort_by (\<lambda>a b. fl_cmp (ch_score b) (ch_score a))
    (map (\<lambda>x. \<lparr>ch_synapse = x, ch_score = f x, ch_explored = False\<rparr>) xs))" (is "choices_of f xs (sort_by _ ?ys)")
proof -
  let ?out = "sort_by (\<lambda>a b. fl_cmp (ch_score b) (ch_score a)) ?ys"
  have "sorted_wrt (\<lambda>a b. fl_le (ch_score b) (ch_score a)) ?out" if nums: "\<forall>x \<in> set xs. \<not> fl_is_nan (f x)"
  proof -
    have "sorted_wrt (\<lambda>a b. fl_cmp (ch_score b) (ch_score a) \<noteq> Greater) ?out"
      using nums by (intro choice_order.sorted_sort_by) auto
    then show ?thesis by (rule sorted_wrt_mono_rel [rotated]) (use nums in \<open>auto simp: fl_cmp_neq_Greater\<close>)
  qed
  moreover have "mset (map ch_synapse ?out) = mset xs" by (simp add: image_mset.compositionality comp_def)
  ultimately show ?thesis by (auto simp: choices_of_def)
qed

lemma sampled_choices:
  assumes run: "sample_paths lm (map f xs) k p lc nx s = Some (sel, s')"
  defines "out \<equiv> map (\<lambda>x. \<lparr>ch_synapse = xs ! sl_index x, ch_score = sl_score x, ch_explored = sl_explored x\<rparr>) sel"
  shows "choices_of f xs out" "length out = min k (length xs)"
proof -
  obtain raw where raw: "mset sel = mset raw" "sel = sort_by (\<lambda>a b. fl_cmp (sl_score b) (sl_score a)) raw"
    "distinct (map sl_index raw)" "length raw = min k (length xs)"
    "\<forall>x \<in> set raw. sl_index x < length xs \<and> sl_score x = map f xs ! sl_index x"
    using selection_list [OF run] by auto
  have set: "set sel = set raw" using raw(1) by (metis set_mset_mset)
  have len: "length sel = length raw" using raw(1) by (metis size_mset)
  have idx: "\<forall>x \<in> set sel. sl_index x < length xs \<and> sl_score x = f (xs ! sl_index x)" using raw(5) set by auto
  have "mset (map sl_index sel) = mset (map sl_index raw)" using raw(1) by simp
  then have "distinct (map sl_index sel)" using raw(3) by (metis mset_eq_imp_distinct_iff)
  moreover have "set (map sl_index sel) \<subseteq> {..<length xs}" using idx by auto
  ultimately have "mset (map ((!) xs) (map sl_index sel)) \<subseteq># mset xs" by (rule map_nth_submset)
  moreover have "sorted_wrt (\<lambda>a b. fl_le (sl_score b) (sl_score a)) sel" if nums: "\<forall>x \<in> set xs. \<not> fl_is_nan (f x)"
  proof -
    have "sorted_wrt (\<lambda>a b. fl_cmp (sl_score b) (sl_score a) \<noteq> Greater) sel"
      unfolding raw(2) using idx set nums by (intro selection_order.sorted_sort_by) auto
    then show ?thesis by (rule sorted_wrt_mono_rel [rotated]) (use idx nums in \<open>auto simp: fl_cmp_neq_Greater\<close>)
  qed
  ultimately show "choices_of f xs out"
    using idx by (auto simp: choices_of_def out_def comp_def sorted_wrt_map)
  show "length out = min k (length xs)" using len raw(4) by (simp add: out_def)
qed

definition fanout_of :: "PropagationScope \<Rightarrow> PropagationConfig \<Rightarrow> nat \<Rightarrow> nat" where
  "fanout_of scope c n = (case scope of Flood _ \<Rightarrow> n | Targeted _ \<Rightarrow> min 1 n | _ \<Rightarrow> min (pc_max_fanout c) n)"

lemma select_synapses_cases:
  assumes run: "select_synapses lm synapses scope ty arrival c lc now nx s = Some (out, s')"
  defines "candidates \<equiv> filter (eligible scope arrival) synapses"
  shows "choices_of (\<lambda>x. score_synapse x ty now (pc_scoring c)) candidates out \<and>
    length out = fanout_of scope c (length candidates) \<and>
    (\<forall>d. direct_synapse scope candidates = Some d \<longrightarrow> map ch_synapse out = [d])"
proof -
  let ?score = "\<lambda>x. score_synapse x ty now (pc_scoring c)"
  consider (empty) "candidates = []"
    | (direct) d where "candidates \<noteq> []" "direct_synapse scope candidates = Some d"
    | (flood) h where "candidates \<noteq> []" "direct_synapse scope candidates = None" "scope = Flood h"
    | (sampled) "candidates \<noteq> []" "direct_synapse scope candidates = None" "\<nexists>h. scope = Flood h"
    by blast
  then show ?thesis
  proof cases
    case empty
    then show ?thesis
      using run by (auto simp: select_synapses_def candidates_def choices_of_def fanout_of_def direct_synapse_def
          split: PropagationScope.splits)
  next
    case direct
    note d = direct_synapse_Some [OF direct(2)]
    have "out = [\<lparr>ch_synapse = d, ch_score = ?score d, ch_explored = False\<rparr>]"
      using run direct by (auto simp: select_synapses_def candidates_def Let_def)
    then show ?thesis using d direct by (auto simp: choices_of_def fanout_of_def Suc_le_eq)
  next
    case flood
    then have "out = sort_by (\<lambda>a b. fl_cmp (ch_score b) (ch_score a))
        (map (\<lambda>x. \<lparr>ch_synapse = x, ch_score = ?score x, ch_explored = False\<rparr>) candidates)"
      using run by (auto simp: select_synapses_def candidates_def Let_def)
    then show ?thesis using flood flood_choices [of ?score candidates] by (simp add: fanout_of_def)
  next
    case sampled
    define k where "k = (case scope of Targeted _ \<Rightarrow> 1 | _ \<Rightarrow> pc_max_fanout c)"
    obtain sel where sel: "sample_paths lm (map ?score candidates) k (pc_exploration c) lc nx s = Some (sel, s')"
      and out: "out = map (\<lambda>x. \<lparr>ch_synapse = candidates ! sl_index x, ch_score = sl_score x, ch_explored = sl_explored x\<rparr>) sel"
      using run sampled by (auto simp: select_synapses_def candidates_def k_def Let_def split: PropagationScope.splits)
    show ?thesis
      using sampled_choices [OF sel] sampled by (auto simp: out k_def fanout_of_def split: PropagationScope.splits)
  qed
qed

text \<open>
  C29: Routing sends only where it may. Every choice is a different eligible synapse of the
  node, never the one the signal arrived on, always one that can carry traffic, and above
  the floor of a weighted scope; it is reported with its own score, best first. A targeted
  signal takes exactly its direct synapse when there is one, and otherwise one best guess;
  a flood takes every eligible synapse; the other scopes take \<open>max_fanout\<close> or all there are.
\<close>

theorem select_synapses_sound:
  assumes run: "select_synapses lm synapses scope ty arrival c lc now nx s = Some (out, s')"
    and nums: "\<forall>x \<in> set synapses. \<not> fl_is_nan (score_synapse x ty now (pc_scoring c))"
  defines "candidates \<equiv> filter (eligible scope arrival) synapses"
  shows "mset (map ch_synapse out) \<subseteq># mset synapses \<and>
    (\<forall>x \<in> set out. Some (sy_id (ch_synapse x)) \<noteq> arrival \<and> can_carry (sy_state (ch_synapse x)) \<and>
      (\<forall>m. scope = Weighted m \<longrightarrow> fl_le m (sy_weight (ch_synapse x))) \<and>
      ch_score x = score_synapse (ch_synapse x) ty now (pc_scoring c)) \<and>
    sorted_wrt (\<lambda>a b. fl_le (ch_score b) (ch_score a)) out \<and>
    length out = (case scope of Flood _ \<Rightarrow> length candidates | Targeted _ \<Rightarrow> min 1 (length candidates)
      | _ \<Rightarrow> min (pc_max_fanout c) (length candidates)) \<and>
    (\<forall>d. direct_synapse scope candidates = Some d \<longrightarrow> map ch_synapse out = [d])"
proof -
  note c = select_synapses_cases [OF run, folded candidates_def]
  then have sub: "mset (map ch_synapse out) \<subseteq># mset candidates" by (simp add: choices_of_def)
  also have "mset candidates \<subseteq># mset synapses"
    unfolding candidates_def mset_filter by (rule multiset_filter_subset)
  finally have all: "mset (map ch_synapse out) \<subseteq># mset synapses" .
  have "ch_synapse ` set out \<subseteq> set candidates" using set_mset_mono [OF sub] by simp
  then have "\<forall>x \<in> set out. eligible scope arrival (ch_synapse x)" by (auto simp: candidates_def)
  then have "\<forall>x \<in> set out. Some (sy_id (ch_synapse x)) \<noteq> arrival \<and> can_carry (sy_state (ch_synapse x)) \<and>
      (\<forall>m. scope = Weighted m \<longrightarrow> fl_le m (sy_weight (ch_synapse x)))"
    by (auto simp: eligible_def)
  moreover have "\<forall>x \<in> set candidates. \<not> fl_is_nan (score_synapse x ty now (pc_scoring c))"
    using nums by (simp add: candidates_def)
  ultimately show ?thesis using c all by (auto simp: choices_of_def fanout_of_def)
qed

lemma select_synapses_sound_witness:
  "\<exists>out s'. select_synapses sample_libm [sample_synapse] (Weighted (Fin 0)) ''Data'' (Some ''b'')
      propagation_default learning_default 7 splitmix_next (seeded 0) = Some (out, s') \<and> length out = 1"
proof -
  let ?c = propagation_default and ?syn = "[sample_synapse]"
  let ?cand = "filter (eligible (Weighted (Fin 0)) (Some ''b'')) ?syn"
  have el: "?cand = ?syn"
    by (simp add: eligible_def sample_synapse_def from_record_def can_carry_def fl_le_finite)
  obtain sel s' where sel: "sample_paths sample_libm (map (\<lambda>x. score_synapse x ''Data'' 7 (pc_scoring ?c)) ?cand)
      (pc_max_fanout ?c) (pc_exploration ?c) learning_default splitmix_next (seeded 0) = Some (sel, s')"
    using sample_paths_total by blast
  then obtain out where run: "select_synapses sample_libm ?syn (Weighted (Fin 0)) ''Data'' (Some ''b'') ?c
      learning_default 7 splitmix_next (seeded 0) = Some (out, s')"
    using el by (auto simp: select_synapses_def Let_def direct_synapse_def)
  have "\<not> fl_is_nan (score_synapse sample_synapse ''Data'' 7 (pc_scoring ?c))" by code_simp
  then have "length out = 1"
    using select_synapses_sound [OF run] el by (simp add: propagation_default_def)
  with run show ?thesis by blast
qed

lemma select_synapses_total:
  "\<exists>out g'. select_synapses lm synapses scope ty arrival c lc now splitmix_next g = Some (out, g') \<and>
    ((\<exists>h. scope = Flood h) \<or> direct_synapse scope (filter (eligible scope arrival) synapses) \<noteq> None \<longrightarrow> g' = g)"
proof -
  have sampled: "\<exists>out g'. sample_paths lm scores k p lc splitmix_next g = Some (out, g')" for scores k p
    by (rule sample_paths_total)
  show ?thesis
    using sampled [of "map (\<lambda>x. score_synapse x ty now (pc_scoring c)) (filter (eligible scope arrival) synapses)" 1 "pc_exploration c"]
      sampled [of "map (\<lambda>x. score_synapse x ty now (pc_scoring c)) (filter (eligible scope arrival) synapses)" "pc_max_fanout c" "pc_exploration c"]
    by (cases scope) (auto simp: select_synapses_def Let_def direct_synapse_def split: option.splits)
qed

text \<open>
  Routing always decides. On the code's generator the selection returns for every
  topology, scope and configuration, NaN scores and a zero fanout included, and a flood or
  a direct delivery draws no random number.
\<close>

theorem select_synapses_returns:
  "\<exists>out g'. select_synapses lm synapses scope ty arrival c lc now splitmix_next g = Some (out, g') \<and>
    ((\<exists>h. scope = Flood h) \<or> direct_synapse scope (filter (eligible scope arrival) synapses) \<noteq> None \<longrightarrow> g' = g)"
  by (rule select_synapses_total)

lemma select_synapses_returns_witness:
  "\<exists>out. select_synapses sample_libm [] (Flood 3) ''Data'' None propagation_default learning_default 7
     splitmix_next (seeded 0) = Some (out, seeded 0)"
  using select_synapses_returns [of sample_libm "[]" "Flood 3" "''Data''" None propagation_default learning_default 7 "seeded 0"]
  by auto

section \<open>Headers\<close>

lemma clamp_headers_frame:
  assumes "clamp_inbound_headers g c = (h, g')"
  shows "sg_trace g' = sg_trace g" "sg_scope g' = sg_scope g" "unsigned_part g' = unsigned_part g"
    "sg_ttl g' = min (sg_ttl g) (pc_max_accepted_ttl c)" "sg_delivery g' = sg_delivery g"
  using assms by (auto simp: clamp_inbound_headers_def Let_def unsigned_part_def min_def split: if_splits)

text \<open>
  A relay cannot inflate its way past the receiver. Whatever arrived, the TTL honoured
  is at most the node's own limit and any number carried as weight ends up in \<open>[0, 1]\<close>;
  values within bounds, and every signed field, are left alone; and the report says exactly
  which of the two was corrected. A NaN weight is neither corrected nor reported: the
  caller has to test for it.
\<close>

theorem inbound_headers_bounded:
  assumes run: "clamp_inbound_headers g c = (h, g')"
  shows "sg_ttl g' = min (sg_ttl g) (pc_max_accepted_ttl c) \<and>
    (if fl_is_nan (sg_weight g) then sg_weight g' = sg_weight g \<and> \<not> hc_weight_clamped h else in_unit (sg_weight g')) \<and>
    unsigned_part g' = unsigned_part g \<and> sg_trace g' = sg_trace g \<and>
    (hc_weight_clamped h \<longleftrightarrow> \<not> fl_is_nan (sg_weight g) \<and> \<not> in_unit (sg_weight g)) \<and>
    (hc_ttl_clamped h \<longleftrightarrow> pc_max_accepted_ttl c < sg_ttl g) \<and> (clamp_any h \<or> g' = g)"
proof -
  have w: "sg_weight g' = (if hc_weight_clamped h then clamp01 (sg_weight g) else sg_weight g)"
    "hc_weight_clamped h \<longleftrightarrow> fl_lt (sg_weight g) (Fin 0) \<or> fl_lt (Fin 1) (sg_weight g)"
    "hc_ttl_clamped h \<longleftrightarrow> pc_max_accepted_ttl c < sg_ttl g" "clamp_any h \<or> g' = g"
    using run by (auto simp: clamp_inbound_headers_def Let_def clamp_any_def split: if_splits)
  have iff: "hc_weight_clamped h \<longleftrightarrow> \<not> fl_is_nan (sg_weight g) \<and> \<not> in_unit (sg_weight g)"
    unfolding w(2) using fl_not_le [of "Fin 0" "sg_weight g"] fl_not_le [of "sg_weight g" "Fin 1"]
    by (auto simp: fl_is_nan_iff dest: fl_lt_not_le)
  have "if fl_is_nan (sg_weight g) then sg_weight g' = sg_weight g \<and> \<not> hc_weight_clamped h else in_unit (sg_weight g')"
    using iff w(1) clamp01_unit [of "sg_weight g"] by auto
  then show ?thesis using iff w(3,4) clamp_headers_frame [OF run] by simp
qed

lemma inbound_headers_bounded_witness:
  "sg_ttl (snd (clamp_inbound_headers (sample_signal\<lparr>sg_ttl := 500, sg_weight := FInf False\<rparr>) propagation_default)) = 32"
  using inbound_headers_bounded [OF prod.collapse [symmetric], of "sample_signal\<lparr>sg_ttl := 500, sg_weight := FInf False\<rparr>" propagation_default]
  by (simp add: propagation_default_def default_max_accepted_ttl_def)

section \<open>Relays\<close>

text \<open>
  One relay of a signal by a node, as the runtime strings the operations together: the
  weight has to be finite, the headers are clamped, the propagation rules are checked
  against the node's own identity, and the outgoing copy is stamped and attenuated.
  A path is a sequence of relays, each with the relaying node's own configuration.
\<close>

definition relay_at :: "PropagationConfig \<Rightarrow> NodeId \<Rightarrow> 'p Signal \<Rightarrow> 'p Signal option" where
  "relay_at c n g =
    (let g1 = snd (clamp_inbound_headers g c)
     in if fl_is_finite (sg_weight g) \<and> check_propagable g1 n c = Inr ()
        then Some (attenuate_for_hop (hop g1 n) (pc_attenuation_factor c) (pc_min_propagation_weight c))
        else None)"

fun relay_path :: "(NodeId \<Rightarrow> PropagationConfig) \<Rightarrow> 'p Signal \<Rightarrow> NodeId list \<Rightarrow> 'p Signal option" where
  "relay_path cfg g [] = Some g"
| "relay_path cfg g (n # ns) = (case relay_at (cfg n) n g of None \<Rightarrow> None | Some g' \<Rightarrow> relay_path cfg g' ns)"

lemma attenuate_for_hop_frame [simp]:
  "sg_ttl (attenuate_for_hop g f m) = sg_ttl g" "sg_trace (attenuate_for_hop g f m) = sg_trace g"
  "sg_scope (attenuate_for_hop g f m) = sg_scope g"
  by (simp_all add: attenuate_for_hop_def Let_def)

lemma relay_at_Some:
  assumes "relay_at c n g = Some g'"
  shows "n \<notin> set (sg_trace g)" "sg_scope g' = sg_scope g"
    "unat (sg_ttl g') + 1 = min (unat (sg_ttl g)) (unat (pc_max_accepted_ttl c))"
    "sg_trace g' = (if length (sg_trace g) < 64 then sg_trace g @ [n] else sg_trace g)"
proof -
  obtain h g1 where cl: "clamp_inbound_headers g c = (h, g1)" by fastforce
  note f = clamp_headers_frame [OF cl]
  have ok: "check_propagable g1 n c = Inr ()"
    and g': "g' = attenuate_for_hop (hop g1 n) (pc_attenuation_factor c) (pc_min_propagation_weight c)"
    using assms cl by (auto simp: relay_at_def Let_def split: if_splits)
  from ok have t: "sg_ttl g1 \<noteq> 0" "n \<notin> set (sg_trace g1)"
    by (auto simp: check_propagable_def has_visited_def split: if_splits)
  show "n \<notin> set (sg_trace g)" "sg_scope g' = sg_scope g"
    "sg_trace g' = (if length (sg_trace g) < 64 then sg_trace g @ [n] else sg_trace g)"
    using t f by (auto simp: g' hop_def Let_def)
  have "sg_ttl g' = sat_sub (sg_ttl g1) 1" by (simp add: g' hop_def Let_def)
  moreover have "unat (sg_ttl g1) = min (unat (sg_ttl g)) (unat (pc_max_accepted_ttl c))"
    unfolding f(4) by (simp add: min_def word_le_nat_alt)
  moreover have "1 \<le> unat (sg_ttl g1)" using t(1) by (simp add: Suc_le_eq unat_gt_0)
  ultimately show "unat (sg_ttl g') + 1 = min (unat (sg_ttl g)) (unat (pc_max_accepted_ttl c))"
    by (simp add: unat_sat_sub)
qed

lemma relay_path_trace:
  "relay_path cfg g path = Some g' \<Longrightarrow> length (sg_trace g) + length path \<le> 64 \<Longrightarrow>
   distinct path \<and> set path \<inter> set (sg_trace g) = {} \<and> sg_trace g' = sg_trace g @ path \<and> sg_scope g' = sg_scope g"
proof (induction path arbitrary: g)
  case (Cons n ns)
  then obtain g1 where r: "relay_at (cfg n) n g = Some g1" "relay_path cfg g1 ns = Some g'"
    by (auto split: option.splits)
  note s = relay_at_Some [OF r(1)]
  have tr: "sg_trace g1 = sg_trace g @ [n]" using s(4) Cons.prems(2) by auto
  with Cons.IH [OF r(2)] Cons.prems(2) s(1,2) show ?case by auto
qed simp

lemma relay_path_length:
  "relay_path cfg g path = Some g' \<Longrightarrow> length path \<le> unat (sg_ttl g)"
proof (induction path arbitrary: g)
  case (Cons n ns)
  then obtain g1 where r: "relay_at (cfg n) n g = Some g1" "relay_path cfg g1 ns = Some g'"
    by (auto split: option.splits)
  show ?case using Cons.IH [OF r(2)] relay_at_Some(3) [OF r(1)] by simp
qed simp

text \<open>
  C34: No signal circulates. However a signal is relayed, and whatever TTL and trace it set
  out with, the path is no longer than its TTL nor, after the first relay, than the first
  relay's own limit; and while those limits are at most 64 and it started with an empty
  trace, the path visits no node twice and the trace is the path itself.
\<close>

theorem relays_terminate:
  assumes run: "relay_path cfg g (n # ns) = Some g'"
  shows "length (n # ns) \<le> unat (sg_ttl g) \<and> length (n # ns) \<le> unat (pc_max_accepted_ttl (cfg n)) \<and>
    (if sg_trace g = [] \<and> pc_max_accepted_ttl (cfg n) \<le> 64 then distinct (n # ns) \<and> sg_trace g' = n # ns else True)"
proof -
  obtain g1 where r: "relay_at (cfg n) n g = Some g1" "relay_path cfg g1 ns = Some g'"
    using run by (auto split: option.splits)
  have "length (n # ns) \<le> unat (sg_ttl g1) + 1" using relay_path_length [OF r(2)] by simp
  also note relay_at_Some(3) [OF r(1)]
  finally have len: "length (n # ns) \<le> min (unat (sg_ttl g)) (unat (pc_max_accepted_ttl (cfg n)))" .
  then have "length (n # ns) \<le> unat (sg_ttl g)" "length (n # ns) \<le> unat (pc_max_accepted_ttl (cfg n))" by simp_all
  moreover have "length (n # ns) \<le> 64" if "pc_max_accepted_ttl (cfg n) \<le> 64"
    using len that by (simp add: word_le_nat_alt)
  ultimately show ?thesis using relay_path_trace [OF run] by auto
qed

lemma relays_terminate_witness:
  "\<exists>g'. relay_path (\<lambda>_. propagation_default) (sample_signal\<lparr>sg_ttl := 3, sg_weight := Fin 1\<rparr>) [[3], [4]] = Some g' \<and>
    sg_trace g' = [[3], [4]]"
proof -
  have "relay_path (\<lambda>_. propagation_default) (sample_signal\<lparr>sg_ttl := 3, sg_weight := Fin 1\<rparr>) [[3], [4]] \<noteq> None"
    by code_simp
  then obtain g' where r: "relay_path (\<lambda>_. propagation_default) (sample_signal\<lparr>sg_ttl := 3, sg_weight := Fin 1\<rparr>) [[3], [4]] = Some g'"
    by blast
  with relays_terminate [OF r] show ?thesis
    by (simp add: sample_signal_def propagation_default_def default_max_accepted_ttl_def)
qed

text \<open>
  How far a flood goes. A flood relayed along any path from an empty trace is stopped
  exactly when it has made \<open>max_hops\<close> hops, as long as \<open>max_hops\<close> is at most 64; other
  scopes are never stopped this way.
\<close>

theorem flood_depth_exact:
  assumes run: "relay_path cfg g path = Some g'" and start: "sg_trace g = []" "length path \<le> 64"
  shows "flood_depth_reached g' \<longleftrightarrow> (\<exists>h. sg_scope g = Flood h \<and> unat h \<le> length path)"
  using relay_path_trace [OF run] start
  by (auto simp: flood_depth_reached_def split: PropagationScope.splits)

lemma flood_depth_exact_witness:
  "flood_depth_reached (sample_signal\<lparr>sg_scope := Flood 0\<rparr>)"
  using flood_depth_exact [of "\<lambda>_. propagation_default" "sample_signal\<lparr>sg_scope := Flood 0\<rparr>" "[]"]
  by (simp add: sample_signal_def)

end
