(* ===== verification/Config.thy ===== *)
theory Config
  imports Activation Propagation
begin

text \<open>
  Node configuration (\<open>runtime/ntl-core/src/config.rs\<close>) and the list of crypto modules a
  build supports (\<open>crypto.rs\<close>). The build feature \<open>classical-crypto\<close> is the flag
  \<open>cc\<close>; the file system and the TOML codec are parameters.
\<close>

section \<open>Data\<close>

definition supported_modules :: "bool \<Rightarrow> string list" where
  "supported_modules cc = (if cc then [''classical-v1''] else [])"

definition default_module :: "bool \<Rightarrow> string option" where
  "default_module cc = (case supported_modules cc of [] \<Rightarrow> None | m # _ \<Rightarrow> Some m)"

definition default_crypto_module :: "bool \<Rightarrow> string" where
  "default_crypto_module cc = (case default_module cc of Some m \<Rightarrow> m | None \<Rightarrow> ''classical-v1'')"

datatype StorageConfig = Sqlite string bool | Postgres string string | MemoryStorage

definition default_pg_schema :: string where
  "default_pg_schema = ''ntl''"

definition storage_default :: StorageConfig where
  "storage_default = Sqlite ''~/.ntl/node.db'' False"

record NetworkConfig =
  nw_bootstrap_nodes :: "string list"
  nw_bind_address :: string
  nw_port :: u16

record NodeConfig =
  nc_network :: NetworkConfig
  nc_synapse :: SynapseConfig
  nc_propagation :: PropagationConfig
  nc_activation :: ActivationConfig
  nc_learning :: LearningConfig
  nc_retry :: RetryPolicy
  nc_storage :: StorageConfig
  nc_crypto_module :: string

definition node_config_default :: "bool \<Rightarrow> NodeConfig" where
  "node_config_default cc = \<lparr>nc_network = \<lparr>nw_bootstrap_nodes =
       [''ntl://bootstrap-1.openntl.org:4433'', ''ntl://bootstrap-2.openntl.org:4433''],
       nw_bind_address = ''0.0.0.0'', nw_port = 4433\<rparr>,
     nc_synapse = synapse_config_default, nc_propagation = propagation_default,
     nc_activation = activation_default, nc_learning = learning_default, nc_retry = retry_default,
     nc_storage = storage_default, nc_crypto_module = default_crypto_module cc\<rparr>"

definition config_for_class :: "bool \<Rightarrow> DeploymentClass \<Rightarrow> NodeConfig" where
  "config_for_class cc cls =
    (let node_class = (case cls of DcEdge \<Rightarrow> NcEdge | FullNode \<Rightarrow> Standard | HighTraffic \<Rightarrow> Server);
         fanout = (case cls of DcEdge \<Rightarrow> 3 | FullNode \<Rightarrow> 5 | HighTraffic \<Rightarrow> 8)
     in (node_config_default cc)\<lparr>nc_activation := activation_for_class node_class,
          nc_propagation := propagation_default\<lparr>pc_max_fanout := fanout\<rparr>,
          nc_learning := learning_for_class cls\<rparr>)"

section \<open>Validation and files\<close>

definition config_validate :: "bool \<Rightarrow> NodeConfig \<Rightarrow> config_fault + unit" where
  "config_validate cc c =
    (case activation_validate (nc_activation c) of Inl e \<Rightarrow> Inl (ActivationFault e) | Inr _ \<Rightarrow>
     (case learning_validate (nc_learning c) of Inl e \<Rightarrow> Inl (LearningFault e) | Inr _ \<Rightarrow>
      (case propagation_validate (nc_propagation c) (required_dedup_secs (nc_retry c)) of
         Inl e \<Rightarrow> Inl (PropagationFault e) | Inr _ \<Rightarrow>
       if nc_crypto_module c \<notin> set (supported_modules cc)
         then Inl (CryptoModuleUnsupported (nc_crypto_module c) (supported_modules cc))
       else if fl_lt (lc_max_weight (nc_learning c)) (sc_max_weight (nc_synapse c))
         then Inl (SynapseMaxExceeds (sc_max_weight (nc_synapse c)) (lc_max_weight (nc_learning c)))
       else Inr ())))"

record 'w file_api =
  fs_read :: "string \<Rightarrow> 'w \<Rightarrow> string + string"
  fs_write :: "string \<Rightarrow> string \<Rightarrow> 'w \<Rightarrow> (string + unit) \<times> 'w"
  toml_parse :: "string \<Rightarrow> string + NodeConfig"
  toml_print :: "NodeConfig \<Rightarrow> string + string"

definition from_file :: "'w file_api \<Rightarrow> bool \<Rightarrow> string \<Rightarrow> 'w \<Rightarrow> Error + NodeConfig" where
  "from_file fs cc path w =
    (case fs_read fs path w of Inl e \<Rightarrow> Inl (ConfigError (ReadFailed path e)) | Inr content \<Rightarrow>
     (case toml_parse fs content of Inl e \<Rightarrow> Inl (ConfigError (ParseFailed e)) | Inr parsed \<Rightarrow>
      (case config_validate cc parsed of Inl e \<Rightarrow> Inl (ConfigError (InvalidFile path e)) | Inr _ \<Rightarrow> Inr parsed)))"

definition to_file :: "'w file_api \<Rightarrow> NodeConfig \<Rightarrow> string \<Rightarrow> 'w \<Rightarrow> (Error + unit) \<times> 'w" where
  "to_file fs c path w =
    (case toml_print fs c of Inl e \<Rightarrow> (Inl (ConfigError (SerializeFailed e)), w) | Inr content \<Rightarrow>
     (case fs_write fs path content w of
        (Inl e, w') \<Rightarrow> (Inl (ConfigError (WriteFileFailed path e)), w')
      | (Inr u, w') \<Rightarrow> (Inr (), w')))"

section \<open>What a validated configuration guarantees\<close>

lemma validate_ok_parts:
  assumes "config_validate cc c = Inr ()"
  shows "activation_validate (nc_activation c) = Inr ()" "learning_validate (nc_learning c) = Inr ()"
    "propagation_validate (nc_propagation c) (required_dedup_secs (nc_retry c)) = Inr ()"
    "nc_crypto_module c \<in> set (supported_modules cc)"
    "\<not> fl_lt (lc_max_weight (nc_learning c)) (sc_max_weight (nc_synapse c))"
  using assms by (auto simp: config_validate_def split: sum.splits if_splits)

lemma propagation_validate_ok:
  "propagation_validate p d = Inr () \<longleftrightarrow> 0 < pc_max_fanout p \<and> pc_default_ttl p \<noteq> 0 \<and>
     fl_le (Fin 0) (pc_min_propagation_weight p) \<and> fl_lt (pc_min_propagation_weight p) (Fin 1) \<and>
     in_unit (pc_attenuation_factor p) \<and> d \<le> pc_dedup_cache_seconds p"
  by (auto simp: propagation_validate_def not_less)

lemma activation_validate_ok:
  "activation_validate a = Inr () \<longleftrightarrow> 0 < ac_fire_batch_size a \<and> 0 < ac_max_queue_depth a \<and>
     \<not> fl_le (ac_base_threshold a) (Fin 0) \<and> \<not> fl_lt (ac_max_potential a) (ac_base_threshold a) \<and>
     in_unit (ac_leak_rate a) \<and>
     (ac_max_queue_latency_ms a = 0 \<or> ac_refractory_period_ms a \<le> ac_max_queue_latency_ms a)"
  by (auto simp: activation_validate_def not_less)

lemma activation_for_class_valid: "activation_validate (activation_for_class nc) = Inr ()"
proof -
  have v: "lit 0.5 = Fin (1/2)" "lit 10 = Fin 10" "lit 50 = Fin 50" "lit 100 = Fin 100"
    "lit 0.01 = Fin (5368709/536870912)" by code_simp+
  show ?thesis
    unfolding activation_validate_ok
    by (cases nc) (simp_all only: activation_for_class_def v NodeClass.case Let_def prod.case ActivationConfig.simps fl_cmp_simps, simp_all)
qed

lemma propagation_default_valid:
  "0 < n \<Longrightarrow> propagation_validate (propagation_default\<lparr>pc_max_fanout := n\<rparr>) (required_dedup_secs retry_default) = Inr ()"
proof -
  have v: "lit 0.9 = Fin (15099494/16777216)" "lit 0.01 = Fin (5368709/536870912)" by code_simp+
  show "0 < n \<Longrightarrow> ?thesis"
    unfolding propagation_validate_ok
    by (simp only: propagation_default_def v PropagationConfig.simps fl_cmp_simps required_dedup_secs_def retry_default_def
        RetryPolicy.simps) simp
qed

lemma class_config_valid: "config_validate True (config_for_class True cls) = Inr ()"
proof -
  have "\<not> fl_lt (lc_max_weight (learning_for_class cls)) (lit 1)"
    by (cases cls) (simp_all only: learning_for_class_def DeploymentClass.case Let_def prod.case LearningConfig.simps
        fl_lt_irrefl not_False_eq_True)
  then show ?thesis
    by (cases cls) (simp_all add: config_validate_def config_for_class_def node_config_default_def activation_for_class_valid
        learning_for_class_valid propagation_default_valid default_crypto_module_def default_module_def supported_modules_def
        synapse_config_default_def)
qed


text \<open>
  What \<open>to_file\<close> writes, \<open>from_file\<close> reads back: it loads the configuration that was saved
  when that is valid, and refuses the file with the validation error otherwise, when the
  codec and the file system give back what was put into them.
\<close>

theorem config_file_roundtrip:
  assumes codec: "\<And>t. toml_print fs c = Inr t \<Longrightarrow> toml_parse fs t = Inr c"
    and files: "\<And>t v v' u. fs_write fs path t v = (Inr u, v') \<Longrightarrow> fs_read fs path v' = Inr t"
    and written: "to_file fs c path w = (Inr (), w')"
  shows "from_file fs cc path w' = (case config_validate cc c of Inr _ \<Rightarrow> Inr c | Inl e \<Rightarrow> Inl (ConfigError (InvalidFile path e)))"
proof -
  obtain t u where t: "toml_print fs c = Inr t" "fs_write fs path t w = (Inr u, w')"
    using written by (auto simp: to_file_def split: sum.splits prod.splits)
  show ?thesis
    using codec [OF t(1)] files [OF t(2)] by (simp add: from_file_def split: sum.split)
qed

definition sample_files :: "(string \<rightharpoonup> string) file_api" where
  "sample_files = \<lparr>fs_read = (\<lambda>p w. case w p of Some t \<Rightarrow> Inr t | None \<Rightarrow> Inl ''missing''),
     fs_write = (\<lambda>p t w. (Inr (), w(p \<mapsto> t))),
     toml_parse = (\<lambda>t. if t = ''default'' then Inr (config_for_class True DcEdge) else Inl ''syntax''),
     toml_print = (\<lambda>c. if c = config_for_class True DcEdge then Inr ''default'' else Inl ''unsupported'')\<rparr>"

lemma config_file_roundtrip_witness:
  "from_file sample_files True ''ntl.toml'' (snd (to_file sample_files (config_for_class True DcEdge) ''ntl.toml'' Map.empty)) =
     Inr (config_for_class True DcEdge)"
proof -
  have w: "to_file sample_files (config_for_class True DcEdge) ''ntl.toml'' Map.empty =
      (Inr (), Map.empty(''ntl.toml'' \<mapsto> ''default''))"
    by (simp add: to_file_def sample_files_def)
  have "from_file sample_files True ''ntl.toml'' (Map.empty(''ntl.toml'' \<mapsto> ''default'')) =
      (case config_validate True (config_for_class True DcEdge) of Inr _ \<Rightarrow> Inr (config_for_class True DcEdge)
        | Inl e \<Rightarrow> Inl (ConfigError (InvalidFile ''ntl.toml'' e)))"
    by (rule config_file_roundtrip [OF _ _ w]) (auto simp: sample_files_def split: if_splits)
  then show ?thesis by (simp add: w class_config_valid)
qed

end
