(* ===== verification/Node.thy ===== *)
theory Node
  imports Memory_Store Config
begin

text \<open>
  The node (\<open>runtime/ntl-core/src/node.rs\<close>): the component that composes the gate, the
  router, the learner and the store into what a node decides about a signal. A node is a
  record whose fields are the code's, with the state of the store and of the random source
  behind their trait objects; an operation is a state transformer that may stop early, and
  what it wrote before stopping stays written. Clock readings are arguments, one for each
  time the code asks the clock. A \<open>Mutex\<close> is the value it guards and whether it is poisoned.
\<close>

section \<open>Data\<close>

record Evicted =
  ev_signal :: QueuedSignal
  ev_reason :: RejectReason

record Forward =
  fw_synapse :: SynapseId
  fw_peer :: NodeId
  fw_journal_id :: JournalId
  fw_explored :: bool

record Disposition =
  dp_forward_to :: "Forward list"
  dp_handle_locally :: "QueuedSignal list"
  dp_receipt :: "Receipt option"
  dp_rejected :: "RejectReason option"
  dp_evicted :: "Evicted option"
  dp_queued :: bool

definition without :: "QueuedSignal list \<Rightarrow> SignalId \<Rightarrow> QueuedSignal list" where
  "without fired refused = filter (\<lambda>q. qs_id q \<noteq> refused) fired"

definition evicted_needs_receipt :: "Evicted \<Rightarrow> bool" where
  "evicted_needs_receipt e = class_requires_receipt (qs_delivery (ev_signal e))"

definition nothing :: Disposition where
  "nothing = \<lparr>dp_forward_to = [], dp_handle_locally = [], dp_receipt = None, dp_rejected = None,
     dp_evicted = None, dp_queued = False\<rparr>"

definition refuse :: "'p Signal \<Rightarrow> RejectReason \<Rightarrow> u16 \<Rightarrow> Disposition" where
  "refuse sig reason hops = \<lparr>dp_forward_to = [], dp_handle_locally = [],
     dp_receipt = (if signal_requires_receipt sig then Some (receipt_rejected (sg_id sig) reason hops) else None),
     dp_rejected = Some reason, dp_evicted = None, dp_queued = False\<rparr>"

definition was_rejected :: "Disposition \<Rightarrow> bool" where
  "was_rejected d \<longleftrightarrow> dp_rejected d \<noteq> None"

record ('m, 's) Node =
  nd_identity :: NodeId
  nd_config :: NodeConfig
  nd_store :: 'm
  nd_rng :: 's
  nd_rng_poisoned :: bool
  nd_activation :: ActivationState
  nd_activation_poisoned :: bool

text \<open>What the node calls and does not own: the store's operations, the generator behind
  \<open>dyn Rng\<close>, the platform's floating-point functions and the \<open>ulid\<close> crate.\<close>

record ('m, 's) NodeEnv =
  en_api :: "'m store_api"
  en_next :: "'s rng"
  en_libm :: libm
  en_ulid :: ulid_api

type_synonym ('m, 's, 'a) node_op = "(('m, 's) Node, stop, 'a) op"

definition learning :: "('m, 's) Node \<Rightarrow> LearningConfig" where
  "learning n = nc_learning (nd_config n)"

definition synapse_config :: "('m, 's) Node \<Rightarrow> SynapseConfig" where
  "synapse_config n = nc_synapse (nd_config n)"

abbreviation propagation :: "('m, 's) Node \<Rightarrow> PropagationConfig" where
  "propagation n \<equiv> nc_propagation (nd_config n)"

text \<open>A store call with its error mapped to \<open>Error::Serialization\<close>.\<close>

definition store_op :: "('m, 'a) sop \<Rightarrow> ('m, 's, 'a) node_op" where
  "store_op f n = (case f (nd_store n) of
     (Inl e, m) \<Rightarrow> (Inl (Err (Serialization (StoreFault e))), n\<lparr>nd_store := m\<rparr>)
   | (Inr x, m) \<Rightarrow> (Inr x, n\<lparr>nd_store := m\<rparr>))"

text \<open>\<open>self.rng.lock()\<close> and a computation that draws from the generator; \<open>None\<close> is a
  rejection loop that never ends.\<close>

definition with_rng :: "('s \<Rightarrow> ('a \<times> 's) option) \<Rightarrow> ('m, 's, 'a) node_op" where
  "with_rng f n = (if nd_rng_poisoned n then (Inl (Err Shutdown), n)
     else case f (nd_rng n) of None \<Rightarrow> (Inl Diverged, n) | Some (x, s) \<Rightarrow> (Inr x, n\<lparr>nd_rng := s\<rparr>))"

definition with_gate :: "(ActivationState \<Rightarrow> 'a \<times> ActivationState) \<Rightarrow> ('m, 's, 'a) node_op" where
  "with_gate f n = (if nd_activation_poisoned n then (Inl (Err Shutdown), n)
     else let (x, g) = f (nd_activation n) in (Inr x, n\<lparr>nd_activation := g\<rparr>))"

text \<open>Reading the immutable parts of the node.\<close>

definition self :: "('m, 's, ('m, 's) Node) node_op" where
  "self n = (Inr n, n)"

text \<open>The affinity key: a custom type's own name, or the \<open>Debug\<close> name of the variant.\<close>

definition signal_type_name_of :: "SignalType \<Rightarrow> string" where
  "signal_type_name_of t = (case t of CustomType name \<Rightarrow> name | Data \<Rightarrow> ''Data'' | Query \<Rightarrow> ''Query''
     | Event \<Rightarrow> ''Event'' | Command \<Rightarrow> ''Command'' | Heartbeat \<Rightarrow> ''Heartbeat''
     | Discovery \<Rightarrow> ''Discovery'' | ReceiptType \<Rightarrow> ''Receipt'')"

definition signal_type_name :: "'p Signal \<Rightarrow> string" where
  "signal_type_name sig = signal_type_name_of (sg_type sig)"

section \<open>Emission\<close>

text \<open>\<open>emit\<close> asks the clock three times: for the deduplication claim, and twice inside
  \<open>build_unsigned_with\<close>.\<close>

definition emit ::
  "('m, 's) NodeEnv \<Rightarrow> 'p SignalBuilder \<Rightarrow> u64 \<Rightarrow> u64 \<Rightarrow> u64 \<Rightarrow> ('m, 's, 'p Signal) node_op" where
  "emit en b now t1 t2 =
     op_bind self (\<lambda>me.
     op_bind (with_rng (\<lambda>s. Some (build_unsigned_with (en_ulid en) b (nd_identity me) t1 t2 (en_next en) s))) (\<lambda>sig.
     op_bind (store_op (st_check_and_set_seen (en_api en) (sg_id sig) now (pc_dedup_cache_seconds (propagation me)))) (\<lambda>_.
     op_ret sig)))"

section \<open>Forwarding\<close>

definition journal_entry :: "'p Signal \<Rightarrow> u64 \<Rightarrow> Chosen \<Rightarrow> JournalEntry" where
  "journal_entry sig now c = \<lparr>je_id = None, je_signal = sg_id sig, je_signal_type = sg_type sig,
     je_synapse = sy_id (ch_synapse c), je_peer = sy_remote_node (ch_synapse c), je_score = ch_score c,
     je_signal_weight = sg_weight sig, je_explored = ch_explored c, je_decided_at_ns = now,
     je_outcome = Pending, je_resolved_at_ns = None\<rparr>"

fun journal_choices :: "'m store_api \<Rightarrow> 'p Signal \<Rightarrow> u64 \<Rightarrow> Chosen list \<Rightarrow> Forward list \<Rightarrow> ('m, 's, Forward list) node_op" where
  "journal_choices api sig now [] out = op_ret out"
| "journal_choices api sig now (c # cs) out =
     op_bind (store_op (st_append_decision api (journal_entry sig now c))) (\<lambda>i.
     journal_choices api sig now cs (out @ [\<lparr>fw_synapse = sy_id (ch_synapse c),
       fw_peer = sy_remote_node (ch_synapse c), fw_journal_id = i, fw_explored = ch_explored c\<rparr>]))"

text \<open>Rehydration: the stored synapse with its weight decayed to now.\<close>

definition rehydrate :: "libm \<Rightarrow> ('m, 's) Node \<Rightarrow> u64 \<Rightarrow> SynapseRecord \<Rightarrow> Synapse" where
  "rehydrate lm n now r =
    (let s = from_record r (nd_identity n) (synapse_config n)
     in s\<lparr>sy_weight := synapse_decayed_weight lm s now (learning n)\<rparr>)"

definition plan_forwarding ::
  "('m, 's) NodeEnv \<Rightarrow> 'p Signal \<Rightarrow> SynapseId option \<Rightarrow> u64 \<Rightarrow> ('m, 's, Forward list) node_op" where
  "plan_forwarding en sig arrival now =
    (if flood_depth_reached sig then op_ret []
     else op_bind (store_op (st_list_synapses (en_api en) filter_eligible)) (\<lambda>records.
       if records = [] then op_ret []
       else op_bind self (\<lambda>me.
         op_bind (with_rng (select_synapses (en_libm en) (map (rehydrate (en_libm en) me now) records)
             (sg_scope sig) (signal_type_name sig) arrival (propagation me) (learning me) now (en_next en)))
           (\<lambda>chosen. journal_choices (en_api en) sig now chosen []))))"

definition plan_release ::
  "('m, 's) NodeEnv \<Rightarrow> 'p Signal \<Rightarrow> SynapseId option \<Rightarrow> u64 \<Rightarrow> ('m, 's, Forward list) node_op" where
  "plan_release en sig arrival now = plan_forwarding en sig arrival now"

text \<open>\<open>trace.len() as u16\<close>\<close>

definition hops_of :: "'p Signal \<Rightarrow> u16" where
  "hops_of sig = of_nat (length (sg_trace sig))"

definition receive_local :: "('m, 's) NodeEnv \<Rightarrow> 'p Signal \<Rightarrow> u64 \<Rightarrow> ('m, 's, Disposition) node_op" where
  "receive_local en sig now = op_bind self (\<lambda>me.
     case check_propagable sig (nd_identity me) (propagation me) of
       Inl reason \<Rightarrow> op_ret (refuse sig reason (hops_of sig))
     | Inr _ \<Rightarrow> op_bind (plan_forwarding en sig None now) (\<lambda>forward_to.
         if forward_to = [] \<and> signal_requires_receipt sig then op_ret (refuse sig NoRoute (hops_of sig))
         else op_ret (nothing\<lparr>dp_forward_to := forward_to\<rparr>)))"

section \<open>Arrival\<close>

text \<open>\<open>get_synapse(id).ok().flatten()\<close>: a failing lookup counts as no synapse.\<close>

definition arrival_weight :: "'m store_api \<Rightarrow> SynapseId option \<Rightarrow> ('m, 's, flt) node_op" where
  "arrival_weight api arrival n = (case arrival of
     None \<Rightarrow> (Inr (Fin 1), n)
   | Some i \<Rightarrow> (case st_get_synapse api i (nd_store n) of
       (Inr (Some r), m) \<Rightarrow> (Inr (sr_weight r), n\<lparr>nd_store := m\<rparr>)
     | (_, m) \<Rightarrow> (Inr (Fin 1), n\<lparr>nd_store := m\<rparr>)))"

definition queued_of :: "'p Signal \<Rightarrow> u64 \<Rightarrow> QueuedSignal" where
  "queued_of sig now = \<lparr>qs_id = sg_id sig, qs_origin = sg_origin sig, qs_weight = sg_weight sig,
     qs_delivery = sg_delivery sig, qs_enqueued_at_ns = now\<rparr>"

text \<open>Admission under both locks, the generator's taken first.\<close>

definition admit_op :: "('m, 's) NodeEnv \<Rightarrow> QueuedSignal \<Rightarrow> flt \<Rightarrow> u64 \<Rightarrow> ('m, 's, AdmitOutcome) node_op" where
  "admit_op en q w now n =
    (if nd_rng_poisoned n \<or> nd_activation_poisoned n then (Inl (Err Shutdown), n)
     else let (a, g, s) = admit (en_libm en) (nd_activation n) q w now (en_next en) (nd_rng n)
          in (Inr a, n\<lparr>nd_rng := s, nd_activation := g\<rparr>))"

text \<open>What follows admission, when the arrival itself was not shed.\<close>

definition dispose ::
  "('m, 's) NodeEnv \<Rightarrow> 'p Signal \<Rightarrow> SynapseId option \<Rightarrow> u64 \<Rightarrow> QueuedSignal list \<Rightarrow> Evicted option \<Rightarrow> ('m, 's, Disposition) node_op" where
  "dispose en sig arrival now fired evicted =
    (let fired_here = list_ex (\<lambda>q. qs_id q = sg_id sig) fired
     in op_bind (if fired_here then plan_forwarding en sig arrival now else op_ret []) (\<lambda>forward_to.
        if fired_here \<and> forward_to = [] \<and> signal_requires_receipt sig
        then op_ret ((refuse sig NoRoute (hops_of sig))\<lparr>dp_handle_locally := without fired (sg_id sig), dp_evicted := evicted\<rparr>)
        else op_ret \<lparr>dp_forward_to = forward_to, dp_handle_locally = fired, dp_receipt = None, dp_rejected = None,
          dp_evicted = evicted, dp_queued = (\<not> fired_here)\<rparr>))"

text \<open>An arrival that is not a duplicate: the propagation rules, admission, disposal.\<close>

definition receive_fresh ::
  "('m, 's) NodeEnv \<Rightarrow> ('m, 's) Node \<Rightarrow> 'p Signal \<Rightarrow> SynapseId option \<Rightarrow> u64 \<Rightarrow> ('m, 's, Disposition) node_op" where
  "receive_fresh en me sig arrival now = (case check_propagable sig (nd_identity me) (propagation me) of
     Inl reason \<Rightarrow> op_ret (refuse sig reason (hops_of sig))
   | Inr _ \<Rightarrow>
       op_bind (arrival_weight (en_api en) arrival) (\<lambda>w.
       op_bind (admit_op en (queued_of sig now) w now) (\<lambda>a.
       case ao_dropped a of
         None \<Rightarrow> dispose en sig arrival now (ao_fired a) None
       | Some dropped \<Rightarrow>
           (let reason = (case ao_drop_reason a of Some r \<Rightarrow> r | None \<Rightarrow> QueueFull)
            in if qs_id dropped = sg_id sig
               then op_ret ((refuse sig reason (hops_of sig))\<lparr>dp_handle_locally := without (ao_fired a) (sg_id sig)\<rparr>)
               else dispose en sig arrival now (ao_fired a) (Some \<lparr>ev_signal = dropped, ev_reason = reason\<rparr>)))))"

definition receive ::
  "('m, 's) NodeEnv \<Rightarrow> 'p Signal \<Rightarrow> SynapseId option \<Rightarrow> u64 \<Rightarrow> ('m, 's, Disposition) node_op" where
  "receive en sig arrival now = op_bind self (\<lambda>me.
     op_bind (store_op (st_check_and_set_seen (en_api en) (sg_id sig) now (pc_dedup_cache_seconds (propagation me)))) (\<lambda>seen.
     if seen then op_ret nothing else receive_fresh en me sig arrival now))"

section \<open>Learning from outcomes\<close>

fun put_records :: "'m store_api \<Rightarrow> (SynapseRecord \<times> flt) list \<Rightarrow> ('m, 's, unit) node_op" where
  "put_records api [] = op_ret ()"
| "put_records api ((r, w) # rest) = op_bind (store_op (st_put_synapse api (r\<lparr>sr_weight := w\<rparr>))) (\<lambda>_. put_records api rest)"

definition normalize_outbound_weights :: "('m, 's) NodeEnv \<Rightarrow> ('m, 's, flt option) node_op" where
  "normalize_outbound_weights en =
     op_bind (store_op (st_list_synapses (en_api en) filter_default)) (\<lambda>records.
     if records = [] then op_ret None
     else op_bind self (\<lambda>me.
       case normalize_outbound (map sr_weight records) (learning me) of
         None \<Rightarrow> op_ret None
       | Some (factor, weights) \<Rightarrow>
           op_bind (put_records (en_api en) (zip records weights)) (\<lambda>_. op_ret (Some factor))))"

definition no_update :: WeightUpdate where
  "no_update = \<lparr>wu_before = Fin 0, wu_after = Fin 0, wu_applied_delta = Fin 0, wu_capped = False\<rparr>"

definition apply_outcome_to_synapse ::
  "('m, 's) NodeEnv \<Rightarrow> JournalEntry \<Rightarrow> Outcome \<Rightarrow> u64 \<Rightarrow> ('m, 's, WeightUpdate) node_op" where
  "apply_outcome_to_synapse en e out now = op_bind self (\<lambda>me.
     let lc = learning me; window_start = influence_window_start lc now
     in op_bind (store_op (st_influence_since (en_api en) (je_peer e) window_start)) (\<lambda>influence_used.
        op_bind (store_op (st_get_synapse (en_api en) (je_synapse e))) (\<lambda>found.
        case found of
          None \<Rightarrow> op_ret no_update
        | Some record \<Rightarrow>
            (case apply_outcome (from_record record (nd_identity me) (synapse_config me)) out
                (clamp01 (je_signal_weight e)) (signal_type_name_of (je_signal_type e)) influence_used lc of
               None \<Rightarrow> op_fail Panicked
             | Some (update, synapse) \<Rightarrow>
                 op_bind (if fl_lt f32_epsilon (fl_abs (wu_applied_delta update))
                   then op_bind (store_op (st_record_influence (en_api en) (je_peer e) (wu_applied_delta update) now window_start)) (\<lambda>_. op_ret ())
                   else op_ret ()) (\<lambda>_.
                 op_bind (store_op (st_put_synapse (en_api en) (to_record (synapse\<lparr>sy_last_active_ns := now\<rparr>)))) (\<lambda>_.
                 op_bind (normalize_outbound_weights en) (\<lambda>_. op_ret update)))))))"

text \<open>What follows a resolution: only an entry resolved at this very reading teaches.\<close>

definition learn_resolved ::
  "('m, 's) NodeEnv \<Rightarrow> JournalEntry option \<Rightarrow> Outcome \<Rightarrow> u64 \<Rightarrow> ('m, 's, WeightUpdate option) node_op" where
  "learn_resolved en resolved out now = (case resolved of
     None \<Rightarrow> op_ret None
   | Some e \<Rightarrow> if je_resolved_at_ns e \<noteq> Some now then op_ret None
       else op_bind (apply_outcome_to_synapse en e out now) (\<lambda>u. op_ret (Some u)))"

definition fail_forward :: "('m, 's) NodeEnv \<Rightarrow> JournalId \<Rightarrow> u64 \<Rightarrow> ('m, 's, WeightUpdate option) node_op" where
  "fail_forward en i now =
     op_bind (store_op (st_resolve_decision (en_api en) i TransportFailed now)) (\<lambda>resolved.
     learn_resolved en resolved TransportFailed now)"

definition apply_receipt :: "('m, 's) NodeEnv \<Rightarrow> Receipt \<Rightarrow> NodeId \<Rightarrow> u64 \<Rightarrow> ('m, 's, WeightUpdate option) node_op" where
  "apply_receipt en rc from_peer now =
     op_bind (store_op (st_pending_decision_for (en_api en) (rc_correlation_id rc) from_peer)) (\<lambda>found.
     case found of
       None \<Rightarrow> op_ret None
     | Some pending \<Rightarrow>
         (case je_id pending of
            None \<Rightarrow> op_ret None
          | Some i \<Rightarrow> op_bind (store_op (st_resolve_decision (en_api en) i (receipt_outcome rc) now)) (\<lambda>resolved.
              learn_resolved en resolved (receipt_outcome rc) now)))"

fun sweep_loop :: "('m, 's) NodeEnv \<Rightarrow> u64 \<Rightarrow> JournalEntry list \<Rightarrow> nat \<Rightarrow> ('m, 's, nat) node_op" where
  "sweep_loop en now [] resolved = op_ret resolved"
| "sweep_loop en now (e # es) resolved = (case je_id e of
     None \<Rightarrow> sweep_loop en now es resolved
   | Some i \<Rightarrow> op_bind (store_op (st_resolve_decision (en_api en) i TimedOut now)) (\<lambda>updated.
       op_bind (learn_resolved en updated TimedOut now) (\<lambda>u.
       sweep_loop en now es (case u of None \<Rightarrow> resolved | Some _ \<Rightarrow> resolved + 1))))"

definition sweep_timeouts :: "('m, 's) NodeEnv \<Rightarrow> nat \<Rightarrow> u64 \<Rightarrow> ('m, 's, nat) node_op" where
  "sweep_timeouts en limit now = op_bind self (\<lambda>me.
     op_bind (store_op (st_expired_decisions (en_api en) (receipt_deadline (learning me) now) limit)) (\<lambda>expired.
     sweep_loop en now expired 0))"

definition penalize_signature_failure ::
  "('m, 's) NodeEnv \<Rightarrow> SynapseId \<Rightarrow> u64 \<Rightarrow> ('m, 's, SignatureFailureOutcome option) node_op" where
  "penalize_signature_failure en i now =
     op_bind (store_op (st_get_synapse (en_api en) i)) (\<lambda>found.
     case found of
       None \<Rightarrow> op_ret None
     | Some record \<Rightarrow> op_bind self (\<lambda>me.
         let (outcome, synapse) = apply_signature_failure (from_record record (nd_identity me) (synapse_config me)) now (learning me)
         in op_bind (store_op (st_put_synapse (en_api en) (to_record synapse))) (\<lambda>_. op_ret (Some outcome))))"

section \<open>Synapses and housekeeping\<close>

text \<open>Re-forming a synapse whose cooldown is served.\<close>

definition reformed :: "Synapse \<Rightarrow> SynapseConfig \<Rightarrow> u64 \<Rightarrow> Synapse" where
  "reformed s c now = (activate (s\<lparr>sy_weight := sc_initial_weight c, sy_signature_failures := 0,
     sy_failure_window_start_ns := 0, sy_state := Forming\<rparr>))\<lparr>sy_last_active_ns := now\<rparr>"

definition cooldown_until :: "LearningConfig \<Rightarrow> SynapseRecord \<Rightarrow> u64" where
  "cooldown_until lc r = sat_add (sr_last_active_ns r) (sat_mul (lc_signature_failure_cooldown_secs lc) 1000000000)"

definition put_back :: "'m store_api \<Rightarrow> SynapseRecord \<Rightarrow> ('m, 's, SynapseRecord) node_op" where
  "put_back api r = op_bind (store_op (st_put_synapse api r)) (\<lambda>_. op_ret r)"

definition upsert_synapse :: "('m, 's) NodeEnv \<Rightarrow> NodeId \<Rightarrow> u64 \<Rightarrow> ('m, 's, SynapseRecord) node_op" where
  "upsert_synapse en peer now = op_bind self (\<lambda>me.
     op_bind (store_op (st_synapse_for_peer (en_api en) peer)) (\<lambda>found.
     case found of
       Some existing \<Rightarrow>
         (let synapse = from_record existing (nd_identity me) (synapse_config me)
          in if sr_state existing = Pruned
             then let until = cooldown_until (learning me) existing
                  in if now < until
                     then op_fail (Err (InvalidSignal (InCooldown peer ((until - now) div 1000000000))))
                     else put_back (en_api en) (to_record (reformed synapse (synapse_config me) now))
             else if sr_state existing = Dormant
             then put_back (en_api en) (to_record (reactivate synapse (synapse_config me)))
             else op_ret existing)
     | None \<Rightarrow>
         op_bind (with_rng (\<lambda>s. let (y, s') = new_with (en_ulid en) (nd_identity me) peer (synapse_config me) now (en_next en) s
            in Some (activate y, s'))) (\<lambda>synapse.
         op_bind (store_op (st_put_synapse (en_api en) (to_record synapse))) (\<lambda>_.
         op_bind (store_op (st_put_peer (en_api en) \<lparr>pr_id = peer, pr_addresses = [], pr_region = None,
            pr_advertised_types = [], pr_last_seen_ns = now, pr_source = Observed\<rparr>)) (\<lambda>_.
         op_ret (to_record synapse))))))"

definition poll_activation :: "u64 \<Rightarrow> ('m, 's, QueuedSignal list) node_op" where
  "poll_activation now = with_gate (\<lambda>g. drain_if_starving g now)"

definition checkpoint :: "('m, 's) NodeEnv \<Rightarrow> u64 \<Rightarrow> ('m, 's, unit) node_op" where
  "checkpoint en now =
     op_bind (with_gate (\<lambda>g. (snapshot g now, g))) (\<lambda>sn.
     op_bind (store_op (st_save_activation (en_api en) sn)) (\<lambda>_.
     op_bind (store_op (st_purge_expired_seen (en_api en) now)) (\<lambda>_.
     store_op (st_flush (en_api en)))))"

record LearningHealth =
  lh_decisions_sampled :: nat
  lh_exploration_ratio :: flt
  lh_pending_ratio :: flt
  lh_delivery_ratio :: flt

definition health_default :: LearningHealth where
  "health_default = \<lparr>lh_decisions_sampled = 0, lh_exploration_ratio = Fin 0, lh_pending_ratio = Fin 0,
     lh_delivery_ratio = Fin 0\<rparr>"

definition health_of :: "JournalEntry list \<Rightarrow> LearningHealth" where
  "health_of recent =
    (let total = length recent;
         ratio = (\<lambda>n. fl_div b32 (fl_of_nat b32 n) (fl_of_nat b32 total))
     in if total = 0 then health_default
        else \<lparr>lh_decisions_sampled = total, lh_exploration_ratio = ratio (length (filter je_explored recent)),
          lh_pending_ratio = ratio (length (filter (\<lambda>e. \<not> is_resolved (je_outcome e)) recent)),
          lh_delivery_ratio = ratio (length (filter (\<lambda>e. je_outcome e = Delivered) recent))\<rparr>)"

definition learning_health :: "('m, 's) NodeEnv \<Rightarrow> nat \<Rightarrow> ('m, 's, LearningHealth) node_op" where
  "learning_health en sample =
     op_bind (store_op (st_recent_decisions (en_api en) None sample)) (\<lambda>recent. op_ret (health_of recent))"

definition node_has_seen :: "'m store_api \<Rightarrow> SignalId \<Rightarrow> u64 \<Rightarrow> ('m, 's, bool) node_op" where
  "node_has_seen api i now = store_op (st_has_seen api i now)"

definition transactional :: DeliveryClass where
  "transactional = Acknowledged"

section \<open>Building a node\<close>

text \<open>
  \<open>Box<dyn Rng>\<close>: the generator the caller supplied, or the default one. The clock is what
  it reads during the build; a target without a host clock has no default reading.
\<close>

datatype 's BoxRng = Supplied 's | DefaultRng SplitMix64

definition dyn_next :: "'s rng \<Rightarrow> 's BoxRng rng" where
  "dyn_next nx r = (case r of Supplied s \<Rightarrow> map_prod id Supplied (nx s) | DefaultRng g \<Rightarrow> map_prod id DefaultRng (splitmix_next g))"

record ('m, 's) NodeBuilder =
  nb_config :: "NodeConfig option"
  nb_config_path :: "string option"
  nb_identity :: "NodeId option"
  nb_store :: "'m option"
  nb_clock :: "u64 option"
  nb_rng :: "'s option"

definition node_builder_new :: "('m, 's) NodeBuilder" where
  "node_builder_new = \<lparr>nb_config = None, nb_config_path = None, nb_identity = None, nb_store = None,
     nb_clock = None, nb_rng = None\<rparr>"

definition with_config :: "('m, 's) NodeBuilder \<Rightarrow> NodeConfig \<Rightarrow> ('m, 's) NodeBuilder" where
  "with_config b c = b\<lparr>nb_config := Some c\<rparr>"

definition with_config_file :: "('m, 's) NodeBuilder \<Rightarrow> string \<Rightarrow> ('m, 's) NodeBuilder" where
  "with_config_file b p = b\<lparr>nb_config_path := Some p\<rparr>"

definition with_identity :: "('m, 's) NodeBuilder \<Rightarrow> NodeId \<Rightarrow> ('m, 's) NodeBuilder" where
  "with_identity b i = b\<lparr>nb_identity := Some i\<rparr>"

definition with_store :: "('m, 's) NodeBuilder \<Rightarrow> 'm \<Rightarrow> ('m, 's) NodeBuilder" where
  "with_store b m = b\<lparr>nb_store := Some m\<rparr>"

definition with_clock :: "('m, 's) NodeBuilder \<Rightarrow> u64 \<Rightarrow> ('m, 's) NodeBuilder" where
  "with_clock b t = b\<lparr>nb_clock := Some t\<rparr>"

definition with_supplied_rng :: "('m, 's) NodeBuilder \<Rightarrow> 's \<Rightarrow> ('m, 's) NodeBuilder" where
  "with_supplied_rng b s = b\<lparr>nb_rng := Some s\<rparr>"

text \<open>The configuration a build works with, once it is read and valid.\<close>

definition build_config :: "'w file_api \<Rightarrow> bool \<Rightarrow> 'w \<Rightarrow> ('m, 's) NodeBuilder \<Rightarrow> Error + NodeConfig" where
  "build_config fs cc w b =
    (case (case (nb_config b, nb_config_path b) of
        (Some c, _) \<Rightarrow> Inr c
      | (None, Some path) \<Rightarrow> from_file fs cc path w
      | (None, None) \<Rightarrow> Inr (node_config_default cc)) of
       Inl e \<Rightarrow> Inl e
     | Inr c \<Rightarrow> (case config_validate cc c of Inl e \<Rightarrow> Inl (ConfigError e) | Inr _ \<Rightarrow> Inr c))"

text \<open>A store call with its error mapped to \<open>Error::Config\<close>.\<close>

definition config_op :: "(StoreError \<Rightarrow> config_fault) \<Rightarrow> ('m, 'a) sop \<Rightarrow> ('m, stop, 'a) op" where
  "config_op wrap f m = (case f m of (Inl e, m') \<Rightarrow> (Inl (Err (ConfigError (wrap e))), m') | (Inr x, m') \<Rightarrow> (Inr x, m'))"

definition u64_to_le_bytes :: "u64 \<Rightarrow> u8 list" where
  "u64_to_le_bytes x = map (\<lambda>i. ucast (drop_bit (8 * i) x)) [0..<8]"

fun seed_bytes :: "nat \<Rightarrow> SplitMix64 \<Rightarrow> u8 list" where
  "seed_bytes 0 g = []"
| "seed_bytes (Suc k) g = (let (x, g') = splitmix_next g in u64_to_le_bytes x @ seed_bytes k g')"

definition build_identity :: "'m store_api \<Rightarrow> NodeId option \<Rightarrow> u64 \<Rightarrow> ('m, stop, NodeId) op" where
  "build_identity api identity now = (case identity of
     Some i \<Rightarrow> op_bind (config_op StoreRefused (st_put_meta api ''node-id'' i)) (\<lambda>_. op_ret i)
   | None \<Rightarrow> op_bind (config_op StoreRefused (st_get_meta api ''node-id'')) (\<lambda>found. case found of
       Some bytes \<Rightarrow> op_ret bytes
     | None \<Rightarrow> (let bytes = seed_bytes 4 (seeded now)
         in op_bind (config_op StoreRefused (st_put_meta api ''node-id'' bytes)) (\<lambda>_. op_ret bytes))))"

definition build_on ::
  "'m store_api \<Rightarrow> NodeConfig \<Rightarrow> u64 option \<Rightarrow> ('m, 's) NodeBuilder \<Rightarrow> ('m, stop, NodeId \<times> 's BoxRng \<times> ActivationState) op" where
  "build_on api c host b =
     op_bind (config_op MigrationFailed (st_migrate api)) (\<lambda>_.
     case (case nb_clock b of Some t \<Rightarrow> Some t | None \<Rightarrow> host) of
       None \<Rightarrow> op_fail (Err (ConfigError NoClock))
     | Some now \<Rightarrow>
         op_bind (build_identity api (nb_identity b) now) (\<lambda>identity.
         let rng = (case nb_rng b of Some s \<Rightarrow> Supplied s | None \<Rightarrow> DefaultRng (from_identity identity now));
             gate = gate_new (nc_activation c)
         in op_bind (config_op StoreRefused (st_load_activation api)) (\<lambda>saved. case saved of
              None \<Rightarrow> op_ret (identity, rng, gate)
            | Some sn \<Rightarrow> (case restore gate sn of None \<Rightarrow> op_fail Panicked | Some g \<Rightarrow> op_ret (identity, rng, g)))))"

text \<open>The store behind the \<open>Arc\<close> keeps what was written to it even when the build fails.\<close>

definition build ::
  "'w file_api \<Rightarrow> bool \<Rightarrow> 'm store_api \<Rightarrow> u64 option \<Rightarrow> 'w \<Rightarrow> ('m, 's) NodeBuilder \<Rightarrow>
     (stop + ('m, 's BoxRng) Node) \<times> 'm option" where
  "build fs cc api host w b =
    (case build_config fs cc w b of Inl e \<Rightarrow> (Inl (Err e), nb_store b) | Inr c \<Rightarrow>
     (case nb_store b of None \<Rightarrow> (Inl (Err (ConfigError NoStore)), None) | Some m \<Rightarrow>
      (case build_on api c host b m of
         (Inl e, m') \<Rightarrow> (Inl e, Some m')
       | (Inr (identity, rng, gate), m') \<Rightarrow>
           (Inr \<lparr>nd_identity = identity, nd_config = c, nd_store = m', nd_rng = rng, nd_rng_poisoned = False,
             nd_activation = gate, nd_activation_poisoned = False\<rparr>, Some m'))))"

end
