(* ===== verification/Runtime.thy ===== *)
theory Runtime
  imports Frame Identity Node
begin

text \<open>
  The node runtime (\<open>runtime/ntl-net/src/runtime.rs\<close>): sessions with peers, what is done
  with an arriving signal, the release of queued signals, receipts and maintenance. The
  state is what the tasks share; an operation is the code of a task between two points at
  which it waits for its connection, a timer or its caller, and the operations of all tasks
  interleave. A bounded channel is the list of what it holds; \<open>RtNode Panicked\<close> is a task
  that dies. \<open>serde_json\<close> values are a parameter.
\<close>

section \<open>Data\<close>

definition MAINTENANCE_INTERVAL_SECS :: u64 where
  "MAINTENANCE_INTERVAL_SECS = 5"

definition ACTIVATION_POLL_INTERVAL_MS :: u64 where
  "ACTIVATION_POLL_INTERVAL_MS = 50"

definition PEER_QUEUE_DEPTH :: nat where
  "PEER_QUEUE_DEPTH = 256"

datatype 'p RtEvent =
    Handled "'p Signal"
  | ForwardedTo SignalId nat bool
  | Released SignalId "'p Signal option"
  | RefusedSignal SignalId RejectReason
  | ReceiptApplied NodeId bool flt
  | PeerConnected NodeId
  | PeerDisconnected NodeId
  | SignatureRefused NodeId bool
  | HeadersClamped NodeId SignalId bool bool
  | OriginKeyUnknown NodeId NodeId
  | MalformedFrom NodeId flt

record 'p Session =
  se_outbound :: "'p Signal list"
  se_open :: bool
  se_public_key :: PublicKey

record PeerIdentity =
  pi_node_id :: NodeId
  pi_public_key :: PublicKey

datatype handshake_fault =
    TimedOutWaiting string
  | NoField string
  | NotDiscovery string SignalType
  | OtherIdentity string
  | SignatureInvalid string
  | IdentityMismatch
  | OwnIdentity
  | ChallengeLength nat
  | ProofMismatch
  | LiveSession NodeId
  | SynapsePruned NodeId

datatype RuntimeError =
    RtStore StoreError
  | RtIdentity IdentityError
  | RtNode stop
  | RtCrypto Error
  | RtBind string
  | RtDial string
  | RtHandshake handshake_fault
  | RtFrame FrameError

record 'p wire_json =
  wj_base :: "'p json_api"
  wj_object :: "(string \<times> 'p) list \<Rightarrow> 'p"
  wj_bytes :: "u8 list \<Rightarrow> 'p"
  wj_string :: "string \<Rightarrow> 'p"
  wj_get :: "'p \<Rightarrow> string \<Rightarrow> 'p option"
  wj_to_bytes :: "'p \<Rightarrow> u8 list option"
  wj_to_receipt :: "'p \<Rightarrow> Receipt option"

text \<open>What the tasks share and do not change: the node's surroundings, the codecs, the
  signature scheme, the identity, and the clock, which answers its \<open>n\<close>-th reading.\<close>

record ('m, 's, 'p, 'k, 'v) RtEnv =
  re_node :: "('m, 's) NodeEnv"
  re_json :: "'p wire_json"
  re_cbor :: "'p cbor_api"
  re_ed :: "('k, 'v) ed25519"
  re_blake :: blake3
  re_identity :: Identity
  re_clock :: "nat \<Rightarrow> u64"

record ('m, 's, 'p) Runtime =
  rt_node :: "('m, 's) Node"
  rt_sessions :: "(NodeId, 'p Session) hashmap"
  rt_pending :: "(SignalId, 'p Signal) hashmap"
  rt_events :: "'p RtEvent list"
  rt_reads :: nat

type_synonym ('m, 's, 'p, 'a) rt_op = "(('m, 's, 'p) Runtime, RuntimeError, 'a) op"

abbreviation crypto :: "('m, 's, 'p, 'k, 'v) RtEnv \<Rightarrow> CryptoModule" where
  "crypto en \<equiv> classical_module (re_ed en) (re_blake en)"

abbreviation my_id :: "('m, 's, 'p, 'k, 'v) RtEnv \<Rightarrow> NodeId" where
  "my_id en \<equiv> id_node_id (re_identity en)"

section \<open>Access to the shared state\<close>

definition read_clock :: "('m, 's, 'p, 'k, 'v) RtEnv \<Rightarrow> ('m, 's, 'p, u64) rt_op" where
  "read_clock en s = (Inr (re_clock en (rt_reads s)), s\<lparr>rt_reads := rt_reads s + 1\<rparr>)"

text \<open>A call of the node whose error the caller looks at; a panic is not an error.\<close>

definition on_node :: "('m, 's, 'a) node_op \<Rightarrow> ('m, 's, 'p, Error + 'a) rt_op" where
  "on_node f s = (case f (rt_node s) of
     (Inl (Err e), n) \<Rightarrow> (Inr (Inl e), s\<lparr>rt_node := n\<rparr>)
   | (Inl stop, n) \<Rightarrow> (Inl (RtNode stop), s\<lparr>rt_node := n\<rparr>)
   | (Inr x, n) \<Rightarrow> (Inr (Inr x), s\<lparr>rt_node := n\<rparr>))"

text \<open>A node operation that reads the clock once, first.\<close>

definition node_call ::
  "('m, 's, 'p, 'k, 'v) RtEnv \<Rightarrow> (u64 \<Rightarrow> ('m, 's, 'a) node_op) \<Rightarrow> ('m, 's, 'p, Error + 'a) rt_op" where
  "node_call en f = op_bind (read_clock en) (\<lambda>now. on_node (f now))"

definition node_emit ::
  "('m, 's, 'p, 'k, 'v) RtEnv \<Rightarrow> 'p SignalBuilder \<Rightarrow> ('m, 's, 'p, Error + 'p Signal) rt_op" where
  "node_emit en b = op_bind (read_clock en) (\<lambda>now. op_bind (read_clock en) (\<lambda>t1. op_bind (read_clock en) (\<lambda>t2.
     on_node (emit (re_node en) b now t1 t2))))"

definition send_event :: "'p RtEvent \<Rightarrow> ('m, 's, 'p, unit) rt_op" where
  "send_event ev s = (Inr (), s\<lparr>rt_events := rt_events s @ [ev]\<rparr>)"

definition rt_config :: "('m, 's, 'p, NodeConfig) rt_op" where
  "rt_config s = (Inr (nd_config (rt_node s)), s)"

text \<open>\<open>node.store().synapse_for_peer(p).ok().flatten().map(|r| r.id)\<close>\<close>

definition peer_record :: "('m, 's, 'p, 'k, 'v) RtEnv \<Rightarrow> NodeId \<Rightarrow> ('m, 's, 'p, SynapseRecord option) rt_op" where
  "peer_record en p s =
    (let (r, m) = st_synapse_for_peer (en_api (re_node en)) p (nd_store (rt_node s))
     in (Inr (case r of Inr (Some x) \<Rightarrow> Some x | _ \<Rightarrow> None), s\<lparr>rt_node := (rt_node s)\<lparr>nd_store := m\<rparr>\<rparr>))"

definition peer_synapse :: "('m, 's, 'p, 'k, 'v) RtEnv \<Rightarrow> NodeId \<Rightarrow> ('m, 's, 'p, SynapseId option) rt_op" where
  "peer_synapse en p = op_bind (peer_record en p) (\<lambda>r. op_ret (map_option sr_id r))"

text \<open>\<open>try_send\<close> on the session with a peer, if there is one: it fails on a full or closed
  channel.\<close>

definition can_send :: "'p Session \<Rightarrow> bool" where
  "can_send se \<longleftrightarrow> se_open se \<and> length (se_outbound se) < PEER_QUEUE_DEPTH"

definition push_to :: "NodeId \<Rightarrow> 'p Signal \<Rightarrow> ('m, 's, 'p, bool) rt_op" where
  "push_to p g s = (case map_of (rt_sessions s) p of
     None \<Rightarrow> (Inr False, s)
   | Some se \<Rightarrow> if can_send se
       then (Inr True, s\<lparr>rt_sessions := AList.update p (se\<lparr>se_outbound := se_outbound se @ [g]\<rparr>) (rt_sessions s)\<rparr>)
       else (Inr False, s))"

definition take_body :: "SignalId \<Rightarrow> ('m, 's, 'p, 'p Signal option) rt_op" where
  "take_body i s = (Inr (map_of (rt_pending s) i), s\<lparr>rt_pending := AList.delete i (rt_pending s)\<rparr>)"

section \<open>Sending\<close>

text \<open>The copy of a signal that goes out: one hop further, attenuated.\<close>

definition outbound_copy :: "NodeId \<Rightarrow> PropagationConfig \<Rightarrow> 'p Signal \<Rightarrow> 'p Signal" where
  "outbound_copy me pc g = attenuate_for_hop (hop g me) (pc_attenuation_factor pc) (pc_min_propagation_weight pc)"

fun send_each ::
  "NodeId \<Rightarrow> PropagationConfig \<Rightarrow> 'p Signal \<Rightarrow> Forward list \<Rightarrow> nat \<Rightarrow> JournalId list \<Rightarrow> ('m, 's, 'p, nat \<times> JournalId list) rt_op" where
  "send_each me pc g [] sent failed = op_ret (sent, failed)"
| "send_each me pc g (f # fs) sent failed = op_bind (push_to (fw_peer f) (outbound_copy me pc g)) (\<lambda>ok.
     if ok then send_each me pc g fs (sent + 1) failed
     else send_each me pc g fs sent (failed @ [fw_journal_id f]))"

fun fail_each :: "('m, 's, 'p, 'k, 'v) RtEnv \<Rightarrow> JournalId list \<Rightarrow> ('m, 's, 'p, unit) rt_op" where
  "fail_each en [] = op_ret ()"
| "fail_each en (i # is) = op_bind (node_call en (fail_forward (re_node en) i)) (\<lambda>_. fail_each en is)"

definition forward_signal ::
  "('m, 's, 'p, 'k, 'v) RtEnv \<Rightarrow> 'p Signal \<Rightarrow> Forward list \<Rightarrow> ('m, 's, 'p, bool) rt_op" where
  "forward_signal en g forwards =
    (if forwards = [] then op_ret False
     else op_bind rt_config (\<lambda>c.
       op_bind (send_each (my_id en) (nc_propagation c) g forwards 0 []) (\<lambda>(sent, failed).
       op_bind (fail_each en failed) (\<lambda>_.
       op_bind (send_event (ForwardedTo (sg_id g) sent (list_ex fw_explored forwards))) (\<lambda>_.
       op_ret (0 < sent))))))"

text \<open>Routing of a signal the node itself emitted: what cannot be sent is only logged.\<close>

definition route :: "('m, 's, 'p, 'k, 'v) RtEnv \<Rightarrow> 'p Signal \<Rightarrow> ('m, 's, 'p, unit) rt_op" where
  "route en g = op_bind (node_call en (receive_local (re_node en) g)) (\<lambda>d. case d of
     Inl e \<Rightarrow> op_fail (RtNode (Err e))
   | Inr disposition \<Rightarrow>
       op_bind rt_config (\<lambda>c.
       op_bind (send_each (my_id en) (nc_propagation c) g (dp_forward_to disposition) 0 []) (\<lambda>(sent, _).
       send_event (ForwardedTo (sg_id g) sent (list_ex fw_explored (dp_forward_to disposition))))))"

definition runtime_emit :: "('m, 's, 'p, 'k, 'v) RtEnv \<Rightarrow> 'p SignalBuilder \<Rightarrow> ('m, 's, 'p, 'p Signal) rt_op" where
  "runtime_emit en b = op_bind (node_emit en b) (\<lambda>r. case r of
     Inl e \<Rightarrow> op_fail (RtNode (Err e))
   | Inr g \<Rightarrow> (case sign_signal (re_cbor en) (crypto en) g (id_private (re_identity en)) of
       Inl e \<Rightarrow> op_fail (RtCrypto e)
     | Inr h \<Rightarrow> op_bind (route en h) (\<lambda>_. op_ret h)))"

text \<open>A signed receipt signal, or nothing when emission or signing fails.\<close>

definition signed_receipt :: "('m, 's, 'p, 'k, 'v) RtEnv \<Rightarrow> Receipt \<Rightarrow> NodeId \<Rightarrow> ('m, 's, 'p, 'p Signal option) rt_op" where
  "signed_receipt en rc origin = op_bind (node_emit en (signal_receipt (wj_base (re_json en)) rc origin)) (\<lambda>r.
     op_ret (case r of Inl _ \<Rightarrow> None
       | Inr g \<Rightarrow> (case sign_signal (re_cbor en) (crypto en) g (id_private (re_identity en)) of Inl _ \<Rightarrow> None | Inr h \<Rightarrow> Some h)))"

definition send_receipt_to :: "('m, 's, 'p, 'k, 'v) RtEnv \<Rightarrow> Receipt \<Rightarrow> NodeId \<Rightarrow> ('m, 's, 'p, bool) rt_op" where
  "send_receipt_to en rc origin = op_bind (signed_receipt en rc origin) (\<lambda>g. case g of
     None \<Rightarrow> op_ret False | Some h \<Rightarrow> push_to origin h)"

text \<open>A session with the origin, or else the one the signal came over.\<close>

definition receipt_target :: "NodeId \<Rightarrow> NodeId \<Rightarrow> ('m, 's, 'p, NodeId) rt_op" where
  "receipt_target origin via s = (Inr (if map_of (rt_sessions s) origin \<noteq> None then origin else via), s)"

definition send_receipt ::
  "('m, 's, 'p, 'k, 'v) RtEnv \<Rightarrow> Receipt \<Rightarrow> NodeId \<Rightarrow> NodeId \<Rightarrow> ('m, 's, 'p, unit) rt_op" where
  "send_receipt en rc origin via = op_bind (signed_receipt en rc origin) (\<lambda>g. case g of
     None \<Rightarrow> op_ret ()
   | Some h \<Rightarrow> op_bind (receipt_target origin via) (\<lambda>t. op_bind (push_to t h) (\<lambda>_. op_ret ())))"

section \<open>Release\<close>

datatype Release = ByThreshold | ByGuard

text \<open>\<open>trace.last()\<close> and the synapse to that peer.\<close>

definition arrival_of :: "('m, 's, 'p, 'k, 'v) RtEnv \<Rightarrow> 'p Signal \<Rightarrow> ('m, 's, 'p, SynapseId option) rt_op" where
  "arrival_of en g = (if sg_trace g = [] then op_ret None else peer_synapse en (last (sg_trace g)))"

definition release_signal ::
  "('m, 's, 'p, 'k, 'v) RtEnv \<Rightarrow> SignalId \<Rightarrow> 'p Signal option \<Rightarrow> Forward list option \<Rightarrow> Release \<Rightarrow> ('m, 's, 'p, unit) rt_op" where
  "release_signal en i body plan how = (case body of
     None \<Rightarrow> send_event (Released i None)
   | Some g \<Rightarrow>
       op_bind (send_event (case how of ByThreshold \<Rightarrow> Handled g | ByGuard \<Rightarrow> Released i (Some g))) (\<lambda>_.
       op_bind (arrival_of en g) (\<lambda>arrival.
       op_bind (case plan of Some p \<Rightarrow> op_ret p
         | None \<Rightarrow> op_bind (node_call en (plan_release (re_node en) g arrival)) (\<lambda>r.
             op_ret (case r of Inr p \<Rightarrow> p | Inl _ \<Rightarrow> []))) (\<lambda>forwards.
       op_bind (forward_signal en g forwards) (\<lambda>delivered.
       if signal_requires_receipt g
       then op_bind (send_receipt_to en (if forwards = [] \<or> delivered then receipt_delivered i (hops_of g)
              else receipt_rejected i TransportFailure (hops_of g)) (sg_origin g)) (\<lambda>_. op_ret ())
       else op_ret ())))))"

text \<open>The body cache, with its backstop: the smallest identifier goes when the cache holds
  twice the queue depth.\<close>

definition remember_body :: "'p Signal \<Rightarrow> ('m, 's, 'p, unit) rt_op" where
  "remember_body g = op_bind rt_config (\<lambda>c s.
     let cap = min (2 * max (ac_max_queue_depth (nc_activation c)) 1) (2 ^ 64 - 1);
         kept = (if cap \<le> length (rt_pending s) \<and> rt_pending s \<noteq> []
           then AList.delete (Min (fst ` set (rt_pending s))) (rt_pending s) else rt_pending s)
     in (Inr (), s\<lparr>rt_pending := AList.update (sg_id g) g kept\<rparr>))"

section \<open>Arrival\<close>

definition key_of_origin :: "PeerIdentity \<Rightarrow> NodeId \<Rightarrow> (NodeId, 'p Session) hashmap \<Rightarrow> PublicKey option" where
  "key_of_origin peer origin sessions =
    (if origin = pi_node_id peer then Some (pi_public_key peer) else map_option se_public_key (map_of sessions origin))"

text \<open>A signature that does not verify costs the peer that presented it.\<close>

definition bad_signature :: "('m, 's, 'p, 'k, 'v) RtEnv \<Rightarrow> NodeId \<Rightarrow> ('m, 's, 'p, unit) rt_op" where
  "bad_signature en p = op_bind (peer_record en p) (\<lambda>r.
     op_bind (case r of None \<Rightarrow> op_ret False
       | Some x \<Rightarrow> op_bind (node_call en (penalize_signature_failure (re_node en) (sr_id x))) (\<lambda>o'.
           op_ret (case o' of Inr (Some f) \<Rightarrow> sf_pruned f | _ \<Rightarrow> False))) (\<lambda>pruned.
     op_bind (send_event (SignatureRefused p pruned)) (\<lambda>_.
     if pruned then op_fail (RtHandshake (SynapsePruned p)) else op_ret ())))"

definition take_receipt :: "('m, 's, 'p, 'k, 'v) RtEnv \<Rightarrow> NodeId \<Rightarrow> 'p Signal \<Rightarrow> ('m, 's, 'p, unit) rt_op" where
  "take_receipt en p g = (case wj_to_receipt (re_json en) (sg_payload g) of
     None \<Rightarrow> op_ret ()
   | Some rc \<Rightarrow> op_bind (node_call en (apply_receipt (re_node en) rc p)) (\<lambda>r. case r of
       Inr (Some u) \<Rightarrow> send_event (ReceiptApplied p (receipt_is_delivered rc) (wu_applied_delta u))
     | _ \<Rightarrow> op_ret ()))"

definition tell_evicted :: "('m, 's, 'p, 'k, 'v) RtEnv \<Rightarrow> Evicted \<Rightarrow> ('m, 's, 'p, unit) rt_op" where
  "tell_evicted en ev = op_bind (take_body (qs_id (ev_signal ev))) (\<lambda>body.
     op_bind (send_event (RefusedSignal (qs_id (ev_signal ev)) (ev_reason ev))) (\<lambda>_.
     if evicted_needs_receipt ev
     then op_bind (send_receipt_to en (receipt_rejected (qs_id (ev_signal ev)) (ev_reason ev)
            (case body of None \<Rightarrow> 0 | Some b \<Rightarrow> hops_of b)) (qs_origin (ev_signal ev))) (\<lambda>_. op_ret ())
     else op_ret ()))"

fun release_each ::
  "('m, 's, 'p, 'k, 'v) RtEnv \<Rightarrow> 'p Signal \<Rightarrow> Forward list \<Rightarrow> QueuedSignal list \<Rightarrow> ('m, 's, 'p, unit) rt_op" where
  "release_each en g plan [] = op_ret ()"
| "release_each en g plan (q # qs) =
     op_bind (if qs_id q = sg_id g then release_signal en (qs_id q) (Some g) (Some plan) ByThreshold
       else op_bind (take_body (qs_id q)) (\<lambda>body. release_signal en (qs_id q) body None ByThreshold)) (\<lambda>_.
     release_each en g plan qs)"

text \<open>What the node decided about an arrival is carried out.\<close>

definition carry_out :: "('m, 's, 'p, 'k, 'v) RtEnv \<Rightarrow> NodeId \<Rightarrow> 'p Signal \<Rightarrow> Disposition \<Rightarrow> ('m, 's, 'p, unit) rt_op" where
  "carry_out en p g d =
     op_bind (case dp_evicted d of None \<Rightarrow> op_ret () | Some ev \<Rightarrow> tell_evicted en ev) (\<lambda>_.
     op_bind (case dp_receipt d of None \<Rightarrow> op_ret () | Some rc \<Rightarrow> send_receipt en rc (sg_origin g) p) (\<lambda>_.
     op_bind (case dp_rejected d of None \<Rightarrow> op_ret () | Some reason \<Rightarrow> send_event (RefusedSignal (sg_id g) reason)) (\<lambda>_.
     op_bind (release_each en g (dp_forward_to d) (dp_handle_locally d)) (\<lambda>_.
     if dp_queued d then remember_body g else op_ret ()))))"

definition deliver :: "('m, 's, 'p, 'k, 'v) RtEnv \<Rightarrow> NodeId \<Rightarrow> 'p Signal \<Rightarrow> ('m, 's, 'p, unit) rt_op" where
  "deliver en p g = op_bind (peer_synapse en p) (\<lambda>arrival.
     op_bind (node_call en (receive (re_node en) g arrival)) (\<lambda>r. case r of
       Inl _ \<Rightarrow> op_ret ()
     | Inr d \<Rightarrow> carry_out en p g d))"

definition authentic :: "('m, 's, 'p, 'k, 'v) RtEnv \<Rightarrow> 'p Signal \<Rightarrow> PublicKey \<Rightarrow> bool" where
  "authentic en g key \<longleftrightarrow> (case verify_signal (re_cbor en) (crypto en) g key of Inr b \<Rightarrow> b | Inl _ \<Rightarrow> False)"

text \<open>A verified signal: clamp its headers, then apply it as a receipt or deliver it.\<close>

definition accept_signal :: "('m, 's, 'p, 'k, 'v) RtEnv \<Rightarrow> NodeId \<Rightarrow> 'p Signal \<Rightarrow> ('m, 's, 'p, unit) rt_op" where
  "accept_signal en p g = op_bind rt_config (\<lambda>c.
     let (clamp, g') = clamp_inbound_headers g (nc_propagation c)
     in op_bind (if clamp_any clamp
          then send_event (HeadersClamped p (sg_id g') (hc_weight_clamped clamp) (hc_ttl_clamped clamp)) else op_ret ()) (\<lambda>_.
        if sg_type g' = ReceiptType then take_receipt en p g' else deliver en p g'))"

text \<open>The body of the read loop, for a signal read off the connection of a peer.\<close>

definition inbound :: "('m, 's, 'p, 'k, 'v) RtEnv \<Rightarrow> PeerIdentity \<Rightarrow> 'p Signal \<Rightarrow> ('m, 's, 'p, unit) rt_op" where
  "inbound en peer g s = (case key_of_origin peer (sg_origin g) (rt_sessions s) of
     None \<Rightarrow> send_event (OriginKeyUnknown (pi_node_id peer) (sg_origin g)) s
   | Some key \<Rightarrow>
       if \<not> authentic en g key then bad_signature en (pi_node_id peer) s
       else if \<not> fl_is_finite (sg_weight g) then send_event (MalformedFrom (pi_node_id peer) (sg_weight g)) s
       else accept_signal en (pi_node_id peer) g s)"

text \<open>The read loop: until the connection closes, a frame cannot be read, or the peer's
  synapse is pruned. The connection is read between steps, so it is part of the state.\<close>

definition read_step ::
  "'r source_api \<Rightarrow> ('m, 's, 'p, 'k, 'v) RtEnv \<Rightarrow> PeerIdentity \<Rightarrow> ('r \<times> ('m, 's, 'p) Runtime, RuntimeError, bool) op" where
  "read_step so en peer rs = (let (r, s) = rs in case read_signal so (re_cbor en) r of
     (Inl Closed, r') \<Rightarrow> (Inr False, (r', s))
   | (Inl e, r') \<Rightarrow> (Inl (RtFrame e), (r', s))
   | (Inr g, r') \<Rightarrow> (case inbound en peer g s of
       (Inl e, s') \<Rightarrow> (Inl e, (r', s'))
     | (Inr _, s') \<Rightarrow> (Inr True, (r', s'))))"

section \<open>Maintenance\<close>

fun release_starving :: "('m, 's, 'p, 'k, 'v) RtEnv \<Rightarrow> QueuedSignal list \<Rightarrow> ('m, 's, 'p, unit) rt_op" where
  "release_starving en [] = op_ret ()"
| "release_starving en (q # qs) = op_bind (take_body (qs_id q)) (\<lambda>body.
     op_bind (release_signal en (qs_id q) body None ByGuard) (\<lambda>_. release_starving en qs))"

definition poll_guard :: "('m, 's, 'p, 'k, 'v) RtEnv \<Rightarrow> ('m, 's, 'p, unit) rt_op" where
  "poll_guard en = op_bind (node_call en poll_activation) (\<lambda>r. case r of
     Inl _ \<Rightarrow> op_ret () | Inr released \<Rightarrow> release_starving en released)"

definition per_sweep :: u64 where
  "per_sweep = MAINTENANCE_INTERVAL_SECS * 1000 div ACTIVATION_POLL_INTERVAL_MS"

text \<open>One tick, the \<open>ticks\<close>-th; a failing sweep or checkpoint is only logged.\<close>

definition maintenance_tick :: "('m, 's, 'p, 'k, 'v) RtEnv \<Rightarrow> u64 \<Rightarrow> ('m, 's, 'p, unit) rt_op" where
  "maintenance_tick en ticks = op_bind (poll_guard en) (\<lambda>_.
     if ticks mod max per_sweep 1 \<noteq> 0 then op_ret ()
     else op_bind (node_call en (sweep_timeouts (re_node en) 256)) (\<lambda>_.
          op_bind (node_call en (checkpoint (re_node en))) (\<lambda>_. op_ret ())))"

section \<open>Sessions\<close>

text \<open>Registration of an authenticated peer: refused while its session is live.\<close>

definition join_session :: "PeerIdentity \<Rightarrow> ('m, 's, 'p, unit) rt_op" where
  "join_session peer s =
    (if (case map_of (rt_sessions s) (pi_node_id peer) of Some se \<Rightarrow> se_open se | None \<Rightarrow> False)
     then (Inl (RtHandshake (LiveSession (pi_node_id peer))), s)
     else send_event (PeerConnected (pi_node_id peer))
       (s\<lparr>rt_sessions := AList.update (pi_node_id peer)
            \<lparr>se_outbound = [], se_open = True, se_public_key = pi_public_key peer\<rparr> (rt_sessions s)\<rparr>))"

definition leave_session :: "PeerIdentity \<Rightarrow> ('m, 's, 'p, unit) rt_op" where
  "leave_session peer s = send_event (PeerDisconnected (pi_node_id peer))
     (s\<lparr>rt_sessions := AList.delete (pi_node_id peer) (rt_sessions s)\<rparr>)"

text \<open>The writer pump takes the oldest signal; when the write fails it ends, and with it the
  receiving half of the channel.\<close>

definition pump :: "NodeId \<Rightarrow> ('m, 's, 'p, 'p Signal option) rt_op" where
  "pump p s = (case map_of (rt_sessions s) p of
     None \<Rightarrow> (Inr None, s)
   | Some se \<Rightarrow> (case se_outbound se of
       [] \<Rightarrow> (Inr None, s)
     | g # gs \<Rightarrow> (Inr (Some g), s\<lparr>rt_sessions := AList.update p (se\<lparr>se_outbound := gs\<rparr>) (rt_sessions s)\<rparr>)))"

definition pump_fails :: "NodeId \<Rightarrow> ('m, 's, 'p, unit) rt_op" where
  "pump_fails p s = (Inr (), case map_of (rt_sessions s) p of
     None \<Rightarrow> s
   | Some se \<Rightarrow> s\<lparr>rt_sessions := AList.update p (se\<lparr>se_outbound := [], se_open := False\<rparr>) (rt_sessions s)\<rparr>)"

definition connected_peers :: "('m, 's, 'p) Runtime \<Rightarrow> NodeId list" where
  "connected_peers s = map fst (rt_sessions s)"

end
