(* ===== verification/Node_Safety.thy ===== *)
theory Node_Safety
  imports Node
begin

text \<open>
  Safety of the node over any store that keeps its contract: no operation panics, hangs or
  fails, and each one preserves what the others rely on. Proved once in a locale over the
  contract and a generator, and applied to the in-memory store and \<open>SplitMix64\<close>.
\<close>

section \<open>Reasoning about operations\<close>

text \<open>\<open>ends f n Q E\<close>: run in \<open>n\<close>, \<open>f\<close> returns a value that satisfies \<open>Q\<close> in the state it
  leaves, or stops early in a way \<open>E\<close> allows.\<close>

definition ends :: "('n, 'e, 'a) op \<Rightarrow> 'n \<Rightarrow> ('a \<Rightarrow> 'n \<Rightarrow> bool) \<Rightarrow> ('e \<Rightarrow> 'n \<Rightarrow> bool) \<Rightarrow> bool" where
  "ends f n Q E \<longleftrightarrow> (case f n of (Inl e, n') \<Rightarrow> E e n' | (Inr x, n') \<Rightarrow> Q x n')"

abbreviation yields :: "('n, 'e, 'a) op \<Rightarrow> 'n \<Rightarrow> ('a \<Rightarrow> 'n \<Rightarrow> bool) \<Rightarrow> bool" where
  "yields f n Q \<equiv> ends f n Q (\<lambda>_ _. False)"

lemma ends_simps [simp]:
  "ends (op_ret x) n Q E \<longleftrightarrow> Q x n"
  "ends (op_fail e) n Q E \<longleftrightarrow> E e n"
  "ends self n' R E' \<longleftrightarrow> R n' n'"
  by (simp_all add: ends_def self_def)

lemma ends_bind: "ends f n (\<lambda>x n'. ends (g x) n' Q E) E \<Longrightarrow> ends (op_bind f g) n Q E"
  by (auto simp: ends_def op_bind_def split: sum.splits prod.splits)

lemma ends_mono:
  "ends f n P E \<Longrightarrow> (\<And>x n'. P x n' \<Longrightarrow> Q x n') \<Longrightarrow> (\<And>e n'. E e n' \<Longrightarrow> F e n') \<Longrightarrow> ends f n Q F"
  by (auto simp: ends_def split: sum.splits prod.splits)

lemma ends_bindI:
  assumes "ends f n P E" "\<And>x n'. P x n' \<Longrightarrow> ends (g x) n' Q E" shows "ends (op_bind f g) n Q E"
  using assms(1) by (intro ends_bind ends_mono [OF assms(1)] assms(2))

lemma yields_bindI:
  assumes "yields f n P" "\<And>x n'. P x n' \<Longrightarrow> ends (g x) n' Q E" shows "ends (op_bind f g) n Q E"
  by (intro ends_bind ends_mono [OF assms(1)] assms(2)) simp_all

lemma yields_run: "yields f n Q \<longleftrightarrow> (\<exists>x n'. f n = (Inr x, n') \<and> Q x n')"
  by (cases "f n"; cases "fst (f n)") (auto simp: ends_def)

lemma ends_store:
  "f (nd_store n) = (Inr x, m) \<Longrightarrow> ends (store_op f) n Q E \<longleftrightarrow> Q x (n\<lparr>nd_store := m\<rparr>)"
  by (simp add: ends_def store_op_def)

lemma ends_if: "(b \<Longrightarrow> ends f n Q E) \<Longrightarrow> (\<not> b \<Longrightarrow> ends g n Q E) \<Longrightarrow> ends (if b then f else g) n Q E"
  by simp

text \<open>An operation is safe for an invariant when from every state of it the operation ends in
  one, with a result of which \<open>R\<close> holds, or stops as \<open>E\<close> allows.\<close>

definition safe :: "('n \<Rightarrow> bool) \<Rightarrow> ('e \<Rightarrow> bool) \<Rightarrow> ('n, 'e, 'a) op \<Rightarrow> ('a \<Rightarrow> bool) \<Rightarrow> bool" where
  "safe I E f R \<longleftrightarrow> (\<forall>n. I n \<longrightarrow> ends f n (\<lambda>x n'. I n' \<and> R x) (\<lambda>e n'. I n' \<and> E e))"

lemma safe_run:
  assumes "safe I E f R" "I n" "f n = (r, n')"
  shows "I n'" "r = Inl e \<Longrightarrow> E e" "r = Inr x \<Longrightarrow> R x"
  using assms(1) [unfolded safe_def, rule_format, OF assms(2)] assms(3) by (cases r; auto simp: ends_def)+

lemma safe_ret: "R x \<Longrightarrow> safe I E (op_ret x) R"
  by (simp add: safe_def)

lemma safe_bind: "safe I E f R \<Longrightarrow> (\<And>x. R x \<Longrightarrow> safe I E (g x) S) \<Longrightarrow> safe I E (op_bind f g) S"
  unfolding safe_def by (blast intro: ends_bindI)

lemma safe_self: "(\<And>me. I me \<Longrightarrow> safe I E (g me) S) \<Longrightarrow> safe I E (op_bind self g) S"
  by (auto simp: safe_def op_bind_def self_def ends_def)

lemma safe_if: "(b \<Longrightarrow> safe I E f R) \<Longrightarrow> (\<not> b \<Longrightarrow> safe I E g R) \<Longrightarrow> safe I E (if b then f else g) R"
  by simp

lemma safe_sum:
  "(\<And>a. x = Inl a \<Longrightarrow> safe I E (f a) R) \<Longrightarrow> (\<And>b. x = Inr b \<Longrightarrow> safe I E (g b) R) \<Longrightarrow>
   safe I E (case x of Inl a \<Rightarrow> f a | Inr b \<Rightarrow> g b) R"
  by (simp split: sum.split)

lemma safe_option:
  "(x = None \<Longrightarrow> safe I E f R) \<Longrightarrow> (\<And>a. x = Some a \<Longrightarrow> safe I E (g a) R) \<Longrightarrow>
   safe I E (case x of None \<Rightarrow> f | Some a \<Rightarrow> g a) R"
  by (simp split: option.split)

lemma safe_weaken: "safe I E f R \<Longrightarrow> (\<And>x. R x \<Longrightarrow> S x) \<Longrightarrow> safe I E f S"
  unfolding safe_def by (blast intro: ends_mono)

lemma safe_weaken_stop: "safe I E f R \<Longrightarrow> (\<And>e. E e \<Longrightarrow> F e) \<Longrightarrow> safe I F f R"
  unfolding safe_def by (blast intro: ends_mono)

lemma safe_store:
  assumes "\<And>n. I n \<Longrightarrow> \<exists>x m. f (nd_store n) = (Inr x, m) \<and> I (n\<lparr>nd_store := m\<rparr>) \<and> R x"
  shows "safe I E (store_op f) R"
  unfolding safe_def using assms ends_store by metis

lemma safe_with_rng:
  assumes "\<And>n. I n \<Longrightarrow> \<not> nd_rng_poisoned n" "\<And>n s. I n \<Longrightarrow> I (n\<lparr>nd_rng := s\<rparr>)"
    "\<And>s. \<exists>x s'. f s = Some (x, s') \<and> R x"
  shows "safe I E (with_rng f) R"
proof -
  have "ends (with_rng f) n (\<lambda>x n'. I n' \<and> R x) F" if "I n" for n F
    using assms(1) [OF that] assms(2) [OF that] assms(3) [of "nd_rng n"] by (auto simp: ends_def with_rng_def)
  then show ?thesis by (simp add: safe_def)
qed

section \<open>The invariant\<close>

text \<open>\<open>seen_ext t s s'\<close>: from time \<open>t\<close> on, every window open in \<open>s\<close> is open in \<open>s'\<close>.\<close>

definition seen_ext :: "u64 \<Rightarrow> (SignalId \<rightharpoonup> u64) \<Rightarrow> (SignalId \<rightharpoonup> u64) \<Rightarrow> bool" where
  "seen_ext t s s' \<longleftrightarrow> (\<forall>i e. seen_through s i t e \<longrightarrow> seen_through s' i t e)"

lemma seen_ext_refl [simp]: "seen_ext t s s"
  by (simp add: seen_ext_def)

lemma seen_ext_trans: "seen_ext t s s' \<Longrightarrow> seen_ext t s' s'' \<Longrightarrow> seen_ext t s s''"
  by (simp add: seen_ext_def)

lemma seen_ext_claim: "\<not> seen_live s i t \<Longrightarrow> seen_ext t s (s(i \<mapsto> e))"
  unfolding seen_ext_def seen_through_def
proof (intro allI impI)
  fix j e' u assume n: "\<not> seen_live s i t" and w: "\<forall>u. t \<le> u \<longrightarrow> u < e' \<longrightarrow> seen_live s j u" and u: "t \<le> u" "u < e'"
  have "j \<noteq> i" using n w [rule_format, OF order.refl] order.strict_trans1 [OF u] by auto
  then show "seen_live (s(i \<mapsto> e)) j u" using w u by (simp add: seen_live_def)
qed

lemma seen_ext_purge: "(\<And>i u. t \<le> u \<Longrightarrow> seen_live s' i u = seen_live s i u) \<Longrightarrow> seen_ext t s s'"
  by (simp add: seen_ext_def seen_through_def)

text \<open>The numbers of a configuration the learner can work with. Validation checks the
  learning part, but lets NaN through, and the synapse part hardly at all.\<close>

definition config_sane :: "NodeConfig \<Rightarrow> bool" where
  "config_sane c \<longleftrightarrow> learning_validate (nc_learning c) = Inr () \<and> config_numbers (nc_learning c) \<and>
     fl_le (lc_max_weight (nc_learning c)) (Fin 1) \<and>
     fl_wf b32 (sc_initial_weight (nc_synapse c)) \<and> in_unit (sc_initial_weight (nc_synapse c)) \<and>
     fl_wf b32 (sc_max_weight (nc_synapse c)) \<and> in_unit (sc_max_weight (nc_synapse c))"

definition record_ok :: "SynapseRecord \<Rightarrow> bool" where
  "record_ok r \<longleftrightarrow> fl_wf b32 (sr_weight r) \<and> in_unit (sr_weight r)"

definition entry_ok :: "JournalEntry \<Rightarrow> bool" where
  "entry_ok e \<longleftrightarrow> \<not> fl_is_nan (je_signal_weight e)"

text \<open>
  The invariant of a running node: the identity and configuration it was built with, no
  poisoned lock, a healthy store whose weights are numbers of the unit interval and whose
  journal holds no NaN, and every deduplication window that was open at \<open>t\<close> still open.
\<close>

definition node_inv ::
  "('m \<Rightarrow> bool) \<Rightarrow> ('m \<Rightarrow> SignalId \<rightharpoonup> u64) \<Rightarrow> ('m \<Rightarrow> SynapseId \<rightharpoonup> SynapseRecord) \<Rightarrow> ('m \<Rightarrow> JournalEntry list) \<Rightarrow>
   NodeConfig \<Rightarrow> NodeId \<Rightarrow> u64 \<Rightarrow> (SignalId \<rightharpoonup> u64) \<Rightarrow> ('m, 's) Node \<Rightarrow> bool" where
  "node_inv healthy seen table journal c me t s0 n \<longleftrightarrow> nd_config n = c \<and> nd_identity n = me \<and>
     \<not> nd_rng_poisoned n \<and> \<not> nd_activation_poisoned n \<and> healthy (nd_store n) \<and>
     seen_ext t s0 (seen (nd_store n)) \<and> (\<forall>r \<in> ran (table (nd_store n)). record_ok r) \<and>
     (\<forall>e \<in> set (journal (nd_store n)). entry_ok e)"

definition node_ok ::
  "('m \<Rightarrow> bool) \<Rightarrow> ('m \<Rightarrow> SynapseId \<rightharpoonup> SynapseRecord) \<Rightarrow> ('m \<Rightarrow> JournalEntry list) \<Rightarrow> NodeConfig \<Rightarrow> NodeId \<Rightarrow>
   ('m, 's) Node \<Rightarrow> bool" where
  "node_ok healthy table journal c me n \<longleftrightarrow> nd_config n = c \<and> nd_identity n = me \<and>
     \<not> nd_rng_poisoned n \<and> \<not> nd_activation_poisoned n \<and> healthy (nd_store n) \<and>
     (\<forall>r \<in> ran (table (nd_store n)). record_ok r) \<and> (\<forall>e \<in> set (journal (nd_store n)). entry_ok e)"

lemma node_inv_iff:
  "node_inv healthy seen table journal c me t s0 n \<longleftrightarrow>
   node_ok healthy table journal c me n \<and> seen_ext t s0 (seen (nd_store n))"
  by (auto simp: node_inv_def node_ok_def)

lemma config_sane_facts:
  assumes "config_sane c"
  shows "learning_validate (nc_learning c) = Inr ()" "config_numbers (nc_learning c)"
    "fl_le (lc_min_weight (nc_learning c)) (lc_max_weight (nc_learning c))" "in_unit (lc_min_weight (nc_learning c))"
    "fl_wf b32 (lc_min_weight (nc_learning c))" "fl_wf b32 (lc_max_weight (nc_learning c))"
proof -
  note b = learning_validate_bounds [of "nc_learning c"]
  show v: "learning_validate (nc_learning c) = Inr ()" "config_numbers (nc_learning c)"
    using assms by (simp_all add: config_sane_def)
  show le: "fl_le (lc_min_weight (nc_learning c)) (lc_max_weight (nc_learning c))" using b(2) [OF v] by (rule fl_lt_imp_le)
  show "in_unit (lc_min_weight (nc_learning c))"
    using b(1) [OF v] fl_le_trans [OF le] assms by (auto simp: config_sane_def fl_lt_imp_le)
  show "fl_wf b32 (lc_min_weight (nc_learning c))" "fl_wf b32 (lc_max_weight (nc_learning c))"
    using v(2) by (simp_all add: config_numbers_def)
qed

lemma from_record_weight_ok: "config_sane c \<Longrightarrow> record_ok r \<Longrightarrow> weight_ok (from_record r me (nc_synapse c))"
  by (simp add: config_sane_def record_ok_def weight_ok_def from_record_def)

lemma to_record_ok: "weight_ok s \<Longrightarrow> record_ok (to_record s)"
  by (simp add: record_ok_def weight_ok_def to_record_def)

section \<open>Every operation is safe\<close>

text \<open>
  What a node needs of its surroundings: a store that keeps its contract and a generator
  on which the selection of synapses returns.
\<close>

locale node_host = node_store api healthy seen table journal
  for api :: "'m store_api" and healthy :: "'m \<Rightarrow> bool" and seen :: "'m \<Rightarrow> SignalId \<rightharpoonup> u64"
    and table :: "'m \<Rightarrow> SynapseId \<rightharpoonup> SynapseRecord" and journal :: "'m \<Rightarrow> JournalEntry list" +
  fixes en :: "('m, 's) NodeEnv"
  assumes env: "en_api en = api"
    and decides: "\<exists>out s'. select_synapses (en_libm en) ss scope ty arrival pc lc now (en_next en) s = Some (out, s')"
begin

abbreviation inv :: "NodeConfig \<Rightarrow> NodeId \<Rightarrow> u64 \<Rightarrow> (SignalId \<rightharpoonup> u64) \<Rightarrow> ('m, 's) Node \<Rightarrow> bool" where
  "inv \<equiv> node_inv healthy seen table journal"

lemma inv_rng: "inv c me t s0 n \<Longrightarrow> inv c me t s0 (n\<lparr>nd_rng := s\<rparr>)"
  by (simp add: node_inv_def)

lemma inv_store_same:
  assumes "inv c me t s0 n" "healthy m" "seen_ext t (seen (nd_store n)) (seen m)" "table m = table (nd_store n)"
    "journal m = journal (nd_store n)"
  shows "inv c me t s0 (n\<lparr>nd_store := m\<rparr>)"
  using assms seen_ext_trans unfolding node_inv_def by simp blast

lemma safe_kept:
  assumes "\<And>m. healthy m \<Longrightarrow> kept f healthy seen table journal m"
  shows "safe (inv c me t s0) E (store_op f) (\<lambda>_. True)"
proof (rule safe_store)
  fix n assume i: "inv c me t s0 n"
  then have "healthy (nd_store n)" by (simp add: node_inv_def)
  from assms [OF this] obtain x m where "f (nd_store n) = (Inr x, m)" "healthy m" "seen m = seen (nd_store n)"
    "table m = table (nd_store n)" "journal m = journal (nd_store n)"
    by (auto simp: kept_def)
  then show "\<exists>x m. f (nd_store n) = (Inr x, m) \<and> inv c me t s0 (n\<lparr>nd_store := m\<rparr>) \<and> True"
    using inv_store_same [OF i] by simp
qed

lemma safe_query:
  assumes "\<And>n. inv c me t s0 n \<Longrightarrow> \<exists>x. f (nd_store n) = (Inr x, nd_store n) \<and> R x"
  shows "safe (inv c me t s0) E (store_op f) R"
proof (rule safe_store)
  fix n assume i: "inv c me t s0 n"
  from assms [OF i] obtain x where "f (nd_store n) = (Inr x, nd_store n)" "R x" by blast
  then show "\<exists>x m. f (nd_store n) = (Inr x, m) \<and> inv c me t s0 (n\<lparr>nd_store := m\<rparr>) \<and> R x" using i by simp
qed

lemma safe_check: "safe (inv c me t s0) E (store_op (st_check_and_set_seen api i t ttl)) (\<lambda>_. True)"
proof (rule safe_store)
  fix n assume i: "inv c me t s0 n"
  then have h: "healthy (nd_store n)" by (simp add: node_inv_def)
  let ?live = "seen_live (seen (nd_store n)) i t"
  obtain m where m: "st_check_and_set_seen api i t ttl (nd_store n) = (Inr ?live, m)" "healthy m"
    "seen m = (if ?live then seen (nd_store n) else (seen (nd_store n))(i \<mapsto> seen_expiry t ttl))"
    using check_and_set [OF h] by blast
  have "seen_ext t (seen (nd_store n)) (seen m)" using m(3) seen_ext_claim by simp
  then show "\<exists>x m. st_check_and_set_seen api i t ttl (nd_store n) = (Inr x, m) \<and> inv c me t s0 (n\<lparr>nd_store := m\<rparr>) \<and> True"
    using inv_store_same [OF i m(2)] check_frame [OF h m(1)] m(1) by blast
qed

lemma safe_put:
  assumes "record_ok r" shows "safe (inv c me t s0) E (store_op (st_put_synapse api r)) (\<lambda>_. True)"
proof (rule safe_store)
  fix n assume i: "inv c me t s0 n"
  then have h: "healthy (nd_store n)" by (simp add: node_inv_def)
  obtain m where m: "st_put_synapse api r (nd_store n) = (Inr (), m)" "healthy m"
    "table m = (table (nd_store n))(sr_id r \<mapsto> r)"
    using put_synapse_law [OF h, of r] by blast
  have "\<forall>q \<in> ran (table m). record_ok q"
    using i assms m(3) by (auto simp: node_inv_def ran_def)
  then show "\<exists>x m. st_put_synapse api r (nd_store n) = (Inr x, m) \<and> inv c me t s0 (n\<lparr>nd_store := m\<rparr>) \<and> True"
    using i m put_frame [OF h m(1)] by (intro exI [of _ "()"] exI [of _ m]) (simp add: node_inv_def)
qed

lemma safe_append:
  assumes "entry_ok e" shows "safe (inv c me t s0) E (store_op (st_append_decision api e)) (\<lambda>_. True)"
proof (rule safe_store)
  fix n assume i: "inv c me t s0 n"
  then have h: "healthy (nd_store n)" by (simp add: node_inv_def)
  obtain k m where m: "st_append_decision api e (nd_store n) = (Inr k, m)" "healthy m"
    "journal m = journal (nd_store n) @ [e\<lparr>je_id := Some k\<rparr>]"
    using append_law [OF h, of e] by blast
  then show "\<exists>x m. st_append_decision api e (nd_store n) = (Inr x, m) \<and> inv c me t s0 (n\<lparr>nd_store := m\<rparr>) \<and> True"
    using i assms append_frame [OF h m(1)] by (intro exI [of _ k] exI [of _ m]) (simp add: node_inv_def entry_ok_def)
qed

lemma resolve_cases:
  assumes h: "healthy m"
  obtains (missing) "\<forall>e \<in> set (journal m). je_id e \<noteq> Some i" "st_resolve_decision api i out now m = (Inr None, m)"
  | (found) xs e ys m' where "journal m = xs @ e # ys" "je_id e = Some i" "\<forall>x \<in> set xs. je_id x \<noteq> Some i"
      "st_resolve_decision api i out now m = (Inr (Some (resolve_entry out now e)), m')" "healthy m'"
      "journal m' = xs @ resolve_entry out now e # ys" "seen m' = seen m" "table m' = table m"
proof (cases "\<exists>e \<in> set (journal m). je_id e = Some i")
  case True
  then obtain xs e ys where e: "journal m = xs @ e # ys" "je_id e = Some i" "\<forall>x \<in> set xs. je_id x \<noteq> Some i"
    using split_first by metis
  from resolve_some [OF h e, of out now] obtain m' where
    "st_resolve_decision api i out now m = (Inr (Some (resolve_entry out now e)), m')" "healthy m'"
    "journal m' = xs @ resolve_entry out now e # ys" by blast
  then show ?thesis using found e resolve_frame [OF h] by blast
next
  case False
  then show ?thesis using missing resolve_none [OF h, of i out now] by blast
qed

lemma safe_resolve:
  "safe (inv c me t s0) E (store_op (st_resolve_decision api i out now)) (\<lambda>r. \<forall>e. r = Some e \<longrightarrow> entry_ok e)"
proof (rule safe_store)
  fix n assume i: "inv c me t s0 n"
  then have h: "healthy (nd_store n)" by (simp add: node_inv_def)
  show "\<exists>x m. st_resolve_decision api i out now (nd_store n) = (Inr x, m) \<and> inv c me t s0 (n\<lparr>nd_store := m\<rparr>) \<and>
      (\<forall>e. x = Some e \<longrightarrow> entry_ok e)"
    using i by (cases rule: resolve_cases [OF h, of i out now]) (auto simp: node_inv_def entry_ok_def resolve_entry_def)
qed

lemma safe_list:
  "fi_limit f = None \<Longrightarrow> safe (inv c me t s0) E (store_op (st_list_synapses api f)) (\<lambda>rs. \<forall>r \<in> set rs. record_ok r)"
proof (rule safe_query)
  fix n assume f: "fi_limit f = None" and i: "inv c me t s0 n"
  then have "healthy (nd_store n)" by (simp add: node_inv_def)
  from list_law [OF this, of f] f obtain rs where
    "st_list_synapses api f (nd_store n) = (Inr rs, nd_store n)" "set rs \<subseteq> ran (table (nd_store n))" by auto
  then show "\<exists>rs. st_list_synapses api f (nd_store n) = (Inr rs, nd_store n) \<and> (\<forall>r \<in> set rs. record_ok r)"
    using i by (auto simp: node_inv_def)
qed

lemma safe_get: "safe (inv c me t s0) E (store_op (st_get_synapse api i)) (\<lambda>q. \<forall>r. q = Some r \<longrightarrow> record_ok r)"
  by (rule safe_query) (auto simp: node_inv_def get_synapse_law intro: ranI)

lemma safe_for_peer: "safe (inv c me t s0) E (store_op (st_synapse_for_peer api p)) (\<lambda>q. \<forall>r. q = Some r \<longrightarrow> record_ok r)"
proof (rule safe_query)
  fix n assume i: "inv c me t s0 n"
  then have "healthy (nd_store n)" by (simp add: node_inv_def)
  from for_peer_law [OF this, of p] obtain q where "st_synapse_for_peer api p (nd_store n) = (Inr q, nd_store n)"
    "\<forall>r. q = Some r \<longrightarrow> r \<in> ran (table (nd_store n))" by (auto split: option.splits)
  then show "\<exists>q. st_synapse_for_peer api p (nd_store n) = (Inr q, nd_store n) \<and> (\<forall>r. q = Some r \<longrightarrow> record_ok r)"
    using i by (auto simp: node_inv_def)
qed

lemma safe_journal_choices:
  "\<not> fl_is_nan (sg_weight sig) \<Longrightarrow> safe (inv c me t s0) E (journal_choices api sig now cs out) (\<lambda>_. True)"
proof (induction cs arbitrary: out)
  case (Cons x cs)
  have "entry_ok (journal_entry sig now x)" using Cons.prems by (simp add: entry_ok_def journal_entry_def)
  then show ?case unfolding journal_choices.simps by (intro safe_bind [OF safe_append] Cons.IH Cons.prems)
qed (simp add: safe_ret)

lemma safe_select:
  "safe (inv c me t s0) E (with_rng (select_synapses (en_libm en) ss scope ty arrival pc lc now (en_next en))) (\<lambda>_. True)"
  by (rule safe_with_rng) (use decides inv_rng in \<open>auto simp: node_inv_def\<close>)

lemma safe_plan_forwarding:
  assumes w: "\<not> fl_is_nan (sg_weight sig)"
  shows "safe (inv c me t s0) E (plan_forwarding en sig arrival now) (\<lambda>_. True)"
  unfolding plan_forwarding_def env
  by (intro safe_if safe_ret safe_bind [OF safe_list] safe_self safe_bind [OF safe_select] safe_journal_choices [OF w])
    (simp_all add: filter_eligible_def filter_default_def)

lemma safe_receive_local:
  assumes w: "\<not> fl_is_nan (sg_weight sig)"
  shows "safe (inv c me t s0) E (receive_local en sig now) (\<lambda>_. True)"
  unfolding receive_local_def
  by (intro safe_self safe_sum safe_ret safe_bind [OF safe_plan_forwarding [OF w]] safe_if TrueI)

lemma safe_arrival_weight: "safe (inv c me t s0) E (arrival_weight api arrival) (\<lambda>_. True)"
proof (cases arrival)
  case None
  then show ?thesis by (simp add: safe_def ends_def arrival_weight_def)
next
  case (Some i)
  have "ends (arrival_weight api arrival) n (\<lambda>x n'. inv c me t s0 n' \<and> True) F" if "inv c me t s0 n" for n F
    using that get_synapse_law [of "nd_store n" i] Some
    by (auto simp: arrival_weight_def ends_def node_inv_def split: option.splits)
  then show ?thesis by (simp add: safe_def)
qed

lemma safe_admit: "safe (inv c me t s0) E (admit_op en q w now) (\<lambda>_. True)"
  by (auto simp: safe_def ends_def admit_op_def node_inv_def split: prod.split)

lemma safe_dispose:
  assumes w: "\<not> fl_is_nan (sg_weight sig)"
  shows "safe (inv c me t s0) E (dispose en sig arrival now fired ev) (\<lambda>_. True)"
  unfolding dispose_def Let_def
  by (rule safe_bind [where R = "\<lambda>_. True"]) (auto intro!: safe_if safe_plan_forwarding [OF w] safe_ret)

lemma safe_receive_fresh:
  assumes w: "\<not> fl_is_nan (sg_weight sig)"
  shows "safe (inv c me t s0) E (receive_fresh en n0 sig arrival now) (\<lambda>_. True)"
  unfolding receive_fresh_def env Let_def
  by (intro safe_sum safe_ret safe_option safe_if safe_bind [OF safe_arrival_weight] safe_bind [OF safe_admit]
      safe_dispose [OF w] TrueI)

lemma safe_receive:
  assumes w: "\<not> fl_is_nan (sg_weight sig)"
  shows "safe (inv c me t s0) E (receive en sig arrival t) (\<lambda>_. True)"
  unfolding receive_def env
  by (intro safe_self safe_bind [OF safe_check] safe_if safe_ret safe_receive_fresh [OF w] TrueI)

lemma safe_emit: "safe (inv c me t s0) E (emit en b t t1 t2) (\<lambda>_. True)"
  unfolding emit_def env
  by (intro safe_self safe_bind [where R = "\<lambda>_. True"] safe_with_rng safe_bind [OF safe_check] safe_ret)
    (use inv_rng in \<open>auto simp: node_inv_def\<close>)

text \<open>Learning.\<close>

lemma safe_put_records:
  "\<forall>(r, w) \<in> set rws. fl_wf b32 w \<and> in_unit w \<Longrightarrow> safe (inv c me t s0) E (put_records api rws) (\<lambda>_. True)"
proof (induction rws)
  case (Cons rw rws)
  obtain r w where rw: "rw = (r, w)" by fastforce
  have "record_ok (r\<lparr>sr_weight := w\<rparr>)" using Cons.prems rw by (simp add: record_ok_def)
  then show ?case using Cons unfolding rw put_records.simps by (intro safe_bind [OF safe_put]) auto
qed (simp add: safe_ret)

lemma safe_normalize:
  assumes "config_sane c" shows "safe (inv c me t s0) E (normalize_outbound_weights en) (\<lambda>_. True)"
  unfolding normalize_outbound_weights_def env
proof (intro safe_bind [OF safe_list] safe_if safe_self safe_ret TrueI)
  fix rs self assume rs: "\<forall>r \<in> set rs. record_ok r" and self: "inv c me t s0 self"
  have lc: "learning self = nc_learning c" using self by (simp add: node_inv_def learning_def)
  have "\<forall>(r, w) \<in> set (zip rs ws'). fl_wf b32 w \<and> in_unit w"
    if norm: "normalize_outbound (map sr_weight rs) (learning self) = Some (f, ws')" for f ws'
  proof -
    have ws: "\<forall>w \<in> set (map sr_weight rs). fl_wf b32 w \<and> fl_is_finite w \<and> fl_le (Fin 0) w"
      using rs in_unit_finite by (auto simp: record_ok_def)
    note mn = config_sane_facts [OF assms] and f = normalize_outbound_facts [OF _ _ ws norm, unfolded lc]
    have "in_unit (ws' ! i)" if "i < length rs" for i
    proof -
      have b: "fl_le (lc_min_weight (nc_learning c)) (ws' ! i)"
        "fl_le (ws' ! i) (fl_max (sr_weight (rs ! i)) (lc_min_weight (nc_learning c)))"
        using f(4) mn(1,2) that by auto
      have "fl_le (fl_max (sr_weight (rs ! i)) (lc_min_weight (nc_learning c))) (Fin 1)"
        using rs that mn(4) fl_max_cases [of "sr_weight (rs ! i)" "lc_min_weight (nc_learning c)"] by (auto simp: record_ok_def)
      then show ?thesis using b mn(4) fl_le_trans by blast
    qed
    then have "\<forall>w \<in> set ws'. fl_wf b32 w \<and> in_unit w"
      using f(1,3) mn(1,2) by (auto simp: in_set_conv_nth)
    then show ?thesis by (auto dest: set_zip_rightD)
  qed
  then show "safe (inv c me t s0) E (case normalize_outbound (map sr_weight rs) (learning self) of None \<Rightarrow> op_ret None
      | Some (factor, weights) \<Rightarrow> op_bind (put_records api (zip rs weights)) (\<lambda>_. op_ret (Some factor))) (\<lambda>_. True)"
    by (auto intro!: safe_option safe_ret safe_bind [OF safe_put_records])
qed (simp add: filter_default_def)

lemma safe_influence: "safe (inv c me t s0) E (store_op (st_influence_since api p w)) (\<lambda>x. fl_le (Fin 0) x)"
  by (rule safe_query) (simp add: node_inv_def influence_law)

lemma safe_apply_outcome:
  assumes sane: "config_sane c" and e: "entry_ok e"
  shows "safe (inv c me t s0) E (apply_outcome_to_synapse en e out now) (\<lambda>_. True)"
  unfolding apply_outcome_to_synapse_def env Let_def
proof (rule safe_self, rule safe_bind [OF safe_influence], rule safe_bind [OF safe_get], rule safe_option, rule safe_ret, rule TrueI)
  fix self used found r
  assume self: "inv c me t s0 self" and used: "fl_le (Fin 0) used" and r: "\<forall>r. found = Some r \<longrightarrow> record_ok r" "found = Some r"
  have cfg: "learning self = nc_learning c" "synapse_config self = nc_synapse c"
    using self by (simp_all add: node_inv_def learning_def synapse_config_def)
  note mn = config_sane_facts [OF sane]
  let ?s = "from_record r (nd_identity self) (synapse_config self)"
  have ok: "weight_ok ?s" using from_record_weight_ok [OF sane] r by (simp add: cfg)
  have nan: "\<not> fl_is_nan (clamp01 (je_signal_weight e))"
    using e clamp01_unit [of "je_signal_weight e"] fl_le_not_nan by (auto simp: entry_ok_def)
  have le1: "fl_le (lc_max_weight (nc_learning c)) (Fin 1)" using sane by (simp add: config_sane_def)
  obtain u s' where run: "apply_outcome ?s out (clamp01 (je_signal_weight e)) (signal_type_name_of (je_signal_type e)) used
      (learning self) = Some (u, s')"
    using apply_reward_eq [OF mn(3)] by (simp add: apply_outcome_def cfg Let_def)
  note s' = learn_weight_ok [OF mn(1,2) le1 run [unfolded cfg(1)] nan used ok]
  have rec: "safe (inv c me t s0) E (store_op (st_record_influence api p (wu_applied_delta u) now w)) (\<lambda>_. True)" for p w
    by (rule safe_kept) (rule record_kept [OF _ s'(2)])
  have put: "record_ok (to_record (s'\<lparr>sy_last_active_ns := now\<rparr>))"
    using s'(1) by (intro to_record_ok) (simp add: weight_ok_def)
  show "safe (inv c me t s0) E (case apply_outcome ?s out (clamp01 (je_signal_weight e)) (signal_type_name_of (je_signal_type e)) used
      (learning self) of None \<Rightarrow> op_fail Panicked
    | Some (update, synapse) \<Rightarrow>
       op_bind (if fl_lt f32_epsilon (fl_abs (wu_applied_delta update))
         then op_bind (store_op (st_record_influence api (je_peer e) (wu_applied_delta update) now
           (influence_window_start (learning self) now))) (\<lambda>_. op_ret ()) else op_ret ()) (\<lambda>_.
       op_bind (store_op (st_put_synapse api (to_record (synapse\<lparr>sy_last_active_ns := now\<rparr>)))) (\<lambda>_.
       op_bind (normalize_outbound_weights en) (\<lambda>_. op_ret update)))) (\<lambda>_. True)"
    unfolding run option.case prod.case
    by (intro safe_bind [where R = "\<lambda>_. True"] safe_if safe_ret rec safe_put [OF put] safe_normalize [OF sane] TrueI)
qed

lemma safe_learn:
  "config_sane c \<Longrightarrow> \<forall>e. q = Some e \<longrightarrow> entry_ok e \<Longrightarrow> safe (inv c me t s0) E (learn_resolved en q out now) (\<lambda>_. True)"
  unfolding learn_resolved_def by (intro safe_option safe_ret safe_if safe_bind [OF safe_apply_outcome] TrueI) auto

lemma safe_fail_forward: "config_sane c \<Longrightarrow> safe (inv c me t s0) E (fail_forward en i now) (\<lambda>_. True)"
  unfolding fail_forward_def env by (intro safe_bind [OF safe_resolve] safe_learn)

lemma safe_pending: "safe (inv c me t s0) E (store_op (st_pending_decision_for api sg p)) (\<lambda>_. True)"
proof (rule safe_query)
  fix n assume "inv c me t s0 n"
  then have "healthy (nd_store n)" by (simp add: node_inv_def)
  from pending_law [OF this, of sg p]
  show "\<exists>x. st_pending_decision_for api sg p (nd_store n) = (Inr x, nd_store n) \<and> True" by blast
qed

lemma safe_apply_receipt: "config_sane c \<Longrightarrow> safe (inv c me t s0) E (apply_receipt en rc p now) (\<lambda>_. True)"
  unfolding apply_receipt_def env
  by (intro safe_bind [OF safe_pending] safe_option safe_ret safe_bind [OF safe_resolve] safe_learn TrueI)

lemma safe_sweep_loop: "config_sane c \<Longrightarrow> safe (inv c me t s0) E (sweep_loop en now es k) (\<lambda>_. True)"
proof (induction es arbitrary: k)
  case (Cons e es)
  then show ?case unfolding sweep_loop.simps env
    by (intro safe_option safe_bind [OF safe_resolve] safe_bind [OF safe_learn])
qed (simp add: safe_ret)

lemma safe_expired: "safe (inv c me t s0) E (store_op (st_expired_decisions api d k)) (\<lambda>_. True)"
proof (rule safe_query)
  fix n assume "inv c me t s0 n"
  then have "healthy (nd_store n)" by (simp add: node_inv_def)
  from expired_law [OF this, of d k]
  show "\<exists>x. st_expired_decisions api d k (nd_store n) = (Inr x, nd_store n) \<and> True" by blast
qed

lemma safe_sweep: "config_sane c \<Longrightarrow> safe (inv c me t s0) E (sweep_timeouts en limit now) (\<lambda>_. True)"
  unfolding sweep_timeouts_def env by (intro safe_self safe_bind [OF safe_expired] safe_sweep_loop)

lemma safe_penalize:
  assumes sane: "config_sane c" shows "safe (inv c me t s0) E (penalize_signature_failure en i now) (\<lambda>_. True)"
  unfolding penalize_signature_failure_def env
proof (intro safe_bind [OF safe_get] safe_option safe_ret safe_self TrueI)
  fix q r self assume r: "\<forall>r. q = Some r \<longrightarrow> record_ok r" "q = Some r" and self: "inv c me t s0 self"
  let ?f = "apply_signature_failure (from_record r (nd_identity self) (synapse_config self)) now (learning self)"
  have "weight_ok (from_record r (nd_identity self) (nc_synapse c))" using from_record_weight_ok [OF sane] r by simp
  then have "record_ok (to_record (snd ?f))"
    using self sane punish_weight_ok [of "nc_learning c"]
    by (intro to_record_ok) (simp add: node_inv_def learning_def synapse_config_def config_sane_def)
  then show "safe (inv c me t s0) E (let (outcome, synapse) = ?f
      in op_bind (store_op (st_put_synapse api (to_record synapse))) (\<lambda>_. op_ret (Some outcome))) (\<lambda>_. True)"
    by (auto simp: case_prod_beta intro!: safe_bind [OF safe_put] safe_ret)
qed

text \<open>Synapses and housekeeping.\<close>

lemma safe_put_back: "record_ok r \<Longrightarrow> safe (inv c me t s0) E (put_back api r) record_ok"
  unfolding put_back_def by (intro safe_bind [OF safe_put] safe_ret)

lemma safe_upsert:
  assumes sane: "config_sane c"
  shows "safe (inv c me t s0) (\<lambda>e. \<exists>k. e = Err (InvalidSignal (InCooldown p k))) (upsert_synapse en p now) record_ok"
  unfolding upsert_synapse_def env
proof (rule safe_self, rule safe_bind [OF safe_for_peer], rule safe_option)
  fix self q assume self: "inv c me t s0 self"
  have cfg: "synapse_config self = nc_synapse c" using self by (simp add: node_inv_def synapse_config_def)
  have sc: "fl_wf b32 (sc_initial_weight (nc_synapse c))" "in_unit (sc_initial_weight (nc_synapse c))"
    "fl_wf b32 (sc_max_weight (nc_synapse c))" "in_unit (sc_max_weight (nc_synapse c))"
    using sane by (simp_all add: config_sane_def)
  let ?fresh = "\<lambda>s. let (y, s') = new_with (en_ulid en) (nd_identity self) p (synapse_config self) now (en_next en) s
            in Some (activate y, s')"
  have fresh: "safe (inv c me t s0) E (with_rng ?fresh) weight_ok" for E :: "stop \<Rightarrow> bool"
    by (rule safe_with_rng)
      (use inv_rng sc in \<open>auto simp: node_inv_def new_with_def Let_def activate_def weight_ok_def cfg split: prod.split\<close>)
  have peer: "safe (inv c me t s0) E (store_op (st_put_peer api pr)) (\<lambda>_. True)" for E :: "stop \<Rightarrow> bool" and pr
    by (rule safe_kept) (rule put_peer_kept)
  show "safe (inv c me t s0) (\<lambda>e. \<exists>k. e = Err (InvalidSignal (InCooldown p k)))
    (op_bind (with_rng ?fresh) (\<lambda>synapse.
      op_bind (store_op (st_put_synapse api (to_record synapse))) (\<lambda>_.
      op_bind (store_op (st_put_peer api \<lparr>pr_id = p, pr_addresses = [], pr_region = None,
        pr_advertised_types = [], pr_last_seen_ns = now, pr_source = Observed\<rparr>)) (\<lambda>_.
      op_ret (to_record synapse))))) record_ok"
    by (intro safe_bind [OF fresh] safe_bind [OF safe_put] safe_bind [OF peer] safe_ret to_record_ok)
  fix r assume "\<forall>r. q = Some r \<longrightarrow> record_ok r" "q = Some r"
  then have r: "record_ok r" by blast
  let ?s = "from_record r (nd_identity self) (synapse_config self)"
  have s: "weight_ok ?s" using from_record_weight_ok [OF sane r] by (simp add: cfg)
  then have "record_ok (to_record (reformed ?s (synapse_config self) now))" "record_ok (to_record (reactivate ?s (synapse_config self)))"
    using sc by (auto intro!: to_record_ok simp: reformed_def activate_def reactivate_def weight_ok_def cfg)
  moreover have "safe (inv c me t s0) (\<lambda>e. \<exists>k. e = Err (InvalidSignal (InCooldown p k)))
      (op_fail (Err (InvalidSignal (InCooldown p k)))) record_ok" for k
    by (simp add: safe_def)
  ultimately show "safe (inv c me t s0) (\<lambda>e. \<exists>k. e = Err (InvalidSignal (InCooldown p k)))
    (let synapse = ?s in
      if sr_state r = Pruned
      then let until = cooldown_until (learning self) r in
        if now < until then op_fail (Err (InvalidSignal (InCooldown p ((until - now) div 1000000000))))
        else put_back api (to_record (reformed synapse (synapse_config self) now))
      else if sr_state r = Dormant then put_back api (to_record (reactivate synapse (synapse_config self)))
      else op_ret r) record_ok"
    unfolding Let_def using r by (intro safe_if safe_put_back safe_ret)
qed

lemma safe_gate: "safe (inv c me t s0) E (with_gate f) (\<lambda>_. True)"
  by (auto simp: safe_def ends_def with_gate_def node_inv_def split: prod.split)

lemma safe_purge: "safe (inv c me t s0) E (store_op (st_purge_expired_seen api t)) (\<lambda>_. True)"
proof (rule safe_store)
  fix n assume i: "inv c me t s0 n"
  then have "healthy (nd_store n)" by (simp add: node_inv_def)
  from purge_law [OF this, of t] obtain k m where m: "st_purge_expired_seen api t (nd_store n) = (Inr k, m)" "healthy m"
    "table m = table (nd_store n)" "journal m = journal (nd_store n)"
    "\<forall>sg u. t \<le> u \<longrightarrow> seen_live (seen m) sg u = seen_live (seen (nd_store n)) sg u" by blast
  then show "\<exists>x m. st_purge_expired_seen api t (nd_store n) = (Inr x, m) \<and> inv c me t s0 (n\<lparr>nd_store := m\<rparr>) \<and> True"
    using inv_store_same [OF i m(2) seen_ext_purge] by blast
qed

lemma safe_checkpoint: "safe (inv c me t s0) E (checkpoint en t) (\<lambda>_. True)"
proof -
  have keep: "safe (inv c me t s0) E (store_op (st_save_activation api sn)) (\<lambda>_. True)"
    "safe (inv c me t s0) E (store_op (st_flush api)) (\<lambda>_. True)" for sn
    by (rule safe_kept, rule save_kept, assumption) (rule safe_kept, rule flush_kept)
  show ?thesis unfolding checkpoint_def env
    by (intro safe_bind [OF safe_gate] safe_bind [OF keep(1)] safe_bind [OF safe_purge] keep(2))
qed

lemma safe_health: "safe (inv c me t s0) E (learning_health en k) (\<lambda>h. \<exists>es. h = health_of es)"
  unfolding learning_health_def env
proof (intro safe_bind [where R = "\<lambda>_. True"] safe_ret safe_query)
  fix n assume "inv c me t s0 n"
  then have "healthy (nd_store n)" by (simp add: node_inv_def)
  from recent_law [OF this, of None k]
  show "\<exists>x. st_recent_decisions api None k (nd_store n) = (Inr x, nd_store n) \<and> True" by blast
qed blast

end

section \<open>Runs of a node\<close>

text \<open>
  What the runtime asks of a node, with the clock reading of each call, and how the node
  answers. A stopped operation is reported to the caller, who goes on.
\<close>

datatype 'p node_event =
    Emit "'p SignalBuilder" u64 u64 u64
  | ReceiveLocal "'p Signal" u64
  | Arrive "'p Signal" "SynapseId option" u64
  | Release "'p Signal" "SynapseId option" u64
  | FailForward JournalId u64
  | GetReceipt Receipt NodeId u64
  | Sweep nat u64
  | Penalize SynapseId u64
  | Connect NodeId u64
  | PollGate u64
  | Checkpoint u64
  | Health nat u64

fun node_time :: "'p node_event \<Rightarrow> u64" where
  "node_time (Emit b now t1 t2) = now"
| "node_time (ReceiveLocal sig now) = now"
| "node_time (Arrive sig a now) = now"
| "node_time (Release sig a now) = now"
| "node_time (FailForward i now) = now"
| "node_time (GetReceipt rc p now) = now"
| "node_time (Sweep k now) = now"
| "node_time (Penalize i now) = now"
| "node_time (Connect p now) = now"
| "node_time (PollGate now) = now"
| "node_time (Checkpoint now) = now"
| "node_time (Health k now) = now"

datatype 'p answer = Sent "'p Signal" | Decided Disposition | Answered

definition answer_with :: "('a \<Rightarrow> 'p answer) \<Rightarrow> ('n, 'e, 'a) op \<Rightarrow> ('n, 'e, 'p answer) op" where
  "answer_with k f = op_bind f (\<lambda>x. op_ret (k x))"

fun node_step :: "('m, 's) NodeEnv \<Rightarrow> 'p node_event \<Rightarrow> ('m, 's, 'p answer) node_op" where
  "node_step en (Emit b now t1 t2) = answer_with Sent (emit en b now t1 t2)"
| "node_step en (ReceiveLocal sig now) = answer_with Decided (receive_local en sig now)"
| "node_step en (Arrive sig a now) = answer_with Decided (receive en sig a now)"
| "node_step en (Release sig a now) = answer_with (\<lambda>_. Answered) (plan_release en sig a now)"
| "node_step en (FailForward i now) = answer_with (\<lambda>_. Answered) (fail_forward en i now)"
| "node_step en (GetReceipt rc p now) = answer_with (\<lambda>_. Answered) (apply_receipt en rc p now)"
| "node_step en (Sweep k now) = answer_with (\<lambda>_. Answered) (sweep_timeouts en k now)"
| "node_step en (Penalize i now) = answer_with (\<lambda>_. Answered) (penalize_signature_failure en i now)"
| "node_step en (Connect p now) = answer_with (\<lambda>_. Answered) (upsert_synapse en p now)"
| "node_step en (PollGate now) = answer_with (\<lambda>_. Answered) (poll_activation now)"
| "node_step en (Checkpoint now) = answer_with (\<lambda>_. Answered) (checkpoint en now)"
| "node_step en (Health k now) = answer_with (\<lambda>_. Answered) (learning_health en k)"

fun node_run :: "('m, 's) NodeEnv \<Rightarrow> 'p node_event list \<Rightarrow> ('m, 's) Node \<Rightarrow> (stop + 'p answer) list \<times> ('m, 's) Node" where
  "node_run en [] n = ([], n)"
| "node_run en (ev # evs) n = (let (r, n1) = node_step en ev n; (rs, n2) = node_run en evs n1 in (r # rs, n2))"

text \<open>The callers hand the node signals whose weight is a number.\<close>

fun event_ok :: "'p node_event \<Rightarrow> bool" where
  "event_ok (ReceiveLocal sig now) \<longleftrightarrow> \<not> fl_is_nan (sg_weight sig)"
| "event_ok (Arrive sig a now) \<longleftrightarrow> \<not> fl_is_nan (sg_weight sig)"
| "event_ok (Release sig a now) \<longleftrightarrow> \<not> fl_is_nan (sg_weight sig)"
| "event_ok _ \<longleftrightarrow> True"

definition step_stop :: "'p node_event \<Rightarrow> stop \<Rightarrow> bool" where
  "step_stop ev e \<longleftrightarrow> (\<exists>p now k. ev = Connect p now \<and> e = Err (InvalidSignal (InCooldown p k)))"

context node_host
begin

lemma safe_step:
  assumes sane: "config_sane c" and ok: "event_ok ev"
  shows "safe (inv c me (node_time ev) s0) (step_stop ev) (node_step en ev) (\<lambda>_. True)"
proof -
  have ans: "safe I E f R \<Longrightarrow> safe I E (answer_with k f) (\<lambda>_. True)"
    for I :: "('m, 's) Node \<Rightarrow> bool" and E and f :: "('m, 's, 'x) node_op" and R and k :: "'x \<Rightarrow> 'y answer"
    unfolding answer_with_def by (rule safe_bind) (simp_all add: safe_ret)
  show ?thesis
    using ok
    by (cases ev) (auto simp: plan_release_def poll_activation_def step_stop_def
      intro!: ans [OF safe_emit] ans [OF safe_receive_local] ans [OF safe_receive] ans [OF safe_plan_forwarding]
        ans [OF safe_fail_forward [OF sane]] ans [OF safe_apply_receipt [OF sane]] ans [OF safe_sweep [OF sane]]
        ans [OF safe_penalize [OF sane]] ans [OF safe_gate] ans [OF safe_checkpoint] ans [OF safe_health]
        ans [OF safe_weaken_stop [OF safe_upsert [OF sane]]])
qed

end

end
