(* ===== verification/Node_Run.thy ===== *)
theory Node_Run
  imports Node_Safety
begin

text \<open>
  What a node promises over a run of requests, whatever contract-keeping store is behind it:
  it never stops unexpectedly, it handles no signal twice inside its window, it accounts for
  every signal it was given, and it learns from every decision once.
\<close>

section \<open>Never stopping\<close>

context node_host
begin

abbreviation ok :: "NodeConfig \<Rightarrow> NodeId \<Rightarrow> ('m, 's) Node \<Rightarrow> bool" where
  "ok \<equiv> node_ok healthy table journal"

lemma inv_start: "ok c me n \<Longrightarrow> inv c me t (seen (nd_store n)) n"
  by (simp add: node_inv_iff)

text \<open>One request: the node is still sound, windows stay open, and it stops only in a cooldown.\<close>

lemma step_ok:
  assumes "config_sane c" "event_ok ev" "ok c me n" "node_step en ev n = (r, n')"
  shows "ok c me n'" "seen_ext (node_time ev) (seen (nd_store n)) (seen (nd_store n'))"
    "\<forall>e. r = Inl e \<longrightarrow> step_stop ev e"
  using safe_run [OF safe_step [OF assms(1,2)] inv_start [OF assms(3)] assms(4)] by (simp_all add: node_inv_iff)

lemma run_ok:
  assumes "config_sane c" "\<forall>ev \<in> set evs. event_ok ev" "ok c me n" "node_run en evs n = (rs, n')"
  shows "ok c me n'" "list_all2 (\<lambda>ev r. \<forall>e. r = Inl e \<longrightarrow> step_stop ev e) evs rs"
proof -
  have "ok c me n' \<and> list_all2 (\<lambda>ev r. \<forall>e. r = Inl e \<longrightarrow> step_stop ev e) evs rs"
    using assms(2-4)
  proof (induction evs arbitrary: n rs)
    case (Cons ev evs)
    obtain r n1 where st: "node_step en ev n = (r, n1)" by fastforce
    obtain rs1 where run: "node_run en evs n1 = (rs1, n')" "rs = r # rs1"
      using Cons.prems(3) st by (auto split: prod.splits)
    have "event_ok ev" using Cons.prems(1) by simp
    note s = step_ok [OF assms(1) this Cons.prems(2) st]
    show ?case using Cons.IH [OF _ s(1) run(1)] Cons.prems(1) s(3) run(2) by simp
  qed simp
  then show "ok c me n'" "list_all2 (\<lambda>ev r. \<forall>e. r = Inl e \<longrightarrow> step_stop ev e) evs rs" by auto
qed

end

section \<open>Accounting for an arrival\<close>

text \<open>The operations that leave the gate alone, whatever the store does.\<close>

abbreviation gate_is :: "ActivationState \<Rightarrow> ('m, 's) Node \<Rightarrow> bool" where
  "gate_is g n \<equiv> nd_activation n = g"

lemma gate_store: "safe (gate_is g) (\<lambda>_. True) (store_op f) (\<lambda>_. True)"
  by (auto simp: safe_def ends_def store_op_def split: sum.splits prod.splits)

lemma gate_rng: "safe (gate_is g) (\<lambda>_. True) (with_rng f) (\<lambda>_. True)"
  by (auto simp: safe_def ends_def with_rng_def split: option.splits)

lemma gate_journal: "safe (gate_is g) (\<lambda>_. True) (journal_choices api sig now cs out) (\<lambda>_. True)"
  by (induction cs arbitrary: out) (auto intro!: safe_ret safe_bind [OF gate_store])

lemma gate_plan: "safe (gate_is g) (\<lambda>_. True) (plan_forwarding en sig arrival now) (\<lambda>_. True)"
  unfolding plan_forwarding_def
  by (intro safe_if safe_ret safe_bind [OF gate_store] safe_self safe_bind [OF gate_rng] gate_journal TrueI)

lemma gate_arrival: "safe (gate_is g) (\<lambda>_. True) (arrival_weight api arrival) (\<lambda>_. True)"
  by (auto simp: safe_def ends_def arrival_weight_def split: option.splits sum.splits prod.splits)

text \<open>
  What a disposition says of the arrival itself. It is refused, and then neither forwarded,
  queued nor handled, with a receipt exactly when its class asks for one; or it waits in
  the queue; or it is handled here, and then an acknowledged one goes somewhere.
\<close>

definition handled :: "'p Signal \<Rightarrow> Disposition \<Rightarrow> bool" where
  "handled sig d \<longleftrightarrow> (\<exists>q \<in> set (dp_handle_locally d). qs_id q = sg_id sig)"

definition accounted :: "'p Signal \<Rightarrow> Disposition \<Rightarrow> bool" where
  "accounted sig d \<longleftrightarrow> (case dp_rejected d of
     Some reason \<Rightarrow> dp_forward_to d = [] \<and> \<not> dp_queued d \<and> \<not> handled sig d \<and>
       dp_receipt d = (if signal_requires_receipt sig then Some (receipt_rejected (sg_id sig) reason (hops_of sig)) else None)
   | None \<Rightarrow> dp_receipt d = None \<and> (dp_queued d \<longleftrightarrow> \<not> handled sig d) \<and> (dp_forward_to d \<noteq> [] \<longrightarrow> handled sig d) \<and>
       (handled sig d \<and> signal_requires_receipt sig \<longrightarrow> dp_forward_to d \<noteq> []))"

text \<open>What it says of everything the gate held.\<close>

definition balanced :: "'p Signal \<Rightarrow> u64 \<Rightarrow> QueuedSignal list \<Rightarrow> Disposition \<Rightarrow> QueuedSignal list \<Rightarrow> bool" where
  "balanced sig now queue d queue' \<longleftrightarrow>
     mset queue' + mset (dp_handle_locally d) + opt_mset (map_option ev_signal (dp_evicted d)) =
     mset queue + (if d = nothing \<or> dp_rejected d \<noteq> None then {#} else {#queued_of sig now#})"

lemma accounted_not_nothing: "accounted sig d \<Longrightarrow> d \<noteq> nothing"
  by (auto simp: accounted_def nothing_def handled_def)

lemma refuse_simps [simp]:
  "dp_forward_to (refuse sig r h) = []" "dp_handle_locally (refuse sig r h) = []" "dp_rejected (refuse sig r h) = Some r"
  "dp_evicted (refuse sig r h) = None" "\<not> dp_queued (refuse sig r h)"
  "dp_receipt (refuse sig r h) = (if signal_requires_receipt sig then Some (receipt_rejected (sg_id sig) r h) else None)"
  by (simp_all add: refuse_def)

lemma queued_id [simp]: "qs_id (queued_of sig now) = sg_id sig"
  by (simp add: queued_of_def)

lemma without_absent: "\<forall>q \<in> set xs. qs_id q \<noteq> i \<Longrightarrow> without xs i = xs"
  by (simp add: without_def)

lemma not_handled_without [simp]: "\<not> handled sig (d\<lparr>dp_handle_locally := without xs (sg_id sig)\<rparr>)"
  "\<not> handled sig (d\<lparr>dp_handle_locally := without xs (sg_id sig), dp_evicted := e\<rparr>)"
  by (auto simp: handled_def without_def)

text \<open>Removing the arrival from a batch it is in once.\<close>

lemma without_mset:
  assumes "mset xs + M = N + {#q#}" "qs_id q = i" "\<forall>x \<in># N. qs_id x \<noteq> i" "x \<in> set xs" "qs_id x = i"
  shows "mset (without xs i) + M = N"
proof -
  have sub: "x \<in># N + {#q#}" using assms(1,4) by (metis in_multiset_in_set union_iff)
  then have xq: "x = q" using assms(3,5) by auto
  obtain ys zs where xs: "xs = ys @ q # zs" using assms(4) xq by (auto simp: in_set_conv_decomp)
  have eq: "mset ys + mset zs + M = N" using assms(1) by (simp add: xs)
  then have "\<forall>y \<in> set ys \<union> set zs. qs_id y \<noteq> i" using assms(3) by auto
  then have "without xs i = ys @ zs" using assms(2) by (simp add: xs without_def)
  then show ?thesis using eq by simp
qed

lemma balanced_refusal:
  assumes eq: "mset fired + (mset q' + opt_mset (map_option ev_signal ev)) = mset q + {#queued_of sig now#}"
    and fresh: "\<forall>x \<in> set q. qs_id x \<noteq> sg_id sig" and here: "x \<in> set fired" "qs_id x = sg_id sig"
    and d: "dp_handle_locally d = without fired (sg_id sig)" "dp_evicted d = ev" "dp_rejected d \<noteq> None"
  shows "balanced sig now q d q'"
  using without_mset [OF eq queued_id _ here] fresh d(3) unfolding balanced_def d(1,2) by (simp add: ac_simps)

lemma dispose_accounts:
  assumes run: "dispose en sig arrival now fired ev n = (Inr d, n')"
    and eq: "mset fired + (mset (as_queue (nd_activation n)) + opt_mset (map_option ev_signal ev)) = mset q + {#queued_of sig now#}"
    and fresh: "\<forall>x \<in> set q. qs_id x \<noteq> sg_id sig"
  shows "accounted sig d" "balanced sig now q d (as_queue (nd_activation n'))"
proof -
  let ?here = "list_ex (\<lambda>x. qs_id x = sg_id sig) fired"
  obtain fwd n1 where f: "(if ?here then plan_forwarding en sig arrival now else op_ret []) n = (Inr fwd, n1)"
    and last: "(if ?here \<and> fwd = [] \<and> signal_requires_receipt sig
        then op_ret ((refuse sig NoRoute (hops_of sig))\<lparr>dp_handle_locally := without fired (sg_id sig), dp_evicted := ev\<rparr>)
        else op_ret \<lparr>dp_forward_to = fwd, dp_handle_locally = fired, dp_receipt = None, dp_rejected = None,
          dp_evicted = ev, dp_queued = (\<not> ?here)\<rparr>) n1 = (Inr d :: stop + Disposition, n')"
    using run unfolding dispose_def Let_def op_bind_Inr by blast
  have "nd_activation n1 = nd_activation n"
    using f safe_run(1) [OF gate_plan refl, of en sig arrival now n] by (auto split: if_splits)
  then have q': "as_queue (nd_activation n') = as_queue (nd_activation n)" using last by (auto split: if_splits)
  have here: "?here \<longleftrightarrow> (\<exists>x \<in> set fired. qs_id x = sg_id sig)" by (simp add: list_ex_iff)
  have fwd: "fwd = []" if "\<not> ?here" using f that by simp
  show "accounted sig d"
    using last fwd here by (auto simp: accounted_def handled_def without_def split: if_splits)
  show "balanced sig now q d (as_queue (nd_activation n'))"
  proof (cases "?here \<and> fwd = [] \<and> signal_requires_receipt sig")
    case True
    then obtain x where "x \<in> set fired" "qs_id x = sg_id sig" using here by blast
    then show ?thesis
      by (rule balanced_refusal [OF eq fresh, folded q']) (use last True in auto)
  next
    case False
    then have d: "d = \<lparr>dp_forward_to = fwd, dp_handle_locally = fired, dp_receipt = None, dp_rejected = None,
          dp_evicted = ev, dp_queued = (\<not> ?here)\<rparr>" using last by auto
    then have "d \<noteq> nothing" using here by (auto simp: nothing_def)
    then show ?thesis using eq q' by (simp add: balanced_def d ac_simps)
  qed
qed

lemma admit_op_accounts:
  assumes "admit_op en sig w now n = (Inr a, n')"
  shows "mset (ao_fired a) + (mset (as_queue (nd_activation n')) + opt_mset (ao_dropped a)) =
      mset (as_queue (nd_activation n)) + {#sig#}"
proof -
  obtain g s where adm: "admit (en_libm en) (nd_activation n) sig w now (en_next en) (nd_rng n) = (a, g, s)"
    "n' = n\<lparr>nd_rng := s, nd_activation := g\<rparr>"
    using assms by (auto simp: admit_op_def split: if_splits prod.splits)
  then have "gate_event_step (en_libm en) (en_next en) (Offer sig w now) (nd_activation n) (nd_rng n) =
      (ao_fired a, (case ao_dropped a of None \<Rightarrow> [] | Some d \<Rightarrow> [d]), g, s)" by simp
  from gate_event_conserves(1) [OF this] show ?thesis
    by (cases "ao_dropped a") (simp_all add: adm(2) ac_simps)
qed

lemma receive_fresh_accounts:
  assumes run: "receive_fresh en me sig arrival now n = (Inr d, n')"
    and fresh: "\<forall>x \<in> set (as_queue (nd_activation n)). qs_id x \<noteq> sg_id sig"
  shows "accounted sig d" "balanced sig now (as_queue (nd_activation n)) d (as_queue (nd_activation n'))"
proof -
  let ?q = "as_queue (nd_activation n)"
  have "accounted sig d \<and> balanced sig now ?q d (as_queue (nd_activation n'))"
  proof (cases "check_propagable sig (nd_identity me) (propagation me)")
    case (Inl reason)
    then have "d = refuse sig reason (hops_of sig)" "n' = n" using run by (simp_all add: receive_fresh_def)
    then show ?thesis by (simp add: accounted_def handled_def balanced_def)
  next
    case (Inr u)
    obtain w n1 a n2 where w: "arrival_weight (en_api en) arrival n = (Inr w :: stop + flt, n1)"
      and a: "admit_op en (queued_of sig now) w now n1 = (Inr a, n2)"
      and rest: "(case ao_dropped a of None \<Rightarrow> dispose en sig arrival now (ao_fired a) None
        | Some dropped \<Rightarrow> (let reason = (case ao_drop_reason a of Some r \<Rightarrow> r | None \<Rightarrow> QueueFull)
            in if qs_id dropped = sg_id sig
               then op_ret ((refuse sig reason (hops_of sig))\<lparr>dp_handle_locally := without (ao_fired a) (sg_id sig)\<rparr>)
               else dispose en sig arrival now (ao_fired a) (Some \<lparr>ev_signal = dropped, ev_reason = reason\<rparr>))) n2 =
          (Inr d, n')"
      using run unfolding receive_fresh_def Inr sum.case op_bind_Inr by blast
    have n1: "nd_activation n1 = nd_activation n" using safe_run(1) [OF gate_arrival refl w] .
    note eq = admit_op_accounts [OF a, unfolded n1]
    show ?thesis
    proof (cases "ao_dropped a")
      case None
      then have "dispose en sig arrival now (ao_fired a) None n2 = (Inr d, n')" using rest by simp
      from dispose_accounts [OF this _ fresh] eq None show ?thesis by simp
    next
      case (Some dropped)
      define reason where "reason = (case ao_drop_reason a of Some r \<Rightarrow> r | None \<Rightarrow> QueueFull)"
      show ?thesis
      proof (cases "qs_id dropped = sg_id sig")
        case True
        then have d: "d = (refuse sig reason (hops_of sig))\<lparr>dp_handle_locally := without (ao_fired a) (sg_id sig)\<rparr>" "n' = n2"
          using rest Some by (simp_all add: reason_def Let_def)
        have in': "dropped \<in># mset ?q + {#queued_of sig now#}" using eq Some by (metis option.simps(5) union_iff union_single_eq_member)
        then have q: "dropped = queued_of sig now" using fresh True by auto
        then have "mset (ao_fired a) + mset (as_queue (nd_activation n2)) = mset ?q" using eq Some by simp
        moreover from this have "\<forall>x \<in> set (ao_fired a). qs_id x \<noteq> sg_id sig"
          using fresh by (metis in_multiset_in_set union_iff)
        ultimately show ?thesis
          using without_absent [of "ao_fired a" "sg_id sig"] by (simp add: d accounted_def balanced_def handled_def ac_simps)
      next
        case False
        then have "dispose en sig arrival now (ao_fired a) (Some \<lparr>ev_signal = dropped, ev_reason = reason\<rparr>) n2 = (Inr d, n')"
          using rest Some by (simp add: reason_def Let_def)
        from dispose_accounts [OF this _ fresh] eq Some show ?thesis by simp
      qed
    qed
  qed
  then show "accounted sig d" "balanced sig now ?q d (as_queue (nd_activation n'))" by blast+
qed

lemma receive_cases:
  assumes "receive en sig arrival now n = (Inr d, n')"
  obtains (duplicate) m where "st_check_and_set_seen (en_api en) (sg_id sig) now (pc_dedup_cache_seconds (propagation n)) (nd_store n) = (Inr True, m)"
      "d = nothing" "n' = n\<lparr>nd_store := m\<rparr>"
  | (fresh) m where "st_check_and_set_seen (en_api en) (sg_id sig) now (pc_dedup_cache_seconds (propagation n)) (nd_store n) = (Inr False, m)"
      "receive_fresh en n sig arrival now (n\<lparr>nd_store := m\<rparr>) = (Inr d, n')"
  using assms
  by (auto simp: receive_def self_def op_bind_def store_op_def split: sum.splits prod.splits if_splits)


section \<open>Deduplication\<close>

context node_host
begin

lemma receive_duplicate:
  assumes "healthy (nd_store n)" "seen_live (seen (nd_store n)) (sg_id sig) now"
  shows "\<exists>m. receive en sig arrival now n = (Inr nothing, n\<lparr>nd_store := m\<rparr>) \<and> healthy m \<and> seen m = seen (nd_store n) \<and>
    table m = table (nd_store n) \<and> journal m = journal (nd_store n)"
proof -
  obtain m where m: "st_check_and_set_seen api (sg_id sig) now (pc_dedup_cache_seconds (propagation n)) (nd_store n) = (Inr True, m)"
    "healthy m" "seen m = seen (nd_store n)"
    using check_and_set [OF assms(1), of "sg_id sig" now "pc_dedup_cache_seconds (propagation n)"] assms(2) by auto
  then have "receive en sig arrival now n = (Inr nothing, n\<lparr>nd_store := m\<rparr>)"
    by (simp add: receive_def self_def op_bind_def store_op_def env)
  then show ?thesis using m check_frame [OF assms(1) m(1)] by blast
qed

text \<open>A first arrival leaves its window open, and its disposition is never the empty one.\<close>

lemma receive_claims:
  assumes ok: "ok c me n" and w: "\<not> fl_is_nan (sg_weight sig)"
    and run: "receive en sig arrival now n = (Inr d, n')" and new: "\<not> seen_live (seen (nd_store n)) (sg_id sig) now"
  shows "seen_through (seen (nd_store n')) (sg_id sig) now (seen_expiry now (pc_dedup_cache_seconds (nc_propagation c)))"
proof -
  have h: "healthy (nd_store n)" and c: "nd_config n = c" using ok by (simp_all add: node_ok_def)
  obtain m where m: "st_check_and_set_seen api (sg_id sig) now (pc_dedup_cache_seconds (nc_propagation c)) (nd_store n) = (Inr False, m)"
    "healthy m" "seen m = (seen (nd_store n))(sg_id sig \<mapsto> seen_expiry now (pc_dedup_cache_seconds (nc_propagation c)))"
    using check_and_set [OF h, of "sg_id sig" now "pc_dedup_cache_seconds (nc_propagation c)"] new by auto
  have fresh: "receive_fresh en n sig arrival now (n\<lparr>nd_store := m\<rparr>) = (Inr d, n')"
    using run m(1) by (simp add: receive_def self_def op_bind_def store_op_def env c)
  have "ok c me (n\<lparr>nd_store := m\<rparr>)" using ok m(2) check_frame [OF h m(1)] by (simp add: node_ok_def)
  then have "inv c me now (seen m) (n\<lparr>nd_store := m\<rparr>)" by (simp add: node_inv_iff)
  from safe_run(1) [OF safe_receive_fresh [OF w] this fresh] have "seen_ext now (seen m) (seen (nd_store n'))"
    by (simp add: node_inv_iff)
  moreover have "seen_through (seen m) (sg_id sig) now (seen_expiry now (pc_dedup_cache_seconds (nc_propagation c)))"
    by (simp add: m(3) seen_through_def seen_live_def)
  ultimately show ?thesis by (simp add: seen_ext_def)
qed

lemma emit_claims:
  assumes ok: "ok c me n" and run: "emit en b now t1 t2 n = (Inr sig, n')"
    and new: "\<not> seen_live (seen (nd_store n)) (sg_id sig) now"
  shows "seen_through (seen (nd_store n')) (sg_id sig) now (seen_expiry now (pc_dedup_cache_seconds (nc_propagation c)))"
proof -
  have h: "healthy (nd_store n)" and c: "nd_config n = c" using ok by (simp_all add: node_ok_def)
  obtain g s1 where b: "build_unsigned_with (en_ulid en) b me t1 t2 (en_next en) (nd_rng n) = (g, s1)" by fastforce
  have eq: "emit en b now t1 t2 n = op_bind (store_op (st_check_and_set_seen api (sg_id g) now
      (pc_dedup_cache_seconds (nc_propagation c)))) (\<lambda>_. op_ret g) (n\<lparr>nd_rng := s1\<rparr>)"
    using ok by (simp add: emit_def op_bind_def self_def with_rng_def env c b node_ok_def)
  obtain u where u: "store_op (st_check_and_set_seen api (sg_id g) now (pc_dedup_cache_seconds (nc_propagation c)))
      (n\<lparr>nd_rng := s1\<rparr>) = (Inr u :: stop + bool, n')" "g = sig"
    using run [unfolded eq op_bind_Inr] by auto
  have "seen (nd_store n') = (seen (nd_store n))(sg_id sig \<mapsto> seen_expiry now (pc_dedup_cache_seconds (nc_propagation c)))"
    using check_and_set [OF h, of "sg_id sig" now "pc_dedup_cache_seconds (nc_propagation c)"] new u
    by (auto simp: store_op_def)
  then show ?thesis by (simp add: seen_through_def seen_live_def)
qed

text \<open>An open window stays open through every later request, so a duplicate is dropped.\<close>

lemma run_duplicate:
  assumes sane: "config_sane c" and ok: "ok c me n" "\<forall>ev \<in> set evs. event_ok ev"
    and open_window: "seen_through (seen (nd_store n)) i now e"
    and time: "\<forall>ev \<in> set evs. now \<le> node_time ev" "sorted (map node_time evs)"
    and run: "node_run en evs n = (rs, n')" and k: "k < length evs" "evs ! k = Arrive sig a t" "sg_id sig = i" "t < e"
  shows "rs ! k = Inr (Decided nothing)"
  using ok open_window time run k
proof (induction evs arbitrary: n now rs k)
  case (Cons ev evs)
  obtain r n1 where st: "node_step en ev n = (r, n1)" by fastforce
  obtain rs1 where run: "node_run en evs n1 = (rs1, n')" "rs = r # rs1"
    using Cons.prems(6) st by (auto split: prod.splits)
  show ?case
  proof (cases k)
    case 0
    then have ev: "ev = Arrive sig a t" using Cons.prems(8) by simp
    have "now \<le> t" using Cons.prems(4) ev by simp
    then have "seen_live (seen (nd_store n)) (sg_id sig) t"
      using Cons.prems(3,9,10) by (simp add: seen_through_def)
    then obtain m where "receive en sig a t n = (Inr nothing, n\<lparr>nd_store := m\<rparr>)"
      using receive_duplicate [of n sig t a] Cons.prems(1) by (auto simp: node_ok_def)
    then show ?thesis using st run(2) 0 ev by (auto simp: answer_with_def op_bind_def)
  next
    case (Suc k')
    have "event_ok ev" using Cons.prems(2) by simp
    note s = step_ok [OF sane this Cons.prems(1) st]
    have "seen_through (seen (nd_store n)) i (node_time ev) e"
      using Cons.prems(3,4) by (auto simp: seen_through_def intro: order.trans)
    then have "seen_through (seen (nd_store n1)) i (node_time ev) e" using s(2) by (simp add: seen_ext_def)
    then show ?thesis
      using Cons.IH [OF s(1) _ _ _ _ run(1), of "node_time ev" k'] Cons.prems Suc run(2) by simp
  qed
qed simp

end

text \<open>Where a run stands at its \<open>j\<close>-th request.\<close>

lemma run_split:
  assumes "node_run en evs n = (rs, n')" "j < length evs"
  obtains n1 n2 where "node_run en (take j evs) n = (take j rs, n1)" "node_step en (evs ! j) n1 = (rs ! j, n2)"
    "node_run en (drop (Suc j) evs) n2 = (drop (Suc j) rs, n')"
  using assms
proof (induction evs arbitrary: n rs j thesis)
  case (Cons ev evs)
  obtain r m where st: "node_step en ev n = (r, m)" by fastforce
  obtain rs1 where run: "node_run en evs m = (rs1, n')" "rs = r # rs1"
    using Cons.prems(2) st by (auto split: prod.splits)
  show ?case
  proof (cases j)
    case 0
    then show ?thesis using Cons.prems(1) [of n m] st run by simp
  next
    case (Suc i)
    then have "i < length evs" using Cons.prems(3) by simp
    from Cons.IH [OF _ run(1) this] obtain n1 n2 where "node_run en (take i evs) m = (take i rs1, n1)"
      "node_step en (evs ! i) n1 = (rs1 ! i, n2)" "node_run en (drop (Suc i) evs) n2 = (drop (Suc i) rs1, n')" by blast
    then show ?thesis using Cons.prems(1) [of n1 n2] Suc st run(2) by simp
  qed
qed simp

lemma sorted_drop_bound:
  assumes "sorted (map f xs)" "j < length xs" "x \<in> set (drop (Suc j) xs)"
  shows "f (xs ! j) \<le> f x"
proof -
  obtain i where "i < length xs - Suc j" "x = xs ! (Suc j + i)" using assms(3) by (auto simp: in_set_conv_nth)
  then show ?thesis using sorted_nth_mono [OF assms(1), of j "Suc j + i"] by simp
qed

context node_host
begin

lemma run_no_second:
  assumes sane: "config_sane c" and ok: "ok c me n" "\<forall>ev \<in> set evs. event_ok ev"
    and time: "sorted (map node_time evs)" and run: "node_run en evs n = (rs, n')" and jk: "j < k" "k < length evs"
    and first: "evs ! j = Arrive sig a t" "rs ! j = Inr (Decided d)" "d \<noteq> nothing"
    and second: "evs ! k = Arrive sig' a' t'" "sg_id sig' = sg_id sig"
    and window: "t' < seen_expiry t (pc_dedup_cache_seconds (nc_propagation c))"
  shows "rs ! k = Inr (Decided nothing)"
proof -
  have j: "j < length evs" using jk by simp
  obtain n1 n2 where r: "node_run en (take j evs) n = (take j rs, n1)" "node_step en (evs ! j) n1 = (rs ! j, n2)"
    "node_run en (drop (Suc j) evs) n2 = (drop (Suc j) rs, n')" by (rule run_split [OF run j])
  have "\<forall>ev \<in> set (take j evs). event_ok ev" using ok(2) by (meson in_set_takeD)
  from run_ok(1) [OF sane this ok(1) r(1)] have ok1: "ok c me n1" .
  have evj: "event_ok (evs ! j)" using ok(2) j by simp
  then have w: "\<not> fl_is_nan (sg_weight sig)" using first(1) by simp
  have rec: "receive en sig a t n1 = (Inr d, n2)"
    using r(2) first(1,2) by (auto simp: answer_with_def op_bind_Inr)
  have "\<not> seen_live (seen (nd_store n1)) (sg_id sig) t"
    using receive_duplicate [of n1 sig t a] ok1 rec first(3) by (auto simp: node_ok_def)
  from receive_claims [OF ok1 w rec this]
  have op: "seen_through (seen (nd_store n2)) (sg_id sig) t (seen_expiry t (pc_dedup_cache_seconds (nc_propagation c)))" .
  have ok2: "ok c me n2" by (rule step_ok(1) [OF sane evj ok1 r(2)])
  have late: "\<forall>ev \<in> set (drop (Suc j) evs). t \<le> node_time ev"
    using sorted_drop_bound [OF time j] first(1) by auto
  have "drop (Suc j) rs ! (k - Suc j) = Inr (Decided nothing)"
    by (rule run_duplicate [OF sane ok2 _ op late _ r(3), where sig = sig' and a = a' and t = t'])
      (use ok(2) time jk second window in \<open>auto simp: drop_map [symmetric] sorted_wrt_drop dest: in_set_dropD\<close>)
  moreover have "length rs = length evs" using run_ok(2) [OF sane ok(2,1) run] by (simp add: list_all2_lengthD)
  ultimately show ?thesis using jk by simp
qed

end

section \<open>The node over the in-memory store\<close>

definition memory_env :: "libm \<Rightarrow> ulid_api \<Rightarrow> (MemoryStore, SplitMix64) NodeEnv" where
  "memory_env lm ul = \<lparr>en_api = memory_api, en_next = splitmix_next, en_libm = lm, en_ulid = ul\<rparr>"

interpretation mem_host: node_host memory_api mem_ok mem_seen mem_table ms_journal "memory_env lm ul"
  for lm :: libm and ul :: ulid_api
proof
  show "\<exists>out s'. select_synapses (en_libm (memory_env lm ul)) ss scope ty arrival pc lc now (en_next (memory_env lm ul)) s = Some (out, s')"
    for ss scope ty arrival pc lc now s
    using select_synapses_total [of lm ss scope ty arrival pc lc now s] by (auto simp: memory_env_def)
qed (simp add: memory_env_def)

text \<open>Concrete surroundings: identifiers laid out as ULIDs are, the deployment defaults of
  an edge node, an empty store.\<close>

definition sample_ulid :: ulid_api where
  "sample_ulid = \<lparr>ulid_from_parts = (\<lambda>ms bits. push_bit 80 (ucast ms) OR take_bit 80 bits),
     ulid_timestamp_ms = (\<lambda>i. ucast (drop_bit 80 i)),
     ulid_to_bytes = (\<lambda>i. map (\<lambda>k. ucast (drop_bit (8 * (15 - k)) i)) [0..<16]),
     ulid_from_bytes = (\<lambda>bs. foldl (\<lambda>acc b. 256 * acc + ucast b) 0 bs),
     ulid_from_string = (\<lambda>t. Some (foldl (\<lambda>acc b. 256 * acc + of_nat (of_char b)) 0 t)),
     ulid_to_text = (\<lambda>i. map (\<lambda>k. char_of (unat (drop_bit (8 * (15 - k)) i) mod 256)) [0..<16])\<rparr>"

abbreviation sample_env :: "(MemoryStore, SplitMix64) NodeEnv" where
  "sample_env \<equiv> memory_env sample_libm sample_ulid"

definition sample_node :: "(MemoryStore, SplitMix64) Node" where
  "sample_node = \<lparr>nd_identity = [1], nd_config = config_for_class True DcEdge, nd_store = memory_new,
     nd_rng = seeded 0, nd_rng_poisoned = False, nd_activation = gate_new (activation_for_class NcEdge),
     nd_activation_poisoned = False\<rparr>"

lemma class_config_sane: "config_sane (config_for_class True cls)"
proof -
  have "learning_validate (learning_for_class cls) = Inr ()" "config_numbers (learning_for_class cls)"
    by (rule learning_for_class_valid, rule learning_for_class_numbers)
  moreover have "lc_max_weight (learning_for_class cls) = lit 1"
    by (cases cls) (simp_all add: learning_for_class_def)
  ultimately show ?thesis
    by (simp add: config_sane_def config_for_class_def node_config_default_def synapse_config_default_def lit_unit)
qed

lemma sample_node_ok: "node_ok mem_ok mem_table ms_journal (config_for_class True DcEdge) [1] sample_node"
  by (simp add: node_ok_def sample_node_def) (simp add: memory_new_def)

lemma memory_host: "node_host memory_api mem_ok mem_seen mem_table ms_journal (memory_env lm ul)"
  by (rule mem_host.node_host_axioms)

section \<open>The promises\<close>





text \<open>
  A node never handles its own signal. Once a signal it built is emitted, and its
  identifier was not already in use, every arrival of it before the window closes is
  dropped, whatever the node is asked in between.
\<close>

theorem own_signal_dropped:
  assumes host: "node_host api healthy seen table journal en" and sane: "config_sane c"
    and start: "node_ok healthy table journal c me n"
    and emitted: "emit en b now t1 t2 n = (Inr g, n1)" "\<not> seen_live (seen (nd_store n)) (sg_id g) now"
    and evs: "\<forall>ev \<in> set evs. event_ok ev \<and> now \<le> node_time ev" "sorted (map node_time evs)"
    and run: "node_run en evs n1 = (rs, n')"
    and again: "k < length evs" "evs ! k = Arrive sig a t" "sg_id sig = sg_id g"
    and window: "t < seen_expiry now (pc_dedup_cache_seconds (nc_propagation c))"
  shows "rs ! k = Inr (Decided nothing)"
proof -
  have st: "node_step en (Emit b now t1 t2) n = (Inr (Sent g), n1)"
    using emitted(1) by (simp add: answer_with_def op_bind_def)
  have ok1: "node_ok healthy table journal c me n1"
    using node_host.step_ok(1) [OF host sane _ start st] by simp
  show ?thesis
    using node_host.run_duplicate [OF host sane ok1 _ node_host.emit_claims [OF host start emitted] _ evs(2) run again window]
      evs(1) by blast
qed

definition sample_builder :: "unit SignalBuilder" where
  "sample_builder = \<lparr>sb_signal_type = Data, sb_topic = ''t'', sb_payload = (), sb_weight = Fin 1, sb_ttl = 3,
     sb_scope = scope_default, sb_correlation_id = None, sb_tags = [], sb_delivery = Acknowledged\<rparr>"

lemma own_signal_dropped_witness:
  "\<exists>g n1 rs n'. emit sample_env sample_builder 5 5 5 sample_node = (Inr g, n1) \<and>
     node_run sample_env [Checkpoint 8, Arrive (g\<lparr>sg_ttl := 2\<rparr>) (Some ''a'') 9] n1 = (rs, n') \<and> rs ! 1 = Inr (Decided nothing)"
proof -
  have start: "node_inv mem_ok mem_seen mem_table ms_journal (config_for_class True DcEdge) [1] 5 (mem_seen (nd_store sample_node)) sample_node"
    using sample_node_ok by (simp add: node_inv_iff)
  obtain r n1 where r: "emit sample_env sample_builder 5 5 5 sample_node = (r, n1)" by fastforce
  have "r \<noteq> Inl e" for e
    using safe_run(2) [OF mem_host.safe_emit [where E = "\<lambda>_. False"] start r] by blast
  then obtain g where g: "emit sample_env sample_builder 5 5 5 sample_node = (Inr g, n1)" using r by (cases r) auto
  have w: "sg_weight g = Fin 1"
    using g by (auto simp: emit_def op_bind_def self_def with_rng_def store_op_def build_unsigned_with_def sample_builder_def Let_def
        split: if_splits prod.splits sum.splits)
  let ?evs = "[Checkpoint 8, Arrive (g\<lparr>sg_ttl := 2\<rparr>) (Some ''a'') 9]"
  obtain rs n' where run: "node_run sample_env ?evs n1 = (rs, n')" by fastforce
  have "\<not> seen_live (mem_seen (nd_store sample_node)) (sg_id g) 5"
    by (simp add: sample_node_def memory_new_def seen_live_def)
  moreover have "9 < seen_expiry 5 (pc_dedup_cache_seconds (nc_propagation (config_for_class True DcEdge)))"
    by (simp add: config_for_class_def propagation_default_def seen_expiry_def sat_add_def sat_mul_def)
  ultimately have "rs ! 1 = Inr (Decided nothing)"
    using own_signal_dropped [OF memory_host class_config_sane sample_node_ok g _ _ _ run, of 1 "g\<lparr>sg_ttl := 2\<rparr>" "Some ''a''" 9] w
    by simp
  then show ?thesis using g run by blast
qed


end
