(* ===== verification/Node_Journal.thy ===== *)
theory Node_Journal
  imports Node_Run
begin

text \<open>
  Decisions and what is learned from them: forwarding journals each choice, an outcome is
  attributed to one decision once, a timeout sweep leaves nothing overdue, a connection has
  one usable synapse. Exact statements over the views of a contract-keeping store.
\<close>

section \<open>Running one call at a time\<close>

lemma bind_store [simp]:
  "f (nd_store n) = (Inr x, m) \<Longrightarrow> op_bind (store_op f) g n = g x (n\<lparr>nd_store := m\<rparr>)"
  by (simp add: op_bind_def store_op_def)

lemma bind_self [simp]: "op_bind self g n = g n n"
  by (simp add: op_bind_def self_def)

lemma bind_run: "f n = (Inr x, n') \<Longrightarrow> op_bind f g n = g x n'"
  by (simp add: op_bind_def)

text \<open>Divisive normalisation of a whole table.\<close>

definition rescaled :: "LearningConfig \<Rightarrow> (SynapseId \<rightharpoonup> SynapseRecord) \<Rightarrow> (SynapseId \<rightharpoonup> SynapseRecord) \<Rightarrow> bool" where
  "rescaled lc T T' \<longleftrightarrow> T' = T \<or> (\<exists>f. in_unit f \<and>
     (\<forall>i. T' i = map_option (\<lambda>r. r\<lparr>sr_weight := fl_max (fl_mul b32 (sr_weight r) f) (lc_min_weight lc)\<rparr>) (T i)))"

context node_host
begin

abbreviation views :: "'m \<Rightarrow> (SignalId \<rightharpoonup> u64) \<Rightarrow> (SynapseId \<rightharpoonup> SynapseRecord) \<Rightarrow> JournalEntry list \<Rightarrow> bool" where
  "views m s T J \<equiv> healthy m \<and> seen m = s \<and> table m = T \<and> journal m = J"

lemma run_put:
  assumes "views m s T J" obtains m' where "st_put_synapse api r m = (Inr (), m')" "views m' s (T(sr_id r \<mapsto> r)) J"
  using put_synapse_law [of m r] put_frame [of m r] assms by blast

lemma run_append:
  assumes "views m s T J" obtains k m' where "st_append_decision api e m = (Inr k, m')" "views m' s T (J @ [e\<lparr>je_id := Some k\<rparr>])"
  using append_law [of m e] append_frame [of m e] assms by blast

lemma run_list:
  assumes "views m s T J" "fi_limit f = None"
  obtains rs where "st_list_synapses api f m = (Inr rs, m)" "distinct (map sr_id rs)" "set rs = {r \<in> ran T. filter_matches f r}"
  using list_law [of m f] assms by blast

lemma run_record:
  assumes "views m s T J" "\<not> fl_is_nan x" obtains y m' where "st_record_influence api p x now w m = (Inr y, m')" "views m' s T J"
  using record_kept [of m x p now w] assms by (auto simp: kept_def)

lemma table_keyed: "views m s T J \<Longrightarrow> T i = Some r \<Longrightarrow> sr_id r = i"
  using keyed by blast

end

section \<open>Forwarding\<close>

text \<open>The journal entry of a forward, and the synapse it may use.\<close>

definition journals :: "'p Signal \<Rightarrow> u64 \<Rightarrow> Forward \<Rightarrow> JournalEntry \<Rightarrow> bool" where
  "journals sig now f e \<longleftrightarrow> je_id e = Some (fw_journal_id f) \<and> je_signal e = sg_id sig \<and> je_signal_type e = sg_type sig \<and>
     je_synapse e = fw_synapse f \<and> je_peer e = fw_peer f \<and> je_explored e = fw_explored f \<and>
     je_signal_weight e = sg_weight sig \<and> je_decided_at_ns e = now \<and> is_pending e \<and> je_resolved_at_ns e = None"

definition usable_route :: "(SynapseId \<rightharpoonup> SynapseRecord) \<Rightarrow> SynapseId option \<Rightarrow> Forward \<Rightarrow> bool" where
  "usable_route T arrival f \<longleftrightarrow> arrival \<noteq> Some (fw_synapse f) \<and>
     (\<exists>r. T (fw_synapse f) = Some r \<and> sr_peer r = fw_peer f \<and> can_carry (sr_state r))"

definition fanout_ok :: "PropagationScope \<Rightarrow> PropagationConfig \<Rightarrow> nat \<Rightarrow> bool" where
  "fanout_ok scope pc k \<longleftrightarrow> (case scope of Flood _ \<Rightarrow> True | Targeted _ \<Rightarrow> k \<le> 1 | _ \<Rightarrow> k \<le> pc_max_fanout pc)"

text \<open>What a plan is: usable routes, one per synapse, each with its own pending entry.\<close>

definition planned ::
  "'p Signal \<Rightarrow> SynapseId option \<Rightarrow> u64 \<Rightarrow> PropagationConfig \<Rightarrow> (SynapseId \<rightharpoonup> SynapseRecord) \<Rightarrow> Forward list \<Rightarrow> JournalEntry list \<Rightarrow> bool" where
  "planned sig arrival now pc T out es \<longleftrightarrow> list_all2 (journals sig now) out es \<and> distinct (map fw_synapse out) \<and>
     (\<forall>f \<in> set out. usable_route T arrival f) \<and> (flood_depth_reached sig \<longrightarrow> out = []) \<and>
     fanout_ok (sg_scope sig) pc (length out)"

lemma planned_nil [simp]: "planned sig arrival now pc T [] []"
  by (simp add: planned_def fanout_ok_def split: PropagationScope.split)

lemma selected_routes:
  assumes run: "select_synapses lm ss scope ty arrival pc lc now nx s = Some (cs, s')" and ids: "distinct (map sy_id ss)"
  shows "distinct (map (\<lambda>c. sy_id (ch_synapse c)) cs)" "fanout_ok scope pc (length cs)"
    "\<forall>c \<in> set cs. ch_synapse c \<in> set ss \<and> eligible scope arrival (ch_synapse c)"
proof -
  note c = select_synapses_cases [OF run]
  have sub: "mset (map ch_synapse cs) \<subseteq># mset (filter (eligible scope arrival) ss)" using c by (simp add: choices_of_def)
  from set_mset_mono [OF sub]
  show "\<forall>c \<in> set cs. ch_synapse c \<in> set ss \<and> eligible scope arrival (ch_synapse c)" by auto
  have "mset (map ch_synapse cs) \<subseteq># mset ss"
    using sub multiset_filter_subset [of "eligible scope arrival" "mset ss"] by (simp add: subset_mset.order_trans)
  then have "image_mset sy_id (mset (map ch_synapse cs)) \<subseteq># image_mset sy_id (mset ss)" by (rule image_mset_subseteq_mono)
  then have "mset (map sy_id (map ch_synapse cs)) \<subseteq># mset (map sy_id ss)" by (simp only: mset_map)
  then have "distinct (map sy_id (map ch_synapse cs))" using ids by (rule distinct_submset)
  then show "distinct (map (\<lambda>c. sy_id (ch_synapse c)) cs)" by (simp add: comp_def)
  show "fanout_ok scope pc (length cs)"
    using c by (auto simp: fanout_ok_def fanout_of_def split: PropagationScope.split)
qed

context node_host
begin

lemma run_journal_choices:
  assumes "views (nd_store n) s T J"
  shows "\<exists>fs es m'. journal_choices api sig now cs out n = (Inr (out @ fs), n\<lparr>nd_store := m'\<rparr>) \<and> views m' s T (J @ es) \<and>
    list_all2 (journals sig now) fs es \<and> map fw_synapse fs = map (\<lambda>c. sy_id (ch_synapse c)) cs \<and>
    map fw_peer fs = map (\<lambda>c. sy_remote_node (ch_synapse c)) cs"
  using assms
proof (induction cs arbitrary: n J out)
  case Nil
  then show ?case by (intro exI [of _ "[]"] exI [of _ "nd_store n"]) simp
next
  case (Cons c cs)
  obtain k m where m: "st_append_decision api (journal_entry sig now c) (nd_store n) = (Inr k, m)"
    "views m s T (J @ [(journal_entry sig now c)\<lparr>je_id := Some k\<rparr>])"
    by (rule run_append [OF Cons.prems])
  let ?f = "\<lparr>fw_synapse = sy_id (ch_synapse c), fw_peer = sy_remote_node (ch_synapse c), fw_journal_id = k, fw_explored = ch_explored c\<rparr>"
  obtain fs es m' where ih: "journal_choices api sig now cs (out @ [?f]) (n\<lparr>nd_store := m\<rparr>) = (Inr ((out @ [?f]) @ fs), n\<lparr>nd_store := m'\<rparr>)"
    "views m' s T ((J @ [(journal_entry sig now c)\<lparr>je_id := Some k\<rparr>]) @ es)" "list_all2 (journals sig now) fs es"
    "map fw_synapse fs = map (\<lambda>c. sy_id (ch_synapse c)) cs" "map fw_peer fs = map (\<lambda>c. sy_remote_node (ch_synapse c)) cs"
    using Cons.IH [of "n\<lparr>nd_store := m\<rparr>" "J @ [(journal_entry sig now c)\<lparr>je_id := Some k\<rparr>]" "out @ [?f]"] m(2) by auto
  have "journals sig now ?f ((journal_entry sig now c)\<lparr>je_id := Some k\<rparr>)" by (simp add: journals_def journal_entry_def)
  then show ?case
    using ih m(1) by (intro exI [of _ "?f # fs"] exI [of _ "(journal_entry sig now c)\<lparr>je_id := Some k\<rparr> # es"] exI [of _ m']) simp
qed

lemma run_plan:
  assumes ok: "ok c me n" and v: "views (nd_store n) s T J"
  shows "\<exists>out es g m'. plan_forwarding en sig arrival now n = (Inr out, n\<lparr>nd_rng := g, nd_store := m'\<rparr>) \<and> views m' s T (J @ es) \<and>
    planned sig arrival now (nc_propagation c) T out es"
proof (cases "flood_depth_reached sig")
  case True
  then show ?thesis
    using v by (intro exI [of _ "[]"] exI [of _ "nd_rng n"] exI [of _ "nd_store n"]) (simp add: plan_forwarding_def)
next
  case False
  have lim: "fi_limit filter_eligible = None" by (simp add: filter_eligible_def filter_default_def)
  obtain rs where rs: "st_list_synapses api filter_eligible (nd_store n) = (Inr rs, nd_store n)" "distinct (map sr_id rs)"
    "set rs = {r \<in> ran T. filter_matches filter_eligible r}"
    by (rule run_list [OF v lim])
  show ?thesis
  proof (cases "rs = []")
    case True
    then show ?thesis using v rs(1) False
      by (intro exI [of _ "[]"] exI [of _ "nd_rng n"] exI [of _ "nd_store n"]) (simp add: plan_forwarding_def env)
  next
    case ne: False
    have cfg: "nd_config n = c" "nd_identity n = me" "\<not> nd_rng_poisoned n" using ok by (simp_all add: node_ok_def)
    let ?ss = "map (rehydrate (en_libm en) n now) rs"
    have syn: "sy_id (rehydrate (en_libm en) n now r) = sr_id r" "sy_remote_node (rehydrate (en_libm en) n now r) = sr_peer r"
      "sy_state (rehydrate (en_libm en) n now r) = sr_state r" for r
      by (simp_all add: rehydrate_def from_record_def Let_def)
    obtain cs g where sel: "select_synapses (en_libm en) ?ss (sg_scope sig) (signal_type_name sig) arrival (nc_propagation c)
        (learning n) now (en_next en) (nd_rng n) = Some (cs, g)"
      using decides by blast
    have ids: "distinct (map sy_id ?ss)" using rs(2) by (simp add: comp_def syn)
    note cs = selected_routes [OF sel ids]
    obtain fs es m' where j: "journal_choices api sig now cs [] (n\<lparr>nd_rng := g\<rparr>) = (Inr ([] @ fs), n\<lparr>nd_rng := g, nd_store := m'\<rparr>)"
      "views m' s T (J @ es)" "list_all2 (journals sig now) fs es" "map fw_synapse fs = map (\<lambda>c. sy_id (ch_synapse c)) cs"
      "map fw_peer fs = map (\<lambda>c. sy_remote_node (ch_synapse c)) cs"
      using run_journal_choices [of "n\<lparr>nd_rng := g\<rparr>" s T J sig now cs "[]"] v by auto
    have run: "plan_forwarding en sig arrival now n = (Inr fs, n\<lparr>nd_rng := g, nd_store := m'\<rparr>)"
      using False ne rs(1) sel j(1) cfg by (simp add: plan_forwarding_def env bind_run with_rng_def)
    have "usable_route T arrival f" if fin: "f \<in> set fs" for f
    proof -
      obtain i where i: "i < length fs" "f = fs ! i" using fin by (metis in_set_conv_nth)
      have len: "length cs = length fs" using j(4) by (metis length_map)
      let ?c = "cs ! i"
      have f: "fw_synapse f = sy_id (ch_synapse ?c)" "fw_peer f = sy_remote_node (ch_synapse ?c)"
        using i len j(4,5) by (metis nth_map)+
      have "?c \<in> set cs" using i len by simp
      then obtain r where r: "r \<in> set rs" "ch_synapse ?c = rehydrate (en_libm en) n now r" "eligible (sg_scope sig) arrival (ch_synapse ?c)"
        using cs(3) by force
      then obtain k where k: "T k = Some r" using rs(3) by (auto simp: ran_def)
      then have "k = sr_id r" using table_keyed [OF v] by simp
      then show ?thesis using f r(2,3) k syn by (auto simp: usable_route_def eligible_def split: option.splits)
    qed
    moreover have "length fs = length cs" using j(4) by (metis length_map)
    ultimately show ?thesis
      using run j False cs(1,2) unfolding planned_def by (intro exI [of _ fs] exI [of _ es] exI [of _ g] exI [of _ m']) simp
  qed
qed

end

section \<open>Learning from an outcome\<close>

lemma foldl_table:
  assumes "distinct (map sr_id rs)"
  shows "r \<in> set rs \<Longrightarrow> foldl (\<lambda>T r. T(sr_id r \<mapsto> h r)) T rs (sr_id r) = Some (h r)"
    "i \<notin> sr_id ` set rs \<Longrightarrow> foldl (\<lambda>T r. T(sr_id r \<mapsto> h r)) T rs i = T i"
  using assms by (induction rs arbitrary: T rule: rev_induct) (auto, metis imageI)

context node_host
begin

lemma run_put_records:
  assumes "views (nd_store n) s T J"
  shows "\<exists>m'. put_records api (zip rs (map f (map sr_weight rs))) n = (Inr (), n\<lparr>nd_store := m'\<rparr>) \<and>
    views m' s (foldl (\<lambda>T r. T(sr_id r \<mapsto> r\<lparr>sr_weight := f (sr_weight r)\<rparr>)) T rs) J"
  using assms
proof (induction rs arbitrary: n T)
  case Nil
  then show ?case by (intro exI [of _ "nd_store n"]) simp
next
  case (Cons r rs)
  obtain m where m: "st_put_synapse api (r\<lparr>sr_weight := f (sr_weight r)\<rparr>) (nd_store n) = (Inr (), m)"
    "views m s (T(sr_id r \<mapsto> r\<lparr>sr_weight := f (sr_weight r)\<rparr>)) J"
    using run_put [OF Cons.prems, of "r\<lparr>sr_weight := f (sr_weight r)\<rparr>"] by auto
  then show ?case
    using Cons.IH [of "n\<lparr>nd_store := m\<rparr>" "T(sr_id r \<mapsto> r\<lparr>sr_weight := f (sr_weight r)\<rparr>)"] by simp
qed

lemma run_normalize:
  assumes sane: "config_sane c" and cfg: "nd_config n = c" and v: "views (nd_store n) s T J"
    and ok: "\<forall>r \<in> ran T. record_ok r"
  shows "\<exists>x m' T'. normalize_outbound_weights en n = (Inr x, n\<lparr>nd_store := m'\<rparr>) \<and> views m' s T' J \<and> rescaled (nc_learning c) T T'"
proof -
  let ?lc = "nc_learning c"
  have lim: "fi_limit filter_default = None" by (simp add: filter_default_def)
  have lc: "learning n = ?lc" by (simp add: learning_def cfg)
  obtain rs where rs: "st_list_synapses api filter_default (nd_store n) = (Inr rs, nd_store n)" "distinct (map sr_id rs)"
    "set rs = {r \<in> ran T. filter_matches filter_default r}"
    by (rule run_list [OF v lim])
  have set: "set rs = ran T" using rs(3) by (simp add: filter_matches_def filter_default_def)
  show ?thesis
  proof (cases "rs = [] \<or> normalize_outbound (map sr_weight rs) ?lc = None")
    case True
    then have "normalize_outbound_weights en n = (Inr None, n\<lparr>nd_store := nd_store n\<rparr>)"
      using rs(1) lc by (auto simp: normalize_outbound_weights_def env)
    then show ?thesis using v by (intro exI [of _ None] exI [of _ "nd_store n"] exI [of _ T]) (simp add: rescaled_def)
  next
    case False
    then obtain f ws' where norm: "normalize_outbound (map sr_weight rs) ?lc = Some (f, ws')" by auto
    let ?g = "\<lambda>w. fl_max (fl_mul b32 w f) (lc_min_weight ?lc)"
    have ws': "ws' = map ?g (map sr_weight rs)" using norm by (auto simp: normalize_outbound_def Let_def split: if_splits)
    have "\<forall>w \<in> set (map sr_weight rs). fl_wf b32 w \<and> fl_is_finite w \<and> fl_le (Fin 0) w"
      using ok set in_unit_finite by (auto simp: record_ok_def)
    from normalize_outbound_facts(2) [OF _ _ this norm] have f: "in_unit f" using config_sane_facts [OF sane] by blast
    obtain m' where m': "put_records api (zip rs ws') n = (Inr (), n\<lparr>nd_store := m'\<rparr>)"
      "views m' s (foldl (\<lambda>T r. T(sr_id r \<mapsto> r\<lparr>sr_weight := ?g (sr_weight r)\<rparr>)) T rs) J" (is "views m' s ?T' J")
      using run_put_records [OF v, of rs ?g] unfolding ws' by blast
    have "?T' i = map_option (\<lambda>r. r\<lparr>sr_weight := ?g (sr_weight r)\<rparr>) (T i)" for i
    proof (cases "T i")
      case None
      then have "i \<notin> sr_id ` set rs" using set table_keyed [OF v] by (auto simp: ran_def)
      then have "?T' i = T i" by (rule foldl_table(2) [OF rs(2)])
      then show ?thesis using None by simp
    next
      case (Some r)
      then have r: "r \<in> set rs" "sr_id r = i" using set table_keyed [OF v] by (auto simp: ran_def)
      have "?T' (sr_id r) = Some (r\<lparr>sr_weight := ?g (sr_weight r)\<rparr>)" by (rule foldl_table(1) [OF rs(2) r(1)])
      then show ?thesis using Some r(2) by simp
    qed
    then have "rescaled ?lc T ?T'" using f unfolding rescaled_def by blast
    moreover have "normalize_outbound_weights en n = (Inr (Some f), n\<lparr>nd_store := m'\<rparr>)"
      using False rs(1) lc norm m'(1) by (simp add: normalize_outbound_weights_def env bind_run)
    ultimately show ?thesis using m'(2) by blast
  qed
qed

text \<open>The learning step: nothing for a synapse that is gone, otherwise one update of the
  decision's own synapse followed by a rescaling.\<close>

lemma run_apply_outcome:
  assumes sane: "config_sane c" and ok: "ok c me n" and e: "entry_ok e" and v: "views (nd_store n) s T J"
  shows "T (je_synapse e) = None \<Longrightarrow> apply_outcome_to_synapse en e out now n = (Inr no_update, n)"
    and "T (je_synapse e) = Some r \<Longrightarrow> \<exists>used u syn m' T'.
      apply_outcome (from_record r me (nc_synapse c)) out (clamp01 (je_signal_weight e)) (signal_type_name_of (je_signal_type e)) used
        (nc_learning c) = Some (u, syn) \<and> fl_le (Fin 0) used \<and>
      apply_outcome_to_synapse en e out now n = (Inr u, n\<lparr>nd_store := m'\<rparr>) \<and> views m' s T' J \<and>
      rescaled (nc_learning c) (T(je_synapse e \<mapsto> to_record (syn\<lparr>sy_last_active_ns := now\<rparr>))) T'"
proof -
  have cfg: "nd_config n = c" "nd_identity n = me" and rok: "\<forall>r \<in> ran T. record_ok r"
    using ok v by (simp_all add: node_ok_def)
  have lc: "learning n = nc_learning c" "synapse_config n = nc_synapse c" by (simp_all add: learning_def synapse_config_def cfg)
  obtain used where used: "st_influence_since api (je_peer e) (influence_window_start (nc_learning c) now) (nd_store n) = (Inr used, nd_store n)"
    "fl_le (Fin 0) used"
    using influence_law v by blast
  have get: "st_get_synapse api (je_synapse e) (nd_store n) = (Inr (T (je_synapse e)), nd_store n)"
    using get_synapse_law v by blast
  show "T (je_synapse e) = None \<Longrightarrow> apply_outcome_to_synapse en e out now n = (Inr no_update, n)"
    using used(1) get by (simp add: apply_outcome_to_synapse_def env lc Let_def)
  assume r: "T (je_synapse e) = Some r"
  note mn = config_sane_facts [OF sane]
  have le1: "fl_le (lc_max_weight (nc_learning c)) (Fin 1)" using sane by (simp add: config_sane_def)
  have nan: "\<not> fl_is_nan (clamp01 (je_signal_weight e))"
    using e clamp01_unit [of "je_signal_weight e"] fl_le_not_nan by (auto simp: entry_ok_def)
  have w: "weight_ok (from_record r me (nc_synapse c))" using from_record_weight_ok [OF sane] rok r by (auto intro: ranI)
  obtain u syn where run: "apply_outcome (from_record r me (nc_synapse c)) out (clamp01 (je_signal_weight e))
      (signal_type_name_of (je_signal_type e)) used (nc_learning c) = Some (u, syn)"
    using apply_reward_eq [OF mn(3)] by (simp add: apply_outcome_def Let_def)
  note s' = learn_weight_ok [OF mn(1,2) le1 run nan used(2) w]
  have id: "sy_id syn = je_synapse e"
  proof -
    have "sy_id syn = sy_id (from_record r me (nc_synapse c))"
      using run by (auto simp: apply_outcome_def Let_def split: option.splits if_splits)
    then show ?thesis using table_keyed [OF v r] by (simp add: from_record_def)
  qed
  let ?rec = "to_record (syn\<lparr>sy_last_active_ns := now\<rparr>)"
  have rid: "sr_id ?rec = je_synapse e" by (simp add: to_record_def id)
  let ?charge = "if fl_lt f32_epsilon (fl_abs (wu_applied_delta u))
      then op_bind (store_op (st_record_influence (en_api en) (je_peer e) (wu_applied_delta u) now (influence_window_start (learning n) now))) (\<lambda>_. op_ret ())
      else op_ret ()"
  obtain m1 where m1: "?charge n = (Inr () :: stop + unit, n\<lparr>nd_store := m1\<rparr>)" "views m1 s T J"
  proof (cases "fl_lt f32_epsilon (fl_abs (wu_applied_delta u))")
    case True
    obtain y m where "st_record_influence api (je_peer e) (wu_applied_delta u) now (influence_window_start (nc_learning c) now) (nd_store n) = (Inr y, m)"
      "views m s T J" by (rule run_record [OF v s'(2)])
    then show ?thesis using that [of m] True by (simp add: env lc)
  next
    case False
    then show ?thesis using that [of "nd_store n"] v by simp
  qed
  obtain m2 where m2: "st_put_synapse api ?rec m1 = (Inr (), m2)" "views m2 s (T(je_synapse e \<mapsto> ?rec)) J"
    using run_put [OF m1(2), of ?rec] unfolding rid by blast
  have "record_ok ?rec" using s'(1) by (intro to_record_ok) (simp add: weight_ok_def)
  then have "\<forall>q \<in> ran (T(je_synapse e \<mapsto> ?rec)). record_ok q" using rok by (auto simp: ran_def)
  from run_normalize [OF sane _ _ this, of "n\<lparr>nd_store := m2\<rparr>" s J] m2(2) cfg
  obtain x m3 T' where m3: "normalize_outbound_weights en (n\<lparr>nd_store := m2\<rparr>) = (Inr x, n\<lparr>nd_store := m3\<rparr>)" "views m3 s T' J"
    "rescaled (nc_learning c) (T(je_synapse e \<mapsto> ?rec)) T'" by auto
  have "apply_outcome_to_synapse en e out now n = (Inr u, n\<lparr>nd_store := m3\<rparr>)"
    using used(1) get r run m2(1) m3(1)
    by (simp add: apply_outcome_to_synapse_def env lc cfg Let_def bind_run [where f = ?charge, OF m1(1)] bind_run split del: if_split)
  then show "\<exists>used u syn m' T'.
      apply_outcome (from_record r me (nc_synapse c)) out (clamp01 (je_signal_weight e)) (signal_type_name_of (je_signal_type e)) used
        (nc_learning c) = Some (u, syn) \<and> fl_le (Fin 0) used \<and>
      apply_outcome_to_synapse en e out now n = (Inr u, n\<lparr>nd_store := m'\<rparr>) \<and> views m' s T' J \<and>
      rescaled (nc_learning c) (T(je_synapse e \<mapsto> to_record (syn\<lparr>sy_last_active_ns := now\<rparr>))) T'"
    using run used(2) m3(2,3) by blast
qed

lemma run_learn:
  assumes sane: "config_sane c" and ok: "ok c me n" and e: "entry_ok e" and v: "views (nd_store n) s T J"
  shows "\<exists>x m' T'. learn_resolved en (Some e) out now n = (Inr x, n\<lparr>nd_store := m'\<rparr>) \<and> views m' s T' J \<and>
    (x \<noteq> None \<longleftrightarrow> je_resolved_at_ns e = Some now)"
proof (cases "je_resolved_at_ns e = Some now")
  case False
  then show ?thesis
    using v by (intro exI [of _ None] exI [of _ "nd_store n"] exI [of _ T]) (simp add: learn_resolved_def)
next
  case True
  have "\<exists>u m' T'. apply_outcome_to_synapse en e out now n = (Inr u, n\<lparr>nd_store := m'\<rparr>) \<and> views m' s T' J"
  proof (cases "T (je_synapse e)")
    case None
    then show ?thesis
      using run_apply_outcome(1) [OF sane ok e v] v by (intro exI [of _ no_update] exI [of _ "nd_store n"] exI [of _ T]) simp
  next
    case (Some r)
    then show ?thesis using run_apply_outcome(2) [OF sane ok e v] by blast
  qed
  then obtain u m' T' where "apply_outcome_to_synapse en e out now n = (Inr u, n\<lparr>nd_store := m'\<rparr>)" "views m' s T' J" by blast
  then show ?thesis
    using True by (intro exI [of _ "Some u"] exI [of _ m'] exI [of _ T']) (simp add: learn_resolved_def bind_run)
qed

end

section \<open>One outcome per decision\<close>

text \<open>A journal in which an identifier names one decision.\<close>

definition ids_ok :: "JournalEntry list \<Rightarrow> bool" where
  "ids_ok J \<longleftrightarrow> distinct (map je_id J) \<and> None \<notin> je_id ` set J"

abbreviation matching :: "SignalId \<Rightarrow> NodeId \<Rightarrow> JournalEntry \<Rightarrow> bool" where
  "matching sg p e \<equiv> je_signal e = sg \<and> je_peer e = p \<and> is_pending e"

definition pending_count :: "SignalId \<Rightarrow> NodeId \<Rightarrow> JournalEntry list \<Rightarrow> nat" where
  "pending_count sg p J = length (filter (matching sg p) J)"

definition settle :: "Outcome \<Rightarrow> u64 \<Rightarrow> JournalEntry \<Rightarrow> JournalEntry" where
  "settle out now e = e\<lparr>je_outcome := out, je_resolved_at_ns := Some now\<rparr>"

lemma settle_simps [simp]:
  "je_id (settle out now e) = je_id e" "je_signal (settle out now e) = je_signal e" "je_peer (settle out now e) = je_peer e"
  "je_outcome (settle out now e) = out" "je_resolved_at_ns (settle out now e) = Some now"
  "je_decided_at_ns (settle out now e) = je_decided_at_ns e" "entry_ok (settle out now e) = entry_ok e"
  by (simp_all add: settle_def entry_ok_def)

lemma resolve_pending [simp]: "is_pending e \<Longrightarrow> resolve_entry out now e = settle out now e"
  by (simp add: resolve_entry_def settle_def is_resolved_def)

lemma resolve_settled [simp]: "\<not> is_pending e \<Longrightarrow> resolve_entry out now e = e"
  by (simp add: resolve_entry_def is_resolved_def)

lemma ids_ok_settle [simp]: "ids_ok (xs @ settle out now e # ys) = ids_ok (xs @ e # ys)"
  by (simp add: ids_ok_def)

lemma ids_ok_unique: "ids_ok J \<Longrightarrow> x \<in> set J \<Longrightarrow> y \<in> set J \<Longrightarrow> je_id x = je_id y \<Longrightarrow> x = y"
  by (simp add: ids_ok_def distinct_map inj_on_def)

context node_host
begin

lemma run_resolve:
  assumes v: "views m s T J" and e: "J = xs @ e # ys" "je_id e = Some i" and ids: "ids_ok J"
  obtains m' where "st_resolve_decision api i out now m = (Inr (Some (resolve_entry out now e)), m')"
    "views m' s T (xs @ resolve_entry out now e # ys)"
proof -
  have "\<forall>x \<in> set xs. je_id x \<noteq> Some i" using ids e by (auto simp: ids_ok_def) (metis imageI)
  then show ?thesis using resolve_some [of m xs e ys i out now] resolve_frame [of m i out now] v e that by blast
qed

lemma run_receipt:
  assumes sane: "config_sane c" and ok: "ok c me n" and v: "views (nd_store n) s T J" and ids: "ids_ok J"
  shows "(\<nexists>e. e \<in> set J \<and> matching (rc_correlation_id rc) p e) \<and> apply_receipt en rc p now n = (Inr None, n) \<or>
    (\<exists>xs e ys u m' T'. J = xs @ e # ys \<and> matching (rc_correlation_id rc) p e \<and>
      apply_receipt en rc p now n = (Inr (Some u), n\<lparr>nd_store := m'\<rparr>) \<and>
      views m' s T' (xs @ settle (receipt_outcome rc) now e # ys))"
proof -
  obtain q where q: "st_pending_decision_for api (rc_correlation_id rc) p (nd_store n) = (Inr q, nd_store n)"
    "case q of None \<Rightarrow> \<forall>e \<in> set J. \<not> matching (rc_correlation_id rc) p e
      | Some e \<Rightarrow> e \<in> set J \<and> matching (rc_correlation_id rc) p e"
    using pending_law [of "nd_store n" "rc_correlation_id rc" p] v by blast
  show ?thesis
  proof (cases q)
    case None
    then show ?thesis using q by (auto simp: apply_receipt_def env)
  next
    case (Some e)
    then have e: "e \<in> set J" "matching (rc_correlation_id rc) p e" using q(2) by auto
    then obtain xs ys where J: "J = xs @ e # ys" by (auto simp: in_set_conv_decomp)
    obtain i where i: "je_id e = Some i" using ids e(1) by (cases "je_id e") (auto simp: ids_ok_def image_iff)
    obtain m1 where m1: "st_resolve_decision api i (receipt_outcome rc) now (nd_store n) = (Inr (Some (settle (receipt_outcome rc) now e)), m1)"
      "views m1 s T (xs @ settle (receipt_outcome rc) now e # ys)"
      using run_resolve [OF v J i ids, of "receipt_outcome rc" now] e(2) by auto
    have eok: "entry_ok (settle (receipt_outcome rc) now e)" using ok v e(1) by (auto simp: node_ok_def)
    have "ok c me (n\<lparr>nd_store := m1\<rparr>)" using ok v m1(2) J by (auto simp: node_ok_def)
    from run_learn [OF sane this eok, of s T "xs @ settle (receipt_outcome rc) now e # ys" "receipt_outcome rc" now] m1(2)
    obtain x m' T' where l: "learn_resolved en (Some (settle (receipt_outcome rc) now e)) (receipt_outcome rc) now (n\<lparr>nd_store := m1\<rparr>) =
        (Inr x, n\<lparr>nd_store := m'\<rparr>)" "views m' s T' (xs @ settle (receipt_outcome rc) now e # ys)" "x \<noteq> None" by auto
    then obtain u where "x = Some u" by blast
    then have "apply_receipt en rc p now n = (Inr (Some u), n\<lparr>nd_store := m'\<rparr>)"
      using q(1) Some i m1(1) l(1) by (simp add: apply_receipt_def env)
    then show ?thesis using J e(2) l(2) by blast
  qed
qed

end

text \<open>A sequence of receipts, from whomever, and what each one taught.\<close>

fun apply_receipts ::
  "('m, 's) NodeEnv \<Rightarrow> (Receipt \<times> NodeId \<times> u64) list \<Rightarrow> ('m, 's) Node \<Rightarrow> (stop + WeightUpdate option) list \<times> ('m, 's) Node" where
  "apply_receipts en [] n = ([], n)"
| "apply_receipts en ((rc, p, now) # rest) n =
     (let (r, n1) = apply_receipt en rc p now n; (rs, n2) = apply_receipts en rest n1 in (r # rs, n2))"

definition taught :: "SignalId \<Rightarrow> NodeId \<Rightarrow> (Receipt \<times> NodeId \<times> u64) list \<Rightarrow> (stop + WeightUpdate option) list \<Rightarrow> nat" where
  "taught sg p evs rs = length (filter (\<lambda>((rc, q, now), r). rc_correlation_id rc = sg \<and> q = p \<and> r \<noteq> Inr None) (zip evs rs))"

context node_host
begin

lemma receipts_balance:
  assumes sane: "config_sane c" and "ok c me n" "ids_ok (journal (nd_store n))" "apply_receipts en evs n = (rs, n')"
  shows "taught sg p evs rs + pending_count sg p (journal (nd_store n')) = pending_count sg p (journal (nd_store n)) \<and>
    (\<forall>r \<in> set rs. \<exists>u. r = Inr u) \<and> ids_ok (journal (nd_store n'))"
  using assms(2-)
proof (induction evs arbitrary: n rs)
  case (Cons ev evs)
  obtain rc q now where ev: "ev = (rc, q, now)" by (metis prod_cases3)
  obtain r n1 where r: "apply_receipt en rc q now n = (r, n1)" by fastforce
  obtain rs1 where rest: "apply_receipts en evs n1 = (rs1, n')" "rs = r # rs1"
    using Cons.prems(3) r ev by (auto split: prod.splits)
  have v: "views (nd_store n) (seen (nd_store n)) (table (nd_store n)) (journal (nd_store n))"
    using Cons.prems(1) by (simp add: node_ok_def)
  have ok1: "ok c me n1"
    using safe_run(1) [OF safe_apply_receipt [OF sane, where E = "\<lambda>_. True"] inv_start [OF Cons.prems(1)] r] by (simp add: node_inv_iff)
  have step: "(if rc_correlation_id rc = sg \<and> q = p \<and> r \<noteq> Inr None then 1 else 0) + pending_count sg p (journal (nd_store n1)) =
      pending_count sg p (journal (nd_store n)) \<and> (\<exists>u. r = Inr u) \<and> ids_ok (journal (nd_store n1))"
    using run_receipt [OF sane Cons.prems(1) v Cons.prems(2), of rc q now] r Cons.prems(2)
    by (auto simp: pending_count_def receipt_outcome_def split: ReceiptStatus.split)
  have "taught sg p (ev # evs) rs =
      (if rc_correlation_id rc = sg \<and> q = p \<and> r \<noteq> Inr None then 1 else 0) + taught sg p evs rs1"
    by (simp add: taught_def ev rest(2))
  moreover have "taught sg p evs rs1 + pending_count sg p (journal (nd_store n')) = pending_count sg p (journal (nd_store n1)) \<and>
      (\<forall>r \<in> set rs1. \<exists>u. r = Inr u) \<and> ids_ok (journal (nd_store n'))"
    using Cons.IH [OF ok1 _ rest(1)] step by blast
  ultimately show ?case using step by (simp add: rest(2))
qed (simp add: taught_def)

end

section \<open>Timeouts and transport failures\<close>

text \<open>What a sweep makes of an entry: overdue pending decisions time out.\<close>

definition overdue :: "u64 \<Rightarrow> JournalEntry \<Rightarrow> bool" where
  "overdue deadline e \<longleftrightarrow> is_pending e \<and> je_decided_at_ns e < deadline"

context node_host
begin

lemma run_sweep_loop:
  assumes "config_sane c" "ok c me n" "views (nd_store n) s T J" "ids_ok J"
    "set es \<subseteq> set J" "\<forall>e \<in> set es. is_pending e" "distinct es"
  shows "\<exists>m' T'. sweep_loop en now es k n = (Inr (k + length es), n\<lparr>nd_store := m'\<rparr>) \<and>
    views m' s T' (map (\<lambda>e. if e \<in> set es then settle TimedOut now e else e) J)"
  using assms(2-)
proof (induction es arbitrary: n T J k)
  case Nil
  then show ?case by (intro exI [of _ "nd_store n"] exI [of _ T]) simp
next
  case (Cons e es)
  obtain xs ys where J: "J = xs @ e # ys" using Cons.prems(4) by (auto simp: in_set_conv_decomp)
  have pend: "is_pending e" using Cons.prems(5) by simp
  obtain i where i: "je_id e = Some i" using Cons.prems(3,4) by (cases "je_id e") (auto simp: ids_ok_def image_iff)
  obtain m1 where m1: "st_resolve_decision api i TimedOut now (nd_store n) = (Inr (Some (settle TimedOut now e)), m1)"
    "views m1 s T (xs @ settle TimedOut now e # ys)"
    using run_resolve [OF Cons.prems(2) J i Cons.prems(3), of TimedOut now] pend by auto
  let ?J1 = "xs @ settle TimedOut now e # ys"
  have ok: "ok c me (n\<lparr>nd_store := m1\<rparr>)" "entry_ok (settle TimedOut now e)"
    using Cons.prems(1,2) m1(2) J by (auto simp: node_ok_def)
  obtain x m2 T2 where l: "learn_resolved en (Some (settle TimedOut now e)) TimedOut now (n\<lparr>nd_store := m1\<rparr>) =
      (Inr x, n\<lparr>nd_store := m2\<rparr>)" "views m2 s T2 ?J1" "x \<noteq> None"
    using run_learn [OF assms(1) ok, of s T ?J1 TimedOut now] m1(2) by auto
  then obtain u where u: "x = Some u" by blast
  have uniq: "x = e" if "x \<in> set J" "je_id x = je_id e" for x
    using ids_ok_unique [OF Cons.prems(3), of x e] that J by simp
  have new: "settle TimedOut now e \<notin> set es" using Cons.prems(5) by auto
  have notin: "e \<notin> set xs" "e \<notin> set ys" "e \<notin> set es"
    using Cons.prems(3,6) J by (auto simp: ids_ok_def)
  have "ok c me (n\<lparr>nd_store := m2\<rparr>)"
    using safe_run(1) [OF safe_learn [OF assms(1), where E = "\<lambda>_. True" and q = "Some (settle TimedOut now e)"] inv_start [OF ok(1)] l(1)]
      ok(2) by (simp add: node_inv_iff)
  moreover have "ids_ok ?J1" using Cons.prems(3) J by simp
  moreover have "set es \<subseteq> set ?J1" using Cons.prems(4) J notin by auto
  ultimately obtain m' T' where ih: "sweep_loop en now es (Suc k) (n\<lparr>nd_store := m2\<rparr>) = (Inr (Suc k + length es), n\<lparr>nd_store := m'\<rparr>)"
    "views m' s T' (map (\<lambda>e. if e \<in> set es then settle TimedOut now e else e) ?J1)"
    using Cons.IH [of "n\<lparr>nd_store := m2\<rparr>" T2 ?J1 "Suc k"] l(2) Cons.prems(5,6) by auto
  have "map (\<lambda>e. if e \<in> set es then settle TimedOut now e else e) ?J1 =
      map (\<lambda>x. if x \<in> set (e # es) then settle TimedOut now x else x) J"
    using J notin new by auto
  then show ?case using ih i m1(1) l(1) u by (auto simp: env bind_run)
qed

lemma run_sweep:
  assumes sane: "config_sane c" and ok: "ok c me n" and v: "views (nd_store n) s T J" and ids: "ids_ok J"
    and enough: "length (filter (overdue (receipt_deadline (nc_learning c) now)) J) \<le> limit"
  shows "\<exists>m' T'. sweep_timeouts en limit now n =
      (Inr (length (filter (overdue (receipt_deadline (nc_learning c) now)) J)), n\<lparr>nd_store := m'\<rparr>) \<and>
    views m' s T' (map (\<lambda>e. if overdue (receipt_deadline (nc_learning c) now) e then settle TimedOut now e else e) J)"
proof -
  let ?P = "overdue (receipt_deadline (nc_learning c) now)"
  have P: "?P = (\<lambda>e. is_pending e \<and> je_decided_at_ns e < receipt_deadline (nc_learning c) now)" by (simp add: overdue_def fun_eq_iff)
  have cfg: "learning n = nc_learning c" using ok by (simp add: node_ok_def learning_def)
  obtain es where es: "st_expired_decisions api (receipt_deadline (nc_learning c) now) limit (nd_store n) = (Inr es, nd_store n)"
    "mset es \<subseteq># mset (filter ?P J)" "length es = min limit (length (filter ?P J))"
    using expired_law [of "nd_store n" "receipt_deadline (nc_learning c) now" limit] v unfolding P by blast
  have len: "length es = length (filter ?P J)" using es(3) enough by simp
  have "mset es = mset (filter ?P J)"
    using es(2) len by (metis mset_subset_size size_mset subset_mset.le_imp_less_or_eq less_irrefl)
  then have set: "set es = {e \<in> set J. ?P e}" by (metis set_filter set_mset_mset)
  have "distinct J" using ids by (simp add: ids_ok_def distinct_map)
  then have d: "distinct es" using \<open>mset es = mset (filter ?P J)\<close> by (metis distinct_filter mset_eq_imp_distinct_iff)
  have sub: "set es \<subseteq> set J" "\<forall>e \<in> set es. is_pending e" using set by (auto simp: overdue_def)
  obtain m' T' where loop: "sweep_loop en now es 0 n = (Inr (0 + length es), n\<lparr>nd_store := m'\<rparr>)"
    "views m' s T' (map (\<lambda>e. if e \<in> set es then settle TimedOut now e else e) J)"
    using run_sweep_loop [OF sane ok v ids sub d] by blast
  moreover have "map (\<lambda>e. if e \<in> set es then settle TimedOut now e else e) J = map (\<lambda>e. if ?P e then settle TimedOut now e else e) J"
    using set by auto
  ultimately show ?thesis using es(1) cfg len by (auto simp: sweep_timeouts_def env)
qed

lemma run_fail_forward:
  assumes sane: "config_sane c" and ok: "ok c me n" and v: "views (nd_store n) s T (xs @ e # ys)" and ids: "ids_ok (xs @ e # ys)"
    and i: "je_id e = Some i"
  shows "\<exists>x m' T'. fail_forward en i now n = (Inr x, n\<lparr>nd_store := m'\<rparr>) \<and>
    views m' s T' (xs @ resolve_entry TransportFailed now e # ys) \<and>
    (x \<noteq> None \<longleftrightarrow> is_pending e \<or> je_resolved_at_ns e = Some now)"
proof -
  let ?e = "resolve_entry TransportFailed now e"
  obtain m1 where m1: "st_resolve_decision api i TransportFailed now (nd_store n) = (Inr (Some ?e), m1)" "views m1 s T (xs @ ?e # ys)"
    by (rule run_resolve [OF v refl i ids, of TransportFailed now])
  have "ok c me (n\<lparr>nd_store := m1\<rparr>)" "entry_ok ?e"
    using ok v m1(2) by (auto simp: node_ok_def resolve_entry_def entry_ok_def)
  from run_learn [OF sane this, of s T "xs @ ?e # ys" TransportFailed now] m1(2)
  obtain x m2 T2 where l: "learn_resolved en (Some ?e) TransportFailed now (n\<lparr>nd_store := m1\<rparr>) = (Inr x, n\<lparr>nd_store := m2\<rparr>)"
    "views m2 s T2 (xs @ ?e # ys)" "x \<noteq> None \<longleftrightarrow> je_resolved_at_ns ?e = Some now" by auto
  have "je_resolved_at_ns ?e = Some now \<longleftrightarrow> is_pending e \<or> je_resolved_at_ns e = Some now"
    by (cases "is_pending e") simp_all
  then show ?thesis using m1(1) l by (auto simp: fail_forward_def env)
qed

end

end
