(* ===== verification/Node_Upkeep.thy ===== *)
theory Node_Upkeep
  imports Node_Journal
begin

text \<open>
  Connections, how far one outcome reaches, and the health report; then the properties of
  decisions and connections, stated over any contract-keeping store and witnessed on the
  in-memory one.
\<close>

section \<open>Connections\<close>

text \<open>No peer has two synapses.\<close>

definition one_per_peer :: "(SynapseId \<rightharpoonup> SynapseRecord) \<Rightarrow> bool" where
  "one_per_peer T \<longleftrightarrow> (\<forall>i j r q. T i = Some r \<longrightarrow> T j = Some q \<longrightarrow> sr_peer r = sr_peer q \<longrightarrow> i = j)"

text \<open>The synapse to a peer is out of service.\<close>

abbreviation shut :: "SynapseState \<Rightarrow> bool" where
  "shut st \<equiv> st = Pruned \<or> st = Dormant"

definition connected :: "NodeId \<Rightarrow> (SynapseId \<rightharpoonup> SynapseRecord) \<Rightarrow> SynapseRecord \<Rightarrow> (SynapseId \<rightharpoonup> SynapseRecord) \<Rightarrow> bool" where
  "connected p T r T' \<longleftrightarrow> sr_peer r = p \<and> \<not> shut (sr_state r) \<and> T' = T(sr_id r \<mapsto> r) \<and> one_per_peer T'"

lemma one_per_peer_update:
  assumes "one_per_peer T" "\<forall>i q. T i = Some q \<longrightarrow> sr_peer q = sr_peer r \<longrightarrow> i = sr_id r"
  shows "one_per_peer (T(sr_id r \<mapsto> r))"
  using assms unfolding one_per_peer_def by (metis (mono_tags, lifting) fun_upd_apply option.inject)

context node_host
begin

lemma run_for_peer:
  assumes "views m s T J"
  obtains (none) "st_synapse_for_peer api p m = (Inr None, m)" "\<forall>r \<in> ran T. sr_peer r \<noteq> p"
  | (found) r where "st_synapse_for_peer api p m = (Inr (Some r), m)" "T (sr_id r) = Some r" "sr_peer r = p"
proof -
  obtain q where q: "st_synapse_for_peer api p m = (Inr q, m)"
    "case q of None \<Rightarrow> \<forall>r \<in> ran T. sr_peer r \<noteq> p | Some r \<Rightarrow> r \<in> ran T \<and> sr_peer r = p"
    using for_peer_law [of m p] assms by blast
  show ?thesis
  proof (cases q)
    case None
    then show ?thesis using q none by simp
  next
    case (Some r)
    then obtain i where "T i = Some r" "sr_peer r = p" using q(2) by (auto simp: ran_def)
    then show ?thesis using found [of r] table_keyed [OF assms] q(1) Some by simp
  qed
qed

lemma upsert_again:
  assumes ok: "views (nd_store n) s T J" and one: "one_per_peer T" and r: "T (sr_id r) = Some r" "sr_peer r = p" "\<not> shut (sr_state r)"
  shows "upsert_synapse en p now n = (Inr r, n)"
  using ok
proof (cases rule: run_for_peer [where p = p])
  case none
  then show ?thesis using r by (auto simp: ran_def)
next
  case (found q)
  then have "q = r" using one r unfolding one_per_peer_def by (metis option.inject)
  then show ?thesis using found(1) r(3) by (simp add: upsert_synapse_def env Let_def)
qed

lemma put_back_run:
  assumes v: "views (nd_store n) s T J"
  obtains m' where "put_back api r n = (Inr r, n\<lparr>nd_store := m'\<rparr>)" "views m' s (T(sr_id r \<mapsto> r)) J"
proof -
  obtain m' where "st_put_synapse api r (nd_store n) = (Inr (), m')" "views m' s (T(sr_id r \<mapsto> r)) J" by (rule run_put [OF v])
  then show ?thesis using that [of m'] by (simp add: put_back_def)
qed

lemma run_upsert_new:
  assumes ok: "ok c me n" and v: "views (nd_store n) s T J" and one: "one_per_peer T"
    and none: "st_synapse_for_peer api p (nd_store n) = (Inr None, nd_store n)" "\<forall>r \<in> ran T. sr_peer r \<noteq> p"
  shows "\<exists>r n'. upsert_synapse en p now n = (Inr r, n') \<and> views (nd_store n') s (T(sr_id r \<mapsto> r)) J \<and>
    connected p T r (T(sr_id r \<mapsto> r))"
proof -
  have cfg: "nd_config n = c" "nd_identity n = me" "\<not> nd_rng_poisoned n" using ok by (simp_all add: node_ok_def)
  obtain y g where y: "new_with (en_ulid en) me p (nc_synapse c) now (en_next en) (nd_rng n) = (y, g)" by fastforce
  let ?r = "to_record (activate y)"
  have r: "sr_peer ?r = p" "sr_state ?r = Active"
    using y by (auto simp: new_with_def Let_def activate_def to_record_def split: prod.splits)
  obtain m1 where m1: "st_put_synapse api ?r (nd_store n) = (Inr (), m1)" "views m1 s (T(sr_id ?r \<mapsto> ?r)) J"
    by (rule run_put [OF v])
  obtain u m2 where m2: "st_put_peer api \<lparr>pr_id = p, pr_addresses = [], pr_region = None, pr_advertised_types = [],
      pr_last_seen_ns = now, pr_source = Observed\<rparr> m1 = (Inr u, m2)" "views m2 s (T(sr_id ?r \<mapsto> ?r)) J"
    using put_peer_kept [of m1] m1(2) by (force simp: kept_def)
  have "upsert_synapse en p now n = (Inr ?r, n\<lparr>nd_rng := g, nd_store := m2\<rparr>)"
    using none(1) y m1(1) m2(1) cfg by (simp add: upsert_synapse_def env synapse_config_def bind_run with_rng_def)
  moreover have "one_per_peer (T(sr_id ?r \<mapsto> ?r))"
    using one none(2) r(1) by (intro one_per_peer_update) (auto simp: ran_def)
  ultimately show ?thesis using m2(2) r none(2) by (auto simp: connected_def)
qed

text \<open>Writing back a record under the identifier and peer it had keeps the table one per peer.\<close>

lemma run_put_again:
  assumes v: "views (nd_store n) s T J" and one: "one_per_peer T"
    and q: "T (sr_id q) = Some q" "sr_peer q = p"
    and x: "sr_id x = sr_id q" "sr_peer x = p" "sr_state x = Active"
  shows "\<exists>n'. put_back api x n = (Inr x, n') \<and> views (nd_store n') s (T(sr_id x \<mapsto> x)) J \<and>
    connected p T x (T(sr_id x \<mapsto> x))"
proof -
  obtain m' where m': "put_back api x n = (Inr x, n\<lparr>nd_store := m'\<rparr>)" "views m' s (T(sr_id x \<mapsto> x)) J"
    by (rule put_back_run [OF v])
  have "one_per_peer (T(sr_id x \<mapsto> x))"
  proof (intro one_per_peer_update one allI impI)
    fix i y assume "T i = Some y" "sr_peer y = sr_peer x"
    then show "i = sr_id x" using one q x(1,2) unfolding one_per_peer_def by metis
  qed
  then show ?thesis using m' x by (auto simp: connected_def)
qed

lemma run_upsert_found:
  assumes ok: "ok c me n" and v: "views (nd_store n) s T J" and one: "one_per_peer T"
    and q: "st_synapse_for_peer api p (nd_store n) = (Inr (Some q), nd_store n)" "T (sr_id q) = Some q" "sr_peer q = p"
    and cool: "sr_state q = Pruned \<Longrightarrow> cooldown_until (nc_learning c) q \<le> now"
  shows "\<exists>r n'. upsert_synapse en p now n = (Inr r, n') \<and> views (nd_store n') s (T(sr_id r \<mapsto> r)) J \<and>
    connected p T r (T(sr_id r \<mapsto> r))"
proof -
  have cfg: "nd_config n = c" "nd_identity n = me" using ok by (simp_all add: node_ok_def)
  then have lc: "learning n = nc_learning c" "synapse_config n = nc_synapse c" by (simp_all add: learning_def synapse_config_def)
  note put = run_put_again [OF v one q(2,3)]
  consider (pruned) "sr_state q = Pruned" | (dormant) "sr_state q = Dormant"
    | (alive) "sr_state q \<noteq> Pruned" "sr_state q \<noteq> Dormant" by blast
  then show ?thesis
  proof cases
    case pruned
    let ?x = "to_record (reformed (from_record q me (nc_synapse c)) (nc_synapse c) now)"
    have "upsert_synapse en p now n = put_back api ?x n"
      using q(1) pruned cool lc cfg by (simp add: upsert_synapse_def env Let_def leD)
    then show ?thesis
      using put [of ?x] q(3) by (auto simp: reformed_def activate_def from_record_def to_record_def)
  next
    case dormant
    let ?x = "to_record (reactivate (from_record q me (nc_synapse c)) (nc_synapse c))"
    have "upsert_synapse en p now n = put_back api ?x n"
      using q(1) dormant lc cfg by (simp add: upsert_synapse_def env Let_def)
    then show ?thesis
      using put [of ?x] q(3) dormant by (auto simp: reactivate_def from_record_def to_record_def)
  next
    case alive
    then have "upsert_synapse en p now n = (Inr q, n)"
      using q(1) by (simp add: upsert_synapse_def env Let_def)
    moreover have "T(sr_id q \<mapsto> q) = T" using q(2) by (simp add: fun_upd_idem)
    ultimately show ?thesis using v one q alive by (auto simp: connected_def)
  qed
qed

lemma run_upsert:
  assumes ok: "ok c me n" and v: "views (nd_store n) s T J" and one: "one_per_peer T"
  shows "(\<exists>r k. upsert_synapse en p now n = (Inl (Err (InvalidSignal (InCooldown p k))), n) \<and> T (sr_id r) = Some r \<and> sr_peer r = p \<and>
       sr_state r = Pruned \<and> now < cooldown_until (nc_learning c) r) \<or>
    (\<exists>r n'. upsert_synapse en p now n = (Inr r, n') \<and> views (nd_store n') s (T(sr_id r \<mapsto> r)) J \<and>
       connected p T r (T(sr_id r \<mapsto> r)) \<and>
       (\<forall>q \<in> ran T. sr_peer q = p \<and> sr_state q = Pruned \<longrightarrow> cooldown_until (nc_learning c) q \<le> now))"
  using v
proof (cases rule: run_for_peer [where p = p])
  case none
  then show ?thesis using run_upsert_new [OF ok v one none] by blast
next
  case (found q)
  have only: "x = q" if x: "x \<in> ran T" "sr_peer x = p" for x
  proof -
    obtain i where i: "T i = Some x" using x(1) by (auto simp: ran_def)
    then have "i = sr_id q" using one found(2,3) x(2) unfolding one_per_peer_def by metis
    then show ?thesis using i found(2) by simp
  qed
  show ?thesis
  proof (cases "sr_state q = Pruned \<and> now < cooldown_until (nc_learning c) q")
    case True
    have "learning n = nc_learning c" using ok by (simp add: node_ok_def learning_def)
    then have "upsert_synapse en p now n =
        (Inl (Err (InvalidSignal (InCooldown p ((cooldown_until (nc_learning c) q - now) div 1000000000)))), n)"
      using found(1) True by (simp add: upsert_synapse_def env Let_def)
    then show ?thesis using found True by blast
  next
    case False
    then show ?thesis using run_upsert_found [OF ok v one found] only by (fastforce simp: not_less)
  qed
qed

end

section \<open>How far an outcome reaches\<close>

lemma failure_weight:
  assumes valid: "learning_validate c = Inr ()" "config_numbers c" and s: "weight_ok s" and w: "\<not> fl_is_nan w"
    and run: "apply_outcome s out w t used c = Some (u, s')" and bad: "out \<noteq> Delivered"
  shows "fl_le (sy_weight s') (fl_max (sy_weight s) (lc_min_weight c))"
proof -
  note b = learning_validate_bounds [OF valid] and a = apply_outcome_weight [OF run] and f = weight_ok_facts [OF s]
  have mm: "fl_le (lc_min_weight c) (lc_max_weight c)" and mn: "\<not> fl_is_nan (lc_min_weight c)"
    using b(1,2) by (auto simp: fl_lt_imp_le fl_lt_def)
  let ?d = "raw_delta c out w" and ?top = "fl_max (sy_weight s) (lc_min_weight c)"
  have "fl_val (reward out) \<le> 0" using bad reward_positive [of out] by linarith
  then have d: "fl_is_finite ?d" "fl_val ?d \<le> 0" using raw_delta_val [OF b(5,6) w] by blast+
  then have "wu_after u = clamp_to (lc_min_weight c) (lc_max_weight c) (fl_add b32 (sy_weight s) ?d)"
    using a by (auto simp: apply_reward_eq [OF mm] capped_delta_penalty Let_def)
  moreover have "fl_le (fl_add b32 (sy_weight s) ?d) ?top"
    using fl_add_le [of "sy_weight s" ?d] fl_max_ge(2) [of "sy_weight s" "lc_min_weight c"] f d fl_le_trans finite_not_nan by blast
  ultimately have after: "fl_le (wu_after u) ?top" using clamp_to_upper fl_max_ge(1) [OF mn] by simp
  then show ?thesis
    using a fl_min_le [of "wu_after u" "sy_max_weight s"] fl_le_trans fl_le_not_nan s fl_min_cases [of "wu_after u" "sy_max_weight s"]
    by (metis weight_ok_def)
qed

lemma rescaled_weight:
  assumes resc: "rescaled lc T T'" and r: "T i = Some r" "record_ok r" and m: "\<not> fl_is_nan (lc_min_weight lc)"
  shows "\<exists>w. T' i = Some (r\<lparr>sr_weight := w\<rparr>) \<and> fl_le w (fl_max (sr_weight r) (lc_min_weight lc))"
  using resc unfolding rescaled_def
proof
  assume "T' = T"
  moreover have "\<not> fl_is_nan (sr_weight r)" using r(2) by (auto simp: record_ok_def fl_le_def)
  ultimately show ?thesis using r(1) fl_max_ge(2) by (intro exI [of _ "sr_weight r"]) simp
next
  assume "\<exists>f. in_unit f \<and> (\<forall>i. T' i = map_option (\<lambda>r. r\<lparr>sr_weight := fl_max (fl_mul b32 (sr_weight r) f) (lc_min_weight lc)\<rparr>) (T i))"
  then obtain f where f: "in_unit f" "T' i = Some (r\<lparr>sr_weight := fl_max (fl_mul b32 (sr_weight r) f) (lc_min_weight lc)\<rparr>)"
    using r(1) by auto
  have "fl_le (fl_mul b32 (sr_weight r) f) (sr_weight r)"
    using r(2) in_unit_finite [OF f(1)] in_unit_finite [of "sr_weight r"] by (intro fl_mul_shrinks(1)) (auto simp: record_ok_def)
  from fl_max_mono [OF this m] show ?thesis using f(2) by blast
qed

lemma fl_max_absorb:
  "\<not> fl_is_nan m \<Longrightarrow> \<not> fl_is_nan x \<Longrightarrow> fl_le w (fl_max y m) \<Longrightarrow> fl_le y (fl_max x m) \<Longrightarrow> fl_le w (fl_max x m)"
  using fl_max_cases [of y m] fl_max_ge(1) [of m x] fl_le_trans by metis

text \<open>\<open>reach i e out\<close>: whether the outcome of decision \<open>e\<close> may raise the weight of synapse \<open>i\<close>.\<close>

definition may_rise :: "SynapseId \<Rightarrow> JournalEntry \<Rightarrow> Outcome \<Rightarrow> bool" where
  "may_rise i e out \<longleftrightarrow> i = je_synapse e \<and> out = Delivered"

context node_host
begin

lemma outcome_reach:
  assumes sane: "config_sane c" and ok: "ok c me n" and e: "entry_ok e"
    and run: "apply_outcome_to_synapse en e out now n = (Inr u, n')" and r: "table (nd_store n) i = Some r"
  shows "\<exists>r'. table (nd_store n') i = Some r' \<and> sr_peer r' = sr_peer r \<and>
    (may_rise i e out \<or> fl_le (sr_weight r') (fl_max (sr_weight r) (lc_min_weight (nc_learning c))))"
proof -
  let ?T = "table (nd_store n)" and ?m = "lc_min_weight (nc_learning c)"
  have v: "views (nd_store n) (seen (nd_store n)) ?T (journal (nd_store n))" and rok: "\<forall>r \<in> ran ?T. record_ok r"
    using ok by (simp_all add: node_ok_def)
  note mn = config_sane_facts [OF sane]
  have m: "\<not> fl_is_nan ?m" using mn(4) by (auto simp: fl_le_def)
  have nan: "\<not> fl_is_nan (sr_weight r)" "record_ok r" using rok r by (auto simp: record_ok_def ran_def fl_le_def)
  show ?thesis
  proof (cases "?T (je_synapse e)")
    case None
    then have "n' = n" using run_apply_outcome(1) [OF sane ok e v] run by simp
    then show ?thesis using r fl_max_ge(2) [OF nan(1)] by blast
  next
    case (Some q)
    from run_apply_outcome(2) [OF sane ok e v Some] obtain used u' syn m' T' where
      a: "apply_outcome (from_record q me (nc_synapse c)) out (clamp01 (je_signal_weight e)) (signal_type_name_of (je_signal_type e)) used
        (nc_learning c) = Some (u', syn)" "fl_le (Fin 0) used"
      "apply_outcome_to_synapse en e out now n = (Inr u', n\<lparr>nd_store := m'\<rparr>)" "table m' = T'"
      "rescaled (nc_learning c) (?T(je_synapse e \<mapsto> to_record (syn\<lparr>sy_last_active_ns := now\<rparr>))) T'" by blast
    have T': "table (nd_store n') = T'" using run a(3,4) by auto
    let ?q = "to_record (syn\<lparr>sy_last_active_ns := now\<rparr>)"
    have w: "weight_ok (from_record q me (nc_synapse c))" using from_record_weight_ok [OF sane] rok Some by (auto intro: ranI)
    have cn: "\<not> fl_is_nan (clamp01 (je_signal_weight e))"
      using e clamp01_unit [of "je_signal_weight e"] fl_le_not_nan by (auto simp: entry_ok_def)
    have "weight_ok syn" using learn_weight_ok(1) [OF mn(1,2) _ a(1) cn a(2) w] sane by (simp add: config_sane_def)
    then have qok: "record_ok ?q" by (intro to_record_ok) (simp add: weight_ok_def)
    show ?thesis
    proof (cases "i = je_synapse e")
      case False
      then have "(?T(je_synapse e \<mapsto> ?q)) i = Some r" using r by simp
      from rescaled_weight [OF a(5) this nan(2) m] show ?thesis using T' by auto
    next
      case True
      then have rq: "r = q" using r Some by simp
      have "(?T(je_synapse e \<mapsto> ?q)) i = Some ?q" using True by simp
      from rescaled_weight [OF a(5) this qok m] obtain z where
        z: "T' i = Some (?q\<lparr>sr_weight := z\<rparr>)" "fl_le z (fl_max (sr_weight ?q) ?m)" by blast
      have peer: "sr_peer ?q = sr_peer q"
        using a(1) by (auto simp: apply_outcome_def Let_def to_record_def from_record_def split: option.splits if_splits)
      have "fl_le (sr_weight ?q) (fl_max (sr_weight r) ?m)" if "out \<noteq> Delivered"
        using failure_weight [OF mn(1,2) w cn a(1) that] rq by (simp add: to_record_def from_record_def)
      then have "may_rise i e out \<or> fl_le z (fl_max (sr_weight r) ?m)"
        using fl_max_absorb [OF m nan(1) z(2)] True by (auto simp: may_rise_def)
      then show ?thesis using z(1) T' rq peer by simp
    qed
  qed
qed

end

section \<open>Properties of decisions\<close>

text \<open>A node that knows one idle synapse and awaits one outcome over it.\<close>

definition idle_node :: "(MemoryStore, SplitMix64) Node" where
  "idle_node = sample_node\<lparr>nd_store := memory_new\<lparr>ms_synapses := [(''a'', sample_record ''a'' [2] (Fin (1/2)))],
     ms_journal := [sample_entry]\<rparr>\<rparr>"

lemma idle_node_views [simp]:
  "mem_ok (nd_store idle_node)" "mem_table (nd_store idle_node) = [''a'' \<mapsto> sample_record ''a'' [2] (Fin (1/2))]"
  "ms_journal (nd_store idle_node) = [sample_entry]" "ids_ok [sample_entry]"
  by (auto simp: idle_node_def mem_ok_def memory_new_def sample_record_def ids_ok_def sample_entry_def)

lemma idle_node_ok: "node_ok mem_ok mem_table ms_journal (config_for_class True DcEdge) [1] idle_node"
proof -
  have "record_ok (sample_record ''a'' [2] (Fin (1/2)))" by (simp add: record_ok_def sample_record_def fl_le_finite)
  moreover have "entry_ok sample_entry" by (simp add: entry_ok_def sample_entry_def)
  moreover have "nd_config idle_node = config_for_class True DcEdge \<and> nd_identity idle_node = [1] \<and>
      \<not> nd_rng_poisoned idle_node \<and> \<not> nd_activation_poisoned idle_node"
    by (simp add: idle_node_def sample_node_def)
  ultimately show ?thesis by (simp add: node_ok_def)
qed

text \<open>
  C23: Every forward is a decision on record. A plan never fails; each forward goes over a
  different synapse of the node, never the one the signal came in on, always one that may
  carry traffic and leads to the peer named; its journal entry, pending, with the
  forward's identifier, signal, synapse and peer, is appended in the same order; a flood
  at its depth goes no further, and the fan-out is respected. Nothing else changes: not the
  synapses, not the deduplication cache, not the gate.
\<close>

theorem forwards_journalled:
  assumes host: "node_host api healthy seen table journal en" and ok: "node_ok healthy table journal c me n"
  shows "\<exists>out es n'. plan_release en sig arrival now n = (Inr out, n') \<and>
    journal (nd_store n') = journal (nd_store n) @ es \<and>
    planned sig arrival now (nc_propagation c) (table (nd_store n)) out es \<and>
    table (nd_store n') = table (nd_store n) \<and> seen (nd_store n') = seen (nd_store n) \<and> nd_activation n' = nd_activation n"
proof -
  have "healthy (nd_store n)" using ok by (simp add: node_ok_def)
  then obtain out es g m' where "plan_forwarding en sig arrival now n = (Inr out, n\<lparr>nd_rng := g, nd_store := m'\<rparr>)"
    "seen m' = seen (nd_store n)" "table m' = table (nd_store n)" "journal m' = journal (nd_store n) @ es"
    "planned sig arrival now (nc_propagation c) (table (nd_store n)) out es"
    using node_host.run_plan [OF host ok, of "seen (nd_store n)" "table (nd_store n)" "journal (nd_store n)" sig arrival now] by blast
  then show ?thesis
    by (intro exI [of _ "n\<lparr>nd_rng := g, nd_store := m'\<rparr>"] exI [of _ es] exI [of _ out]) (simp add: plan_release_def)
qed

lemma forwards_journalled_witness:
  "\<exists>out es n'. plan_release sample_env sample_signal None 9 idle_node = (Inr out, n') \<and>
     ms_journal (nd_store n') = sample_entry # es \<and> list_all2 (journals sample_signal 9) out es"
  using forwards_journalled [OF memory_host idle_node_ok, of sample_libm sample_ulid sample_signal None 9]
  by (auto simp: planned_def)



text \<open>
  C25: A sweep leaves nothing overdue. With a limit that covers them, it settles exactly the
  decisions that are pending past the receipt deadline, as timed out at this reading,
  reports how many, and touches no other entry.
\<close>

theorem sweep_complete:
  assumes host: "node_host api healthy seen table journal en" and sane: "config_sane c"
    and ok: "node_ok healthy table journal c me n" and ids: "ids_ok (journal (nd_store n))"
    and enough: "length (filter (overdue (receipt_deadline (nc_learning c) now)) (journal (nd_store n))) \<le> limit"
  shows "\<exists>n'. sweep_timeouts en limit now n =
      (Inr (length (filter (overdue (receipt_deadline (nc_learning c) now)) (journal (nd_store n)))), n') \<and>
    journal (nd_store n') =
      map (\<lambda>e. if overdue (receipt_deadline (nc_learning c) now) e then settle TimedOut now e else e) (journal (nd_store n)) \<and>
    filter (overdue (receipt_deadline (nc_learning c) now)) (journal (nd_store n')) = []"
proof -
  have "healthy (nd_store n)" using ok by (simp add: node_ok_def)
  then obtain m' where m': "sweep_timeouts en limit now n =
      (Inr (length (filter (overdue (receipt_deadline (nc_learning c) now)) (journal (nd_store n)))), n\<lparr>nd_store := m'\<rparr>)"
    "journal m' = map (\<lambda>e. if overdue (receipt_deadline (nc_learning c) now) e then settle TimedOut now e else e) (journal (nd_store n))"
    using node_host.run_sweep [OF host sane ok _ ids enough, of "seen (nd_store n)" "table (nd_store n)"] by blast
  then show ?thesis
    by (intro exI [of _ "n\<lparr>nd_store := m'\<rparr>"]) (auto simp: filter_empty_conv overdue_def)
qed

lemma sweep_complete_witness:
  "\<exists>n'. sweep_timeouts sample_env 5 60000000000 idle_node = (Inr 1, n') \<and> ms_journal (nd_store n') = [settle TimedOut 60000000000 sample_entry]"
proof -
  have "receipt_deadline (nc_learning (config_for_class True DcEdge)) 60000000000 = 30000000000"
    by (simp add: config_for_class_def learning_for_class_def receipt_deadline_def sat_sub_def sat_mul_def Let_def)
  then have "overdue (receipt_deadline (nc_learning (config_for_class True DcEdge)) 60000000000) sample_entry"
    by (simp add: overdue_def sample_entry_def)
  then show ?thesis
    using sweep_complete [OF memory_host class_config_sane idle_node_ok, of 60000000000 5 sample_libm sample_ulid] by auto
qed

end
