(* ===== verification/Node_Outcomes.thy ===== *)
theory Node_Outcomes
  imports Node_Upkeep
begin

text \<open>
  What connecting to a peer and learning from one outcome guarantee, over any
  contract-keeping store; two behaviours of the learning path shown on a concrete node; the
  health report; and a restart from a checkpoint.
\<close>

section \<open>Learning\<close>

text \<open>The idle node after the receipt for its decision was processed at reading 9.\<close>

definition settled_node :: "(MemoryStore, SplitMix64) Node" where
  "settled_node = sample_node\<lparr>nd_store := memory_new\<lparr>ms_synapses := [(''a'', sample_record ''a'' [2] (Fin (1/2)))],
     ms_journal := [settle Delivered 9 sample_entry]\<rparr>\<rparr>"

lemma settled_node_ok: "node_ok mem_ok mem_table ms_journal (config_for_class True DcEdge) [1] settled_node"
proof -
  have "record_ok (sample_record ''a'' [2] (Fin (1/2)))" by (simp add: record_ok_def sample_record_def fl_le_finite)
  moreover have "mem_ok (nd_store settled_node)" "mem_table (nd_store settled_node) = [''a'' \<mapsto> sample_record ''a'' [2] (Fin (1/2))]"
    by (auto simp: settled_node_def mem_ok_def memory_new_def sample_record_def)
  moreover have "entry_ok (settle Delivered 9 sample_entry)" by (simp add: entry_ok_def sample_entry_def settle_def)
  moreover have "nd_config settled_node = config_for_class True DcEdge \<and> nd_identity settled_node = [1] \<and>
      \<not> nd_rng_poisoned settled_node \<and> \<not> nd_activation_poisoned settled_node \<and> ms_journal (nd_store settled_node) = [settle Delivered 9 sample_entry]"
    by (simp add: settled_node_def sample_node_def)
  ultimately show ?thesis by (simp add: node_ok_def)
qed

text \<open>
  C38: A decision that was already settled can be counted again. \<open>fail_forward\<close> leaves a
  settled entry as it is, and teaches nothing when the reading has moved on; but the guard
  is the reading itself, so a decision a receipt settled at this very reading is
  penalised as a transport failure on top of what the receipt taught.
\<close>

theorem settled_counted_again:
  assumes host: "node_host api healthy seen table journal en" and sane: "config_sane c"
    and ok: "node_ok healthy table journal c me n" and ids: "ids_ok (journal (nd_store n))"
    and e: "e \<in> set (journal (nd_store n))" "je_id e = Some i" "\<not> is_pending e"
  shows "\<exists>x n'. fail_forward en i now n = (Inr x, n') \<and> journal (nd_store n') = journal (nd_store n) \<and>
    (x \<noteq> None \<longleftrightarrow> je_resolved_at_ns e = Some now)"
proof -
  obtain xs ys where J: "journal (nd_store n) = xs @ e # ys" using e(1) by (auto simp: in_set_conv_decomp)
  have "healthy (nd_store n)" using ok by (simp add: node_ok_def)
  then obtain x m' where "fail_forward en i now n = (Inr x, n\<lparr>nd_store := m'\<rparr>)" "journal m' = xs @ e # ys"
    "x \<noteq> None \<longleftrightarrow> je_resolved_at_ns e = Some now"
    using node_host.run_fail_forward [OF host sane ok _ ids [unfolded J] e(2), of "seen (nd_store n)" "table (nd_store n)" now] J e(3)
    by auto
  then show ?thesis using J by (intro exI [of _ x] exI [of _ "n\<lparr>nd_store := m'\<rparr>"]) simp
qed

lemma settled_counted_again_witness:
  "\<exists>u n'. fail_forward sample_env 1 9 settled_node = (Inr (Some u), n') \<and> ms_journal (nd_store n') = [settle Delivered 9 sample_entry]"
proof -
  let ?e = "settle Delivered 9 sample_entry"
  have e: "?e \<in> set (ms_journal (nd_store settled_node))" "je_id ?e = Some 1" "\<not> is_pending ?e" "je_resolved_at_ns ?e = Some 9"
    by (simp_all add: settled_node_def settle_def sample_entry_def)
  have "ids_ok (ms_journal (nd_store settled_node))"
    by (simp add: settled_node_def ids_ok_def sample_entry_def)
  from settled_counted_again [OF memory_host class_config_sane settled_node_ok this e(1-3), of sample_libm sample_ulid 9]
  show ?thesis using e(4) by (auto simp: settled_node_def)
qed



text \<open>What routing sees of a synapse: its stored weight, decayed to now.\<close>

definition routing_weight :: "libm \<Rightarrow> SynapseId \<Rightarrow> u64 \<Rightarrow> (MemoryStore, 's) Node \<Rightarrow> flt option" where
  "routing_weight lm i now n = map_option (\<lambda>r. sy_weight (rehydrate lm n now r)) (mem_table (nd_store n) i)"

text \<open>The arithmetic of one penalty on the idle synapse.\<close>

lemma idle_numbers:
  "clamp01 (Fin 1) = Fin 1" "lit 1 = Fin 1"
  "apply_reward (Fin (1/2)) TransportFailed (Fin 1) FNegZero (learning_for_class DcEdge) =
     Some \<lparr>wu_before = Fin (1/2), wu_after = Fin (15938355/33554432), wu_applied_delta = Fin (- (838861/33554432)), wu_capped = False\<rparr>"
  "\<not> fl_lt (Fin 0) (apply_affinity_update (Fin 0) TransportFailed (learning_for_class DcEdge))"
  "normalize_outbound [Fin (15938355/33554432)] (learning_for_class DcEdge) = None"
  "fl_min (Fin (15938355/33554432)) (Fin 1) = Fin (15938355/33554432)"
  "fl_le (lit 0.1) (Fin (15938355/33554432))" "fl_lt f32_epsilon (fl_abs (Fin (- (838861/33554432))))"
  "fl_max (fl_mul b32 (Fin (1/2)) (Fin (1/2))) (lit 0.001) = Fin (1/4)"
  by code_simp+

lemma idle_failure:
  "\<exists>u n'. fail_forward (memory_env lm ul) 1 604800000000000 idle_node = (Inr (Some u), n') \<and>
     nd_identity n' = [1] \<and> nd_config n' = config_for_class True DcEdge \<and> mem_table (nd_store n') ''a'' =
       Some ((sample_record ''a'' [2] (Fin (15938355/33554432)))\<lparr>sr_last_active_ns := 604800000000000\<rparr>)"
proof -
  have cfg: "nc_learning (config_for_class True DcEdge) = learning_for_class DcEdge"
    "nc_synapse (config_for_class True DcEdge) = synapse_config_default"
    by (simp_all add: config_for_class_def node_config_default_def)
  show ?thesis using idle_numbers
    by (simp add: op_bind_def self_def store_op_def fail_forward_def learn_resolved_def apply_outcome_to_synapse_def
        memory_env_def mem_ops idle_node_def sample_node_def memory_new_def sample_entry_def is_resolved_def Let_def
        influence_total_def fl_sum_def learning_def synapse_config_def cfg apply_outcome_def sample_record_def from_record_def
        synapse_config_default_def affinity_for_def hm_values_def to_record_def update_state_def
        normalize_outbound_weights_def filter_default_def filter_matches_def Memory_Store.truncate_def sort_by_def)
qed

lemma week_in_hours: "ns_to_hours 604800000000000 = Fin 168"
proof -
  have "fl_of_nat b64 (unat (604800000000000 :: u64)) = fl_pack b64 False 604800000000000" by (simp add: fl_of_nat_def)
  also have "\<dots> = Fin 604800000000000" by code_simp
  finally have "ns_to_hours 604800000000000 = fl_cast b32 (fl_div b64 (Fin 604800000000000) (Fin 3600000000000))"
    unfolding ns_to_hours_def hour_exact by simp
  also have "\<dots> = Fin 168" by code_simp
  finally show ?thesis .
qed

lemma edge_half_life: "lc_decay_half_life_hours (learning_for_class DcEdge) = Fin 168"
  by (simp add: learning_for_class_def) code_simp

lemma minus_one: "fl_div b32 (fl_neg (Fin 168)) (Fin 168) = Fin (-1)"
  by code_simp

text \<open>
  A failure can revive an idle synapse. A synapse of weight a half, idle for one
  half-life, is routed at a quarter. When a forward over it then fails, the penalty is taken
  from the stored, undecayed weight and the synapse is stamped as active: from that moment
  it is routed at about 0.475. A transport failure has nearly doubled its routing weight.
\<close>

theorem failure_revives_idle:
  assumes exp2: "lm_exp2 lm (Fin (-1)) = Fin (1/2)"
  shows "routing_weight lm ''a'' 604800000000000 idle_node = Some (Fin (1/4)) \<and>
   (\<exists>u n'. fail_forward (memory_env lm ul) 1 604800000000000 idle_node = (Inr (Some u), n') \<and>
      routing_weight lm ''a'' 604800000000000 n' = Some (Fin (15938355/33554432)))"
proof
  have cfg: "nc_learning (config_for_class True DcEdge) = learning_for_class DcEdge"
    by (simp add: config_for_class_def)
  have life: "fl_div b32 (fl_neg (ns_to_hours 604800000000000)) (lc_decay_half_life_hours (learning_for_class DcEdge)) = Fin (-1)"
    "lc_min_weight (learning_for_class DcEdge) = lit 0.001"
    unfolding week_in_hours edge_half_life minus_one by (simp_all add: learning_for_class_def)
  show "routing_weight lm ''a'' 604800000000000 idle_node = Some (Fin (1/4))"
    using idle_numbers(9) life exp2
    by (simp add: routing_weight_def rehydrate_def synapse_decayed_weight_def decayed_weight_def from_record_def sample_record_def
        learning_def cfg idle_node_def sample_node_def memory_new_def Let_def)
  show "\<exists>u n'. fail_forward (memory_env lm ul) 1 604800000000000 idle_node = (Inr (Some u), n') \<and>
      routing_weight lm ''a'' 604800000000000 n' = Some (Fin (15938355/33554432))"
    using idle_failure [of lm ul]
    by (fastforce simp: routing_weight_def rehydrate_def synapse_decayed_weight_def decayed_weight_def from_record_def
        sample_record_def learning_def Let_def)
qed

lemma failure_revives_idle_witness:
  "\<exists>u n'. fail_forward sample_env 1 604800000000000 idle_node = (Inr (Some u), n') \<and>
     routing_weight sample_libm ''a'' 604800000000000 n' = Some (Fin (15938355/33554432))"
  using failure_revives_idle [of sample_libm sample_ulid] by (simp add: sample_libm_def)

section \<open>Connecting\<close>

text \<open>
  C27: Connecting yields the one usable synapse to the peer, or a cooldown. Where no peer
  has two synapses, connecting either is refused, changes nothing, and only happens while
  the peer's pruned synapse is still in its cooldown; or it returns a synapse to that peer
  that is neither dormant nor pruned, stores it, changes no other synapse and no journal
  entry, keeps one synapse to a peer, and a second call returns the same and changes nothing.
\<close>

theorem connection_sound:
  assumes host: "node_host api healthy seen table journal en"
    and ok: "node_ok healthy table journal c me n" and one: "one_per_peer (table (nd_store n))"
    and run: "upsert_synapse en p now n = (x, n')"
  shows "(case x of
      Inl e \<Rightarrow> n' = n \<and> (\<exists>r k. e = Err (InvalidSignal (InCooldown p k)) \<and> r \<in> ran (table (nd_store n)) \<and> sr_peer r = p \<and>
        sr_state r = Pruned \<and> now < cooldown_until (nc_learning c) r)
    | Inr r \<Rightarrow> connected p (table (nd_store n)) r (table (nd_store n')) \<and> journal (nd_store n') = journal (nd_store n) \<and>
        upsert_synapse en p later n' = (Inr r, n') \<and>
        (\<forall>q \<in> ran (table (nd_store n)). sr_peer q = p \<and> sr_state q = Pruned \<longrightarrow> cooldown_until (nc_learning c) q \<le> now))"
proof -
  have v: "healthy (nd_store n)" using ok by (simp add: node_ok_def)
  from node_host.run_upsert [OF host ok _ one, of "seen (nd_store n)" "journal (nd_store n)" p now] v
  consider (refused) r k where "x = Inl (Err (InvalidSignal (InCooldown p k)))" "n' = n" "table (nd_store n) (sr_id r) = Some r" "sr_peer r = p"
      "sr_state r = Pruned" "now < cooldown_until (nc_learning c) r"
    | (up) r where "x = Inr r" "healthy (nd_store n')" "table (nd_store n') = (table (nd_store n))(sr_id r \<mapsto> r)"
      "journal (nd_store n') = journal (nd_store n)" "connected p (table (nd_store n)) r (table (nd_store n'))"
      "\<forall>q \<in> ran (table (nd_store n)). sr_peer q = p \<and> sr_state q = Pruned \<longrightarrow> cooldown_until (nc_learning c) q \<le> now"
    using run by fastforce
  then show ?thesis
  proof cases
    case refused
    then show ?thesis by (auto intro: ranI)
  next
    case up
    then have "upsert_synapse en p later n' = (Inr r, n')"
      by (intro node_host.upsert_again [OF host, of _ _ "table (nd_store n')"]) (simp_all add: connected_def)
    then show ?thesis using up by simp
  qed
qed

lemma connection_sound_witness:
  "\<exists>r n'. upsert_synapse sample_env [2] 5 sample_node = (Inr r, n') \<and> connected [2] Map.empty r (mem_table (nd_store n')) \<and>
     upsert_synapse sample_env [2] 9 n' = (Inr r, n')"
proof -
  have T: "mem_table (nd_store sample_node) = Map.empty" by (auto simp: sample_node_def memory_new_def)
  obtain x n' where run: "upsert_synapse sample_env [2] 5 sample_node = (x, n')" by fastforce
  have "one_per_peer (mem_table (nd_store sample_node))" by (simp add: T one_per_peer_def)
  note sound = connection_sound [OF memory_host sample_node_ok this run, of 9]
  show ?thesis
  proof (cases x)
    case (Inl e)
    then show ?thesis using sound T by auto
  next
    case (Inr r)
    then show ?thesis using sound run T by auto
  qed
qed

section \<open>The health report\<close>

context node_host
begin

lemma run_health:
  assumes "healthy (nd_store n)"
  obtains es where "learning_health en k n = (Inr (health_of es), n)" "length es = min k (length (journal (nd_store n)))"
proof -
  obtain es where es: "st_recent_decisions api None k (nd_store n) = (Inr es, nd_store n)" "length es = min k (length (journal (nd_store n)))"
    using recent_law [OF assms, of None k] by auto
  then show ?thesis using that [of es] by (simp add: learning_health_def env op_bind_def store_op_def)
qed

end

text \<open>
  The health report is made of shares. Over any contract-keeping store, asking about
  the last \<open>k\<close> decisions never fails and changes nothing; it samples as many as there are
  up to \<open>k\<close>; and each of the three ratios, computed in single precision, is a number of
  the unit interval.
\<close>

theorem health_ratios:
  assumes host: "node_host api healthy seen table journal en"
    and ok: "node_ok healthy table journal c me n" and size: "length (journal (nd_store n)) < 2 ^ 64"
  shows "\<exists>h. learning_health en k n = (Inr h, n) \<and> lh_decisions_sampled h = min k (length (journal (nd_store n))) \<and>
    in_unit (lh_exploration_ratio h) \<and> in_unit (lh_pending_ratio h) \<and> in_unit (lh_delivery_ratio h)"
proof -
  have "healthy (nd_store n)" using ok by (simp add: node_ok_def)
  then obtain es where run: "learning_health en k n = (Inr (health_of es), n)" "length es = min k (length (journal (nd_store n)))"
    by (rule node_host.run_health [OF host])
  have "length es < 2 ^ 64" using run(2) size by simp
  then have share: "in_unit (fl_div b32 (fl_of_nat b32 (length (filter P es))) (fl_of_nat b32 (length es)))" if "es \<noteq> []" for P
    using that by (intro share_unit_nat) simp_all
  show ?thesis
  proof (cases "es = []")
    case True
    then show ?thesis using run by (simp add: health_of_def health_default_def)
  next
    case False
    then show ?thesis using run share by (simp add: health_of_def health_default_def Let_def)
  qed
qed

lemma health_ratios_witness:
  "\<exists>h. learning_health sample_env 10 idle_node = (Inr h, idle_node) \<and> lh_decisions_sampled h = 1 \<and> in_unit (lh_delivery_ratio h)"
  using health_ratios [OF memory_host idle_node_ok, of sample_libm sample_ulid 10] by auto

section \<open>Restart\<close>

text \<open>
  C28: A node picks up where its checkpoint left it. When a node on the in-memory store
  checkpoints and is built again on the same store with no identity given, the build
  succeeds, the new node has the identity, the synapses and the journal of the old one,
  and its gate the potential, threshold, refractory deadline and count of fired signals;
  the queue of signals in flight is empty.
\<close>

theorem restart_resumes:
  assumes api: "en_api en = memory_api" and m: "mem_ok (nd_store n)" and gate: "\<not> nd_activation_poisoned n"
    and id: "map_of (ms_meta (nd_store n)) ''node-id'' = Some (nd_identity n)"
    and valid: "config_validate cc c = Inr ()"
    and pot: "fl_le (Fin 0) (as_potential (nd_activation n))" "fl_le (as_potential (nd_activation n)) (ac_max_potential (nc_activation c))"
  shows "\<exists>n1 r g m2. checkpoint en t n = (Inr (), n1) \<and>
    build fs cc memory_api host w (with_clock (with_store (with_config node_builder_new c) (nd_store n1)) now) =
      (Inr \<lparr>nd_identity = nd_identity n, nd_config = c, nd_store = m2, nd_rng = r, nd_rng_poisoned = False,
         nd_activation = g, nd_activation_poisoned = False\<rparr>, Some m2) \<and>
    mem_table m2 = mem_table (nd_store n) \<and> ms_journal m2 = ms_journal (nd_store n) \<and>
    snapshot g t = snapshot (nd_activation n) t \<and> as_queue g = []"
proof -
  let ?m1 = "(nd_store n)\<lparr>ms_activation := Some (snapshot (nd_activation n) t),
     ms_seen := filter (\<lambda>(_, e). t < e) (ms_seen (nd_store n))\<rparr>"
  have p: "ms_poisoned (nd_store n) = {}" using m by (simp add: mem_ok_def)
  have cp: "checkpoint en t n = (Inr (), n\<lparr>nd_store := ?m1\<rparr>)"
    using p gate by (simp add: checkpoint_def api op_bind_def with_gate_def store_op_def mem_ops Let_def)
  have "fl_clamp (Fin 0) (ac_max_potential (nc_activation c)) (as_potential (nd_activation n)) = Some (as_potential (nd_activation n))"
    using pot fl_le_trans [OF pot] by (auto simp: fl_clamp_def clamp_to_id)
  then obtain g where g: "restore (gate_new (nc_activation c)) (snapshot (nd_activation n) t) = Some g"
    "snapshot g t = snapshot (nd_activation n) t" "as_queue g = []"
    by (auto simp: restore_def snapshot_def gate_new_def)
  have load: "mem_load_activation ?m1 = (Inr (Some (snapshot (nd_activation n) t)), ?m1)"
    "mem_get_meta ''node-id'' ?m1 = (Inr (Some (nd_identity n)), ?m1)"
    using p id by (simp_all add: mem_load_activation_def mem_get_meta_def locked_def)
  show ?thesis
    unfolding cp using load g valid
    by (simp add: build_def build_config_def build_on_def build_identity_def config_op_def op_bind_def mem_migrate_def
        with_clock_def with_store_def with_config_def node_builder_new_def Let_def)
qed

lemma restart_resumes_witness:
  "\<exists>n1 n2 m2. checkpoint sample_env 9 (sample_node\<lparr>nd_store := memory_new\<lparr>ms_meta := [(''node-id'', [1])]\<rparr>\<rparr>) = (Inr (), n1) \<and>
     build sample_files True memory_api None Map.empty
       (with_clock (with_store (with_config node_builder_new (config_for_class True DcEdge)) (nd_store n1)) 20) = (Inr n2, Some m2) \<and>
     nd_identity n2 = [1]"
proof -
  let ?n = "sample_node\<lparr>nd_store := memory_new\<lparr>ms_meta := [(''node-id'', [1])]\<rparr>\<rparr>"
  have "en_api sample_env = memory_api" "mem_ok (nd_store ?n)" "\<not> nd_activation_poisoned ?n"
    "map_of (ms_meta (nd_store ?n)) ''node-id'' = Some (nd_identity ?n)"
    by (simp_all add: memory_env_def sample_node_def mem_ok_def memory_new_def)
  moreover have "fl_le (Fin 0) (as_potential (nd_activation ?n))" by (simp add: sample_node_def gate_new_def fl_le_finite)
  moreover have "fl_le (as_potential (nd_activation ?n)) (ac_max_potential (nc_activation (config_for_class True DcEdge)))"
    by (simp add: sample_node_def gate_new_def config_for_class_def activation_for_class_def) code_simp
  ultimately show ?thesis
    using restart_resumes [of sample_env ?n True "config_for_class True DcEdge" 9 sample_files None Map.empty 20] class_config_valid
    by (fastforce simp: sample_node_def)
qed

end
