(* ===== verification/Handshake.thy ===== *)
theory Handshake
  imports Runtime Node_Outcomes
begin

text \<open>
  The handshake (\<open>handshake\<close> of \<open>runtime/ntl-net/src/runtime.rs\<close>) and the start of a
  runtime. A connection is a reader and a writer; whether the next frame arrives in time,
  and what the operating system's generator puts into the challenge, are arguments.
\<close>

section \<open>Messages\<close>

definition CHALLENGE_LEN :: nat where
  "CHALLENGE_LEN = 32"

definition hello_payload :: "'p wire_json \<Rightarrow> PublicKey \<Rightarrow> u8 list \<Rightarrow> 'p" where
  "hello_payload js public challenge = wj_object js [(''public_key'', wj_bytes js public),
     (''module'', wj_string js CLASSICAL_ID), (''challenge'', wj_bytes js challenge)]"

definition proof_payload :: "'p wire_json \<Rightarrow> u8 list \<Rightarrow> 'p" where
  "proof_payload js their_challenge = wj_object js [(''proof_for'', wj_bytes js their_challenge)]"

definition payload_bytes :: "'p wire_json \<Rightarrow> 'p Signal \<Rightarrow> string \<Rightarrow> RuntimeError + u8 list" where
  "payload_bytes js g field = (case Option.bind (wj_get js (sg_payload g) field) (wj_to_bytes js) of
     None \<Rightarrow> Inl (RtHandshake (NoField field)) | Some b \<Rightarrow> Inr b)"

definition verify_handshake_frame ::
  "('m, 's, 'p, 'k, 'v) RtEnv \<Rightarrow> 'p Signal \<Rightarrow> PublicKey \<Rightarrow> NodeId \<Rightarrow> string \<Rightarrow> RuntimeError + unit" where
  "verify_handshake_frame en g key expected what =
    (if sg_type g \<noteq> Discovery then Inl (RtHandshake (NotDiscovery what (sg_type g)))
     else if sg_origin g \<noteq> expected then Inl (RtHandshake (OtherIdentity what))
     else case verify_signal (re_cbor en) (crypto en) g key of
       Inl e \<Rightarrow> Inl (RtCrypto e)
     | Inr ok \<Rightarrow> if ok then Inr () else Inl (RtHandshake (SignatureInvalid what)))"

text \<open>The checks on the peer's hello: the key it presents hashes to the identity it claims
  and signed it, it is not this node's own, and its challenge has the right size.\<close>

definition check_hello :: "('m, 's, 'p, 'k, 'v) RtEnv \<Rightarrow> 'p Signal \<Rightarrow> RuntimeError + PeerIdentity \<times> u8 list" where
  "check_hello en hello = (case payload_bytes (re_json en) hello ''public_key'' of
     Inl e \<Rightarrow> Inl e
   | Inr public_key \<Rightarrow>
       (let derived = node_id_from_public_key (re_blake en) public_key
        in if derived \<noteq> sg_origin hello then Inl (RtHandshake IdentityMismatch)
           else case verify_handshake_frame en hello public_key derived ''hello'' of
             Inl e \<Rightarrow> Inl e
           | Inr _ \<Rightarrow>
               if derived = my_id en then Inl (RtHandshake OwnIdentity)
               else (case payload_bytes (re_json en) hello ''challenge'' of
                 Inl e \<Rightarrow> Inl e
               | Inr their_challenge \<Rightarrow>
                   if length their_challenge \<noteq> CHALLENGE_LEN then Inl (RtHandshake (ChallengeLength (length their_challenge)))
                   else Inr (\<lparr>pi_node_id = derived, pi_public_key = public_key\<rparr>, their_challenge))))"

text \<open>The checks on its proof: signed by the same key, and it echoes our challenge.\<close>

definition check_proof ::
  "('m, 's, 'p, 'k, 'v) RtEnv \<Rightarrow> PeerIdentity \<Rightarrow> u8 list \<Rightarrow> 'p Signal \<Rightarrow> RuntimeError + unit" where
  "check_proof en peer challenge proof = (case verify_handshake_frame en proof (pi_public_key peer) (pi_node_id peer) ''proof'' of
     Inl e \<Rightarrow> Inl e
   | Inr _ \<Rightarrow> (case payload_bytes (re_json en) proof ''proof_for'' of
       Inl e \<Rightarrow> Inl e
     | Inr echoed \<Rightarrow> if echoed \<noteq> challenge then Inl (RtHandshake ProofMismatch) else Inr ()))"

section \<open>The exchange\<close>

type_synonym ('m, 's, 'p, 'r, 'w, 'a) hs_op = "('r \<times> 'w \<times> ('m, 's, 'p) Runtime, RuntimeError, 'a) op"

definition on_runtime :: "('m, 's, 'p, 'a) rt_op \<Rightarrow> ('m, 's, 'p, 'r, 'w, 'a) hs_op" where
  "on_runtime f st = (let (r, w, s) = st; (x, s') = f s in (x, (r, w, s')))"

definition on_reader :: "('r, FrameError, 'a) op \<Rightarrow> ('m, 's, 'p, 'r, 'w, 'a) hs_op" where
  "on_reader f st = (let (r, w, s) = st; (x, r') = op_map_err RtFrame f r in (x, (r', w, s)))"

definition on_writer :: "('w, FrameError, 'a) op \<Rightarrow> ('m, 's, 'p, 'r, 'w, 'a) hs_op" where
  "on_writer f st = (let (r, w, s) = st; (x, w') = op_map_err RtFrame f w in (x, (r, w', s)))"

definition hs_result :: "RuntimeError + 'a \<Rightarrow> ('m, 's, 'p, 'r, 'w, 'a) hs_op" where
  "hs_result x = (case x of Inl e \<Rightarrow> op_fail e | Inr y \<Rightarrow> op_ret y)"

definition read_handshake_frame ::
  "'r source_api \<Rightarrow> bool \<Rightarrow> ('m, 's, 'p, 'k, 'v) RtEnv \<Rightarrow> string \<Rightarrow> ('m, 's, 'p, 'r, 'w, 'p Signal) hs_op" where
  "read_handshake_frame so timely en what =
    (if timely then on_reader (read_signal so (re_cbor en)) else op_fail (RtHandshake (TimedOutWaiting what)))"

text \<open>A frame of our own: emitted by the node, signed.\<close>

definition handshake_signal :: "('m, 's, 'p, 'k, 'v) RtEnv \<Rightarrow> 'p \<Rightarrow> ('m, 's, 'p, 'p Signal) rt_op" where
  "handshake_signal en payload = op_bind (node_emit en (with_payload (signal_discovery (wj_base (re_json en))) payload)) (\<lambda>r. case r of
     Inl e \<Rightarrow> op_fail (RtNode (Err e))
   | Inr g \<Rightarrow> (case sign_signal (re_cbor en) (crypto en) g (id_private (re_identity en)) of
       Inl e \<Rightarrow> op_fail (RtCrypto e) | Inr h \<Rightarrow> op_ret h))"

definition write_handshake_frame ::
  "'w sink_api \<Rightarrow> ('m, 's, 'p, 'k, 'v) RtEnv \<Rightarrow> 'p \<Rightarrow> ('m, 's, 'p, 'r, 'w, unit) hs_op" where
  "write_handshake_frame sk en payload = op_bind (on_runtime (handshake_signal en payload)) (\<lambda>g.
     on_writer (write_signal sk (re_cbor en) g))"

definition form_synapse :: "('m, 's, 'p, 'k, 'v) RtEnv \<Rightarrow> NodeId \<Rightarrow> ('m, 's, 'p, SynapseRecord) rt_op" where
  "form_synapse en p = op_bind (node_call en (upsert_synapse (re_node en) p)) (\<lambda>r. case r of
     Inl e \<Rightarrow> op_fail (RtNode (Err e)) | Inr x \<Rightarrow> op_ret x)"

definition handshake ::
  "'r source_api \<Rightarrow> 'w sink_api \<Rightarrow> (string \<Rightarrow> bool) \<Rightarrow> ('m, 's, 'p, 'k, 'v) RtEnv \<Rightarrow> u8 list \<Rightarrow>
     ('m, 's, 'p, 'r, 'w, PeerIdentity) hs_op" where
  "handshake so sk timely en challenge =
     op_bind (write_handshake_frame sk en (hello_payload (re_json en) (id_public (re_identity en)) challenge)) (\<lambda>_.
     op_bind (read_handshake_frame so (timely ''hello'') en ''hello'') (\<lambda>their_hello.
     op_bind (hs_result (check_hello en their_hello)) (\<lambda>(peer, their_challenge).
     op_bind (write_handshake_frame sk en (proof_payload (re_json en) their_challenge)) (\<lambda>_.
     op_bind (read_handshake_frame so (timely ''proof'') en ''proof'') (\<lambda>their_proof.
     op_bind (hs_result (check_proof en peer challenge their_proof)) (\<lambda>_.
     op_bind (on_runtime (form_synapse en (pi_node_id peer))) (\<lambda>_.
     op_ret peer)))))))"

text \<open>A session up to its read loop: the handshake, then registration.\<close>

definition open_session ::
  "'r source_api \<Rightarrow> 'w sink_api \<Rightarrow> (string \<Rightarrow> bool) \<Rightarrow> ('m, 's, 'p, 'k, 'v) RtEnv \<Rightarrow> u8 list \<Rightarrow>
     ('m, 's, 'p, 'r, 'w, PeerIdentity) hs_op" where
  "open_session so sk timely en challenge = op_bind (handshake so sk timely en challenge) (\<lambda>peer.
     op_bind (on_runtime (join_session peer)) (\<lambda>_. op_ret peer))"

section \<open>Starting a runtime\<close>

text \<open>\<open>Runtime::new\<close>: what the operating system's generator supplies is the entropy of a new
  identity and the state of the node's generator.\<close>

definition runtime_new ::
  "'f file_api \<Rightarrow> bool \<Rightarrow> 'm store_api \<Rightarrow> ('k, 'v) ed25519 \<Rightarrow> blake3 \<Rightarrow> u8 list \<Rightarrow> 's \<Rightarrow> u64 option \<Rightarrow> 'f \<Rightarrow>
     NodeConfig \<Rightarrow> 'm \<Rightarrow> RuntimeError + ('m, 's BoxRng, 'p) Runtime \<times> Identity" where
  "runtime_new fs cc api ed bl entropy os_rng host w config m = (case st_migrate api m of
     (Inl e, _) \<Rightarrow> Inl (RtStore e)
   | (Inr _, m1) \<Rightarrow> (case load_or_create api ed bl entropy m1 of
       (Inl e, _) \<Rightarrow> Inl (RtIdentity e)
     | (Inr identity, m2) \<Rightarrow>
         (case build fs cc api host w (with_supplied_rng (with_store (with_identity (with_config node_builder_new config)
             (id_node_id identity)) m2) os_rng) of
            (Inl stop, _) \<Rightarrow> Inl (RtNode stop)
          | (Inr node, _) \<Rightarrow> Inr (\<lparr>rt_node = node, rt_sessions = [], rt_pending = [], rt_events = [], rt_reads = 0\<rparr>, identity))))"

section \<open>What the checks mean\<close>

definition json_sound :: "'p wire_json \<Rightarrow> bool" where
  "json_sound js \<longleftrightarrow> (\<forall>kvs k. wj_get js (wj_object js kvs) k = map_of kvs k) \<and> (\<forall>b. wj_to_bytes js (wj_bytes js b) = Some b)"

lemma payload_fields:
  assumes "json_sound js"
  shows "sg_payload g = hello_payload js pk c \<Longrightarrow> payload_bytes js g ''public_key'' = Inr pk"
    "sg_payload g = hello_payload js pk c \<Longrightarrow> payload_bytes js g ''challenge'' = Inr c"
    "sg_payload g = proof_payload js c \<Longrightarrow> payload_bytes js g ''proof_for'' = Inr c"
  using assms by (simp_all add: json_sound_def payload_bytes_def hello_payload_def proof_payload_def)

lemma verify_frame_ok:
  "verify_handshake_frame en g key expected what = Inr () \<longleftrightarrow>
   sg_type g = Discovery \<and> sg_origin g = expected \<and> verify_signal (re_cbor en) (crypto en) g key = Inr True"
  by (auto simp: verify_handshake_frame_def split: sum.splits)

text \<open>The outcome of a check followed by another.\<close>

lemma check_then: "(case x of Inl e \<Rightarrow> Inl e | Inr u \<Rightarrow> f u) = Inr y \<longleftrightarrow> (\<exists>u. x = Inr u \<and> f u = Inr y)"
  by (cases x) auto

lemma guard_then: "(if b then Inl e else x) = Inr y \<longleftrightarrow> \<not> b \<and> x = Inr y"
  by simp

lemma check_hello_ok:
  "check_hello en g = Inr (peer, c) \<longleftrightarrow>
   payload_bytes (re_json en) g ''public_key'' = Inr (pi_public_key peer) \<and>
   pi_node_id peer = node_id_from_public_key (re_blake en) (pi_public_key peer) \<and>
   sg_origin g = pi_node_id peer \<and> sg_type g = Discovery \<and>
   verify_signal (re_cbor en) (crypto en) g (pi_public_key peer) = Inr True \<and>
   pi_node_id peer \<noteq> my_id en \<and> payload_bytes (re_json en) g ''challenge'' = Inr c \<and> length c = CHALLENGE_LEN"
  unfolding check_hello_def Let_def check_then guard_then by (cases peer) (auto simp: verify_frame_ok)

lemma check_proof_ok:
  "check_proof en peer c g = Inr () \<longleftrightarrow>
   sg_type g = Discovery \<and> sg_origin g = pi_node_id peer \<and>
   verify_signal (re_cbor en) (crypto en) g (pi_public_key peer) = Inr True \<and> payload_bytes (re_json en) g ''proof_for'' = Inr c"
  unfolding check_proof_def check_then guard_then by (auto simp: verify_frame_ok)

end
