(* ===== verification/Runtime_Safety.thy ===== *)
theory Runtime_Safety
  imports Handshake
begin

text \<open>
  Safety of the runtime over any store that keeps its contract: whatever the connections
  deliver and however the tasks interleave, no task dies, the shared state keeps its
  invariant, and a session ends only for the reasons the code names.
\<close>

section \<open>The invariant\<close>

definition rt_inv ::
  "('m \<Rightarrow> bool) \<Rightarrow> ('m \<Rightarrow> SynapseId \<rightharpoonup> SynapseRecord) \<Rightarrow> ('m \<Rightarrow> JournalEntry list) \<Rightarrow> NodeConfig \<Rightarrow> NodeId \<Rightarrow>
   ('m, 's, 'p) Runtime \<Rightarrow> bool" where
  "rt_inv healthy table journal c me s \<longleftrightarrow> node_ok healthy table journal c me (rt_node s) \<and>
     hm_wf (rt_sessions s) \<and> (\<forall>p se. map_of (rt_sessions s) p = Some se \<longrightarrow> length (se_outbound se) \<le> PEER_QUEUE_DEPTH) \<and>
     hm_wf (rt_pending s) \<and> (\<forall>i g. map_of (rt_pending s) i = Some g \<longrightarrow> \<not> fl_is_nan (sg_weight g))"

lemma map_of_delete: "map_of (AList.delete k m) i = (if i = k then None else map_of m i)"
  by (simp add: delete_conv')

locale rt_host = node_host api healthy seen table journal "re_node rt"
  for api :: "'m store_api" and healthy :: "'m \<Rightarrow> bool" and seen :: "'m \<Rightarrow> SignalId \<rightharpoonup> u64"
    and table :: "'m \<Rightarrow> SynapseId \<rightharpoonup> SynapseRecord" and journal :: "'m \<Rightarrow> JournalEntry list"
    and rt :: "('m, 's, 'p, 'k, 'v) RtEnv"
begin

abbreviation rinv :: "NodeConfig \<Rightarrow> NodeId \<Rightarrow> ('m, 's, 'p) Runtime \<Rightarrow> bool" where
  "rinv \<equiv> rt_inv healthy table journal"

lemma ok_inv: "inv c me t Map.empty n \<longleftrightarrow> ok c me n"
  unfolding node_inv_iff seen_ext_def seen_through_def seen_live_def by force

lemma safe_ok: "safe (inv c me t Map.empty) E f R \<Longrightarrow> safe (ok c me) E f R"
  by (simp add: safe_def ok_inv)

lemma rinv_node: "rinv c me s \<Longrightarrow> ok c me n \<Longrightarrow> rinv c me (s\<lparr>rt_node := n\<rparr>)"
  by (simp add: rt_inv_def)

lemma safe_clock: "safe (rinv c me) E (read_clock rt) (\<lambda>_. True)"
  by (simp add: safe_def ends_def read_clock_def rt_inv_def)

lemma safe_event: "safe (rinv c me) E (send_event ev) (\<lambda>_. True)"
  by (simp add: safe_def ends_def send_event_def rt_inv_def)

lemma safe_config: "safe (rinv c me) E rt_config (\<lambda>c'. c' = c)"
  by (simp add: safe_def ends_def rt_config_def rt_inv_def node_ok_def)

lemma safe_on_node:
  assumes f: "safe (ok c me) F f R" and err: "\<And>e. F e \<Longrightarrow> \<exists>x. e = Err x"
  shows "safe (rinv c me) E (on_node f) (\<lambda>x. case x of Inl e \<Rightarrow> F (Err e) | Inr y \<Rightarrow> R y)"
  unfolding safe_def
proof (intro allI impI)
  fix s assume s: "rinv c me s"
  then have n: "ok c me (rt_node s)" by (simp add: rt_inv_def)
  obtain r n' where run: "f (rt_node s) = (r, n')" by fastforce
  note out = safe_run [OF f n run]
  show "ends (on_node f) s (\<lambda>x s'. rinv c me s' \<and> (case x of Inl e \<Rightarrow> F (Err e) | Inr y \<Rightarrow> R y)) (\<lambda>e s'. rinv c me s' \<and> E e)"
  proof (cases r)
    case (Inl e)
    then obtain x where "e = Err x" using err out(2) by blast
    then show ?thesis using run Inl out(1,2) rinv_node [OF s] by (simp add: ends_def on_node_def)
  next
    case (Inr y)
    then show ?thesis using run out(1,3) rinv_node [OF s] by (simp add: ends_def on_node_def)
  qed
qed

text \<open>A call of the node that cannot fail, with the clock read first.\<close>

lemma safe_call:
  assumes "\<And>now. safe (ok c me) (\<lambda>_. False) (f now) R"
  shows "safe (rinv c me) E (node_call rt f) (\<lambda>x. \<exists>y. x = Inr y \<and> R y)"
  unfolding node_call_def
  by (intro safe_bind [OF safe_clock] safe_weaken [OF safe_on_node [OF assms]]) (auto split: sum.splits)

lemma safe_node_emit: "safe (rinv c me) E (node_emit rt b) (\<lambda>x. \<exists>y. x = Inr y \<and> (sg_weight y = sb_weight b))"
proof -
  have e: "safe (ok c me) (\<lambda>_. False) (emit (re_node rt) b now t1 t2) (\<lambda>y. sg_weight y = sb_weight b)" for now t1 t2
    unfolding safe_def
  proof (intro allI impI)
    fix n assume n: "ok c me n"
    obtain r n' where run: "emit (re_node rt) b now t1 t2 n = (r, n')" by fastforce
    from safe_run [OF safe_ok [OF safe_emit [where E = "\<lambda>_. False"]] n run]
    obtain y where y: "ok c me n'" "r = Inr y" by (cases r) auto
    moreover have "sg_weight y = sb_weight b"
      using run y(2) by (auto simp: emit_def op_bind_def self_def with_rng_def store_op_def build_unsigned_with_def Let_def
          split: if_splits prod.splits sum.splits)
    ultimately show "ends (emit (re_node rt) b now t1 t2) n (\<lambda>y n'. ok c me n' \<and> sg_weight y = sb_weight b) (\<lambda>e n'. ok c me n' \<and> False)"
      using run by (simp add: ends_def)
  qed
  show ?thesis unfolding node_emit_def
    by (intro safe_bind [OF safe_clock] safe_weaken [OF safe_on_node [OF e]]) (auto split: sum.splits)
qed

lemma safe_peer_record: "safe (rinv c me) E (peer_record rt p) (\<lambda>_. True)"
proof -
  have "ends (peer_record rt p) s (\<lambda>x s'. rinv c me s' \<and> True) F" if s: "rinv c me s" for s F
  proof -
    have "healthy (nd_store (rt_node s))" using s by (simp add: rt_inv_def node_ok_def)
    then obtain q where "st_synapse_for_peer api p (nd_store (rt_node s)) = (Inr q, nd_store (rt_node s))"
      using for_peer_law [of "nd_store (rt_node s)" p] by blast
    then show ?thesis using s by (simp add: ends_def peer_record_def env)
  qed
  then show ?thesis by (simp add: safe_def)
qed

lemma safe_peer_synapse: "safe (rinv c me) E (peer_synapse rt p) (\<lambda>_. True)"
  unfolding peer_synapse_def by (intro safe_bind [OF safe_peer_record] safe_ret TrueI)

lemma safe_push: "safe (rinv c me) E (push_to p g) (\<lambda>_. True)"
  by (auto simp: safe_def ends_def push_to_def rt_inv_def can_send_def hm_get_update split: option.split)

lemma safe_take: "safe (rinv c me) E (take_body i) (\<lambda>b. \<forall>g. b = Some g \<longrightarrow> \<not> fl_is_nan (sg_weight g))"
  by (auto simp: safe_def ends_def take_body_def rt_inv_def map_of_delete)

section \<open>Every task is safe\<close>

lemma safe_send_each: "safe (rinv c me) E (send_each i pc g fs sent failed) (\<lambda>_. True)"
  by (induction fs arbitrary: sent failed) (auto intro!: safe_ret safe_bind [OF safe_push] safe_if)

lemma safe_fail_each: "config_sane c \<Longrightarrow> safe (rinv c me) E (fail_each rt is) (\<lambda>_. True)"
  by (induction "is") (auto intro!: safe_ret safe_bind [OF safe_call [OF safe_ok, OF safe_fail_forward]])

lemma safe_forward: "config_sane c \<Longrightarrow> safe (rinv c me) E (forward_signal rt g fs) (\<lambda>_. True)"
  unfolding forward_signal_def
  by (auto intro!: safe_if safe_ret safe_bind [OF safe_config] safe_bind [OF safe_send_each] safe_bind [OF safe_fail_each]
      safe_bind [OF safe_event])

lemma safe_signed_receipt: "safe (rinv c me) E (signed_receipt rt rc origin) (\<lambda>_. True)"
  unfolding signed_receipt_def by (intro safe_bind [OF safe_node_emit] safe_ret TrueI)

lemma safe_receipt_to: "safe (rinv c me) E (send_receipt_to rt rc origin) (\<lambda>_. True)"
  unfolding send_receipt_to_def by (intro safe_bind [OF safe_signed_receipt] safe_option safe_ret safe_push TrueI)

lemma safe_receipt: "safe (rinv c me) E (send_receipt rt rc origin via) (\<lambda>_. True)"
proof -
  have target: "safe (rinv c me) E (receipt_target origin via) (\<lambda>_. True)" by (simp add: safe_def ends_def receipt_target_def)
  show ?thesis unfolding send_receipt_def
    by (intro safe_bind [OF safe_signed_receipt] safe_option safe_ret safe_bind [OF target] safe_bind [OF safe_push] TrueI)
qed

lemma safe_arrival: "safe (rinv c me) E (arrival_of rt g) (\<lambda>_. True)"
  unfolding arrival_of_def by (intro safe_if safe_ret safe_peer_synapse TrueI)

lemma safe_plan: "\<not> fl_is_nan (sg_weight g) \<Longrightarrow>
    safe (rinv c me) E (node_call rt (plan_release (re_node rt) g a)) (\<lambda>x. \<exists>y. x = Inr y \<and> True)"
  unfolding plan_release_def by (rule safe_call [OF safe_ok]) (rule safe_weaken [OF safe_plan_forwarding], simp_all)

lemma safe_release:
  assumes sane: "config_sane c" and w: "\<forall>g. body = Some g \<longrightarrow> \<not> fl_is_nan (sg_weight g)"
  shows "safe (rinv c me) E (release_signal rt i body plan how) (\<lambda>_. True)"
proof (cases body)
  case None
  then show ?thesis by (simp add: release_signal_def safe_event)
next
  case (Some g)
  then have w: "\<not> fl_is_nan (sg_weight g)" using w by simp
  have fresh: "safe (rinv c me) E (op_bind (node_call rt (plan_release (re_node rt) g a))
      (\<lambda>r. op_ret (case r of Inr p \<Rightarrow> p | Inl _ \<Rightarrow> []))) (\<lambda>_. True)" for a
    by (intro safe_bind [OF safe_plan [OF w]] safe_ret TrueI)
  have planned: "safe (rinv c me) E (case plan of Some p \<Rightarrow> op_ret p
      | None \<Rightarrow> op_bind (node_call rt (plan_release (re_node rt) g a)) (\<lambda>r. op_ret (case r of Inr p \<Rightarrow> p | Inl _ \<Rightarrow> []))) (\<lambda>_. True)" for a
    by (cases plan) (simp_all add: fresh safe_ret)
  show ?thesis unfolding release_signal_def Some option.simps
    by (intro safe_bind [OF safe_event] safe_bind [OF safe_arrival] safe_bind [OF planned] safe_bind [OF safe_forward [OF sane]]
        safe_if safe_bind [OF safe_receipt_to] safe_ret TrueI)
qed

lemma safe_remember:
  assumes "\<not> fl_is_nan (sg_weight g)"
  shows "safe (rinv c me) E (remember_body g) (\<lambda>_. True)"
  unfolding remember_body_def
proof (rule safe_bind [OF safe_config])
  fix c'
  show "safe (rinv c me) E (\<lambda>s. let cap = min (2 * max (ac_max_queue_depth (nc_activation c')) 1) (2 ^ 64 - 1);
      kept = if cap \<le> length (rt_pending s) \<and> rt_pending s \<noteq> [] then AList.delete (Min (fst ` set (rt_pending s))) (rt_pending s) else rt_pending s
      in (Inr (), s\<lparr>rt_pending := AList.update (sg_id g) g kept\<rparr>)) (\<lambda>_. True)"
    using assms by (auto simp: safe_def ends_def rt_inv_def Let_def hm_get_update map_of_delete)
qed

lemma safe_bad_signature:
  assumes sane: "config_sane c"
  shows "safe (rinv c me) (\<lambda>e. e = RtHandshake (SynapsePruned p)) (bad_signature rt p) (\<lambda>_. True)"
proof -
  have pen: "safe (rinv c me) E (case r of None \<Rightarrow> op_ret False
      | Some x \<Rightarrow> op_bind (node_call rt (penalize_signature_failure (re_node rt) (sr_id x))) (\<lambda>o'.
           op_ret (case o' of Inr (Some f) \<Rightarrow> sf_pruned f | _ \<Rightarrow> False))) (\<lambda>_. True)" for r E
    by (intro safe_option safe_ret safe_bind [OF safe_call [OF safe_ok, OF safe_penalize [OF sane]]] TrueI)
  have fail: "safe (rinv c me) (\<lambda>e. e = RtHandshake (SynapsePruned p)) (op_fail (RtHandshake (SynapsePruned p))) (\<lambda>_ :: unit. True)"
    by (simp add: safe_def)
  show ?thesis unfolding bad_signature_def
    by (intro safe_bind [OF safe_peer_record] safe_bind [OF pen] safe_bind [OF safe_event] safe_if fail safe_ret TrueI)
qed

lemma safe_take_receipt:
  assumes sane: "config_sane c" shows "safe (rinv c me) E (take_receipt rt p g) (\<lambda>_. True)"
proof -
  have tail: "safe (rinv c me) E (case r of Inr (Some u) \<Rightarrow> send_event (f u) | _ \<Rightarrow> op_ret ()) (\<lambda>_. True)"
    for r :: "Error + WeightUpdate option" and f
    by (simp add: safe_event safe_ret split: sum.split option.split)
  show ?thesis unfolding take_receipt_def
    by (intro safe_option safe_ret safe_bind [OF safe_call [OF safe_ok, OF safe_apply_receipt [OF sane]]] tail TrueI)
qed

lemma safe_tell_evicted: "safe (rinv c me) E (tell_evicted rt ev) (\<lambda>_. True)"
  unfolding tell_evicted_def
  by (intro safe_bind [OF safe_take] safe_bind [OF safe_event] safe_if safe_bind [OF safe_receipt_to] safe_ret TrueI)

lemma safe_release_each:
  assumes sane: "config_sane c" and w: "\<not> fl_is_nan (sg_weight g)"
  shows "safe (rinv c me) E (release_each rt g plan qs) (\<lambda>_. True)"
proof (induction qs)
  case (Cons q qs)
  have one: "safe (rinv c me) E (if qs_id q = sg_id g then release_signal rt (qs_id q) (Some g) (Some plan) ByThreshold
       else op_bind (take_body (qs_id q)) (\<lambda>body. release_signal rt (qs_id q) body None ByThreshold)) (\<lambda>_. True)"
    using w by (intro safe_if safe_release [OF sane] safe_bind [OF safe_take]) auto
  show ?case unfolding release_each.simps by (intro safe_bind [OF one] Cons.IH)
next
  case Nil
  show ?case unfolding release_each.simps by (rule safe_ret) simp
qed

lemma safe_carry_out:
  assumes sane: "config_sane c" and w: "\<not> fl_is_nan (sg_weight g)"
  shows "safe (rinv c me) E (carry_out rt p g d) (\<lambda>_. True)"
proof -
  have parts: "safe (rinv c me) E (case dp_evicted d of None \<Rightarrow> op_ret () | Some ev \<Rightarrow> tell_evicted rt ev) (\<lambda>_. True)"
    "safe (rinv c me) E (case dp_receipt d of None \<Rightarrow> op_ret () | Some rc \<Rightarrow> send_receipt rt rc (sg_origin g) p) (\<lambda>_. True)"
    "safe (rinv c me) E (case dp_rejected d of None \<Rightarrow> op_ret () | Some reason \<Rightarrow> send_event (RefusedSignal (sg_id g) reason)) (\<lambda>_. True)"
    by (auto intro!: safe_option safe_ret safe_tell_evicted safe_receipt safe_event)
  show ?thesis unfolding carry_out_def
    by (intro safe_bind [OF parts(1)] safe_bind [OF parts(2)] safe_bind [OF parts(3)] safe_bind [OF safe_release_each [OF assms]]
        safe_if safe_remember w safe_ret TrueI)
qed

lemma safe_deliver:
  assumes sane: "config_sane c" and w: "\<not> fl_is_nan (sg_weight g)"
  shows "safe (rinv c me) E (deliver rt p g) (\<lambda>_. True)"
  unfolding deliver_def
  by (intro safe_bind [OF safe_peer_synapse] safe_bind [OF safe_call [OF safe_ok, OF safe_receive [OF w]]] safe_sum safe_ret
      safe_carry_out [OF assms] TrueI)

lemma clamped_weight:
  assumes "fl_is_finite (sg_weight g)" "clamp_inbound_headers g pc = (h, g')" shows "\<not> fl_is_nan (sg_weight g')"
  using assms clamp01_unit [of "sg_weight g"] finite_not_nan
  by (auto simp: clamp_inbound_headers_def Let_def fl_le_def split: if_splits)

lemma safe_accept:
  assumes sane: "config_sane c" and w: "fl_is_finite (sg_weight g)"
  shows "safe (rinv c me) E (accept_signal rt p g) (\<lambda>_. True)"
  unfolding accept_signal_def
proof (rule safe_bind [OF safe_config])
  fix c'
  obtain h g' where h: "clamp_inbound_headers g (nc_propagation c') = (h, g')" by fastforce
  note w' = clamped_weight [OF w h]
  have ev: "safe (rinv c me) E (if b then send_event ev else op_ret ()) (\<lambda>_. True)" for b ev
    by (intro safe_if safe_event safe_ret TrueI)
  show "safe (rinv c me) E (let (clamp, g') = clamp_inbound_headers g (nc_propagation c')
      in op_bind (if clamp_any clamp
          then send_event (HeadersClamped p (sg_id g') (hc_weight_clamped clamp) (hc_ttl_clamped clamp)) else op_ret ()) (\<lambda>_.
        if sg_type g' = ReceiptType then take_receipt rt p g' else deliver rt p g')) (\<lambda>_. True)"
    unfolding h Let_def prod.case by (intro safe_bind [OF ev] safe_if safe_take_receipt [OF sane] safe_deliver [OF sane w'])
qed

lemma safe_inbound:
  assumes sane: "config_sane c"
  shows "safe (rinv c me) (\<lambda>e. e = RtHandshake (SynapsePruned (pi_node_id peer))) (inbound rt peer g) (\<lambda>_. True)"
proof -
  let ?E = "\<lambda>e. e = RtHandshake (SynapsePruned (pi_node_id peer))"
  let ?body = "\<lambda>k. case k of None \<Rightarrow> send_event (OriginKeyUnknown (pi_node_id peer) (sg_origin g))
     | Some key \<Rightarrow>
       if \<not> authentic rt g key then bad_signature rt (pi_node_id peer)
       else if \<not> fl_is_finite (sg_weight g) then send_event (MalformedFrom (pi_node_id peer) (sg_weight g))
       else accept_signal rt (pi_node_id peer) g"
  have body: "safe (rinv c me) ?E (?body k) (\<lambda>_. True)" for k
    by (intro safe_option safe_event safe_if safe_bad_signature [OF sane] safe_accept [OF sane]) simp
  have "inbound rt peer g s = ?body (key_of_origin peer (sg_origin g) (rt_sessions s)) s" for s
    by (simp add: inbound_def split: option.split)
  then show ?thesis using body unfolding safe_def ends_def by simp
qed

lemma safe_release_starving:
  assumes sane: "config_sane c" shows "safe (rinv c me) E (release_starving rt qs) (\<lambda>_. True)"
proof (induction qs)
  case Nil
  show ?case unfolding release_starving.simps by (rule safe_ret) simp
next
  case (Cons q qs)
  show ?case unfolding release_starving.simps by (intro safe_bind [OF safe_take] safe_bind [OF safe_release [OF sane]] Cons.IH)
qed

lemma safe_poll: "config_sane c \<Longrightarrow> safe (rinv c me) E (poll_guard rt) (\<lambda>_. True)"
  unfolding poll_guard_def poll_activation_def
  by (intro safe_bind [OF safe_call [OF safe_ok, OF safe_gate]] safe_sum safe_ret safe_release_starving TrueI)

lemma safe_tick: "config_sane c \<Longrightarrow> safe (rinv c me) E (maintenance_tick rt k) (\<lambda>_. True)"
  unfolding maintenance_tick_def
  by (intro safe_bind [OF safe_poll] safe_if safe_ret safe_bind [OF safe_call [OF safe_ok, OF safe_sweep]] safe_bind [OF safe_call [OF safe_ok, OF safe_checkpoint]] TrueI)

lemma safe_node_receive_local:
  "\<not> fl_is_nan (sg_weight g) \<Longrightarrow> safe (rinv c me) E (node_call rt (receive_local (re_node rt) g)) (\<lambda>x. \<exists>y. x = Inr y \<and> True)"
  by (rule safe_call [OF safe_ok]) (rule safe_receive_local)

lemma safe_route:
  assumes w: "\<not> fl_is_nan (sg_weight g)" shows "safe (rinv c me) E (route rt g) (\<lambda>_. True)"
  unfolding route_def
  by (intro safe_bind [OF safe_node_receive_local [OF w]])
    (auto intro!: safe_bind [OF safe_config] safe_bind [OF safe_send_each] safe_event)

lemma safe_runtime_emit:
  assumes w: "\<not> fl_is_nan (sb_weight b)"
  shows "safe (rinv c me) (\<lambda>e. \<exists>x. e = RtCrypto x) (runtime_emit rt b) (\<lambda>_. True)"
  unfolding runtime_emit_def
proof (rule safe_bind [OF safe_node_emit])
  fix r :: "Error + 'p Signal"
  assume "\<exists>y. r = Inr y \<and> sg_weight y = sb_weight b"
  then obtain g where g: "r = Inr g" "\<not> fl_is_nan (sg_weight g)" using w by auto
  have "\<not> fl_is_nan (sg_weight h)" if "sign_signal (re_cbor rt) (crypto rt) g (id_private (re_identity rt)) = Inr h" for h
    using that g(2) by (auto simp: sign_signal_def split: sum.splits)
  then have "safe (rinv c me) (\<lambda>e. \<exists>x. e = RtCrypto x) (case sign_signal (re_cbor rt) (crypto rt) g (id_private (re_identity rt)) of
      Inl e \<Rightarrow> op_fail (RtCrypto e) | Inr h \<Rightarrow> op_bind (route rt h) (\<lambda>_. op_ret h)) (\<lambda>_. True)"
    by (intro safe_sum safe_bind [OF safe_route] safe_ret TrueI) (auto simp: safe_def)
  then show "safe (rinv c me) (\<lambda>e. \<exists>x. e = RtCrypto x) (case r of Inl e \<Rightarrow> op_fail (RtNode (Err e))
     | Inr g \<Rightarrow> (case sign_signal (re_cbor rt) (crypto rt) g (id_private (re_identity rt)) of
         Inl e \<Rightarrow> op_fail (RtCrypto e) | Inr h \<Rightarrow> op_bind (route rt h) (\<lambda>_. op_ret h))) (\<lambda>_. True)"
    using g(1) by simp
qed

lemma safe_sessions:
  "safe (rinv c me) (\<lambda>e. e = RtHandshake (LiveSession (pi_node_id peer))) (join_session peer) (\<lambda>_. True)"
  "safe (rinv c me) E (leave_session peer) (\<lambda>_. True)" "safe (rinv c me) E (pump p) (\<lambda>_. True)" "safe (rinv c me) E (pump_fails p) (\<lambda>_. True)"
proof -
  show "safe (rinv c me) (\<lambda>e. e = RtHandshake (LiveSession (pi_node_id peer))) (join_session peer) (\<lambda>_. True)"
    by (auto simp: safe_def ends_def join_session_def send_event_def rt_inv_def hm_get_update)
  show "safe (rinv c me) E (leave_session peer) (\<lambda>_. True)"
    by (auto simp: safe_def ends_def leave_session_def send_event_def rt_inv_def map_of_delete)
  show "safe (rinv c me) E (pump p) (\<lambda>_. True)"
    by (auto simp: safe_def ends_def pump_def rt_inv_def hm_get_update simp del: map_of_eq_Some_iff split: option.split list.split)
      (metis Suc_leD length_Cons)
  show "safe (rinv c me) E (pump_fails p) (\<lambda>_. True)"
    by (auto simp: safe_def ends_def pump_fails_def rt_inv_def hm_get_update simp del: map_of_eq_Some_iff split: option.split)
qed

end

section \<open>Runs of a runtime\<close>

text \<open>What the tasks of a runtime do, one step at a time, in any order. \<open>Meet\<close> is a handshake
  that succeeds up to the formation of the synapse.\<close>

datatype 'p rt_event =
    FromPeer PeerIdentity "'p Signal"
  | EmitLocal "'p SignalBuilder"
  | Tick u64
  | Shake "'p"
  | Meet NodeId
  | Join PeerIdentity
  | Leave PeerIdentity
  | Pump NodeId
  | PumpFails NodeId

fun rt_step :: "('m, 's, 'p, 'k, 'v) RtEnv \<Rightarrow> 'p rt_event \<Rightarrow> ('m, 's, 'p, unit) rt_op" where
  "rt_step en (FromPeer peer g) = inbound en peer g"
| "rt_step en (EmitLocal b) = op_bind (runtime_emit en b) (\<lambda>_. op_ret ())"
| "rt_step en (Tick k) = maintenance_tick en k"
| "rt_step en (Shake payload) = op_bind (handshake_signal en payload) (\<lambda>_. op_ret ())"
| "rt_step en (Meet p) = op_bind (form_synapse en p) (\<lambda>_. op_ret ())"
| "rt_step en (Join peer) = join_session peer"
| "rt_step en (Leave peer) = leave_session peer"
| "rt_step en (Pump p) = op_bind (pump p) (\<lambda>_. op_ret ())"
| "rt_step en (PumpFails p) = pump_fails p"

fun rt_run :: "('m, 's, 'p, 'k, 'v) RtEnv \<Rightarrow> 'p rt_event list \<Rightarrow> ('m, 's, 'p) Runtime \<Rightarrow>
    (RuntimeError + unit) list \<times> ('m, 's, 'p) Runtime" where
  "rt_run en [] s = ([], s)"
| "rt_run en (ev # evs) s = (let (r, s1) = rt_step en ev s; (rs, s2) = rt_run en evs s1 in (r # rs, s2))"

text \<open>The host emits signals whose weight is a number; nothing is asked of what peers send.\<close>

definition rt_event_ok :: "'p rt_event \<Rightarrow> bool" where
  "rt_event_ok ev \<longleftrightarrow> (\<forall>b. ev = EmitLocal b \<longrightarrow> \<not> fl_is_nan (sb_weight b))"

text \<open>The errors each step may end with.\<close>

definition rt_stop :: "'p rt_event \<Rightarrow> RuntimeError \<Rightarrow> bool" where
  "rt_stop ev e \<longleftrightarrow> (case ev of
     FromPeer peer g \<Rightarrow> e = RtHandshake (SynapsePruned (pi_node_id peer))
   | EmitLocal b \<Rightarrow> (\<exists>x. e = RtCrypto x)
   | Shake payload \<Rightarrow> (\<exists>x. e = RtCrypto x)
   | Meet p \<Rightarrow> (\<exists>k. e = RtNode (Err (InvalidSignal (InCooldown p k))))
   | Join peer \<Rightarrow> e = RtHandshake (LiveSession (pi_node_id peer))
   | _ \<Rightarrow> False)"

context rt_host
begin

lemma safe_handshake_signal: "safe (rinv c me) (\<lambda>e. \<exists>x. e = RtCrypto x) (handshake_signal rt payload) (\<lambda>_. True)"
  unfolding handshake_signal_def
  by (rule safe_bind [OF safe_node_emit]) (auto simp: safe_def split: sum.split)

lemma safe_form_synapse:
  assumes sane: "config_sane c"
  shows "safe (rinv c me) (\<lambda>e. \<exists>k. e = RtNode (Err (InvalidSignal (InCooldown p k)))) (form_synapse rt p) (\<lambda>_. True)"
  unfolding form_synapse_def node_call_def
proof (rule safe_bind [OF safe_bind [OF safe_clock safe_on_node [OF safe_ok [OF safe_upsert [OF sane]]]]])
  fix r assume "case r of Inl e \<Rightarrow> \<exists>k. Err e = Err (InvalidSignal (InCooldown p k)) | Inr y \<Rightarrow> record_ok y"
  then show "safe (rinv c me) (\<lambda>e. \<exists>k. e = RtNode (Err (InvalidSignal (InCooldown p k))))
      (case r of Inl e \<Rightarrow> op_fail (RtNode (Err e)) | Inr x \<Rightarrow> op_ret x) (\<lambda>_. True)"
    by (auto simp: safe_def split: sum.splits)
qed auto

lemma safe_rt_step:
  assumes sane: "config_sane c" and ok: "rt_event_ok ev"
  shows "safe (rinv c me) (rt_stop ev) (rt_step rt ev) (\<lambda>_. True)"
proof -
  have done_with: "safe (rinv c me) E (op_bind f (\<lambda>_. op_ret ())) (\<lambda>_. True)" if "safe (rinv c me) E f R" for E R and f :: "('m, 's, 'p, 'x) rt_op"
    using that by (rule safe_bind) (simp add: safe_def)
  show ?thesis
    using ok sane
    by (cases ev) (auto simp: rt_stop_def [abs_def] rt_event_ok_def intro!: safe_inbound safe_tick safe_sessions done_with
        safe_runtime_emit [THEN done_with] safe_handshake_signal [THEN done_with] safe_form_synapse [THEN done_with] safe_sessions(3) [THEN done_with])
qed

lemma rt_run_ok:
  assumes sane: "config_sane c" and evs: "\<forall>ev \<in> set evs. rt_event_ok ev" and start: "rinv c me s" and run: "rt_run rt evs s = (rs, s')"
  shows "rinv c me s' \<and> list_all2 (\<lambda>ev r. \<forall>e. r = Inl e \<longrightarrow> rt_stop ev e) evs rs"
  using evs start run
proof (induction evs arbitrary: s rs)
  case (Cons ev evs)
  obtain r s1 where st: "rt_step rt ev s = (r, s1)" by fastforce
  obtain rs1 where more: "rt_run rt evs s1 = (rs1, s')" "rs = r # rs1"
    using Cons.prems(3) st by (auto split: prod.splits)
  have "rt_event_ok ev" using Cons.prems(1) by simp
  note one = safe_run [OF safe_rt_step [OF sane this] Cons.prems(2) st]
  show ?case using Cons.IH [OF _ one(1) more(1)] Cons.prems(1) one(2) more(2) by simp
qed simp

end

end
