(* ===== verification/Runtime_Run.thy ===== *)
theory Runtime_Run
  imports Runtime_Safety
begin

text \<open>
  The runtime over the in-memory store, a concrete one for the witnesses, and what the
  runtime promises of every run and of each arrival.
\<close>

section \<open>The runtime over the in-memory store\<close>

definition memory_rt ::
  "libm \<Rightarrow> ulid_api \<Rightarrow> 'p wire_json \<Rightarrow> 'p cbor_api \<Rightarrow> ('k, 'v) ed25519 \<Rightarrow> blake3 \<Rightarrow> Identity \<Rightarrow> (nat \<Rightarrow> u64) \<Rightarrow>
     (MemoryStore, SplitMix64, 'p, 'k, 'v) RtEnv" where
  "memory_rt lm ul js cb ed bl i clk = \<lparr>re_node = memory_env lm ul, re_json = js, re_cbor = cb, re_ed = ed,
     re_blake = bl, re_identity = i, re_clock = clk\<rparr>"

interpretation mem_rt: rt_host memory_api mem_ok mem_seen mem_table ms_journal "memory_rt lm ul js cb ed bl i clk"
  for lm :: libm and ul :: ulid_api and js :: "'p wire_json" and cb :: "'p cbor_api" and ed :: "('k, 'v) ed25519"
    and bl :: blake3 and i :: Identity and clk :: "nat \<Rightarrow> u64"
  by (simp add: rt_host_def memory_rt_def memory_host)

text \<open>Surroundings for the witnesses: JSON values with objects, strings and byte arrays, a
  codec that encodes every signal alike, the toy signature scheme, a clock that advances.\<close>

datatype sample_value = JNull | JObject "(string \<times> sample_value) list" | JBytes "u8 list" | JString string

definition sample_wire :: "sample_value wire_json" where
  "sample_wire = \<lparr>wj_base = \<lparr>js_null = JNull, js_receipt = (\<lambda>r. None), js_text_len = (\<lambda>v. 0)\<rparr>, wj_object = JObject,
     wj_bytes = JBytes, wj_string = JString, wj_get = (\<lambda>v k. case v of JObject kvs \<Rightarrow> map_of kvs k | _ \<Rightarrow> None),
     wj_to_bytes = (\<lambda>v. case v of JBytes b \<Rightarrow> Some b | _ \<Rightarrow> None), wj_to_receipt = (\<lambda>v. None)\<rparr>"

lemma sample_wire_sound: "json_sound sample_wire"
  by (simp add: json_sound_def sample_wire_def)

definition sample_cbor :: "sample_value cbor_api" where
  "sample_cbor = \<lparr>cb_to_vec = (\<lambda>g. Inr [1]), cb_from_slice = (\<lambda>b. Inl ''eof'')\<rparr>"

definition sample_identity :: Identity where
  "sample_identity = \<lparr>id_public = sample_seed, id_private = sample_seed, id_node_id = sample_seed\<rparr>"

abbreviation sample_rt :: "(MemoryStore, SplitMix64, sample_value, u8 list, u8 list) RtEnv" where
  "sample_rt \<equiv> memory_rt sample_libm sample_ulid sample_wire sample_cbor sample_ed id sample_identity (\<lambda>n. of_nat n)"

definition runtime_on :: "('m, 's) Node \<Rightarrow> ('m, 's, 'p) Runtime" where
  "runtime_on n = \<lparr>rt_node = n, rt_sessions = [], rt_pending = [], rt_events = [], rt_reads = 0\<rparr>"

lemma runtime_on_inv: "rt_inv healthy table journal c me (runtime_on n) \<longleftrightarrow> node_ok healthy table journal c me n"
  by (simp add: rt_inv_def runtime_on_def)

definition sample_message :: "sample_value Signal" where
  "sample_message = \<lparr>sg_id = 1, sg_type = Data, sg_version = 1, sg_origin = [7], sg_signature = [],
     sg_timestamp = 5, sg_payload = JNull, sg_encoding = Cbor, sg_weight = Fin 1, sg_ttl = 3,
     sg_scope = scope_default, sg_correlation_id = None, sg_trace = [], sg_tags = [], sg_delivery = Acknowledged\<rparr>"

lemma memory_rt_host: "rt_host memory_api mem_ok mem_seen mem_table ms_journal (memory_rt lm ul js cb ed bl i clk)"
  by (rule mem_rt.rt_host_axioms)

section \<open>No task dies\<close>



section \<open>What is not verified has no effect\<close>

lemma run_rt_clock: "op_bind (read_clock en) f s = f (re_clock en (rt_reads s)) (s\<lparr>rt_reads := rt_reads s + 1\<rparr>)"
  by (simp add: op_bind_def read_clock_def)

context rt_host
begin

lemma run_penalize:
  assumes v: "views (nd_store n) sn T J"
  shows "\<exists>x m' T'. penalize_signature_failure (re_node rt) i now n = (Inr x, n\<lparr>nd_store := m'\<rparr>) \<and> views m' sn T' J \<and>
    (\<forall>j. j \<noteq> i \<longrightarrow> T' j = T j)"
proof -
  have get: "st_get_synapse api i (nd_store n) = (Inr (T i), nd_store n)" using get_synapse_law v by blast
  show ?thesis
  proof (cases "T i")
    case None
    then show ?thesis using get v
      by (intro exI [of _ None] exI [of _ "nd_store n"] exI [of _ T]) (simp add: penalize_signature_failure_def env)
  next
    case (Some r)
    obtain o' sy where sy: "apply_signature_failure (from_record r (nd_identity n) (synapse_config n)) now (learning n) = (o', sy)" by fastforce
    have "sy_id sy = sy_id (from_record r (nd_identity n) (synapse_config n))"
      using sy by (auto simp: apply_signature_failure_def count_failure_def Let_def split: if_splits prod.splits)
    then have id: "sr_id (to_record sy) = i" using table_keyed [OF v Some] by (simp add: to_record_def from_record_def)
    obtain m' where m': "st_put_synapse api (to_record sy) (nd_store n) = (Inr (), m')" "views m' sn (T(i \<mapsto> to_record sy)) J"
      using run_put [OF v, of "to_record sy"] unfolding id by blast
    then show ?thesis using get Some sy
      by (intro exI [of _ "Some o'"] exI [of _ m'] exI [of _ "T(i \<mapsto> to_record sy)"]) (simp add: penalize_signature_failure_def env Let_def)
  qed
qed

text \<open>A bad signature touches the synapse of the peer that presented it, and nothing else.\<close>

definition only_penalized :: "NodeId \<Rightarrow> ('m, 's, 'p) Runtime \<Rightarrow> ('m, 's, 'p) Runtime \<Rightarrow> bool" where
  "only_penalized p s s' \<longleftrightarrow> rt_sessions s' = rt_sessions s \<and> rt_pending s' = rt_pending s \<and>
     nd_activation (rt_node s') = nd_activation (rt_node s) \<and> nd_rng (rt_node s') = nd_rng (rt_node s) \<and>
     seen (nd_store (rt_node s')) = seen (nd_store (rt_node s)) \<and> journal (nd_store (rt_node s')) = journal (nd_store (rt_node s)) \<and>
     (\<forall>i. table (nd_store (rt_node s')) i = table (nd_store (rt_node s)) i \<or>
       (\<exists>x. table (nd_store (rt_node s)) i = Some x \<and> sr_peer x = p)) \<and>
     (\<exists>ev. rt_events s' = rt_events s @ [ev])"

lemma run_bad_signature:
  assumes s: "rinv c me s" and run: "bad_signature rt p s = (r, s')"
  shows "only_penalized p s s'"
proof -
  define T where "T = table (nd_store (rt_node s))"
  define sn where "sn = seen (nd_store (rt_node s))"
  define J where "J = journal (nd_store (rt_node s))"
  have v: "views (nd_store (rt_node s)) sn T J"
    using s by (simp add: rt_inv_def node_ok_def T_def sn_def J_def)
  obtain q where q: "st_synapse_for_peer api p (nd_store (rt_node s)) = (Inr q, nd_store (rt_node s))"
    "case q of None \<Rightarrow> True | Some x \<Rightarrow> x \<in> ran T \<and> sr_peer x = p"
    using for_peer_law [of "nd_store (rt_node s)" p] v by (auto split: option.splits)
  have rec: "peer_record rt p s = (Inr q, s)" using q(1) by (simp add: peer_record_def env split: option.split)
  show ?thesis
  proof (cases q)
    case None
    then have "s' = s\<lparr>rt_events := rt_events s @ [SignatureRefused p False]\<rparr>"
      using run rec by (simp add: bad_signature_def bind_run send_event_def)
    then show ?thesis by (simp add: only_penalized_def)
  next
    case (Some x)
    have x: "T (sr_id x) = Some x" "sr_peer x = p" using q(2) Some table_keyed [OF v] by (auto simp: ran_def)
    obtain y m' T' where pen: "penalize_signature_failure (re_node rt) (sr_id x) (re_clock rt (rt_reads s)) (rt_node s) =
        (Inr y, (rt_node s)\<lparr>nd_store := m'\<rparr>)" "views m' sn T' J" "\<forall>j. j \<noteq> sr_id x \<longrightarrow> T' j = T j"
      using run_penalize [of "rt_node s" sn T J "sr_id x" "re_clock rt (rt_reads s)"] v by blast
    have call: "node_call rt (penalize_signature_failure (re_node rt) (sr_id x)) s =
        (Inr (Inr y), s\<lparr>rt_reads := rt_reads s + 1, rt_node := (rt_node s)\<lparr>nd_store := m'\<rparr>\<rparr>)"
      using pen(1) by (simp add: node_call_def run_rt_clock on_node_def)
    have "\<exists>b. s' = s\<lparr>rt_reads := rt_reads s + 1, rt_node := (rt_node s)\<lparr>nd_store := m'\<rparr>, rt_events := rt_events s @ [SignatureRefused p b]\<rparr>"
      using run rec Some call by (auto simp: bad_signature_def bind_run send_event_def op_bind_def op_ret_def op_fail_def split: if_splits)
    then obtain b where s': "s' = s\<lparr>rt_reads := rt_reads s + 1, rt_node := (rt_node s)\<lparr>nd_store := m'\<rparr>, rt_events := rt_events s @ [SignatureRefused p b]\<rparr>"
      by blast
    have "table m' i = T i \<or> (\<exists>x. T i = Some x \<and> sr_peer x = p)" for i
      using pen(2,3) x by (cases "i = sr_id x") auto
    then show ?thesis using pen(2) by (simp add: only_penalized_def s' T_def sn_def J_def)
  qed
qed

lemma run_refused:
  assumes s: "rinv c me s" and run: "inbound rt peer g s = (r, s')"
    and refused: "\<forall>key. key_of_origin peer (sg_origin g) (rt_sessions s) = Some key \<longrightarrow> authentic rt g key \<longrightarrow> \<not> fl_is_finite (sg_weight g)"
  shows "only_penalized (pi_node_id peer) s s'"
proof -
  have ev: "only_penalized (pi_node_id peer) s s'" if "send_event ev s = (r, s')" for ev
    using that by (auto simp: send_event_def only_penalized_def)
  show ?thesis
    using run refused ev run_bad_signature [OF s] by (auto simp: inbound_def split: option.splits if_splits)
qed

end

text \<open>
  C3: A signal that is not verified has no effect. When a frame arrives whose origin is
  neither the peer itself nor a connected node, or whose signature does not verify under
  that origin's key, or whose weight is not a finite number, then nothing is delivered,
  queued, forwarded, marked as seen, journalled or learned, no session and no cached body
  changes, and the only synapses that may change are those to the peer that presented it.
\<close>

theorem unverified_inert:
  assumes host: "rt_host api healthy seen table journal rt" and start: "rt_inv healthy table journal c me s"
    and refused: "\<forall>key. key_of_origin peer (sg_origin g) (rt_sessions s) = Some key \<longrightarrow> authentic rt g key \<longrightarrow> \<not> fl_is_finite (sg_weight g)"
    and run: "inbound rt peer g s = (r, s')"
  shows "rt_sessions s' = rt_sessions s \<and> rt_pending s' = rt_pending s \<and>
    nd_activation (rt_node s') = nd_activation (rt_node s) \<and> nd_rng (rt_node s') = nd_rng (rt_node s) \<and>
    seen (nd_store (rt_node s')) = seen (nd_store (rt_node s)) \<and> journal (nd_store (rt_node s')) = journal (nd_store (rt_node s)) \<and>
    (\<forall>i. table (nd_store (rt_node s')) i = table (nd_store (rt_node s)) i \<or>
       (\<exists>x. table (nd_store (rt_node s)) i = Some x \<and> sr_peer x = pi_node_id peer)) \<and>
    (\<exists>ev. rt_events s' = rt_events s @ [ev])"
  using rt_host.run_refused [OF host start run refused] unfolding rt_host.only_penalized_def [OF host] .

lemma unverified_inert_witness:
  "\<exists>r s'. inbound sample_rt \<lparr>pi_node_id = [7], pi_public_key = sample_seed\<rparr> sample_message (runtime_on sample_node) = (r, s') \<and>
     ms_journal (nd_store (rt_node s')) = [] \<and> mem_seen (nd_store (rt_node s')) = mem_seen memory_new"
proof -
  let ?p = "\<lparr>pi_node_id = [7], pi_public_key = sample_seed\<rparr>"
  obtain r s' where run: "inbound sample_rt ?p sample_message (runtime_on sample_node) = (r, s')" by fastforce
  have "\<not> authentic sample_rt sample_message sample_seed"
    by (simp add: authentic_def verify_signal_def signing_bytes_def sample_cbor_def memory_rt_def classical_module_def classical_verify_def
        verifying_key_def sample_ed_def sample_message_def sample_seed_def unsigned_part_def)
  then have "\<forall>key. key_of_origin ?p (sg_origin sample_message) (rt_sessions (runtime_on sample_node)) = Some key \<longrightarrow>
      authentic sample_rt sample_message key \<longrightarrow> \<not> fl_is_finite (sg_weight sample_message)"
    by (simp add: key_of_origin_def sample_message_def)
  from unverified_inert [OF memory_rt_host runtime_on_inv [THEN iffD2, OF sample_node_ok] this run] run show ?thesis
    by (simp add: runtime_on_def sample_node_def memory_new_def)
qed

end
