(* ===== verification/Runtime_Bodies.thy ===== *)
theory Runtime_Bodies
  imports Runtime_Run
begin

text \<open>
  The body cache of the runtime follows the queue of the gate: it holds a body for each
  queued signal and for nothing else, so that every release finds its body, the cache
  stays within the queue's depth and its backstop never evicts.
\<close>

section \<open>What leaves the gate alone\<close>

text \<open>Two invariants an operation keeps, it keeps together.\<close>

lemma safe_conj:
  assumes "safe I E f R" "safe J F f S"
  shows "safe (\<lambda>n. I n \<and> J n) E f R"
  unfolding safe_def
proof (intro allI impI)
  fix n assume n: "I n \<and> J n"
  obtain r n' where run: "f n = (r, n')" by fastforce
  show "ends f n (\<lambda>x n'. (I n' \<and> J n') \<and> R x) (\<lambda>e n'. (I n' \<and> J n') \<and> E e)"
    using safe_run [OF assms(1) _ run] safe_run [OF assms(2) _ run] n run by (cases r) (auto simp: ends_def)
qed

lemma gate_put: "safe (gate_is g) (\<lambda>_. True) (put_records api rs) (\<lambda>_. True)"
proof (induction rs)
  case Nil
  show ?case unfolding put_records.simps by (rule safe_ret) simp
next
  case (Cons r rs)
  then show ?case by (cases r) (auto intro: safe_bind [OF gate_store])
qed

lemma gate_normalize: "safe (gate_is g) (\<lambda>_. True) (normalize_outbound_weights en) (\<lambda>_. True)"
  unfolding normalize_outbound_weights_def
  by (intro safe_bind [OF gate_store] safe_if safe_ret safe_self TrueI)
    (auto intro!: safe_ret safe_bind [OF gate_put] split: option.split)

lemma gate_charge: "safe (gate_is g) (\<lambda>_. True) (if b then op_bind (store_op f) (\<lambda>_. op_ret ()) else op_ret ()) (\<lambda>_. True)"
  by (intro safe_if safe_bind [OF gate_store] safe_ret TrueI)

lemma gate_outcome: "safe (gate_is g) (\<lambda>_. True) (apply_outcome_to_synapse en e out now) (\<lambda>_. True)"
proof -
  have fails: "safe (gate_is g) (\<lambda>_. True) (op_fail Panicked) (\<lambda>_. True)" by (simp add: safe_def)
  show ?thesis unfolding apply_outcome_to_synapse_def Let_def
    by (intro safe_self safe_bind [OF gate_store] safe_option safe_ret fails TrueI)
      (auto intro!: safe_bind [OF gate_charge] safe_bind [OF gate_store] safe_bind [OF gate_normalize] safe_ret
        split: prod.split split del: if_split)
qed

lemma gate_learn: "safe (gate_is g) (\<lambda>_. True) (learn_resolved en x out now) (\<lambda>_. True)"
  unfolding learn_resolved_def by (intro safe_option safe_if safe_ret safe_bind [OF gate_outcome] TrueI)

lemma gate_sweep_loop: "safe (gate_is g) (\<lambda>_. True) (sweep_loop en now es k) (\<lambda>_. True)"
  by (induction es arbitrary: k)
    (auto intro!: safe_ret safe_bind [OF gate_store] safe_bind [OF gate_learn] split: option.split)

lemma gate_operations:
  "safe (gate_is g) (\<lambda>_. True) (fail_forward en i now) (\<lambda>_. True)"
  "safe (gate_is g) (\<lambda>_. True) (apply_receipt en rc p now) (\<lambda>_. True)"
  "safe (gate_is g) (\<lambda>_. True) (sweep_timeouts en limit now) (\<lambda>_. True)"
  "safe (gate_is g) (\<lambda>_. True) (penalize_signature_failure en y now) (\<lambda>_. True)"
  "safe (gate_is g) (\<lambda>_. True) (emit en b now t1 t2) (\<lambda>_. True)"
  "safe (gate_is g) (\<lambda>_. True) (plan_release en sig arrival now) (\<lambda>_. True)"
  "safe (gate_is g) (\<lambda>_. True) (receive_local en sig now) (\<lambda>_. True)"
  by (auto simp: fail_forward_def apply_receipt_def sweep_timeouts_def penalize_signature_failure_def emit_def plan_release_def
      receive_local_def intro!: safe_bind [OF gate_store] gate_learn safe_ret safe_self gate_sweep_loop gate_plan
      safe_bind [OF gate_rng] safe_bind [OF gate_plan] split: option.split prod.split sum.split)

lemma gate_upkeep:
  "safe (gate_is g) (\<lambda>_. True) (upsert_synapse en p now) (\<lambda>_. True)"
  "safe (gate_is g) (\<lambda>_. True) (checkpoint en now) (\<lambda>_. True)"
proof -
  have put: "safe (gate_is g) (\<lambda>_. True) (put_back api r) (\<lambda>_. True)" for r and api :: "'a store_api"
    unfolding put_back_def by (intro safe_bind [OF gate_store] safe_ret TrueI)
  have fails: "safe (gate_is g) (\<lambda>_. True) (op_fail e) (\<lambda>_. True)" for e by (simp add: safe_def)
  have peek: "safe (gate_is g) (\<lambda>_. True) (with_gate (\<lambda>h. (f h, h))) (\<lambda>_. True)" for f :: "ActivationState \<Rightarrow> ActivationSnapshot"
    by (auto simp: safe_def ends_def with_gate_def)
  show "safe (gate_is g) (\<lambda>_. True) (upsert_synapse en p now) (\<lambda>_. True)" unfolding upsert_synapse_def Let_def
    by (intro safe_self safe_bind [OF gate_store] safe_option safe_if fails put safe_ret safe_bind [OF gate_rng] TrueI)
  show "safe (gate_is g) (\<lambda>_. True) (checkpoint en now) (\<lambda>_. True)" unfolding checkpoint_def
    by (intro safe_bind [OF peek] safe_bind [OF gate_store] gate_store)
qed

section \<open>What leaves the cache alone\<close>

text \<open>A release that does not find the body it should have.\<close>

definition lost :: "'p RtEvent \<Rightarrow> bool" where
  "lost ev \<longleftrightarrow> (\<exists>i. ev = Released i None)"

definition still :: "ActivationState \<Rightarrow> (SignalId, 'p Signal) hashmap \<Rightarrow> 'p RtEvent list \<Rightarrow> ('m, 's, 'p) Runtime \<Rightarrow> bool" where
  "still g P L s \<longleftrightarrow> nd_activation (rt_node s) = g \<and> rt_pending s = P \<and> filter lost (rt_events s) = L"

lemma still_basic:
  "safe (still g P L) (\<lambda>_. True) (read_clock en) (\<lambda>_. True)"
  "\<not> lost ev \<Longrightarrow> safe (still g P L) (\<lambda>_. True) (send_event ev) (\<lambda>_. True)"
  "safe (still g P L) (\<lambda>_. True) rt_config (\<lambda>_. True)"
  "safe (still g P L) (\<lambda>_. True) (peer_record en p) (\<lambda>_. True)"
  "safe (still g P L) (\<lambda>_. True) (push_to p b) (\<lambda>_. True)"
  "safe (still g P L) (\<lambda>_. True) (receipt_target o' via) (\<lambda>_. True)"
  by (auto simp: safe_def ends_def still_def read_clock_def send_event_def rt_config_def peer_record_def push_to_def receipt_target_def
      split: option.split prod.split)

lemma still_fail: "safe (still g P L) (\<lambda>_. True) (op_fail e) (\<lambda>_. True)"
  by (simp add: safe_def)

lemma still_on_node:
  assumes "safe (gate_is g) (\<lambda>_. True) f (\<lambda>_. True)"
  shows "safe (still g P L) (\<lambda>_. True) (on_node f) (\<lambda>_. True)"
  unfolding safe_def
proof (intro allI impI)
  fix s :: "('a, 'b, 'd) Runtime" assume s: "still g P L s"
  obtain r n' where run: "f (rt_node s) = (r, n')" by fastforce
  have "nd_activation n' = g" using safe_run(1) [OF assms _ run] s by (simp add: still_def)
  then have "still g P L (s\<lparr>rt_node := n'\<rparr>)" using s by (simp add: still_def)
  then show "ends (on_node f) s (\<lambda>x s'. still g P L s' \<and> True) (\<lambda>e s'. still g P L s' \<and> True)"
    using run by (auto simp: ends_def on_node_def split: sum.split stop.split)
qed

lemma still_call:
  assumes "\<And>now. safe (gate_is g) (\<lambda>_. True) (f now) (\<lambda>_. True)"
  shows "safe (still g P L) (\<lambda>_. True) (node_call en f) (\<lambda>_. True)"
  unfolding node_call_def by (intro safe_bind [OF still_basic(1)] still_on_node assms)

lemma still_emit: "safe (still g P L) (\<lambda>_. True) (node_emit en b) (\<lambda>_. True)"
  unfolding node_emit_def by (intro safe_bind [OF still_basic(1)] still_on_node gate_operations)

lemma still_send_each: "safe (still g P L) (\<lambda>_. True) (send_each i pc b fs sent failed) (\<lambda>_. True)"
  by (induction fs arbitrary: sent failed) (auto intro!: safe_ret safe_bind [OF still_basic(5)])

lemma still_fail_each: "safe (still g P L) (\<lambda>_. True) (fail_each en is) (\<lambda>_. True)"
proof (induction "is")
  case Nil
  show ?case unfolding fail_each.simps by (rule safe_ret) simp
qed (auto intro!: safe_bind [OF still_call] gate_operations)

lemma still_forward: "safe (still g P L) (\<lambda>_. True) (forward_signal en b fs) (\<lambda>_. True)"
  unfolding forward_signal_def
  by (auto intro!: safe_ret safe_bind [OF still_basic(3)] safe_bind [OF still_send_each] safe_bind [OF still_fail_each]
      safe_bind [OF still_basic(2)] simp: lost_def)

lemma still_signed: "safe (still g P L) (\<lambda>_. True) (signed_receipt en rc origin) (\<lambda>_. True)"
  unfolding signed_receipt_def by (intro safe_bind [OF still_emit] safe_ret TrueI)

lemma still_receipts:
  "safe (still g P L) (\<lambda>_. True) (send_receipt_to en rc origin) (\<lambda>_. True)"
  "safe (still g P L) (\<lambda>_. True) (send_receipt en rc origin via) (\<lambda>_. True)"
  unfolding send_receipt_to_def send_receipt_def
  by (intro safe_bind [OF still_signed] safe_option safe_ret still_basic safe_bind [OF still_basic(6)] safe_bind [OF still_basic(5)] TrueI)+

lemma still_peer_synapse: "safe (still g P L) (\<lambda>_. True) (peer_synapse en p) (\<lambda>_. True)"
  unfolding peer_synapse_def by (intro safe_bind [OF still_basic(4)] safe_ret TrueI)

lemma still_arrival: "safe (still g P L) (\<lambda>_. True) (arrival_of en b) (\<lambda>_. True)"
  unfolding arrival_of_def by (intro safe_if safe_ret still_peer_synapse TrueI)

lemma still_release: "safe (still g P L) (\<lambda>_. True) (release_signal en i (Some b) plan how) (\<lambda>_. True)"
proof -
  have planned: "safe (still g P L) (\<lambda>_. True) (case plan of Some p \<Rightarrow> op_ret p
      | None \<Rightarrow> op_bind (node_call en (plan_release (re_node en) b a)) (\<lambda>r. op_ret (case r of Inr p \<Rightarrow> p | Inl _ \<Rightarrow> []))) (\<lambda>_. True)" for a
    by (cases plan) (auto intro!: safe_ret safe_bind [OF still_call] gate_operations)
  have "\<not> lost (case how of ByThreshold \<Rightarrow> Handled b | ByGuard \<Rightarrow> Released i (Some b))" by (simp add: lost_def split: Release.split)
  from still_basic(2) [OF this] show ?thesis unfolding release_signal_def option.case
    by (rule safe_bind)
      (intro safe_bind [OF still_arrival] safe_bind [OF planned] safe_bind [OF still_forward] safe_if safe_bind [OF still_receipts(1)] safe_ret TrueI)
qed

lemma still_route: "safe (still g P L) (\<lambda>_. True) (route en b) (\<lambda>_. True)"
  unfolding route_def
  by (rule safe_bind [OF still_call [OF gate_operations(7)]])
    (auto intro!: still_fail safe_bind [OF still_basic(3)] safe_bind [OF still_send_each] still_basic split: sum.split simp: lost_def)

lemma still_signal_of:
  assumes "\<And>h. safe (still g P L) (\<lambda>_. True) (f h) (\<lambda>_. True)"
  shows "safe (still g P L) (\<lambda>_. True) (op_bind (node_emit en b) (\<lambda>r. case r of
     Inl e \<Rightarrow> op_fail (RtNode (Err e))
   | Inr h \<Rightarrow> (case sign_signal (re_cbor en) (crypto en) h k of Inl e \<Rightarrow> op_fail (RtCrypto e) | Inr h \<Rightarrow> f h))) (\<lambda>_. True)"
  by (rule safe_bind [OF still_emit]) (auto intro!: still_fail assms split: sum.split)

lemma still_local:
  "safe (still g P L) (\<lambda>_. True) (runtime_emit en b) (\<lambda>_. True)"
  "safe (still g P L) (\<lambda>_. True) (handshake_signal en v) (\<lambda>_. True)"
  "safe (still g P L) (\<lambda>_. True) (form_synapse en p) (\<lambda>_. True)"
  unfolding runtime_emit_def handshake_signal_def form_synapse_def
  by (intro still_signal_of safe_bind [OF still_route] safe_ret TrueI
      safe_bind [OF still_call [OF gate_upkeep(1)]] safe_sum still_fail)+

lemma still_receipt_in: "safe (still g P L) (\<lambda>_. True) (take_receipt en p b) (\<lambda>_. True)"
  unfolding take_receipt_def
  by (intro safe_option safe_ret safe_bind [OF still_call [OF gate_operations(2)]] TrueI)
    (auto intro!: safe_ret still_basic simp: lost_def split: sum.split option.split)

lemma still_bad_signature: "safe (still g P L) (\<lambda>_. True) (bad_signature en p) (\<lambda>_. True)"
  unfolding bad_signature_def
  by (intro safe_bind [OF still_basic(4)])
    (auto intro!: safe_bind [where R = "\<lambda>_. True"] safe_ret still_call gate_operations still_basic still_fail simp: lost_def split: option.split)

lemma still_sessions:
  "safe (still g P L) (\<lambda>_. True) (join_session peer) (\<lambda>_. True)"
  "safe (still g P L) (\<lambda>_. True) (leave_session peer) (\<lambda>_. True)"
  "safe (still g P L) (\<lambda>_. True) (pump p) (\<lambda>_. True)"
  "safe (still g P L) (\<lambda>_. True) (pump_fails p) (\<lambda>_. True)"
  by (auto simp: safe_def ends_def still_def join_session_def leave_session_def pump_def pump_fails_def send_event_def lost_def
      split: option.split list.split)

end
