(* ===== verification/Runtime_Cache.thy ===== *)
theory Runtime_Cache
  imports Runtime_Bodies
begin

text \<open>
  The body cache of the runtime mirrors the queue of its gate, over any run in which a
  queued signal is still inside its deduplication window when it arrives again.
\<close>

section \<open>The mirror\<close>

abbreviation queue_of :: "('m, 's, 'p) Runtime \<Rightarrow> QueuedSignal list" where
  "queue_of s \<equiv> as_queue (nd_activation (rt_node s))"

definition within_depth :: "nat \<Rightarrow> ActivationState \<Rightarrow> bool" where
  "within_depth d g \<longleftrightarrow> as_max_queue_depth g = d \<and> length (as_queue g) \<le> d"

definition mirrors :: "('m, 's, 'p) Runtime \<Rightarrow> bool" where
  "mirrors s \<longleftrightarrow> distinct (map qs_id (queue_of s)) \<and> fst ` set (rt_pending s) = qs_id ` set (queue_of s) \<and>
     within_depth (max (ac_max_queue_depth (nc_activation (nd_config (rt_node s)))) 1) (nd_activation (rt_node s))"

definition drop_bodies :: "(SignalId, 'p Signal) hashmap \<Rightarrow> QueuedSignal list \<Rightarrow> (SignalId, 'p Signal) hashmap" where
  "drop_bodies P qs = foldl (\<lambda>P q. AList.delete (qs_id q) P) P qs"

lemma drop_bodies_simps [simp]:
  "drop_bodies P [] = P" "drop_bodies P (q # qs) = drop_bodies (AList.delete (qs_id q) P) qs"
  by (simp_all add: drop_bodies_def)

lemma delete_keys: "fst ` set (AList.delete k P) = fst ` set P - {k}"
  using delete_keys [of k P] by (metis list.set_map set_minus_filter_out removeAll_filter_not_eq set_removeAll)

lemma drop_bodies_keys: "fst ` set (drop_bodies P qs) = fst ` set P - qs_id ` set qs"
  by (induction qs arbitrary: P) (auto simp: delete_keys)

text \<open>The deduplication claim of a signal still queued is live when it arrives again.\<close>

definition claim_live ::
  "('m \<Rightarrow> SignalId \<rightharpoonup> u64) \<Rightarrow> ('m, 's, 'p, 'k, 'v) RtEnv \<Rightarrow> 'p rt_event \<Rightarrow> ('m, 's, 'p) Runtime \<Rightarrow> bool" where
  "claim_live seen rt ev s \<longleftrightarrow> (\<forall>peer b. ev = FromPeer peer b \<longrightarrow> sg_id b \<in> qs_id ` set (queue_of s) \<longrightarrow>
     seen_live (seen (nd_store (rt_node s))) (sg_id b) (re_clock rt (rt_reads s)))"

fun claims_live ::
  "('m \<Rightarrow> SignalId \<rightharpoonup> u64) \<Rightarrow> ('m, 's, 'p, 'k, 'v) RtEnv \<Rightarrow> 'p rt_event list \<Rightarrow> ('m, 's, 'p) Runtime \<Rightarrow> bool" where
  "claims_live seen rt [] s \<longleftrightarrow> True"
| "claims_live seen rt (ev # evs) s \<longleftrightarrow> claim_live seen rt ev s \<and> claims_live seen rt evs (snd (rt_step rt ev s))"

section \<open>The gate within a request\<close>

lemma gate_any:
  fixes f :: "('m, 's, 'a) node_op"
  assumes "\<And>g. safe (gate_is g) (\<lambda>_. True) f (\<lambda>_. True)"
  shows "safe (\<lambda>n. Q (nd_activation n)) (\<lambda>_. True) f (\<lambda>_. True)"
  unfolding safe_def
proof (intro allI impI)
  fix n :: "('m, 's) Node" assume n: "Q (nd_activation n)"
  obtain r n' where run: "f n = (r, n')" by fastforce
  have "nd_activation n' = nd_activation n" using safe_run(1) [OF assms refl run] .
  then show "ends f n (\<lambda>x n'. Q (nd_activation n') \<and> True) (\<lambda>e n'. Q (nd_activation n') \<and> True)"
    using n run by (auto simp: ends_def split: sum.split)
qed

lemma depth_admit: "safe (\<lambda>n. within_depth d (nd_activation n)) (\<lambda>_. True) (admit_op en q w now) (\<lambda>_. True)"
  unfolding safe_def
proof (intro allI impI)
  fix n :: "('a, 'b) Node" assume n: "within_depth d (nd_activation n)"
  obtain a g s where adm: "admit (en_libm en) (nd_activation n) q w now (en_next en) (nd_rng n) = (a, g, s)" by (metis prod_cases3)
  then have "gate_event_step (en_libm en) (en_next en) (Offer q w now) (nd_activation n) (nd_rng n) =
      (ao_fired a, (case ao_dropped a of None \<Rightarrow> [] | Some x \<Rightarrow> [x]), g, s)" by simp
  from gate_event_conserves(2,3) [OF this] have "within_depth d g" using n by (simp add: within_depth_def)
  then show "ends (admit_op en q w now) n (\<lambda>x n'. within_depth d (nd_activation n') \<and> True) (\<lambda>e n'. within_depth d (nd_activation n') \<and> True)"
    using n adm by (simp add: admit_op_def ends_def)
qed

lemma depth_dispose: "safe (\<lambda>n. within_depth d (nd_activation n)) (\<lambda>_. True) (dispose en sig arrival now fired ev) (\<lambda>_. True)"
proof (rule gate_any)
  show "safe (gate_is g) (\<lambda>_. True) (dispose en sig arrival now fired ev) (\<lambda>_. True)" for g
    unfolding dispose_def Let_def by (rule safe_bind [OF safe_if [OF gate_plan safe_ret]]) (auto intro: safe_ret)
qed

lemma depth_receive: "safe (\<lambda>n. within_depth d (nd_activation n)) (\<lambda>_. True) (receive en sig arrival now) (\<lambda>_. True)"
proof -
  have fresh: "safe (\<lambda>n. within_depth d (nd_activation n)) (\<lambda>_. True) (receive_fresh en me sig arrival now) (\<lambda>_. True)" for me
    unfolding receive_fresh_def Let_def
    by (intro safe_sum safe_ret safe_bind [OF gate_any [OF gate_arrival]] safe_bind [OF depth_admit] safe_option safe_if depth_dispose TrueI)
  show ?thesis unfolding receive_def
    by (intro safe_self safe_bind [OF gate_any [OF gate_store]] safe_if safe_ret fresh TrueI)
qed

lemma clamp_id: "clamp_inbound_headers b pc = (h, b') \<Longrightarrow> sg_id b' = sg_id b"
  by (auto simp: clamp_inbound_headers_def Let_def split: if_splits)

section \<open>One request\<close>

lemma op_bind_assoc: "op_bind f (\<lambda>x. op_bind (g x) h) = op_bind (op_bind f g) h"
proof
  fix s
  obtain x s1 where "f s = (x, s1)" by fastforce
  then show "op_bind f (\<lambda>x. op_bind (g x) h) s = op_bind (op_bind f g) h s" by (cases x) (simp_all add: op_bind_def)
qed

lemma keys_left:
  assumes "distinct (map f (x # xs))" "f ` set (x # xs) - X \<subseteq> K"
  shows "f ` set xs - X \<subseteq> K - {f x}"
proof -
  have "f x \<notin> f ` set xs" using assms(1) by simp
  moreover have "f ` set xs - X \<subseteq> f ` set (x # xs) - X" by auto
  ultimately show ?thesis using assms(2) by (simp only: subset_Diff_insert) auto
qed

lemma books_balance:
  assumes "A \<inter> H = {}" "A \<inter> E = {}" "A \<union> H \<union> E = Q \<union> N" "x \<notin> Q" "N \<subseteq> {x}"
  shows "Q - E - (H - {x}) = A - {x}"
  using assms by blast

text \<open>The state between the calls of a request: sound, with this gate and this cache, and with
  these lost releases.\<close>

context rt_host
begin

abbreviation quiet :: "NodeConfig \<Rightarrow> NodeId \<Rightarrow> ActivationState \<Rightarrow> (SignalId, 'p Signal) hashmap \<Rightarrow> 'p RtEvent list \<Rightarrow> ('m, 's, 'p) Runtime \<Rightarrow> bool" where
  "quiet c me g P L s \<equiv> rinv c me s \<and> still g P L s"

lemma run_quiet:
  assumes "\<And>E. safe (rinv c me) E f R" "safe (still g P L) (\<lambda>_. True) f (\<lambda>_. True)" "quiet c me g P L s" "f s = (r, s')"
  obtains x where "r = Inr x" "R x" "quiet c me g P L s'"
proof -
  note out = safe_run [OF safe_conj [OF assms(1) [of "\<lambda>_. False"] assms(2)] assms(3,4)]
  show ?thesis using that out by (cases r) auto
qed

lemma run_quiet_bind:
  assumes "\<And>E. safe (rinv c me) E f R" "safe (still g P L) (\<lambda>_. True) f (\<lambda>_. True)" "quiet c me g P L s" "op_bind f h s = (r, s')"
  obtains x s1 where "f s = (Inr x, s1)" "R x" "quiet c me g P L s1" "h x s1 = (r, s')"
proof -
  obtain y s1 where f: "f s = (y, s1)" by fastforce
  obtain x where "y = Inr x" "R x" "quiet c me g P L s1" by (rule run_quiet [OF assms(1-3) f])
  then show ?thesis using that f assms(4) by (simp add: op_bind_def)
qed

lemma run_take:
  assumes s: "quiet c me g P L s"
  shows "\<exists>s1. take_body i s = (Inr (map_of P i), s1) \<and> quiet c me g (AList.delete i P) L s1 \<and> (\<forall>b. map_of P i = Some b \<longrightarrow> \<not> fl_is_nan (sg_weight b))"
proof -
  have P: "rt_pending s = P" using s by (simp add: still_def)
  then have run: "take_body i s = (Inr (map_of P i), s\<lparr>rt_pending := AList.delete i P\<rparr>)" by (simp add: take_body_def)
  have "rinv c me (s\<lparr>rt_pending := AList.delete i P\<rparr>)" using safe_run(1) [OF safe_take _ run, of c me] s by blast
  moreover have "\<forall>b. map_of P i = Some b \<longrightarrow> \<not> fl_is_nan (sg_weight b)" using s P by (auto simp: rt_inv_def)
  ultimately show ?thesis using run s by (auto simp: still_def)
qed

lemma run_release_queued:
  assumes sane: "config_sane c" and s: "quiet c me g P L s" and i: "i \<in> fst ` set P"
    and run: "op_bind (take_body i) (\<lambda>body. release_signal rt i body None how) s = (r, s')"
  shows "r = Inr () \<and> quiet c me g (AList.delete i P) L s'"
proof -
  obtain s1 where t: "take_body i s = (Inr (map_of P i), s1)" "quiet c me g (AList.delete i P) L s1"
    "\<forall>b. map_of P i = Some b \<longrightarrow> \<not> fl_is_nan (sg_weight b)" using run_take [OF s] by blast
  obtain b where b: "map_of P i = Some b" using i by (metis map_of_eq_None_iff not_None_eq)
  have rel: "release_signal rt i (Some b) None how s1 = (r, s')" using run t(1) b by (simp add: op_bind_def)
  have "\<forall>b'. Some b = Some b' \<longrightarrow> \<not> fl_is_nan (sg_weight b')" using t(3) b by simp
  then obtain x where "r = Inr x" "quiet c me g (AList.delete i P) L s'"
    by (rule run_quiet [OF safe_release [OF sane] still_release t(2) rel]) blast
  then show ?thesis by simp
qed

lemma run_release_starving:
  assumes sane: "config_sane c"
  shows "quiet c me g P L s \<Longrightarrow> distinct (map qs_id qs) \<Longrightarrow> qs_id ` set qs \<subseteq> fst ` set P \<Longrightarrow> release_starving rt qs s = (r, s') \<Longrightarrow>
    r = Inr () \<and> quiet c me g (drop_bodies P qs) L s'"
proof (induction qs arbitrary: P s)
  case Nil
  then show ?case by (simp add: op_ret_def)
next
  case (Cons q qs)
  let ?step = "op_bind (take_body (qs_id q)) (\<lambda>body. release_signal rt (qs_id q) body None ByGuard)"
  obtain y s1 where st: "?step s = (y, s1)" by fastforce
  have mem: "qs_id q \<in> fst ` set P" using Cons.prems(3) by simp
  note one = run_release_queued [OF sane Cons.prems(1) mem st]
  have "op_bind ?step (\<lambda>_. release_starving rt qs) s = (r, s')"
    using Cons.prems(4) unfolding release_starving.simps op_bind_assoc .
  then have "release_starving rt qs s1 = (r, s')" using st one by (simp add: bind_run)
  moreover have "qs_id ` set qs \<subseteq> fst ` set (AList.delete (qs_id q) P)"
    using keys_left [OF Cons.prems(2), of "{}"] Cons.prems(3) by (simp add: delete_keys)
  ultimately show ?case using Cons.IH [of s1 "AList.delete (qs_id q) P"] one Cons.prems(2) by simp
qed

lemma run_release_each:
  assumes sane: "config_sane c" and w: "\<not> fl_is_nan (sg_weight b)"
  shows "quiet c me g P L s \<Longrightarrow> distinct (map qs_id qs) \<Longrightarrow> qs_id ` set qs - {sg_id b} \<subseteq> fst ` set P \<Longrightarrow> release_each rt b plan qs s = (r, s') \<Longrightarrow>
    r = Inr () \<and> quiet c me g (drop_bodies P (without qs (sg_id b))) L s'"
proof (induction qs arbitrary: P s)
  case Nil
  then show ?case by (simp add: op_ret_def without_def)
next
  case (Cons q qs)
  show ?case
  proof (cases "qs_id q = sg_id b")
    case True
    have w': "\<forall>b'. Some b = Some b' \<longrightarrow> \<not> fl_is_nan (sg_weight b')" using w by simp
    from run_quiet_bind [OF safe_release [OF sane w'] still_release Cons.prems(1), of "sg_id b" "Some plan" ByThreshold "\<lambda>_. release_each rt b plan qs" r s']
    obtain s1 where s1: "quiet c me g P L s1" "release_each rt b plan qs s1 = (r, s')"
      using Cons.prems(4) True by auto
    show ?thesis using Cons.IH [OF s1(1) _ _ s1(2)] Cons.prems(2,3) True by (simp add: without_def)
  next
    case False
    let ?step = "op_bind (take_body (qs_id q)) (\<lambda>body. release_signal rt (qs_id q) body None ByThreshold)"
    obtain y s1 where st: "?step s = (y, s1)" by fastforce
    have mem: "qs_id q \<in> fst ` set P" using Cons.prems(3) False by auto
    note one = run_release_queued [OF sane Cons.prems(1) mem st]
    have "release_each rt b plan qs s1 = (r, s')"
      using Cons.prems(4) st one False by (simp add: bind_run)
    moreover have "qs_id ` set qs - {sg_id b} \<subseteq> fst ` set (AList.delete (qs_id q) P)"
      using keys_left [OF Cons.prems(2,3)] by (simp add: delete_keys)
    ultimately show ?thesis using Cons.IH [of s1 "AList.delete (qs_id q) P"] one Cons.prems(2) False by (simp add: without_def)
  qed
qed

lemma run_tell_evicted:
  assumes s: "quiet c me g P L s" and run: "tell_evicted rt ev s = (r, s')"
  shows "r = Inr () \<and> quiet c me g (AList.delete (qs_id (ev_signal ev)) P) L s'"
proof -
  let ?i = "qs_id (ev_signal ev)"
  obtain s1 where t: "take_body ?i s = (Inr (map_of P ?i), s1)" "quiet c me g (AList.delete ?i P) L s1"
    using run_take [OF s] by blast
  let ?rest = "op_bind (send_event (RefusedSignal ?i (ev_reason ev))) (\<lambda>_.
     if evicted_needs_receipt ev
     then op_bind (send_receipt_to rt (receipt_rejected ?i (ev_reason ev) (case map_of P ?i of None \<Rightarrow> 0 | Some b \<Rightarrow> hops_of b))
       (qs_origin (ev_signal ev))) (\<lambda>_. op_ret ())
     else op_ret ())"
  have rest: "?rest s1 = (r, s')" using run t(1) by (simp add: tell_evicted_def op_bind_def)
  have safe: "safe (rinv c me) E ?rest (\<lambda>_. True)" for E
    by (intro safe_bind [OF safe_event] safe_if safe_bind [OF safe_receipt_to] safe_ret TrueI)
  have still: "safe (still g P' L) (\<lambda>_. True) ?rest (\<lambda>_. True)" for P' :: "(SignalId, 'p Signal) hashmap"
    by (intro safe_bind [OF still_basic(2)] safe_if safe_bind [OF still_receipts(1)] safe_ret TrueI) (simp add: lost_def)
  obtain x where "r = Inr x" "quiet c me g (AList.delete ?i P) L s'" by (rule run_quiet [OF safe still t(2) rest]) blast
  then show ?thesis by simp
qed

text \<open>What the balance of a request says of identifiers.\<close>

definition evicted_ids :: "Disposition \<Rightarrow> SignalId list" where
  "evicted_ids d = (case dp_evicted d of None \<Rightarrow> [] | Some ev \<Rightarrow> [qs_id (ev_signal ev)])"

lemma handled_iff: "handled b d \<longleftrightarrow> sg_id b \<in> qs_id ` set (dp_handle_locally d)"
  unfolding handled_def image_iff by metis

lemma balanced_ids:
  assumes bal: "balanced b now Q d A" and Q: "distinct (map qs_id Q)" "sg_id b \<notin> qs_id ` set Q"
  defines "new \<equiv> (if d = nothing \<or> dp_rejected d \<noteq> None then [] else [sg_id b])"
  shows "distinct (map qs_id A @ map qs_id (dp_handle_locally d) @ evicted_ids d)"
    "qs_id ` set A \<union> qs_id ` set (dp_handle_locally d) \<union> set (evicted_ids d) = qs_id ` set Q \<union> set new"
proof -
  have "image_mset qs_id (mset A + mset (dp_handle_locally d) + opt_mset (map_option ev_signal (dp_evicted d))) =
      image_mset qs_id (mset Q + (if d = nothing \<or> dp_rejected d \<noteq> None then {#} else {#queued_of b now#}))"
    using bal unfolding balanced_def by (rule arg_cong)
  then have m: "mset (map qs_id A @ map qs_id (dp_handle_locally d) @ evicted_ids d) = mset (map qs_id Q @ new)"
    by (cases "dp_evicted d") (auto simp: new_def evicted_ids_def)
  have "distinct (map qs_id Q @ new)" using Q by (auto simp: new_def)
  then show "distinct (map qs_id A @ map qs_id (dp_handle_locally d) @ evicted_ids d)"
    using mset_eq_imp_distinct_iff [OF m] by blast
  show "qs_id ` set A \<union> qs_id ` set (dp_handle_locally d) \<union> set (evicted_ids d) = qs_id ` set Q \<union> set new"
    using mset_eq_setD [OF m] by auto
qed

lemma run_evictions:
  assumes s: "quiet c me g P L s"
    and run: "op_bind (case dp_evicted d of None \<Rightarrow> op_ret () | Some ev \<Rightarrow> tell_evicted rt ev) h s = (r, s')"
  obtains P1 s1 where "quiet c me g P1 L s1" "fst ` set P1 = fst ` set P - set (evicted_ids d)" "h () s1 = (r, s')"
proof (cases "dp_evicted d")
  case None
  then show ?thesis using that [of s P] s run by (simp add: evicted_ids_def)
next
  case (Some ev)
  obtain y s1 where y: "tell_evicted rt ev s = (y, s1)" by fastforce
  note t = run_tell_evicted [OF s y]
  show ?thesis
    by (rule that [of s1 "AList.delete (qs_id (ev_signal ev)) P"])
      (use t y run Some in \<open>auto simp: evicted_ids_def delete_keys bind_run\<close>)
qed

lemma run_carry_out:
  assumes sane: "config_sane c" and depth: "within_depth (max (ac_max_queue_depth (nc_activation c)) 1) g" "ac_max_queue_depth (nc_activation c) < 2 ^ 64"
    and s: "quiet c me g P L s" and w: "\<not> fl_is_nan (sg_weight b)"
    and d: "d = nothing \<or> accounted b d" "qs_id (queued_of b now) \<notin> set (evicted_ids d)" and bal: "balanced b now Q d (as_queue g)"
    and Q: "distinct (map qs_id Q)" "sg_id b \<notin> qs_id ` set Q" "fst ` set P = qs_id ` set Q"
    and run: "carry_out rt p b d s = (r, s')"
  shows "\<exists>P'. quiet c me g P' L s' \<and> fst ` set P' = qs_id ` set (as_queue g)"
proof -
  let ?A = "qs_id ` set (as_queue g)" and ?H = "qs_id ` set (dp_handle_locally d)" and ?E = "set (evicted_ids d)"
  note ids = balanced_ids [OF bal Q(1,2)]
  have disj: "?A \<inter> ?H = {}" "?A \<inter> ?E = {}" "?H \<inter> ?E = {}" "distinct (map qs_id (dp_handle_locally d))"
    using ids(1) by auto
  let ?finish = "if dp_queued d then remember_body b else op_ret ()"
  let ?release = "op_bind (release_each rt b (dp_forward_to d) (dp_handle_locally d)) (\<lambda>_. ?finish)"
  let ?refusal = "op_bind (case dp_rejected d of None \<Rightarrow> op_ret () | Some reason \<Rightarrow> send_event (RefusedSignal (sg_id b) reason)) (\<lambda>_. ?release)"
  let ?receipt = "op_bind (case dp_receipt d of None \<Rightarrow> op_ret () | Some rc \<Rightarrow> send_receipt rt rc (sg_origin b) p) (\<lambda>_. ?refusal)"
  obtain P1 s1 where e: "quiet c me g P1 L s1" "fst ` set P1 = fst ` set P - ?E" "?receipt s1 = (r, s')"
    by (rule run_evictions [OF s run [unfolded carry_out_def]])
  have rc: "safe (rinv c me) E (case dp_receipt d of None \<Rightarrow> op_ret () | Some rc \<Rightarrow> send_receipt rt rc (sg_origin b) p) (\<lambda>_. True)"
    "safe (still g P1 L) (\<lambda>_. True) (case dp_receipt d of None \<Rightarrow> op_ret () | Some rc \<Rightarrow> send_receipt rt rc (sg_origin b) p) (\<lambda>_. True)" for E
    by (intro safe_option safe_ret safe_receipt still_receipts TrueI)+
  obtain s2 where s2: "quiet c me g P1 L s2" "?refusal s2 = (r, s')"
    by (rule run_quiet_bind [OF rc e(1,3)]) blast
  have ev: "safe (rinv c me) E (case dp_rejected d of None \<Rightarrow> op_ret () | Some reason \<Rightarrow> send_event (RefusedSignal (sg_id b) reason)) (\<lambda>_. True)"
    "safe (still g P1 L) (\<lambda>_. True) (case dp_rejected d of None \<Rightarrow> op_ret () | Some reason \<Rightarrow> send_event (RefusedSignal (sg_id b) reason)) (\<lambda>_. True)" for E
    by (auto intro!: safe_event safe_ret still_basic(2) simp: lost_def split: option.split)
  obtain s3 where s3: "quiet c me g P1 L s3" "?release s3 = (r, s')"
    by (rule run_quiet_bind [OF ev s2]) blast
  have held: "?H - {sg_id b} \<subseteq> fst ` set P1" using e(2) ids(2) disj Q(3) by (auto split: if_splits)
  obtain y s4 where rel: "release_each rt b (dp_forward_to d) (dp_handle_locally d) s3 = (y, s4)" by fastforce
  note r4 = run_release_each [OF sane w s3(1) disj(4) held rel]
  let ?P4 = "drop_bodies P1 (without (dp_handle_locally d) (sg_id b))"
  have fin: "?finish s4 = (r, s')" using s3(2) rel r4 by (simp add: bind_run)
  have k4: "fst ` set ?P4 = qs_id ` set Q - ?E - (?H - {sg_id b})"
    using e(2) Q(3) by (auto simp: drop_bodies_keys without_def)
  have k4': "fst ` set ?P4 = ?A - {sg_id b}"
    unfolding k4 by (rule books_balance [OF disj(1,2) ids(2) Q(2)]) simp
  show ?thesis
  proof (cases "dp_queued d")
    case False
    have "sg_id b \<notin> ?A"
    proof (cases "d = nothing \<or> dp_rejected d \<noteq> None")
      case True
      then show ?thesis using ids(2) Q(2) by auto
    next
      case no: False
      then have "sg_id b \<in> ?H" using d(1) False by (auto simp: accounted_def handled_iff)
      then show ?thesis using disj(1) by blast
    qed
    then show ?thesis using fin False r4 k4' by (auto simp: op_ret_def intro!: exI [of _ ?P4])
  next
    case True
    then have d': "dp_rejected d = None" "d \<noteq> nothing" "sg_id b \<notin> ?H"
      using d(1) by (auto simp: accounted_def handled_iff nothing_def split: option.splits)
    then have inA: "sg_id b \<in> ?A" using ids(2) d(2) by auto
    have P4: "rt_pending s4 = ?P4" "nd_config (rt_node s4) = c" "hm_wf ?P4" using r4 by (auto simp: still_def rt_inv_def node_ok_def)
    have "length ?P4 = card (fst ` set ?P4)" using P4(3) distinct_card [of "map fst ?P4"] by simp
    also have "\<dots> < card ?A" using k4' inA by (metis card_Diff1_less finite_imageI finite_set)
    also have "\<dots> \<le> max (ac_max_queue_depth (nc_activation c)) 1"
      using depth(1) card_length [of "map qs_id (as_queue g)"] by (simp add: within_depth_def)
    finally have small: "\<not> min (2 * max (ac_max_queue_depth (nc_activation c)) 1) (2 ^ 64 - 1) \<le> length ?P4" using depth(2) by (auto simp: min_def max_def split: if_splits)
    have rem: "remember_body b s4 = (Inr (), s4\<lparr>rt_pending := AList.update (sg_id b) b ?P4\<rparr>)"
      using small P4 by (simp add: remember_body_def op_bind_def rt_config_def Let_def)
    then have s': "s' = s4\<lparr>rt_pending := AList.update (sg_id b) b ?P4\<rparr>" using fin True by simp
    have "rinv c me s'" using safe_run(1) [OF safe_remember [OF w] _ rem, of c me] r4 s' by blast
    moreover have "still g (AList.update (sg_id b) b ?P4) L s'" using r4 s' by (simp add: still_def)
    moreover have "fst ` set (AList.update (sg_id b) b ?P4) = ?A" using k4' inA by (auto simp: dom_update [unfolded dom_map_of_conv_image_fst])
    ultimately show ?thesis by blast
  qed
qed

lemma dispose_evicted:
  assumes "dispose en sig arrival now fired ev n = (Inr d, n')" shows "dp_evicted d = ev"
  using assms by (auto simp: dispose_def Let_def op_bind_def split: prod.splits sum.splits if_splits)

lemma receive_evicts_other:
  assumes "receive en sig arrival now n = (Inr d, n')" shows "sg_id sig \<notin> set (evicted_ids d)"
  using assms
proof (cases rule: receive_cases)
  case (fresh m)
  then show ?thesis
    by (auto simp: receive_fresh_def op_bind_Inr evicted_ids_def Let_def dest!: dispose_evicted split: sum.splits option.splits if_splits)
qed (simp add: evicted_ids_def nothing_def)

text \<open>A run of the gate that keeps its books leaves identifiers distinct.\<close>

lemma run_deliver:
  assumes sane: "config_sane c" and depth: "ac_max_queue_depth (nc_activation c) < 2 ^ 64"
    and s: "rinv c me s" and mir: "mirrors s" and w: "\<not> fl_is_nan (sg_weight b)"
    and claim: "sg_id b \<in> qs_id ` set (queue_of s) \<Longrightarrow> seen_live (seen (nd_store (rt_node s))) (sg_id b) (re_clock rt (rt_reads s))"
    and run: "deliver rt p b s = (r, s')"
  shows "mirrors s' \<and> filter lost (rt_events s') = filter lost (rt_events s)"
proof -
  define g where "g = nd_activation (rt_node s)"
  define L where "L = filter lost (rt_events s)"
  let ?D = "max (ac_max_queue_depth (nc_activation c)) 1"
  have cfg: "nd_config (rt_node s) = c" using s by (simp add: rt_inv_def node_ok_def)
  have m: "distinct (map qs_id (as_queue g))" "fst ` set (rt_pending s) = qs_id ` set (as_queue g)" "within_depth ?D g"
    using mir cfg by (simp_all add: mirrors_def g_def)
  have quiet0: "quiet c me g (rt_pending s) L s" using s by (simp add: still_def g_def L_def)
  obtain arrival s1 where s1: "peer_synapse rt p s = (Inr arrival, s1)" "quiet c me g (rt_pending s) L s1"
    and rest: "op_bind (node_call rt (receive (re_node rt) b arrival)) (\<lambda>r. case r of Inl _ \<Rightarrow> op_ret () | Inr d \<Rightarrow> carry_out rt p b d) s1 = (r, s')"
    by (rule run_quiet_bind [OF safe_peer_synapse still_peer_synapse quiet0 run [unfolded deliver_def]])
  have same: "seen (nd_store (rt_node s1)) = seen (nd_store (rt_node s))" "rt_reads s1 = rt_reads s"
  proof -
    have "healthy (nd_store (rt_node s))" using s by (simp add: rt_inv_def node_ok_def)
    then obtain q where "st_synapse_for_peer api p (nd_store (rt_node s)) = (Inr q, nd_store (rt_node s))"
      using for_peer_law [of "nd_store (rt_node s)" p] by blast
    then have "s1 = s" using s1(1) by (auto simp: peer_synapse_def peer_record_def op_bind_def op_ret_def env)
    then show "seen (nd_store (rt_node s1)) = seen (nd_store (rt_node s))" "rt_reads s1 = rt_reads s" by simp_all
  qed
  let ?now = "re_clock rt (rt_reads s1)"
  have ok1: "ok c me (rt_node s1)" using s1(2) by (simp add: rt_inv_def)
  obtain y n' where rec: "receive (re_node rt) b arrival ?now (rt_node s1) = (y, n')" by fastforce
  obtain d where d: "y = Inr d"
    using safe_run(2) [OF safe_ok [OF safe_receive [OF w, where E = "\<lambda>_. False"]] ok1 rec] by (cases y) auto
  define s2 where "s2 = s1\<lparr>rt_reads := rt_reads s1 + 1, rt_node := n'\<rparr>"
  have call: "node_call rt (receive (re_node rt) b arrival) s1 = (Inr (Inr d), s2)"
    using rec d by (simp add: node_call_def run_rt_clock on_node_def s2_def)
  have inv2: "rinv c me s2" using safe_run(1) [OF safe_call [OF safe_ok, OF safe_receive [OF w]] _ call] s1(2) by blast
  let ?g = "nd_activation n'"
  have quiet2: "quiet c me ?g (rt_pending s) L s2" using inv2 s1(2) by (simp add: still_def s2_def)
  have g1: "nd_activation (rt_node s1) = g" using s1(2) by (simp add: still_def)
  have depth': "within_depth ?D ?g" using safe_run(1) [OF depth_receive _ rec] g1 m(3) by simp
  have co: "carry_out rt p b d s2 = (r, s')" using rest call by (simp add: bind_run)
  note rec' = rec [unfolded d]
  have fin: "\<exists>P'. quiet c me ?g P' L s' \<and> fst ` set P' = qs_id ` set (as_queue ?g) \<and> distinct (map qs_id (as_queue ?g))"
  proof (cases "sg_id b \<in> qs_id ` set (as_queue g)")
    case True
    have "healthy (nd_store (rt_node s1))" using ok1 by (simp add: node_ok_def)
    moreover have "seen_live (seen (nd_store (rt_node s1))) (sg_id b) ?now" using claim True same by (simp add: g_def)
    ultimately obtain m where "receive (re_node rt) b arrival ?now (rt_node s1) = (Inr nothing, (rt_node s1)\<lparr>nd_store := m\<rparr>)"
      using receive_duplicate by blast
    then have dn: "d = nothing" "n' = (rt_node s1)\<lparr>nd_store := m\<rparr>" using rec' by simp_all
    then have "s' = s2" using co by (simp add: carry_out_def nothing_def op_bind_def op_ret_def)
    then show ?thesis using quiet2 dn(2) g1 m(1,2) by auto
  next
    case False
    then have new: "\<forall>x \<in> set (as_queue (nd_activation (rt_node s1))). qs_id x \<noteq> sg_id b" using g1 by (metis imageI)
    have both: "(d = nothing \<or> accounted b d) \<and> balanced b ?now (as_queue g) d (as_queue ?g)"
      using rec'
    proof (cases rule: receive_cases)
      case (duplicate m)
      then show ?thesis using g1 by (simp add: balanced_def nothing_def)
    next
      case (fresh m)
      from receive_fresh_accounts [OF fresh(2)] new g1 show ?thesis by simp
    qed
    have ev: "qs_id (queued_of b ?now) \<notin> set (evicted_ids d)" using receive_evicts_other [OF rec'] by simp
    have "\<exists>P'. quiet c me ?g P' L s' \<and> fst ` set P' = qs_id ` set (as_queue ?g)"
      by (rule run_carry_out [OF sane depth' depth quiet2 w conjunct1 [OF both] ev conjunct2 [OF both] m(1) False m(2) co])
    moreover have "distinct (map qs_id (as_queue ?g))" using balanced_ids(1) [OF conjunct2 [OF both] m(1) False] by simp
    ultimately show ?thesis by blast
  qed
  then have "rinv c me s'" "still ?g (rt_pending s') L s'" by (auto simp: still_def)
  moreover from fin have "fst ` set (rt_pending s') = qs_id ` set (as_queue ?g)" "distinct (map qs_id (as_queue ?g))"
    by (auto simp: still_def)
  ultimately show ?thesis using depth' by (simp add: mirrors_def still_def L_def rt_inv_def node_ok_def)
qed

section \<open>Every step\<close>

lemma lost_simps [simp]:
  "lost (Released i x) \<longleftrightarrow> x = None" "\<not> lost (OriginKeyUnknown p o')" "\<not> lost (MalformedFrom p w)" "\<not> lost (HeadersClamped p i b b')"
  by (auto simp: lost_def)

lemma mirrors_still:
  assumes "mirrors s" "rinv c me s" "rinv c me s'" "still (nd_activation (rt_node s)) (rt_pending s) (filter lost (rt_events s)) s'"
  shows "mirrors s' \<and> filter lost (rt_events s') = filter lost (rt_events s)"
  using assms by (simp add: mirrors_def still_def rt_inv_def node_ok_def)

lemma mirrors_inbound:
  assumes sane: "config_sane c" and depth: "ac_max_queue_depth (nc_activation c) < 2 ^ 64"
    and s: "rinv c me s" and mir: "mirrors s" and claim: "claim_live seen rt (FromPeer peer b) s" and run: "inbound rt peer b s = (r, s')"
  shows "mirrors s' \<and> filter lost (rt_events s') = filter lost (rt_events s)"
proof -
  let ?still = "still (nd_activation (rt_node s)) (rt_pending s) (filter lost (rt_events s))"
  have s': "rinv c me s'" using safe_run(1) [OF safe_inbound [OF sane] s run] .
  have here: "?still s" by (simp add: still_def)
  show ?thesis
  proof (cases "\<exists>key. key_of_origin peer (sg_origin b) (rt_sessions s) = Some key \<and> authentic rt b key \<and> fl_is_finite (sg_weight b)")
    case False
    have "?still s'"
    proof (cases "key_of_origin peer (sg_origin b) (rt_sessions s)")
      case None
      then show ?thesis using run by (auto simp: inbound_def still_def send_event_def)
    next
      case (Some key)
      then show ?thesis
        using run False safe_run(1) [OF still_bad_signature here, of rt "pi_node_id peer" r s']
        by (auto simp: inbound_def still_def send_event_def split: if_splits)
    qed
    then show ?thesis by (rule mirrors_still [OF mir s s'])
  next
    case True
    then have acc: "accept_signal rt (pi_node_id peer) b s = (r, s')" and fin: "fl_is_finite (sg_weight b)"
      using run by (auto simp: inbound_def)
    obtain h b' where cl: "clamp_inbound_headers b (nc_propagation c) = (h, b')" by fastforce
    have cfg: "nd_config (rt_node s) = c" using s by (simp add: rt_inv_def node_ok_def)
    let ?tell = "if clamp_any h then send_event (HeadersClamped (pi_node_id peer) (sg_id b') (hc_weight_clamped h) (hc_ttl_clamped h)) else op_ret ()"
    let ?rest = "if sg_type b' = ReceiptType then take_receipt rt (pi_node_id peer) b' else deliver rt (pi_node_id peer) b'"
    have "op_bind ?tell (\<lambda>_. ?rest) s = (r, s')"
      using acc cl cfg by (simp add: accept_signal_def op_bind_def [of rt_config] rt_config_def)
    moreover have tell: "\<exists>s1. ?tell s = (Inr (), s1) \<and> s1 = s\<lparr>rt_events := rt_events s1\<rparr> \<and> filter lost (rt_events s1) = filter lost (rt_events s)"
      by (auto simp: send_event_def op_ret_def)
    ultimately obtain s1 where s1: "s1 = s\<lparr>rt_events := rt_events s1\<rparr>" "filter lost (rt_events s1) = filter lost (rt_events s)"
      "?rest s1 = (r, s')" by (auto simp: bind_run simp del: op_ret_def)
    have same: "rt_node s1 = rt_node s" "rt_pending s1 = rt_pending s" "rt_sessions s1 = rt_sessions s" "rt_reads s1 = rt_reads s"
      using s1(1) by (metis Runtime.select_convs Runtime.update_convs(4) Runtime.surjective)+
    have inv1: "rinv c me s1" "mirrors s1" using s mir same by (simp_all add: rt_inv_def mirrors_def)
    have id: "sg_id b' = sg_id b" by (rule clamp_id [OF cl])
    show ?thesis
    proof (cases "sg_type b' = ReceiptType")
      case True
      have "?still s1" using same s1(2) by (simp add: still_def)
      then have "?still s'" using safe_run(1) [OF still_receipt_in] s1(3) True by simp
      then show ?thesis by (rule mirrors_still [OF mir s s'])
    next
      case False
      have "seen_live (seen (nd_store (rt_node s1))) (sg_id b') (re_clock rt (rt_reads s1))" if "sg_id b' \<in> qs_id ` set (queue_of s1)"
        using claim that same id by (simp add: claim_live_def)
      then show ?thesis
        using run_deliver [OF sane depth inv1 clamped_weight [OF fin cl]] s1(2,3) False by simp
    qed
  qed
qed

lemma mirrors_tick:
  assumes sane: "config_sane c" and s: "rinv c me s" and mir: "mirrors s" and run: "maintenance_tick rt k s = (r, s')"
  shows "mirrors s' \<and> filter lost (rt_events s') = filter lost (rt_events s)"
proof -
  define L where "L = filter lost (rt_events s)"
  let ?P = "rt_pending s"
  have cfg: "nd_config (rt_node s) = c" and pois: "\<not> nd_activation_poisoned (rt_node s)" using s by (simp_all add: rt_inv_def node_ok_def)
  let ?now = "re_clock rt (rt_reads s)"
  obtain q g where g: "drain_if_starving (nd_activation (rt_node s)) ?now = (q, g)" by fastforce
  have "gate_event_step (en_libm (re_node rt)) (en_next (re_node rt)) (Poll ?now) (nd_activation (rt_node s)) (nd_rng (rt_node s)) =
      (q, [], g, nd_rng (rt_node s))" using g by simp
  note cons = gate_event_conserves [OF this]
  let ?s1 = "s\<lparr>rt_reads := rt_reads s + 1, rt_node := (rt_node s)\<lparr>nd_activation := g\<rparr>\<rparr>"
  have call: "node_call rt poll_activation s = (Inr (Inr q), ?s1)"
    using g pois by (simp add: node_call_def run_rt_clock on_node_def poll_activation_def with_gate_def)
  have "rinv c me ?s1" using s by (simp add: rt_inv_def node_ok_def)
  then have quiet1: "quiet c me g ?P L ?s1" by (simp add: still_def L_def)
  have "mset (map qs_id (q @ as_queue g)) = mset (map qs_id (queue_of s))" using arg_cong [OF cons(1), of "image_mset qs_id"] by simp
  from mset_eq_imp_distinct_iff [OF this] mset_eq_setD [OF this] mir
  have ids: "distinct (map qs_id q)" "distinct (map qs_id (as_queue g))" "qs_id ` set q \<inter> qs_id ` set (as_queue g) = {}"
    "fst ` set ?P = qs_id ` set q \<union> qs_id ` set (as_queue g)"
    by (auto simp: mirrors_def)
  have depth: "within_depth (max (ac_max_queue_depth (nc_activation c)) 1) g"
    using cons(2,3) mir cfg by (auto simp: mirrors_def within_depth_def)
  let ?sweep = "if k mod max per_sweep 1 \<noteq> 0 then op_ret ()
     else op_bind (node_call rt (sweep_timeouts (re_node rt) 256)) (\<lambda>_. op_bind (node_call rt (checkpoint (re_node rt))) (\<lambda>_. op_ret ()))"
  obtain y s2 where rel: "release_starving rt q ?s1 = (y, s2)" by fastforce
  have r2: "y = Inr ()" "quiet c me g (drop_bodies ?P q) L s2"
    using run_release_starving [OF sane quiet1 ids(1) _ rel] ids(4) by auto
  have "poll_guard rt s = (Inr (), s2)" using call rel r2(1) by (simp add: poll_guard_def bind_run)
  then have sw: "?sweep s2 = (r, s')" using run by (simp add: maintenance_tick_def bind_run)
  have still: "safe (still g (drop_bodies ?P q) L) (\<lambda>_. True) ?sweep (\<lambda>_. True)"
    by (intro safe_if safe_ret safe_bind [OF still_call [OF gate_operations(3)]] safe_bind [OF still_call [OF gate_upkeep(2)]] TrueI)
  have "still g (drop_bodies ?P q) L s'" using safe_run(1) [OF still _ sw] r2(2) by blast
  moreover have "rinv c me s'" using safe_run(1) [OF safe_tick [OF sane] s run] .
  moreover have "fst ` set (drop_bodies ?P q) = qs_id ` set (as_queue g)" using ids(3,4) by (auto simp: drop_bodies_keys)
  ultimately show ?thesis using ids(2) depth by (simp add: mirrors_def still_def L_def rt_inv_def node_ok_def)
qed

lemma mirrors_step:
  assumes sane: "config_sane c" and depth: "ac_max_queue_depth (nc_activation c) < 2 ^ 64" and ok: "rt_event_ok ev"
    and s: "rinv c me s" and mir: "mirrors s" and claim: "claim_live seen rt ev s" and run: "rt_step rt ev s = (r, s')"
  shows "mirrors s' \<and> filter lost (rt_events s') = filter lost (rt_events s)"
proof -
  let ?still = "still (nd_activation (rt_node s)) (rt_pending s) (filter lost (rt_events s))"
  have s': "rinv c me s'" using safe_run(1) [OF safe_rt_step [OF sane ok] s run] .
  have here: "?still s" by (simp add: still_def)
  have quiet: ?thesis if "safe ?still (\<lambda>_. True) (rt_step rt ev) (\<lambda>_. True)"
    using mirrors_still [OF mir s s'] safe_run(1) [OF that here run] by blast
  have unit: "safe ?still (\<lambda>_. True) (op_bind f (\<lambda>_. op_ret ())) (\<lambda>_. True)" if "safe ?still (\<lambda>_. True) f (\<lambda>_. True)"
    for f :: "('m, 's, 'p, 'x) rt_op" using that by (rule safe_bind) (simp add: safe_def)
  show ?thesis
  proof (cases ev)
    case (FromPeer peer b)
    then show ?thesis using mirrors_inbound [OF sane depth s mir] claim run by simp
  next
    case (Tick k)
    then show ?thesis using mirrors_tick [OF sane s mir] run by simp
  qed (rule quiet, simp add: still_sessions safe_bind [OF still_local(1)] safe_bind [OF still_local(2)] safe_bind [OF still_local(3)] safe_bind [OF still_sessions(3)] safe_ret)+
qed

lemma mirrors_run:
  assumes sane: "config_sane c" and depth: "ac_max_queue_depth (nc_activation c) < 2 ^ 64"
  shows "\<forall>ev \<in> set evs. rt_event_ok ev \<Longrightarrow> rinv c me s \<Longrightarrow> mirrors s \<Longrightarrow> claims_live seen rt evs s \<Longrightarrow> rt_run rt evs s = (rs, s') \<Longrightarrow>
    rinv c me s' \<and> mirrors s' \<and> filter lost (rt_events s') = filter lost (rt_events s)"
proof (induction evs arbitrary: s rs)
  case (Cons ev evs)
  obtain r s1 where st: "rt_step rt ev s = (r, s1)" by fastforce
  obtain rs1 where more: "rt_run rt evs s1 = (rs1, s')" using Cons.prems(5) st by (auto split: prod.splits)
  have ok: "rt_event_ok ev" and claim: "claim_live seen rt ev s" using Cons.prems(1,4) by simp_all
  note inv1 = safe_run(1) [OF safe_rt_step [OF sane ok] Cons.prems(2) st]
  note one = mirrors_step [OF sane depth ok Cons.prems(2,3) claim st]
  show ?case using Cons.IH [OF _ inv1 conjunct1 [OF one] _ more] Cons.prems(1,4) st one by simp
qed simp

end



end
