(* ===== verification/Authentication.thy ===== *)
theory Authentication
  imports Runtime_Run
begin

text \<open>
  What the handshake promises: a completed handshake binds the peer to its key and to this
  connection's challenge; its proof does not name the verifier, so it can be relayed.
\<close>

section \<open>Frames of the handshake\<close>

text \<open>What a handshake frame of a node is: a discovery signal of its own, signed.\<close>

lemma handshake_signal_form:
  assumes "handshake_signal en v s = (Inr g, s')"
  shows "sg_type g = Discovery \<and> sg_payload g = v \<and> sg_origin g = nd_identity (rt_node s) \<and>
    (\<exists>g0. sign_signal (re_cbor en) (crypto en) g0 (id_private (re_identity en)) = Inr g)"
proof -
  obtain g0 s1 where e: "node_emit en (with_payload (signal_discovery (wj_base (re_json en))) v) s = (Inr (Inr g0), s1)"
    and g: "sign_signal (re_cbor en) (crypto en) g0 (id_private (re_identity en)) = Inr g"
    using assms by (auto simp: handshake_signal_def op_bind_def op_ret_def op_fail_def split: sum.splits prod.splits)
  have "sg_type g0 = Discovery \<and> sg_payload g0 = v \<and> sg_origin g0 = nd_identity (rt_node s)"
    using e by (auto simp: node_emit_def read_clock_def on_node_def emit_def op_bind_def self_def with_rng_def store_op_def op_ret_def
        build_unsigned_with_def signal_discovery_def builder_new_def with_payload_def Let_def split: if_splits prod.splits sum.splits stop.splits)
  moreover have "\<exists>x. g = g0\<lparr>sg_signature := x\<rparr>" using g by (auto simp: sign_signal_def split: sum.splits)
  ultimately show ?thesis using g by auto
qed

lemma signed_verifies:
  assumes ed: "ed_sound ed" and keys: "keypair_from_seed ed seed = Inr (pub, priv)" and g: "sign_signal cb (classical_module ed bl) g0 priv = Inr g"
  shows "verify_signal cb (classical_module ed bl) g pub = Inr True"
proof -
  obtain b where b: "signing_bytes cb g0 = Inr b" using g by (auto simp: sign_signal_def split: sum.splits)
  show ?thesis by (rule sign_signal_verifies [OF ed keys b, of bl]) (use g in simp)
qed

section \<open>What a completed handshake means\<close>

lemma op_bind_case: "op_bind f h s = (Inr y, s') \<longleftrightarrow> (\<exists>x s1. f s = (Inr x, s1) \<and> h x s1 = (Inr y, s'))"
  by (auto simp: op_bind_def split: sum.splits prod.splits)

lemma write_frame_reader:
  assumes "write_handshake_frame sk en v (r, w, s) = (x, (r', w', s'))" shows "r' = r"
  using assms by (auto simp: write_handshake_frame_def on_runtime_def on_writer_def op_bind_def Let_def split: prod.splits sum.splits)

lemma read_frame_ok:
  "read_handshake_frame so b en what (r, w, s) = (Inr g, (r', w', s')) \<longleftrightarrow>
   b \<and> read_signal so (re_cbor en) r = (Inr g, r') \<and> w' = w \<and> s' = s"
  by (auto simp: read_handshake_frame_def on_reader_def op_fail_def op_map_err_def Let_def split: prod.splits sum.splits)

lemma hs_result_ok: "hs_result x st = (Inr y, st') \<longleftrightarrow> x = Inr y \<and> st' = st"
  by (auto simp: hs_result_def op_fail_def op_ret_def split: sum.splits)


section \<open>The frames of an honest node\<close>

lemma signs_anything:
  assumes "ed_sound ed" "keypair_from_seed ed seed = Inr (pub, priv)" "signing_bytes cb g = Inr b"
  obtains h where "sign_signal cb (classical_module ed bl) g priv = Inr h"
  by (rule sign_signal_verifies [OF assms, of bl])

context rt_host
begin

lemma run_handshake_signal:
  assumes s: "rinv c me s" and ed: "ed_sound (re_ed rt)"
    and keys: "keypair_from_seed (re_ed rt) seed = Inr (id_public (re_identity rt), id_private (re_identity rt))"
    and codec: "\<And>g. \<exists>b. signing_bytes (re_cbor rt) g = Inr b"
  obtains g s' where "handshake_signal rt v s = (Inr g, s')" "rinv c me s'"
    "table (nd_store (rt_node s')) = table (nd_store (rt_node s))"
proof -
  let ?b = "with_payload (signal_discovery (wj_base (re_json rt))) v"
  have n: "\<not> nd_rng_poisoned (rt_node s)" "healthy (nd_store (rt_node s))" using s by (simp_all add: rt_inv_def node_ok_def)
  obtain y s1 where e: "node_emit rt ?b s = (y, s1)" by fastforce
  obtain g0 where g0: "y = Inr (Inr g0)"
    using safe_run(2,3) [OF safe_node_emit [where E = "\<lambda>_. False"] s e] by (cases y) auto
  have "table (nd_store (rt_node s1)) = table (nd_store (rt_node s))"
    using e g0 n check_frame [OF n(2)]
    by (auto simp: node_emit_def read_clock_def on_node_def emit_def op_bind_def self_def with_rng_def store_op_def op_ret_def env
        split: prod.splits sum.splits stop.splits dest!: )
  moreover obtain b where "signing_bytes (re_cbor rt) g0 = Inr b" using codec by blast
  then obtain h where h: "sign_signal (re_cbor rt) (crypto rt) g0 (id_private (re_identity rt)) = Inr h"
    using signs_anything [OF ed keys] by blast
  moreover have "handshake_signal rt v s = (Inr h, s1)" using e g0 h by (simp add: handshake_signal_def bind_run)
  moreover have "rinv c me s1" using safe_run(1) [OF safe_node_emit s e] .
  ultimately show ?thesis using that by blast
qed

lemma run_form_fresh:
  assumes s: "rinv c me s" and T: "table (nd_store (rt_node s)) = Map.empty"
  obtains x s' where "form_synapse rt p s = (Inr x, s')"
proof -
  let ?n = "rt_node s"
  have v: "views (nd_store ?n) (seen (nd_store ?n)) Map.empty (journal (nd_store ?n))" and ok: "ok c me ?n"
    using s T by (simp_all add: rt_inv_def node_ok_def)
  have one: "one_per_peer Map.empty" by (simp add: one_per_peer_def)
  obtain x n' where "upsert_synapse (re_node rt) p (re_clock rt (rt_reads s)) ?n = (Inr x, n')"
    using run_upsert [OF ok v one, of p "re_clock rt (rt_reads s)"] by auto
  then show ?thesis using that by (simp add: form_synapse_def bind_run node_call_def run_rt_clock on_node_def)
qed

end

text \<open>A peer's frames for the witness: its key is its identity, and every signature is the toy one.\<close>

definition peer_key :: "u8 list" where
  "peer_key = replicate 32 6"

definition peer_frame :: "sample_value \<Rightarrow> sample_value Signal" where
  "peer_frame v = \<lparr>sg_id = 9, sg_type = Discovery, sg_version = 1, sg_origin = peer_key, sg_signature = replicate 64 1,
     sg_timestamp = 5, sg_payload = v, sg_encoding = Cbor, sg_weight = Fin 1, sg_ttl = 3,
     sg_scope = scope_default, sg_correlation_id = None, sg_trace = [], sg_tags = [], sg_delivery = BestEffort\<rparr>"

definition two_frames :: "sample_value Signal \<Rightarrow> sample_value Signal \<Rightarrow> sample_value cbor_api" where
  "two_frames a b = \<lparr>cb_to_vec = (\<lambda>g. Inr [1]), cb_from_slice = (\<lambda>x. Inr (if x = [1] then a else b))\<rparr>"

lemma toy_verifies: "length key = 32 \<Longrightarrow> length (sg_signature g) = 64 \<Longrightarrow> sg_signature g = replicate 64 1 \<Longrightarrow>
    verify_signal (two_frames a b) (classical_module sample_ed bl) g key = Inr True"
  by (simp add: verify_signal_def signing_bytes_def two_frames_def classical_module_def classical_verify_def verifying_key_def sample_ed_def)


section \<open>A proof that does not name its verifier\<close>

text \<open>The proof for a challenge, signed by a node, satisfies whoever sent that challenge.\<close>

lemma answer_satisfies:
  assumes json: "json_sound (re_json en)" and ed: "ed_sound (re_ed en)"
    and same: "re_json hon = re_json en" "re_cbor hon = re_cbor en" "re_ed hon = re_ed en" "re_blake hon = re_blake en"
    and keys: "keypair_from_seed (re_ed en) seed = Inr (id_public (re_identity hon), id_private (re_identity hon))"
    and answer: "handshake_signal hon (proof_payload (re_json en) challenge) s = (Inr g, s')"
      "nd_identity (rt_node s) = my_id hon"
  shows "check_proof en \<lparr>pi_node_id = my_id hon, pi_public_key = id_public (re_identity hon)\<rparr> challenge g = Inr ()"
proof -
  note f = handshake_signal_form [OF answer(1)]
  then have "verify_signal (re_cbor en) (crypto en) g (id_public (re_identity hon)) = Inr True"
    using signed_verifies [OF ed keys] same by metis
  moreover have "payload_bytes (re_json en) g ''proof_for'' = Inr challenge" using payload_fields(3) [OF json] f by blast
  ultimately show ?thesis using f answer(2) by (simp add: check_proof_ok)
qed

lemma hello_satisfies:
  assumes json: "json_sound (re_json en)" and ed: "ed_sound (re_ed en)"
    and same: "re_json hon = re_json en" "re_cbor hon = re_cbor en" "re_ed hon = re_ed en" "re_blake hon = re_blake en"
    and keys: "keypair_from_seed (re_ed en) seed = Inr (id_public (re_identity hon), id_private (re_identity hon))"
    and ident: "my_id hon = node_id_from_public_key (re_blake en) (id_public (re_identity hon))" "my_id hon \<noteq> my_id en"
    and hello: "handshake_signal hon (hello_payload (re_json en) (id_public (re_identity hon)) c) s = (Inr g, s')"
      "nd_identity (rt_node s) = my_id hon" "length c = CHALLENGE_LEN"
  shows "check_hello en g = Inr (\<lparr>pi_node_id = my_id hon, pi_public_key = id_public (re_identity hon)\<rparr>, c)"
proof -
  note f = handshake_signal_form [OF hello(1)]
  then have "verify_signal (re_cbor en) (crypto en) g (id_public (re_identity hon)) = Inr True"
    using signed_verifies [OF ed keys] same by metis
  moreover have "payload_bytes (re_json en) g ''public_key'' = Inr (id_public (re_identity hon))"
    "payload_bytes (re_json en) g ''challenge'' = Inr c" using payload_fields(1,2) [OF json] f by blast+
  ultimately show ?thesis using f hello(2,3) ident by (simp add: check_hello_ok)
qed

text \<open>
  C7: The handshake can be relayed. Alice and Bob are honest nodes, Mallory has a key of its
  own. From the hello Alice sends it, Mallory takes her challenge and presents it to Bob in
  a hello under its own identity, which Bob accepts; the proof Bob answers with, and the
  hello Bob sends to whoever connects, then pass every check Alice makes on a connection
  she has with Mallory, and she registers Bob as the peer there. A proof names the
  challenge but not the node it is for.
\<close>

theorem handshake_relayable:
  assumes json: "json_sound (re_json alice)" and ed: "ed_sound (re_ed alice)"
    and same: "re_json bob = re_json alice" "re_cbor bob = re_cbor alice" "re_ed bob = re_ed alice" "re_blake bob = re_blake alice"
    and codec: "\<And>g. \<exists>b. signing_bytes (re_cbor alice) g = Inr b"
    and bob: "keypair_from_seed (re_ed alice) bob_seed = Inr (id_public (re_identity bob), id_private (re_identity bob))"
      "my_id bob = node_id_from_public_key (re_blake alice) (id_public (re_identity bob))"
    and mallory: "keypair_from_seed (re_ed alice) mallory_seed = Inr (pk, sk)"
    and distinct: "my_id bob \<noteq> my_id alice" "node_id_from_public_key (re_blake alice) pk \<noteq> my_id bob"
    and challenges: "length alice_challenge = CHALLENGE_LEN" "length bob_challenge = CHALLENGE_LEN"
    and hello: "handshake_signal bob (hello_payload (re_json alice) (id_public (re_identity bob)) bob_challenge) s1 = (Inr bob_hello, s2)"
    and answer: "handshake_signal bob (proof_payload (re_json alice) alice_challenge) s3 = (Inr bob_answer, s4)"
    and ident: "nd_identity (rt_node s1) = my_id bob" "nd_identity (rt_node s3) = my_id bob"
  shows "(\<exists>g. sg_origin g = node_id_from_public_key (re_blake alice) pk \<and>
       check_hello bob g = Inr (\<lparr>pi_node_id = node_id_from_public_key (re_blake alice) pk, pi_public_key = pk\<rparr>, alice_challenge)) \<and>
    check_hello alice bob_hello = Inr (\<lparr>pi_node_id = my_id bob, pi_public_key = id_public (re_identity bob)\<rparr>, bob_challenge) \<and>
    check_proof alice \<lparr>pi_node_id = my_id bob, pi_public_key = id_public (re_identity bob)\<rparr> alice_challenge bob_answer = Inr ()"
proof -
  let ?js = "re_json alice" and ?m = "node_id_from_public_key (re_blake alice) pk"
  define g0 where "g0 = bob_hello\<lparr>sg_type := Discovery, sg_origin := ?m, sg_payload := hello_payload ?js pk alice_challenge\<rparr>"
  obtain b where b: "signing_bytes (re_cbor alice) g0 = Inr b" using codec by blast
  obtain x where x: "verify_signal (re_cbor alice) (crypto alice) (g0\<lparr>sg_signature := x\<rparr>) pk = Inr True"
    by (rule sign_signal_verifies [OF ed mallory b, of "re_blake alice"]) blast
  have "payload_bytes ?js (g0\<lparr>sg_signature := x\<rparr>) ''public_key'' = Inr pk"
    "payload_bytes ?js (g0\<lparr>sg_signature := x\<rparr>) ''challenge'' = Inr alice_challenge"
    by (rule payload_fields [OF json], simp add: g0_def)+
  then have "check_hello bob (g0\<lparr>sg_signature := x\<rparr>) = Inr (\<lparr>pi_node_id = ?m, pi_public_key = pk\<rparr>, alice_challenge)"
    using x same distinct(2) challenges(1) by (simp add: check_hello_ok) (simp add: g0_def)
  moreover have "sg_origin (g0\<lparr>sg_signature := x\<rparr>) = ?m" by (simp add: g0_def)
  ultimately show ?thesis
    using hello_satisfies [OF json ed same bob distinct(1) hello ident(1) challenges(2)]
      answer_satisfies [OF json ed same bob(1) answer ident(2)] by blast
qed

text \<open>Concrete parties: every key is its own identity, every signal encodes.\<close>

definition party :: "u8 list \<Rightarrow> (MemoryStore, SplitMix64, sample_value, u8 list, u8 list) RtEnv" where
  "party key = memory_rt sample_libm sample_ulid sample_wire sample_cbor sample_ed id
     \<lparr>id_public = key, id_private = key, id_node_id = key\<rparr> (\<lambda>n. of_nat n)"

lemma party_simps [simp]:
  "re_json (party key) = sample_wire" "re_cbor (party key) = sample_cbor" "re_ed (party key) = sample_ed" "re_blake (party key) = id"
  "re_identity (party key) = \<lparr>id_public = key, id_private = key, id_node_id = key\<rparr>"
  by (simp_all add: party_def memory_rt_def)

lemma handshake_relayable_witness:
  "\<exists>hello answer. check_hello (party (replicate 32 5)) hello =
      Inr (\<lparr>pi_node_id = replicate 32 6, pi_public_key = replicate 32 6\<rparr>, replicate 32 2) \<and>
    check_proof (party (replicate 32 5)) \<lparr>pi_node_id = replicate 32 6, pi_public_key = replicate 32 6\<rparr> (replicate 32 1) answer = Inr ()"
proof -
  let ?alice = "party (replicate 32 5)" and ?bob = "party (replicate 32 6)" and ?key = "replicate 32 6 :: u8 list"
  let ?node = "sample_node\<lparr>nd_identity := ?key\<rparr>" and ?inv = "rt_inv mem_ok mem_table ms_journal (config_for_class True DcEdge) (replicate 32 6)"
  have "node_ok mem_ok mem_table ms_journal (config_for_class True DcEdge) ?key ?node"
    using sample_node_ok by (simp add: node_ok_def)
  then have inv: "?inv (runtime_on ?node)" by (simp add: runtime_on_inv)
  have host: "rt_host memory_api mem_ok mem_seen mem_table ms_journal ?bob" unfolding party_def by (rule memory_rt_host)
  have pair: "keypair_from_seed sample_ed (replicate 32 k) = Inr (replicate 32 k, replicate 32 k)" for k
    by (simp add: keypair_from_seed_def sample_ed_def Let_def)
  have enc: "\<exists>b. signing_bytes sample_cbor g = Inr b" for g by (simp add: signing_bytes_def sample_cbor_def)
  have sends: "\<exists>g s'. handshake_signal ?bob v (runtime_on ?node) = (Inr g, s')" for v
    by (rule rt_host.run_handshake_signal [OF host inv, of ?key v]) (use pair enc sample_ed_sound in \<open>auto\<close>)
  obtain h s2 where h: "handshake_signal ?bob (hello_payload sample_wire ?key (replicate 32 2)) (runtime_on ?node) = (Inr h, s2)"
    using sends by blast
  obtain a s4 where a: "handshake_signal ?bob (proof_payload sample_wire (replicate 32 1)) (runtime_on ?node) = (Inr a, s4)"
    using sends by blast
  show ?thesis
    using handshake_relayable [of ?alice ?bob ?key "replicate 32 7" "replicate 32 7" "replicate 32 7" "replicate 32 1" "replicate 32 2"
        "runtime_on ?node" h s2 "runtime_on ?node" a s4]
      sample_wire_sound sample_ed_sound enc pair h a
    by (auto simp: node_id_from_public_key_def blake3_hash_def CHALLENGE_LEN_def runtime_on_def)
qed

end
