(* ===== verification/Sessions.thy ===== *)
theory Sessions
  imports Runtime_Run
begin

text \<open>
  Sessions as channels, and what becomes of a forward: it is put into its peer's channel or
  its decision is settled at once as a transport failure, except for a signal the node
  emits itself. A session's clean-up is by peer, not by session.
\<close>

section \<open>The table of sessions\<close>

text \<open>
  C9: A closed session takes its successor's entry with it. A peer whose writer failed may
  connect again: registration replaces the closed entry, and the new session is live. When
  the old session's read loop then ends, its clean-up removes the peer's entry whoever it
  belongs to; nothing more can be sent to the peer although its connection is up.
\<close>

theorem stale_leave_drops_live_session:
  assumes peer: "map_of (rt_sessions s) (pi_node_id peer) = Some old"
    and again: "pi_node_id peer' = pi_node_id peer"
  defines "s1 \<equiv> snd (pump_fails (pi_node_id peer) s)"
  defines "s2 \<equiv> snd (join_session peer' s1)"
  defines "s3 \<equiv> snd (leave_session peer s2)"
  shows "fst (join_session peer' s1) = Inr () \<and>
    map_of (rt_sessions s2) (pi_node_id peer) = Some \<lparr>se_outbound = [], se_open = True, se_public_key = pi_public_key peer'\<rparr> \<and>
    (\<forall>g. fst (push_to (pi_node_id peer) g s2) = Inr True) \<and> (\<forall>g. fst (push_to (pi_node_id peer) g s3) = Inr False)"
proof -
  let ?p = "pi_node_id peer"
  have s1: "map_of (rt_sessions s1) ?p = Some (old\<lparr>se_outbound := [], se_open := False\<rparr>)"
    using peer by (simp add: s1_def pump_fails_def hm_get_update)
  then have join: "join_session peer' s1 = (Inr (), s2)" "map_of (rt_sessions s2) ?p =
      Some \<lparr>se_outbound = [], se_open = True, se_public_key = pi_public_key peer'\<rparr>"
    using again by (simp_all add: s2_def join_session_def send_event_def hm_get_update)
  moreover have "map_of (rt_sessions s3) ?p = None"
    by (simp add: s3_def leave_session_def send_event_def map_of_delete)
  ultimately show ?thesis by (simp add: push_to_def can_send_def PEER_QUEUE_DEPTH_def)
qed

definition one_session :: "(MemoryStore, SplitMix64, sample_value) Runtime" where
  "one_session = (runtime_on sample_node)\<lparr>rt_sessions := [([2], \<lparr>se_outbound = [], se_open = True, se_public_key = [2]\<rparr>)]\<rparr>"

lemma stale_leave_drops_live_session_witness:
  "let p = \<lparr>pi_node_id = [2], pi_public_key = [2]\<rparr>; s3 = snd (leave_session p (snd (join_session p (snd (pump_fails [2] one_session)))))
   in fst (push_to [2] sample_message one_session) = Inr True \<and> fst (push_to [2] sample_message s3) = Inr False"
  using stale_leave_drops_live_session [of one_session "\<lparr>pi_node_id = [2], pi_public_key = [2]\<rparr>" _ "\<lparr>pi_node_id = [2], pi_public_key = [2]\<rparr>"]
  by (simp add: Let_def one_session_def push_to_def can_send_def PEER_QUEUE_DEPTH_def)

section \<open>Sending\<close>

definition hits :: "NodeId \<Rightarrow> Forward list \<Rightarrow> bool list \<Rightarrow> nat" where
  "hits p fs oks = length (filter (\<lambda>(f, ok). ok \<and> fw_peer f = p) (zip fs oks))"

definition misses :: "Forward list \<Rightarrow> bool list \<Rightarrow> JournalId list" where
  "misses fs oks = map (fw_journal_id \<circ> fst) (filter (\<lambda>(f, ok). \<not> ok) (zip fs oks))"

lemma hits_misses_simps [simp]:
  "hits p [] oks = 0" "misses [] oks = []"
  "hits p (f # fs) (ok # oks) = (if ok \<and> fw_peer f = p then 1 else 0) + hits p fs oks"
  "misses (f # fs) (ok # oks) = (if ok then misses fs oks else fw_journal_id f # misses fs oks)"
  by (simp_all add: hits_def misses_def)

definition reachable_peer :: "('m, 's, 'p) Runtime \<Rightarrow> NodeId \<Rightarrow> bool" where
  "reachable_peer s p \<longleftrightarrow> (case map_of (rt_sessions s) p of None \<Rightarrow> False | Some se \<Rightarrow> can_send se)"

definition channels_grew :: "(NodeId \<Rightarrow> 'p Signal list) \<Rightarrow> ('m, 's, 'p) Runtime \<Rightarrow> ('m, 's, 'p) Runtime \<Rightarrow> bool" where
  "channels_grew add s s' \<longleftrightarrow> (\<forall>p. map_of (rt_sessions s') p =
     map_option (\<lambda>se. se\<lparr>se_outbound := se_outbound se @ add p\<rparr>) (map_of (rt_sessions s) p))"

lemma push_result:
  "\<exists>s1. push_to p g s = (Inr (reachable_peer s p), s1) \<and> s1 = s\<lparr>rt_sessions := rt_sessions s1\<rparr> \<and>
     channels_grew (\<lambda>q. if q = p \<and> reachable_peer s p then [g] else []) s s1"
  by (auto simp: push_to_def reachable_peer_def channels_grew_def hm_get_update option.map_id [unfolded id_def] split: option.split)

lemma grew_trans: "channels_grew a s s1 \<Longrightarrow> channels_grew b s1 s2 \<Longrightarrow> channels_grew (\<lambda>p. a p @ b p) s s2"
  by (simp add: channels_grew_def option.map_comp comp_def)

lemma grew_reachable: "channels_grew a s s1 \<Longrightarrow> reachable_peer s1 p \<Longrightarrow> reachable_peer s p"
  by (auto simp: channels_grew_def reachable_peer_def can_send_def split: option.splits)

lemma run_send_each:
  "\<exists>oks s1. send_each me pc g fs sent failed s = (Inr (sent + length (filter (\<lambda>ok. ok) oks), failed @ misses fs oks), s1) \<and>
     length oks = length fs \<and> s1 = s\<lparr>rt_sessions := rt_sessions s1\<rparr> \<and>
     channels_grew (\<lambda>p. replicate (hits p fs oks) (outbound_copy me pc g)) s s1 \<and>
     (\<forall>(f, ok) \<in> set (zip fs oks). if ok then reachable_peer s (fw_peer f) else \<not> reachable_peer s1 (fw_peer f))"
proof (induction fs arbitrary: sent failed s)
  case Nil
  show ?case by (rule exI [of _ "[]"], rule exI [of _ s]) (simp add: op_ret_def channels_grew_def option.map_id [unfolded id_def])
next
  case (Cons f fs)
  let ?ok = "reachable_peer s (fw_peer f)" and ?copy = "outbound_copy me pc g"
  obtain s1 where s1: "push_to (fw_peer f) ?copy s = (Inr ?ok, s1)" "s1 = s\<lparr>rt_sessions := rt_sessions s1\<rparr>"
    "channels_grew (\<lambda>q. if q = fw_peer f \<and> ?ok then [?copy] else []) s s1" using push_result by blast
  obtain oks s2 where s2: "send_each me pc g fs (if ?ok then sent + 1 else sent) (if ?ok then failed else failed @ [fw_journal_id f]) s1 =
      (Inr ((if ?ok then sent + 1 else sent) + length (filter (\<lambda>ok. ok) oks), (if ?ok then failed else failed @ [fw_journal_id f]) @ misses fs oks), s2)"
    "length oks = length fs" "s2 = s1\<lparr>rt_sessions := rt_sessions s2\<rparr>"
    "channels_grew (\<lambda>p. replicate (hits p fs oks) ?copy) s1 s2"
    "\<forall>(f, ok) \<in> set (zip fs oks). if ok then reachable_peer s1 (fw_peer f) else \<not> reachable_peer s2 (fw_peer f)"
    using Cons.IH [of "if ?ok then sent + 1 else sent" "if ?ok then failed else failed @ [fw_journal_id f]" s1] by blast
  have run: "send_each me pc g (f # fs) sent failed s =
      (Inr (sent + length (filter (\<lambda>ok. ok) (?ok # oks)), failed @ misses (f # fs) (?ok # oks)), s2)"
    using s1(1) s2(1) by (cases ?ok) (simp_all add: bind_run)
  have grew: "channels_grew (\<lambda>p. (if p = fw_peer f \<and> ?ok then [?copy] else []) @ replicate (hits p fs oks) ?copy) s s2"
    by (rule grew_trans [OF s1(3) s2(4)])
  have "(\<lambda>p. (if p = fw_peer f \<and> ?ok then [?copy] else []) @ replicate (hits p fs oks) ?copy) =
      (\<lambda>p. replicate (hits p (f # fs) (?ok # oks)) ?copy)"
    by (auto simp: fun_eq_iff)
  then have grew': "channels_grew (\<lambda>p. replicate (hits p (f # fs) (?ok # oks)) ?copy) s s2" using grew by simp
  have "s2 = s\<lparr>rt_sessions := rt_sessions s2\<rparr>"
  proof -
    have "s2 = (s\<lparr>rt_sessions := rt_sessions s1\<rparr>)\<lparr>rt_sessions := rt_sessions s2\<rparr>" using s1(2) s2(3) by metis
    then show ?thesis by simp
  qed
  moreover have "if ?ok then reachable_peer s (fw_peer f) else \<not> reachable_peer s2 (fw_peer f)" using grew_reachable [OF grew] by auto
  moreover have "\<forall>(f, ok) \<in> set (zip fs oks). if ok then reachable_peer s (fw_peer f) else \<not> reachable_peer s2 (fw_peer f)"
    using s2(5) grew_reachable [OF s1(3)] by (auto split: if_splits)
  ultimately show ?case
    using run s2(2) grew' by (intro exI [of _ "?ok # oks"] exI [of _ s2]) simp
qed

section \<open>Failing\<close>

text \<open>The journal after some pending decisions were settled as transport failures.\<close>

definition fails :: "JournalId set \<Rightarrow> JournalEntry \<Rightarrow> JournalEntry \<Rightarrow> bool" where
  "fails I e e' \<longleftrightarrow> (if is_pending e \<and> je_id e \<in> Some ` I then \<exists>now. e' = settle TransportFailed now e else e' = e)"

context rt_host
begin

lemma run_fail_each:
  assumes sane: "config_sane c"
  shows "rinv c me s \<Longrightarrow> ids_ok J \<Longrightarrow> journal (nd_store (rt_node s)) = J \<Longrightarrow> Some ` set is \<subseteq> je_id ` set J \<Longrightarrow>
    \<exists>s' J'. fail_each rt is s = (Inr (), s') \<and> rinv c me s' \<and> rt_sessions s' = rt_sessions s \<and> rt_events s' = rt_events s \<and>
      journal (nd_store (rt_node s')) = J' \<and> list_all2 (fails (set is)) J J'"
proof (induction "is" arbitrary: s J)
  case Nil
  have "list_all2 (fails {}) J J" by (auto simp: fails_def intro: list.rel_refl)
  then show ?case using Nil by (simp add: op_ret_def)
next
  case (Cons i "is")
  have "Some i \<in> je_id ` set J" using Cons.prems(4) by simp
  then obtain e where "e \<in> set J" "je_id e = Some i" by (auto simp: image_iff)
  then obtain xs ys where e: "J = xs @ e # ys" "je_id e = Some i" using split_list by metis
  let ?now = "re_clock rt (rt_reads s)"
  have ok: "ok c me (rt_node s)" using Cons.prems(1) by (simp add: rt_inv_def)
  have v: "views (nd_store (rt_node s)) (seen (nd_store (rt_node s))) (table (nd_store (rt_node s))) (xs @ e # ys)"
    using ok Cons.prems(3) e(1) by (simp add: node_ok_def)
  obtain x m' T' where f: "fail_forward (re_node rt) i ?now (rt_node s) = (Inr x, (rt_node s)\<lparr>nd_store := m'\<rparr>)"
    "journal m' = xs @ resolve_entry TransportFailed ?now e # ys"
    using run_fail_forward [OF sane ok v Cons.prems(2) [unfolded e(1)] e(2), of ?now] by blast
  let ?s1 = "s\<lparr>rt_reads := rt_reads s + 1, rt_node := (rt_node s)\<lparr>nd_store := m'\<rparr>\<rparr>"
  have call: "node_call rt (fail_forward (re_node rt) i) s = (Inr (Inr x), ?s1)"
    using f(1) by (simp add: node_call_def run_rt_clock on_node_def)
  have inv1: "rinv c me ?s1" using safe_run(1) [OF safe_call [OF safe_ok, OF safe_fail_forward [OF sane]] Cons.prems(1) call] .
  let ?e = "resolve_entry TransportFailed ?now e" and ?J1 = "xs @ resolve_entry TransportFailed ?now e # ys"
  have id: "je_id ?e = je_id e" by (simp add: resolve_entry_def)
  then have ids1: "ids_ok ?J1" "Some ` set is \<subseteq> je_id ` set ?J1" using Cons.prems(2,4) e(1) by (auto simp: ids_ok_def)
  obtain s' J' where ih: "fail_each rt is ?s1 = (Inr (), s')" "rinv c me s'" "rt_sessions s' = rt_sessions s" "rt_events s' = rt_events s"
    "journal (nd_store (rt_node s')) = J'" "list_all2 (fails (set is)) ?J1 J'"
    using Cons.IH [OF inv1 ids1(1) _ ids1(2)] f(2) by auto
  have first: "list_all2 (fails {i}) J ?J1"
  proof -
    have others: "je_id y \<noteq> Some i" if "y \<in> set xs \<union> set ys" for y
      using Cons.prems(2) e that by (auto simp: ids_ok_def) (metis imageI)+
    have "list_all2 (fails {i}) zs zs" if "set zs \<subseteq> set xs \<union> set ys" for zs
      using that others by (induction zs) (auto simp: fails_def)
    moreover have "fails {i} e ?e" using e(2) by (cases "is_pending e") (auto simp: fails_def)
    ultimately show ?thesis unfolding e(1) by (intro list_all2_appendI) auto
  qed
  have both: "fails (set (i # is)) a b" if "fails {i} a y" "fails (set is) y b" for a y b
    using that by (cases "is_pending a"; cases "je_id a \<in> Some ` set is"; cases "je_id a = Some i") (auto simp: fails_def)
  have "list_all2 (fails (set (i # is))) J J'"
    by (rule list_all2_trans [OF _ first ih(6)]) (rule both)
  then show ?case using call ih by (simp add: bind_run)
qed

lemma run_forward:
  assumes sane: "config_sane c" and s: "rinv c me s" and ids: "ids_ok (journal (nd_store (rt_node s)))" and fs: "fs \<noteq> []"
    and known: "\<forall>f \<in> set fs. Some (fw_journal_id f) \<in> je_id ` set (journal (nd_store (rt_node s)))"
  obtains oks s' where "forward_signal rt g fs s = (Inr (True \<in> set oks), s')" "length oks = length fs"
    "channels_grew (\<lambda>p. replicate (hits p fs oks) (outbound_copy (my_id rt) (nc_propagation c) g)) s s'"
    "\<forall>(f, ok) \<in> set (zip fs oks). if ok then reachable_peer s (fw_peer f) else \<not> reachable_peer s' (fw_peer f)"
    "list_all2 (fails (set (misses fs oks))) (journal (nd_store (rt_node s))) (journal (nd_store (rt_node s')))"
proof -
  let ?J = "journal (nd_store (rt_node s))"
  have cfg: "nd_config (rt_node s) = c" using s by (simp add: rt_inv_def node_ok_def)
  obtain oks s1 where s1: "send_each (my_id rt) (nc_propagation c) g fs 0 [] s = (Inr (length (filter (\<lambda>ok. ok) oks), misses fs oks), s1)"
    "length oks = length fs" "s1 = s\<lparr>rt_sessions := rt_sessions s1\<rparr>"
    "channels_grew (\<lambda>p. replicate (hits p fs oks) (outbound_copy (my_id rt) (nc_propagation c) g)) s s1"
    "\<forall>(f, ok) \<in> set (zip fs oks). if ok then reachable_peer s (fw_peer f) else \<not> reachable_peer s1 (fw_peer f)"
    using run_send_each [of "my_id rt" "nc_propagation c" g fs 0 "[]" s] by auto
  have inv1: "rinv c me s1" using safe_run(1) [OF safe_send_each s s1(1)] .
  have node1: "rt_node s1 = rt_node s" using s1(3) by (metis Runtime.select_convs(1) Runtime.surjective Runtime.update_convs(2))
  have sub: "Some ` set (misses fs oks) \<subseteq> je_id ` set ?J" using known by (auto simp: misses_def dest!: set_zip_leftD)
  obtain s2 J' where s2: "fail_each rt (misses fs oks) s1 = (Inr (), s2)" "rt_sessions s2 = rt_sessions s1"
    "journal (nd_store (rt_node s2)) = J'" "list_all2 (fails (set (misses fs oks))) ?J J'"
    using run_fail_each [OF sane inv1 ids _ sub] node1 by auto
  let ?s3 = "s2\<lparr>rt_events := rt_events s2 @ [ForwardedTo (sg_id g) (length (filter (\<lambda>ok. ok) oks)) (list_ex fw_explored fs)]\<rparr>"
  have "(0 < length (filter (\<lambda>ok. ok) oks)) = (True \<in> set oks)" by (induction oks) auto
  then have run: "forward_signal rt g fs s = (Inr (True \<in> set oks), ?s3)"
    using fs s1(1) s2(1) cfg by (simp add: forward_signal_def bind_run rt_config_def send_event_def op_ret_def)
  have reach: "reachable_peer ?s3 p = reachable_peer s1 p" for p using s2(2) by (simp add: reachable_peer_def)
  have "channels_grew (\<lambda>p. replicate (hits p fs oks) (outbound_copy (my_id rt) (nc_propagation c) g)) s ?s3"
    using s1(4) s2(2) by (simp add: channels_grew_def)
  moreover have "\<forall>(f, ok) \<in> set (zip fs oks). if ok then reachable_peer s (fw_peer f) else \<not> reachable_peer ?s3 (fw_peer f)"
    using s1(5) unfolding reach .
  ultimately show ?thesis using that [OF run s1(2)] s2(3,4) by simp
qed

lemma run_route:
  assumes s: "rinv c me s" and none: "\<forall>p. \<not> reachable_peer s p"
  obtains out es s' where "route rt g s = (Inr (), s')" "rt_sessions s' = rt_sessions s"
    "journal (nd_store (rt_node s')) = journal (nd_store (rt_node s)) @ es" "list_all2 (journals g (re_clock rt (rt_reads s))) out es"
    "out \<noteq> [] \<longrightarrow> ForwardedTo (sg_id g) 0 (list_ex fw_explored out) \<in> set (rt_events s')"
proof -
  let ?n = "rt_node s" and ?now = "re_clock rt (rt_reads s)"
  have ok: "ok c me ?n" and cfg: "nd_config ?n = c" using s by (simp_all add: rt_inv_def node_ok_def)
  have v: "views (nd_store ?n) (seen (nd_store ?n)) (table (nd_store ?n)) (journal (nd_store ?n))" using ok by (simp add: node_ok_def)
  have "\<exists>d es n1. receive_local (re_node rt) g ?now ?n = (Inr d, n1) \<and> nd_config n1 = c \<and> journal (nd_store n1) = journal (nd_store ?n) @ es \<and>
      list_all2 (journals g ?now) (dp_forward_to d) es"
  proof (cases "check_propagable g (nd_identity ?n) (propagation ?n)")
    case (Inl reason)
    then show ?thesis using cfg
      by (intro exI [of _ "refuse g reason (hops_of g)"] exI [of _ "[]"] exI [of _ ?n]) (simp add: receive_local_def op_ret_def)
  next
    case (Inr u)
    obtain out es h m' where p: "plan_forwarding (re_node rt) g None ?now ?n = (Inr out, ?n\<lparr>nd_rng := h, nd_store := m'\<rparr>)"
      "journal m' = journal (nd_store ?n) @ es" "list_all2 (journals g ?now) out es"
      using run_plan [OF ok v, of g None ?now] by (auto simp: planned_def)
    let ?d = "if out = [] \<and> signal_requires_receipt g then refuse g NoRoute (hops_of g) else nothing\<lparr>dp_forward_to := out\<rparr>"
    have "receive_local (re_node rt) g ?now ?n = (Inr ?d, ?n\<lparr>nd_rng := h, nd_store := m'\<rparr>)"
      using Inr p(1) by (simp add: receive_local_def bind_run op_ret_def)
    then show ?thesis using p cfg by (intro exI [of _ ?d] exI [of _ es] exI [of _ "?n\<lparr>nd_rng := h, nd_store := m'\<rparr>"]) auto
  qed
  then obtain d es n1 where d: "receive_local (re_node rt) g ?now ?n = (Inr d, n1)" "nd_config n1 = c"
    "journal (nd_store n1) = journal (nd_store ?n) @ es" "list_all2 (journals g ?now) (dp_forward_to d) es" by blast
  let ?s1 = "s\<lparr>rt_reads := rt_reads s + 1, rt_node := n1\<rparr>"
  have call: "node_call rt (receive_local (re_node rt) g) s = (Inr (Inr d), ?s1)"
    using d(1) by (simp add: node_call_def run_rt_clock on_node_def)
  obtain oks s2 where s2: "send_each (my_id rt) (nc_propagation c) g (dp_forward_to d) 0 [] ?s1 =
      (Inr (length (filter (\<lambda>ok. ok) oks), misses (dp_forward_to d) oks), s2)" "length oks = length (dp_forward_to d)"
    "s2 = ?s1\<lparr>rt_sessions := rt_sessions s2\<rparr>"
    "channels_grew (\<lambda>p. replicate (hits p (dp_forward_to d) oks) (outbound_copy (my_id rt) (nc_propagation c) g)) ?s1 s2"
    using run_send_each [of "my_id rt" "nc_propagation c" g "dp_forward_to d" 0 "[]" ?s1] by auto
  have still: "send_each me pc g fs k failed t = (Inr (k, failed @ map fw_journal_id fs), t)" if "\<forall>p. \<not> reachable_peer t p" for me pc fs k failed t
    using that
  proof (induction fs arbitrary: failed)
    case (Cons f fs)
    have "push_to (fw_peer f) (outbound_copy me pc g) t = (Inr False, t)"
      using Cons.prems by (auto simp: push_to_def reachable_peer_def split: option.split option.splits dest: spec [where x = "fw_peer f"])
    from bind_run [where f = "push_to (fw_peer f) (outbound_copy me pc g)" and n = t, OF this, of "\<lambda>ok. if ok then send_each me pc g fs (k + 1) failed else send_each me pc g fs k (failed @ [fw_journal_id f])"]
    show ?case using Cons.IH [OF Cons.prems, of "failed @ [fw_journal_id f]"] by simp
  qed (simp add: op_ret_def)
  have "\<forall>p. \<not> reachable_peer ?s1 p" using none by (simp add: reachable_peer_def)
  note send = still [OF this]
  let ?s3 = "?s1\<lparr>rt_events := rt_events s @ [ForwardedTo (sg_id g) 0 (list_ex fw_explored (dp_forward_to d))]\<rparr>"
  have "route rt g s = (Inr (), ?s3)"
    using call send d(2) by (simp add: route_def bind_run rt_config_def send_event_def)
  then show ?thesis using that d(3,4) by simp
qed

end

text \<open>
  C6: Every forward is either handed over or settled. When a received signal is forwarded,
  each decision either put the next-hop copy of the signal at the end of its peer's channel,
  or found no session with room, and then its journal entry is settled as a transport
  failure on the spot. Channels get exactly those copies, every other journal entry is as it
  was, and the caller is told whether anyone was reached.
\<close>

theorem forward_settles:
  fixes s :: "('m, 's, 'p) Runtime"
  assumes host: "rt_host api healthy seen table journal rt" and sane: "config_sane c" and inv: "rt_inv healthy table journal c me s"
    and ids: "ids_ok (journal (nd_store (rt_node s)))" and fs: "fs \<noteq> []"
    and known: "\<forall>f \<in> set fs. Some (fw_journal_id f) \<in> je_id ` set (journal (nd_store (rt_node s)))"
  shows "\<exists>oks s'. forward_signal rt g fs s = (Inr (True \<in> set oks), s') \<and> length oks = length fs \<and>
    (\<forall>p. map_of (rt_sessions s') p = map_option (\<lambda>se. se\<lparr>se_outbound := se_outbound se @
       replicate (length (filter (\<lambda>(f, ok). ok \<and> fw_peer f = p) (zip fs oks))) (outbound_copy (my_id rt) (nc_propagation c) g)\<rparr>)
       (map_of (rt_sessions s) p)) \<and>
    (\<forall>(f, ok) \<in> set (zip fs oks). if ok then \<exists>se. map_of (rt_sessions s) (fw_peer f) = Some se \<and> can_send se
       else \<nexists>se. map_of (rt_sessions s') (fw_peer f) = Some se \<and> can_send se) \<and>
    list_all2 (\<lambda>e e'. if is_pending e \<and> (\<exists>(f, ok) \<in> set (zip fs oks). \<not> ok \<and> je_id e = Some (fw_journal_id f))
       then \<exists>now. e' = settle TransportFailed now e else e' = e) (journal (nd_store (rt_node s))) (journal (nd_store (rt_node s')))"
proof -
  obtain oks s' where r: "forward_signal rt g fs s = (Inr (True \<in> set oks), s')" "length oks = length fs"
    "channels_grew (\<lambda>p. replicate (hits p fs oks) (outbound_copy (my_id rt) (nc_propagation c) g)) s s'"
    "\<forall>(f, ok) \<in> set (zip fs oks). if ok then reachable_peer s (fw_peer f) else \<not> reachable_peer s' (fw_peer f)"
    "list_all2 (fails (set (misses fs oks))) (journal (nd_store (rt_node s))) (journal (nd_store (rt_node s')))"
    by (rule rt_host.run_forward [OF host sane inv ids fs known])
  have reach: "reachable_peer s p \<longleftrightarrow> (\<exists>se. map_of (rt_sessions s) p = Some se \<and> can_send se)" for s :: "('m, 's, 'p) Runtime" and p
    by (simp add: reachable_peer_def split: option.split)
  have missed: "je_id e \<in> Some ` set (misses fs oks) \<longleftrightarrow> (\<exists>(f, ok) \<in> set (zip fs oks). \<not> ok \<and> je_id e = Some (fw_journal_id f))" for e
    by (force simp: misses_def)
  show ?thesis
    using r unfolding channels_grew_def hits_def reach fails_def [abs_def] missed by blast
qed

definition sample_forward :: Forward where
  "sample_forward = \<lparr>fw_synapse = ''a'', fw_peer = [2], fw_journal_id = 1, fw_explored = False\<rparr>"

lemma forward_settles_witness:
  "\<exists>s'. forward_signal sample_rt sample_message [sample_forward\<lparr>fw_journal_id := the (je_id sample_entry)\<rparr>] (runtime_on idle_node) = (Inr False, s') \<and>
     (\<exists>now. ms_journal (nd_store (rt_node s')) = [settle TransportFailed now sample_entry])"
proof -
  let ?f = "sample_forward\<lparr>fw_journal_id := the (je_id sample_entry)\<rparr>" and ?s = "runtime_on idle_node :: (MemoryStore, SplitMix64, sample_value) Runtime"
  have e: "is_pending sample_entry" "je_id sample_entry = Some (the (je_id sample_entry))"
    by (simp_all add: sample_entry_def)
  have inv: "rt_inv mem_ok mem_table ms_journal (config_for_class True DcEdge) [1] ?s" using idle_node_ok by (simp add: runtime_on_inv)
  have J: "ms_journal (nd_store (rt_node ?s)) = [sample_entry]" by (simp add: runtime_on_def)
  have ids: "ids_ok (ms_journal (nd_store (rt_node ?s)))" "\<forall>f \<in> set [?f]. Some (fw_journal_id f) \<in> je_id ` set (ms_journal (nd_store (rt_node ?s)))"
    using e(2) by (simp_all add: J)
  have host: "rt_host memory_api mem_ok mem_seen mem_table ms_journal sample_rt" by (rule memory_rt_host)
  have ne: "[?f] \<noteq> []" and none: "rt_sessions ?s = []" by (simp_all add: runtime_on_def)
  obtain oks s' where r: "forward_signal sample_rt sample_message [?f] ?s = (Inr (True \<in> set oks), s')" "length oks = length [?f]"
    "\<forall>(f, ok) \<in> set (zip [?f] oks). if ok then \<exists>se. map_of (rt_sessions ?s) (fw_peer f) = Some se \<and> can_send se
       else \<nexists>se. map_of (rt_sessions s') (fw_peer f) = Some se \<and> can_send se"
    "list_all2 (\<lambda>e e'. if is_pending e \<and> (\<exists>(f, ok) \<in> set (zip [?f] oks). \<not> ok \<and> je_id e = Some (fw_journal_id f))
       then \<exists>now. e' = settle TransportFailed now e else e' = e) (ms_journal (nd_store (rt_node ?s))) (ms_journal (nd_store (rt_node s')))"
    using forward_settles [OF host class_config_sane inv ids(1) ne ids(2), of sample_message] by blast
  obtain ok where one: "oks = [ok]" using r(2) by (auto simp: length_Suc_conv)
  have "oks = [False]" using r(3) none unfolding one by (auto split: if_splits)
  then have "\<exists>now. ms_journal (nd_store (rt_node s')) = [settle TransportFailed now sample_entry]" "forward_signal sample_rt sample_message [?f] ?s = (Inr False, s')"
    using r(1,4) e unfolding J by (auto simp: list_all2_Cons1)
  then show ?thesis by blast
qed



end
