(* ===== verification/Sqlite_Rows.thy ===== *)
theory Sqlite_Rows
  imports Memory_Store
begin

text \<open>
  Encoding of the \<open>SQLite\<close> backend (\<open>runtime/ntl-store-sqlite/src/lib.rs\<close>): its
  configuration, how integers, enumerations and identifiers are put into columns, the rows of
  the tables, and the functions that turn a row back into a record. A column holds a value
  of its declared type: \<open>INTEGER\<close> is a signed 64-bit word, \<open>REAL\<close> a double, \<open>TEXT\<close> a string,
  \<open>BLOB\<close> a byte list. The database engine and the JSON and ULID crates are parameters.
\<close>

section \<open>Configuration\<close>

datatype Synchronous = SyncFull | SyncNormal | SyncOff

definition as_pragma :: "Synchronous \<Rightarrow> string" where
  "as_pragma s = (case s of SyncFull \<Rightarrow> ''FULL'' | SyncNormal \<Rightarrow> ''NORMAL'' | SyncOff \<Rightarrow> ''OFF'')"

record SqliteConfig =
  qc_path :: string
  qc_synchronous :: Synchronous
  qc_busy_timeout_ms :: u32
  qc_retain_signal_history :: bool

definition sqlite_config_at :: "string \<Rightarrow> SqliteConfig" where
  "sqlite_config_at path = \<lparr>qc_path = path, qc_synchronous = SyncNormal, qc_busy_timeout_ms = 5000,
     qc_retain_signal_history = False\<rparr>"

text \<open>\<open>PathBuf::join\<close>: an absolute right-hand side replaces the left one.\<close>

definition path_join :: "string \<Rightarrow> string \<Rightarrow> string" where
  "path_join base rest =
    (if prefix ''/'' rest \<or> base = [] then rest
     else if last base = CHR ''/'' then base @ rest else base @ ''/'' @ rest)"

definition expand_home :: "string option \<Rightarrow> string \<Rightarrow> string" where
  "expand_home home path =
    (if prefix ''~/'' path then (case home of Some h \<Rightarrow> path_join h (drop 2 path) | None \<Rightarrow> path) else path)"

section \<open>Integers\<close>

type_synonym i64 = "64 word"

definition i64_max :: i64 where
  "i64_max = 0x7FFFFFFFFFFFFFFF"

definition to_i64 :: "u64 \<Rightarrow> i64" where
  "to_i64 v = (if v \<le> i64_max then v else i64_max)"

definition from_i64 :: "i64 \<Rightarrow> u64" where
  "from_i64 v = (if sint v < 0 then 0 else v)"

lemma i64_max_bounds: "uint i64_max = 2 ^ 63 - 1" "unat i64_max = 2 ^ 63 - 1"
  by (simp_all add: i64_max_def)

lemma sint_small: "v \<le> i64_max \<Longrightarrow> sint v = uint v" for v :: u64
  unfolding sint_uint using i64_max_bounds(1)
  by (intro signed_take_bit_int_eq_self) (auto simp: word_le_def intro: order_trans [OF _ uint_ge_0])

lemma sint_to_i64: "sint (to_i64 v) = min (uint v) (2 ^ 63 - 1)"
  using i64_max_bounds(1) sint_small [of v] sint_small [of i64_max] by (auto simp: to_i64_def word_le_def min_def)

lemma to_i64_nonneg [simp]: "\<not> sint (to_i64 v) < 0"
  by (simp add: sint_to_i64 not_less)

text \<open>
  Storing and reading back a counter or a time clamps it to the largest signed value:
  everything below \<open>2 ^ 63\<close> is kept, and the order is kept weakly.
\<close>

abbreviation in_i64 :: "u64 \<Rightarrow> bool" where
  "in_i64 v \<equiv> v \<le> i64_max"

lemma from_to_i64: "from_i64 (to_i64 v) = min v i64_max"
  by (auto simp: from_i64_def) (auto simp: to_i64_def min_def)

lemma from_to_i64_id [simp]: "in_i64 v \<Longrightarrow> from_i64 (to_i64 v) = v"
  by (simp add: from_to_i64 min_def)

lemma to_i64_mono: "a \<le> b \<Longrightarrow> sint (to_i64 a) \<le> sint (to_i64 b)"
  by (auto simp: sint_to_i64 word_le_def)

lemma to_i64_less [simp]: "in_i64 a \<Longrightarrow> in_i64 b \<Longrightarrow> sint (to_i64 a) < sint (to_i64 b) \<longleftrightarrow> a < b"
  using i64_max_bounds(1) by (auto simp: sint_to_i64 word_less_def word_le_def)

lemma to_i64_le [simp]: "in_i64 a \<Longrightarrow> in_i64 b \<Longrightarrow> sint (to_i64 a) \<le> sint (to_i64 b) \<longleftrightarrow> a \<le> b"
  using i64_max_bounds(1) by (auto simp: sint_to_i64 word_le_def)

lemma to_i64_inj [simp]: "in_i64 a \<Longrightarrow> in_i64 b \<Longrightarrow> to_i64 a = to_i64 b \<longleftrightarrow> a = b"
  by (simp add: to_i64_def)

section \<open>Enumerations\<close>

definition corrupt :: "string \<Rightarrow> string \<Rightarrow> StoreError" where
  "corrupt table reason = Corrupt table reason"

definition state_to_str :: "SynapseState \<Rightarrow> string" where
  "state_to_str st = (case st of Forming \<Rightarrow> ''forming'' | Active \<Rightarrow> ''active'' | Weakening \<Rightarrow> ''weakening''
     | Dormant \<Rightarrow> ''dormant'' | Pruned \<Rightarrow> ''pruned'')"

definition state_from_str :: "string \<Rightarrow> StoreError + SynapseState" where
  "state_from_str s =
    (if s = ''forming'' then Inr Forming else if s = ''active'' then Inr Active
     else if s = ''weakening'' then Inr Weakening else if s = ''dormant'' then Inr Dormant
     else if s = ''pruned'' then Inr Pruned else Inl (corrupt ''synapses'' (''unknown state '' @ s)))"

definition source_to_str :: "PeerSource \<Rightarrow> string" where
  "source_to_str s = (case s of Configured \<Rightarrow> ''configured'' | Bootstrap \<Rightarrow> ''bootstrap''
     | Discovered \<Rightarrow> ''discovered'' | Observed \<Rightarrow> ''observed'')"

definition source_from_str :: "string \<Rightarrow> StoreError + PeerSource" where
  "source_from_str s =
    (if s = ''configured'' then Inr Configured else if s = ''bootstrap'' then Inr Bootstrap
     else if s = ''discovered'' then Inr Discovered else if s = ''observed'' then Inr Observed
     else Inl (corrupt ''peers'' (''unknown source '' @ s)))"

definition outcome_to_str :: "Outcome \<Rightarrow> string" where
  "outcome_to_str out = (case out of Pending \<Rightarrow> ''pending'' | Delivered \<Rightarrow> ''delivered'' | Rejected \<Rightarrow> ''rejected''
     | TimedOut \<Rightarrow> ''timed_out'' | TransportFailed \<Rightarrow> ''transport_failure'' | SignatureFailed \<Rightarrow> ''signature_failure'')"

definition outcome_from_str :: "string \<Rightarrow> StoreError + Outcome" where
  "outcome_from_str s =
    (if s = ''pending'' then Inr Pending else if s = ''delivered'' then Inr Delivered
     else if s = ''rejected'' then Inr Rejected else if s = ''timed_out'' then Inr TimedOut
     else if s = ''transport_failure'' then Inr TransportFailed
     else if s = ''signature_failure'' then Inr SignatureFailed
     else Inl (corrupt ''journal'' (''unknown outcome '' @ s)))"

definition signal_type_to_str :: "SignalType \<Rightarrow> string" where
  "signal_type_to_str t = (case t of CustomType name \<Rightarrow> ''custom:'' @ name
     | Data \<Rightarrow> ''Data'' | Query \<Rightarrow> ''Query'' | Event \<Rightarrow> ''Event'' | Command \<Rightarrow> ''Command''
     | Heartbeat \<Rightarrow> ''Heartbeat'' | Discovery \<Rightarrow> ''Discovery'' | ReceiptType \<Rightarrow> ''Receipt'')"

definition signal_type_from_str :: "string \<Rightarrow> StoreError + SignalType" where
  "signal_type_from_str s =
    (if prefix ''custom:'' s then Inr (CustomType (drop 7 s))
     else if s = ''Data'' then Inr Data else if s = ''Query'' then Inr Query else if s = ''Event'' then Inr Event
     else if s = ''Command'' then Inr Command else if s = ''Heartbeat'' then Inr Heartbeat
     else if s = ''Discovery'' then Inr Discovery else if s = ''Receipt'' then Inr ReceiptType
     else Inl (corrupt ''journal'' (''unknown signal type '' @ s)))"

lemma text_round_trips [simp]:
  "state_from_str (state_to_str st) = Inr st" "source_from_str (source_to_str src) = Inr src"
  "outcome_from_str (outcome_to_str out) = Inr out" "signal_type_from_str (signal_type_to_str ty) = Inr ty"
proof -
  show "state_from_str (state_to_str st) = Inr st" by (cases st) (simp_all add: state_from_str_def state_to_str_def)
  show "source_from_str (source_to_str src) = Inr src" by (cases src) (simp_all add: source_from_str_def source_to_str_def)
  show "outcome_from_str (outcome_to_str out) = Inr out" by (cases out) (simp_all add: outcome_from_str_def outcome_to_str_def)
  show "signal_type_from_str (signal_type_to_str ty) = Inr ty"
    by (cases ty) (simp_all add: signal_type_from_str_def signal_type_to_str_def)
qed

lemma text_inj [simp]:
  "state_to_str a = state_to_str b \<longleftrightarrow> a = b" "source_to_str u = source_to_str v \<longleftrightarrow> u = v"
  "outcome_to_str p = outcome_to_str q \<longleftrightarrow> p = q" "signal_type_to_str s = signal_type_to_str t \<longleftrightarrow> s = t"
  by (metis text_round_trips sum.inject(2))+

section \<open>Rows\<close>

record synapse_row =
  yr_id :: string
  yr_peer :: "u8 list"
  yr_weight :: flt
  yr_attenuation_factor :: flt
  yr_state :: string
  yr_type_affinity :: string
  yr_established_at_ns :: i64
  yr_last_active_ns :: i64
  yr_signals_transmitted :: i64
  yr_signals_received :: i64
  yr_avg_latency_ns :: i64
  yr_error_rate :: flt
  yr_signature_failures :: i64
  yr_failure_window_start_ns :: i64

record peer_row =
  er_id :: "u8 list"
  er_addresses :: string
  er_region :: "string option"
  er_advertised_types :: string
  er_last_seen_ns :: i64
  er_source :: string

record activation_row =
  ar_potential :: flt
  ar_threshold :: flt
  ar_refractory_until_ns :: i64
  ar_signals_fired :: i64
  ar_taken_at_ns :: i64

record journal_row =
  jr_id :: i64
  jr_signal :: "u8 list"
  jr_signal_type :: string
  jr_synapse :: string
  jr_peer :: "u8 list"
  jr_score :: flt
  jr_signal_weight :: flt
  jr_explored :: i64
  jr_decided_at_ns :: i64
  jr_outcome :: string
  jr_resolved_at_ns :: "i64 option"

record influence_row =
  ir_peer :: "u8 list"
  ir_magnitude :: flt
  ir_at_ns :: i64

text \<open>
  What the backend gets from outside: whether the engine fails the \<open>n\<close>-th statement and with
  which message, what a bound double reads back as (\<open>None\<close> is \<open>NULL\<close>), the sum of a
  \<open>REAL\<close> column, the order in which rows that \<open>ORDER BY\<close> does not separate come out, and the
  ULID and JSON crates.
\<close>

record sqlite_driver =
  dv_fault :: "nat \<Rightarrow> string option"
  dv_real :: "flt \<Rightarrow> flt option"
  dv_sum :: "flt list \<Rightarrow> flt"
  dv_scan :: "nat \<Rightarrow> journal_row list \<Rightarrow> journal_row list"
  dv_ulid :: ulid_api
  dv_map_to_json :: "(string, u64) hashmap \<Rightarrow> string + string"
  dv_map_from_json :: "string \<Rightarrow> string + (string, u64) hashmap"
  dv_list_to_json :: "string list \<Rightarrow> string + string"
  dv_list_from_json :: "string \<Rightarrow> string + string list"

definition sum_then :: "'e + 'a \<Rightarrow> ('a \<Rightarrow> 'e + 'b) \<Rightarrow> 'e + 'b" where
  "sum_then x f = (case x of Inl e \<Rightarrow> Inl e | Inr a \<Rightarrow> f a)"

lemma sum_then_simps [simp]: "sum_then (Inr a) f = f a" "sum_then (Inl e) f = Inl e"
  by (simp_all add: sum_then_def)

definition write_err :: "string \<Rightarrow> StoreError" where
  "write_err e = WriteFailed e"

definition read_err :: "string \<Rightarrow> StoreError" where
  "read_err e = Unavailable e"

definition map_err :: "('e \<Rightarrow> 'f) \<Rightarrow> 'e + 'a \<Rightarrow> 'f + 'a" where
  "map_err f x = map_sum f id x"

lemma map_err_simps [simp]: "map_err f (Inl e) = Inl (f e)" "map_err f (Inr x) = Inr x"
  by (simp_all add: map_err_def)

definition json_map :: "sqlite_driver \<Rightarrow> string \<Rightarrow> StoreError + (string, u64) hashmap" where
  "json_map dv raw = map_err (\<lambda>e. corrupt ''synapses'' (''type_affinity: '' @ e)) (dv_map_from_json dv raw)"

definition json_vec :: "sqlite_driver \<Rightarrow> string \<Rightarrow> string \<Rightarrow> StoreError + string list" where
  "json_vec dv raw table = map_err (corrupt table) (dv_list_from_json dv raw)"

definition signal_id_from_blob :: "sqlite_driver \<Rightarrow> u8 list \<Rightarrow> StoreError + SignalId" where
  "signal_id_from_blob dv blob =
    (if length blob = 16 then Inr (ulid_from_bytes (dv_ulid dv) blob)
     else Inl (corrupt ''signal id'' ''unexpected length''))"

text \<open>A bound \<open>REAL\<close> in a \<open>NOT NULL\<close> column: a NaN is bound as \<open>NULL\<close> and refused.\<close>

definition real_column :: "sqlite_driver \<Rightarrow> string \<Rightarrow> flt \<Rightarrow> string + flt" where
  "real_column dv col x = (case dv_real dv x of
     Some y \<Rightarrow> Inr y | None \<Rightarrow> Inl (''NOT NULL constraint failed: '' @ col))"

definition synapse_to_row :: "sqlite_driver \<Rightarrow> SynapseRecord \<Rightarrow> string \<Rightarrow> string + synapse_row" where
  "synapse_to_row dv r affinity =
    sum_then (real_column dv ''synapses.weight'' (sr_weight r)) (\<lambda>w.
    sum_then (real_column dv ''synapses.attenuation_factor'' (sr_attenuation_factor r)) (\<lambda>a.
    sum_then (real_column dv ''synapses.error_rate'' (sr_error_rate r)) (\<lambda>e.
    Inr \<lparr>yr_id = sr_id r, yr_peer = sr_peer r, yr_weight = w, yr_attenuation_factor = a,
         yr_state = state_to_str (sr_state r), yr_type_affinity = affinity,
         yr_established_at_ns = to_i64 (sr_established_at_ns r), yr_last_active_ns = to_i64 (sr_last_active_ns r),
         yr_signals_transmitted = to_i64 (sr_signals_transmitted r), yr_signals_received = to_i64 (sr_signals_received r),
         yr_avg_latency_ns = to_i64 (sr_avg_latency_ns r), yr_error_rate = e,
         yr_signature_failures = ucast (sr_signature_failures r),
         yr_failure_window_start_ns = to_i64 (sr_failure_window_start_ns r)\<rparr>)))"

definition row_to_synapse :: "sqlite_driver \<Rightarrow> synapse_row \<Rightarrow> StoreError + SynapseRecord" where
  "row_to_synapse dv row =
    sum_then (state_from_str (yr_state row)) (\<lambda>state.
    sum_then (json_map dv (yr_type_affinity row)) (\<lambda>affinity.
    Inr \<lparr>sr_id = yr_id row, sr_peer = yr_peer row, sr_weight = fl_cast b32 (yr_weight row),
         sr_attenuation_factor = fl_cast b32 (yr_attenuation_factor row), sr_state = state,
         sr_type_affinity = affinity, sr_established_at_ns = from_i64 (yr_established_at_ns row),
         sr_last_active_ns = from_i64 (yr_last_active_ns row),
         sr_signals_transmitted = from_i64 (yr_signals_transmitted row),
         sr_signals_received = from_i64 (yr_signals_received row),
         sr_avg_latency_ns = from_i64 (yr_avg_latency_ns row), sr_error_rate = fl_cast b32 (yr_error_rate row),
         sr_signature_failures = ucast (from_i64 (yr_signature_failures row)),
         sr_failure_window_start_ns = from_i64 (yr_failure_window_start_ns row)\<rparr>))"

definition row_to_journal :: "sqlite_driver \<Rightarrow> journal_row \<Rightarrow> StoreError + JournalEntry" where
  "row_to_journal dv row =
    sum_then (signal_id_from_blob dv (jr_signal row)) (\<lambda>signal.
    sum_then (signal_type_from_str (jr_signal_type row)) (\<lambda>ty.
    sum_then (outcome_from_str (jr_outcome row)) (\<lambda>out.
    Inr \<lparr>je_id = Some (from_i64 (jr_id row)), je_signal = signal, je_signal_type = ty, je_synapse = jr_synapse row,
         je_peer = jr_peer row, je_score = fl_cast b32 (jr_score row), je_signal_weight = fl_cast b32 (jr_signal_weight row),
         je_explored = (jr_explored row \<noteq> 0), je_decided_at_ns = from_i64 (jr_decided_at_ns row),
         je_outcome = out, je_resolved_at_ns = map_option from_i64 (jr_resolved_at_ns row)\<rparr>)))"

definition journal_to_row :: "sqlite_driver \<Rightarrow> i64 \<Rightarrow> JournalEntry \<Rightarrow> string + journal_row" where
  "journal_to_row dv i e =
    sum_then (real_column dv ''journal.score'' (je_score e)) (\<lambda>score.
    sum_then (real_column dv ''journal.signal_weight'' (je_signal_weight e)) (\<lambda>weight.
    Inr \<lparr>jr_id = i, jr_signal = ulid_to_bytes (dv_ulid dv) (je_signal e),
         jr_signal_type = signal_type_to_str (je_signal_type e), jr_synapse = je_synapse e, jr_peer = je_peer e,
         jr_score = score, jr_signal_weight = weight, jr_explored = (if je_explored e then 1 else 0),
         jr_decided_at_ns = to_i64 (je_decided_at_ns e), jr_outcome = outcome_to_str (je_outcome e),
         jr_resolved_at_ns = map_option to_i64 (je_resolved_at_ns e)\<rparr>))"

definition peer_to_row :: "PeerRecord \<Rightarrow> string \<Rightarrow> string \<Rightarrow> peer_row" where
  "peer_to_row p addresses types = \<lparr>er_id = pr_id p, er_addresses = addresses, er_region = pr_region p,
     er_advertised_types = types, er_last_seen_ns = to_i64 (pr_last_seen_ns p), er_source = source_to_str (pr_source p)\<rparr>"

definition row_to_peer :: "sqlite_driver \<Rightarrow> peer_row \<Rightarrow> StoreError + PeerRecord" where
  "row_to_peer dv row =
    sum_then (json_vec dv (er_addresses row) ''peers'') (\<lambda>addresses.
    sum_then (json_vec dv (er_advertised_types row) ''peers'') (\<lambda>types.
    sum_then (source_from_str (er_source row)) (\<lambda>source.
    Inr \<lparr>pr_id = er_id row, pr_addresses = addresses, pr_region = er_region row, pr_advertised_types = types,
         pr_last_seen_ns = from_i64 (er_last_seen_ns row), pr_source = source\<rparr>)))"

definition activation_to_row :: "sqlite_driver \<Rightarrow> ActivationSnapshot \<Rightarrow> string + activation_row" where
  "activation_to_row dv sn =
    sum_then (real_column dv ''activation.potential'' (sn_potential sn)) (\<lambda>p.
    sum_then (real_column dv ''activation.threshold'' (sn_threshold sn)) (\<lambda>th.
    Inr \<lparr>ar_potential = p, ar_threshold = th, ar_refractory_until_ns = to_i64 (sn_refractory_until_ns sn),
         ar_signals_fired = to_i64 (sn_signals_fired sn), ar_taken_at_ns = to_i64 (sn_taken_at_ns sn)\<rparr>))"

definition row_to_activation :: "activation_row \<Rightarrow> ActivationSnapshot" where
  "row_to_activation row = \<lparr>sn_potential = fl_cast b32 (ar_potential row), sn_threshold = fl_cast b32 (ar_threshold row),
     sn_refractory_until_ns = from_i64 (ar_refractory_until_ns row), sn_signals_fired = from_i64 (ar_signals_fired row),
     sn_taken_at_ns = from_i64 (ar_taken_at_ns row)\<rparr>"

end
