(* ===== verification/Sqlite_Store.thy ===== *)
theory Sqlite_Store
  imports Sqlite_Rows
begin

text \<open>
  The operations of the \<open>SQLite\<close> backend (\<open>runtime/ntl-store-sqlite/src/lib.rs\<close>) and its
  migrations (\<open>schema.rs\<close>). The database is its tables, each the list of its rows in insertion
  order; an SQL statement of the source is the function on the tables it denotes. Every
  statement may be failed by the engine, and then changes nothing.
\<close>

section \<open>The database\<close>

record Tables =
  tb_synapses :: "synapse_row list"
  tb_windowed :: bool
  tb_peers :: "peer_row list"
  tb_seen :: "(u8 list, i64) hashmap"
  tb_activation :: "activation_row option"
  tb_journal :: "journal_row list"
  tb_journal_seq :: i64
  tb_influence :: "influence_row list"
  tb_meta :: "(string, u8 list) hashmap"
  tb_history :: "(u8 list, u8 list \<times> i64) hashmap"

text \<open>\<open>db_version\<close> is \<open>PRAGMA user_version\<close>; the tables exist once the first migration has run.\<close>

record Database =
  db_version :: u32
  db_tables :: "Tables option"

record Settings =
  cn_wal :: bool
  cn_synchronous :: string
  cn_foreign_keys :: bool
  cn_busy_timeout_ms :: u64

record SqliteStore =
  sq_db :: Database
  sq_settings :: Settings
  sq_config :: SqliteConfig
  sq_in_memory :: bool
  sq_poisoned :: bool
  sq_count :: nat

text \<open>\<open>lock\<close>: the connection behind its mutex.\<close>

definition with_conn :: "(SqliteStore, 'a) sop \<Rightarrow> (SqliteStore, 'a) sop" where
  "with_conn f s = (if sq_poisoned s then (Inl (Unavailable ''connection lock poisoned''), s) else f s)"

text \<open>
  One call of the engine. It is counted; when the engine fails it the database is as before.
  A statement on the tables is one such call, given its number.
\<close>

definition engine_call :: "sqlite_driver \<Rightarrow> (string \<Rightarrow> StoreError) \<Rightarrow> (nat \<Rightarrow> SqliteStore \<Rightarrow> (string + 'a \<times> SqliteStore)) \<Rightarrow>
    (SqliteStore, 'a) sop" where
  "engine_call dv err q s =
    (let n = sq_count s; s1 = s\<lparr>sq_count := n + 1\<rparr> in case dv_fault dv n of
       Some msg \<Rightarrow> (Inl (err msg), s1)
     | None \<Rightarrow> (case q n s1 of Inl msg \<Rightarrow> (Inl (err msg), s1) | Inr (x, s') \<Rightarrow> (Inr x, s')))"

definition statement :: "sqlite_driver \<Rightarrow> (string \<Rightarrow> StoreError) \<Rightarrow> (nat \<Rightarrow> Tables \<Rightarrow> (string + 'a \<times> Tables)) \<Rightarrow>
    (SqliteStore, 'a) sop" where
  "statement dv err q = engine_call dv err (\<lambda>n s. case db_tables (sq_db s) of
     None \<Rightarrow> Inl ''no such table''
   | Some t \<Rightarrow> sum_then (q n t) (\<lambda>(x, t'). Inr (x, s\<lparr>sq_db := (sq_db s)\<lparr>db_tables := Some t'\<rparr>\<rparr>)))"

text \<open>A statement that changes rows, and one that only reads them.\<close>

definition execute :: "sqlite_driver \<Rightarrow> (Tables \<Rightarrow> string + 'a \<times> Tables) \<Rightarrow> (SqliteStore, 'a) sop" where
  "execute dv q = statement dv write_err (\<lambda>n t. q t)"

definition query :: "sqlite_driver \<Rightarrow> (nat \<Rightarrow> Tables \<Rightarrow> string + 'a) \<Rightarrow> (SqliteStore, 'a) sop" where
  "query dv q = statement dv read_err (\<lambda>n t. sum_then (q n t) (\<lambda>x. Inr (x, t)))"

definition pragma :: "sqlite_driver \<Rightarrow> (string \<Rightarrow> StoreError) \<Rightarrow> (SqliteStore \<Rightarrow> SqliteStore) \<Rightarrow> (SqliteStore, unit) sop" where
  "pragma dv err f = engine_call dv err (\<lambda>n s. Inr ((), f s))"

definition op_of :: "StoreError + 'a \<Rightarrow> (SqliteStore, 'a) sop" where
  "op_of r s = (r, s)"

text \<open>\<open>optional()\<close> and \<open>transpose()\<close>: no row, or one row decoded; and all rows decoded in order.\<close>

definition decode_row :: "('r \<Rightarrow> StoreError + 'a) \<Rightarrow> 'r option \<Rightarrow> (SqliteStore, 'a option) sop" where
  "decode_row dec row = op_of (case row of None \<Rightarrow> Inr None | Some r \<Rightarrow> map_sum id Some (dec r))"

fun decode_rows :: "('r \<Rightarrow> StoreError + 'a) \<Rightarrow> 'r list \<Rightarrow> StoreError + 'a list" where
  "decode_rows dec [] = Inr []"
| "decode_rows dec (r # rs) = sum_then (dec r) (\<lambda>x. sum_then (decode_rows dec rs) (\<lambda>xs. Inr (x # xs)))"

section \<open>What the statements denote\<close>

text \<open>\<open>INSERT .. ON CONFLICT(key) DO UPDATE\<close>: replace the row in place, or add it.\<close>

fun upsert :: "('r \<Rightarrow> 'k) \<Rightarrow> 'r \<Rightarrow> 'r list \<Rightarrow> 'r list" where
  "upsert key r [] = [r]"
| "upsert key r (x # xs) = (if key x = key r then r # xs else x # upsert key r xs)"

definition sql_limit :: "i64 \<Rightarrow> 'r list \<Rightarrow> 'r list" where
  "sql_limit n rows = (if sint n < 0 then rows else take (unat n) rows)"

definition int_cmp :: "i64 \<Rightarrow> i64 \<Rightarrow> ordering" where
  "int_cmp a b = cmp_of (sint a) (sint b)"

text \<open>The columns added by the second migration.\<close>

definition synapse_rows :: "Tables \<Rightarrow> string + synapse_row list" where
  "synapse_rows t = (if tb_windowed t then Inr (tb_synapses t) else Inl ''no such column: signature_failures'')"

definition by_weight :: "synapse_row \<Rightarrow> synapse_row \<Rightarrow> ordering" where
  "by_weight a b = then_with (fl_cmp (yr_weight b) (yr_weight a)) (cmp_of (yr_id a) (yr_id b))"

definition row_matches :: "SynapseFilter \<Rightarrow> synapse_row \<Rightarrow> bool" where
  "row_matches f r \<longleftrightarrow> (fi_states f = [] \<or> yr_state r \<in> set (map state_to_str (fi_states f))) \<and>
     (case fi_min_weight f of None \<Rightarrow> True | Some m \<Rightarrow> fl_le m (yr_weight r)) \<and>
     (case fi_last_active_before_ns f of None \<Rightarrow> True | Some b \<Rightarrow> sint (yr_last_active_ns r) < sint (to_i64 b))"

definition by_last_seen :: "peer_row \<Rightarrow> peer_row \<Rightarrow> ordering" where
  "by_last_seen a b = then_with (int_cmp (er_last_seen_ns b) (er_last_seen_ns a)) (cmp_of (er_id a) (er_id b))"

definition oldest_first :: "journal_row \<Rightarrow> journal_row \<Rightarrow> ordering" where
  "oldest_first a b = int_cmp (jr_decided_at_ns a) (jr_decided_at_ns b)"

definition newest_first :: "journal_row \<Rightarrow> journal_row \<Rightarrow> ordering" where
  "newest_first a b = then_with (int_cmp (jr_decided_at_ns b) (jr_decided_at_ns a)) (int_cmp (jr_id b) (jr_id a))"

definition sum_since :: "sqlite_driver \<Rightarrow> NodeId \<Rightarrow> u64 \<Rightarrow> influence_row list \<Rightarrow> flt" where
  "sum_since dv p start rows =
    (let xs = map ir_magnitude (filter (\<lambda>r. ir_peer r = p \<and> sint (to_i64 start) \<le> sint (ir_at_ns r)) rows)
     in fl_cast b32 (if xs = [] then Fin 0 else dv_sum dv xs))"

section \<open>Synapses and peers\<close>

definition sq_put_synapse :: "sqlite_driver \<Rightarrow> SynapseRecord \<Rightarrow> (SqliteStore, unit) sop" where
  "sq_put_synapse dv r = op_bind (op_of (map_err write_err (dv_map_to_json dv (sr_type_affinity r)))) (\<lambda>affinity.
     with_conn (execute dv (\<lambda>t.
       sum_then (synapse_rows t) (\<lambda>rows.
       sum_then (synapse_to_row dv r affinity) (\<lambda>row.
       if list_ex (\<lambda>x. yr_id x \<noteq> yr_id row \<and> yr_peer x = yr_peer row) rows
       then Inl ''UNIQUE constraint failed: synapses.peer''
       else Inr ((), t\<lparr>tb_synapses := upsert yr_id row rows\<rparr>))))))"

definition sq_get_synapse :: "sqlite_driver \<Rightarrow> SynapseId \<Rightarrow> (SqliteStore, SynapseRecord option) sop" where
  "sq_get_synapse dv i = with_conn (op_bind
     (query dv (\<lambda>n t. map_sum id (find (\<lambda>r. yr_id r = i)) (synapse_rows t)))
     (decode_row (row_to_synapse dv)))"

definition sq_synapse_for_peer :: "sqlite_driver \<Rightarrow> NodeId \<Rightarrow> (SqliteStore, SynapseRecord option) sop" where
  "sq_synapse_for_peer dv p = with_conn (op_bind
     (query dv (\<lambda>n t. map_sum id (find (\<lambda>r. yr_peer r = p)) (synapse_rows t)))
     (decode_row (row_to_synapse dv)))"

definition sq_list_synapses :: "sqlite_driver \<Rightarrow> SynapseFilter \<Rightarrow> (SqliteStore, SynapseRecord list) sop" where
  "sq_list_synapses dv f = with_conn (op_bind
     (query dv (\<lambda>n t. map_sum id (\<lambda>rows.
        let out = sort_by by_weight (filter (row_matches f) rows)
        in case fi_limit f of None \<Rightarrow> out | Some k \<Rightarrow> sql_limit (to_i64 (of_nat k)) out) (synapse_rows t)))
     (\<lambda>rows. op_of (decode_rows (row_to_synapse dv) rows)))"

definition sq_delete_synapse :: "sqlite_driver \<Rightarrow> SynapseId \<Rightarrow> (SqliteStore, unit) sop" where
  "sq_delete_synapse dv i = with_conn (execute dv (\<lambda>t.
     Inr ((), t\<lparr>tb_synapses := filter (\<lambda>r. yr_id r \<noteq> i) (tb_synapses t)\<rparr>)))"

definition sq_put_peer :: "sqlite_driver \<Rightarrow> PeerRecord \<Rightarrow> (SqliteStore, unit) sop" where
  "sq_put_peer dv p = op_bind (op_of (map_err write_err (dv_list_to_json dv (pr_addresses p)))) (\<lambda>addresses.
     op_bind (op_of (map_err write_err (dv_list_to_json dv (pr_advertised_types p)))) (\<lambda>types.
     with_conn (execute dv (\<lambda>t. Inr ((), t\<lparr>tb_peers := upsert er_id (peer_to_row p addresses types) (tb_peers t)\<rparr>)))))"

definition sq_get_peer :: "sqlite_driver \<Rightarrow> NodeId \<Rightarrow> (SqliteStore, PeerRecord option) sop" where
  "sq_get_peer dv i = with_conn (op_bind
     (query dv (\<lambda>n t. Inr (find (\<lambda>r. er_id r = i) (tb_peers t)))) (decode_row (row_to_peer dv)))"

definition sq_list_peers :: "sqlite_driver \<Rightarrow> string option \<Rightarrow> nat \<Rightarrow> (SqliteStore, PeerRecord list) sop" where
  "sq_list_peers dv region limit = with_conn (op_bind
     (query dv (\<lambda>n t. Inr (sql_limit (to_i64 (of_nat limit)) (sort_by by_last_seen
        (filter (\<lambda>r. case region of Some want \<Rightarrow> er_region r = Some want | None \<Rightarrow> True) (tb_peers t))))))
     (\<lambda>rows. op_of (decode_rows (row_to_peer dv) rows)))"

definition sq_count_peers :: "sqlite_driver \<Rightarrow> PeerSource \<Rightarrow> (SqliteStore, u64) sop" where
  "sq_count_peers dv src = with_conn (query dv (\<lambda>n t.
     Inr (from_i64 (of_nat (length (filter (\<lambda>r. er_source r = source_to_str src) (tb_peers t)))))))"

section \<open>Deduplication and activation\<close>

definition sq_check_and_set_seen :: "sqlite_driver \<Rightarrow> SignalId \<Rightarrow> u64 \<Rightarrow> u64 \<Rightarrow> (SqliteStore, bool) sop" where
  "sq_check_and_set_seen dv i now ttl =
    (let expires = sat_add now (sat_mul ttl 1000000000); key = ulid_to_bytes (dv_ulid dv) i
     in op_bind (with_conn (execute dv (\<lambda>t.
          let set = t\<lparr>tb_seen := AList.update key (to_i64 expires) (tb_seen t)\<rparr>
          in Inr (case map_of (tb_seen t) key of
               Some e \<Rightarrow> if sint e \<le> sint (to_i64 now) then (1 :: nat, set) else (0, t)
             | None \<Rightarrow> (1, set))))) (\<lambda>changed. op_of (Inr (changed = 0))))"

definition sq_has_seen :: "sqlite_driver \<Rightarrow> SignalId \<Rightarrow> u64 \<Rightarrow> (SqliteStore, bool) sop" where
  "sq_has_seen dv i now = with_conn (query dv (\<lambda>n t.
     Inr (case map_of (tb_seen t) (ulid_to_bytes (dv_ulid dv) i) of
       Some e \<Rightarrow> sint (to_i64 now) < sint e | None \<Rightarrow> False)))"

definition sq_purge_expired_seen :: "sqlite_driver \<Rightarrow> u64 \<Rightarrow> (SqliteStore, u64) sop" where
  "sq_purge_expired_seen dv now = with_conn (execute dv (\<lambda>t.
     let kept = filter (\<lambda>(_, e). \<not> sint e \<le> sint (to_i64 now)) (tb_seen t)
     in Inr (of_nat (length (tb_seen t) - length kept), t\<lparr>tb_seen := kept\<rparr>)))"

definition sq_save_activation :: "sqlite_driver \<Rightarrow> ActivationSnapshot \<Rightarrow> (SqliteStore, unit) sop" where
  "sq_save_activation dv sn = with_conn (execute dv (\<lambda>t.
     sum_then (activation_to_row dv sn) (\<lambda>row. Inr ((), t\<lparr>tb_activation := Some row\<rparr>))))"

definition sq_load_activation :: "sqlite_driver \<Rightarrow> (SqliteStore, ActivationSnapshot option) sop" where
  "sq_load_activation dv = with_conn (query dv (\<lambda>n t. Inr (map_option row_to_activation (tb_activation t))))"

section \<open>The journal\<close>

definition sq_append_decision :: "sqlite_driver \<Rightarrow> JournalEntry \<Rightarrow> (SqliteStore, JournalId) sop" where
  "sq_append_decision dv e = with_conn (op_bind (execute dv (\<lambda>t.
     if tb_journal_seq t = i64_max then Inl ''database or disk is full''
     else let i = tb_journal_seq t + 1 in
       sum_then (journal_to_row dv i e) (\<lambda>row.
       Inr (i, t\<lparr>tb_journal := tb_journal t @ [row], tb_journal_seq := i\<rparr>))))
     (\<lambda>i. op_of (Inr (from_i64 i))))"

definition resolve_row :: "JournalId \<Rightarrow> Outcome \<Rightarrow> u64 \<Rightarrow> journal_row \<Rightarrow> journal_row" where
  "resolve_row i out now r =
    (if jr_id r = to_i64 i \<and> jr_outcome r = ''pending''
     then r\<lparr>jr_outcome := outcome_to_str out, jr_resolved_at_ns := Some (to_i64 now)\<rparr> else r)"

definition sq_resolve_decision :: "sqlite_driver \<Rightarrow> JournalId \<Rightarrow> Outcome \<Rightarrow> u64 \<Rightarrow> (SqliteStore, JournalEntry option) sop" where
  "sq_resolve_decision dv i out now = with_conn (
     op_bind (execute dv (\<lambda>t. Inr ((), t\<lparr>tb_journal := map (resolve_row i out now) (tb_journal t)\<rparr>))) (\<lambda>_.
     op_bind (query dv (\<lambda>n t. Inr (find (\<lambda>r. jr_id r = to_i64 i) (tb_journal t)))) (decode_row (row_to_journal dv))))"

definition first_row :: "'r list \<Rightarrow> 'r option" where
  "first_row rows = (case rows of [] \<Rightarrow> None | r # _ \<Rightarrow> Some r)"

definition sq_pending_decision_for :: "sqlite_driver \<Rightarrow> SignalId \<Rightarrow> NodeId \<Rightarrow> (SqliteStore, JournalEntry option) sop" where
  "sq_pending_decision_for dv sg p = with_conn (op_bind
     (query dv (\<lambda>n t. Inr (first_row (sort_by oldest_first (dv_scan dv n (filter
        (\<lambda>r. jr_signal r = ulid_to_bytes (dv_ulid dv) sg \<and> jr_peer r = p \<and> jr_outcome r = ''pending'') (tb_journal t)))))))
     (decode_row (row_to_journal dv)))"

definition sq_expired_decisions :: "sqlite_driver \<Rightarrow> u64 \<Rightarrow> nat \<Rightarrow> (SqliteStore, JournalEntry list) sop" where
  "sq_expired_decisions dv deadline limit = with_conn (op_bind
     (query dv (\<lambda>n t. Inr (sql_limit (to_i64 (of_nat limit)) (sort_by oldest_first (dv_scan dv n (filter
        (\<lambda>r. jr_outcome r = ''pending'' \<and> sint (jr_decided_at_ns r) < sint (to_i64 deadline)) (tb_journal t)))))))
     (\<lambda>rows. op_of (decode_rows (row_to_journal dv) rows)))"

definition sq_recent_decisions :: "sqlite_driver \<Rightarrow> SignalType option \<Rightarrow> nat \<Rightarrow> (SqliteStore, JournalEntry list) sop" where
  "sq_recent_decisions dv ty limit = with_conn (op_bind
     (query dv (\<lambda>n t. Inr (sql_limit (to_i64 (of_nat limit)) (sort_by newest_first (filter
        (\<lambda>r. case ty of Some want \<Rightarrow> jr_signal_type r = signal_type_to_str want | None \<Rightarrow> True) (tb_journal t))))))
     (\<lambda>rows. op_of (decode_rows (row_to_journal dv) rows)))"

definition sq_trim_journal :: "sqlite_driver \<Rightarrow> u64 \<Rightarrow> (SqliteStore, u64) sop" where
  "sq_trim_journal dv older = with_conn (execute dv (\<lambda>t.
     let kept = filter (\<lambda>r. \<not> sint (jr_decided_at_ns r) < sint (to_i64 older)) (tb_journal t)
     in Inr (of_nat (length (tb_journal t) - length kept), t\<lparr>tb_journal := kept\<rparr>)))"

section \<open>Influence, metadata and history\<close>

definition sq_influence_since :: "sqlite_driver \<Rightarrow> NodeId \<Rightarrow> u64 \<Rightarrow> (SqliteStore, flt) sop" where
  "sq_influence_since dv p start = with_conn (query dv (\<lambda>n t. Inr (sum_since dv p start (tb_influence t))))"

definition sq_record_influence :: "sqlite_driver \<Rightarrow> NodeId \<Rightarrow> flt \<Rightarrow> u64 \<Rightarrow> u64 \<Rightarrow> (SqliteStore, flt) sop" where
  "sq_record_influence dv p x now start = with_conn (
     op_bind (execute dv (\<lambda>t. sum_then (real_column dv ''influence.magnitude'' (fl_abs x)) (\<lambda>m.
       Inr ((), t\<lparr>tb_influence := tb_influence t @ [\<lparr>ir_peer = p, ir_magnitude = m, ir_at_ns = to_i64 now\<rparr>]\<rparr>)))) (\<lambda>_.
     query dv (\<lambda>n t. Inr (sum_since dv p start (tb_influence t)))))"

definition sq_purge_influence :: "sqlite_driver \<Rightarrow> u64 \<Rightarrow> (SqliteStore, u64) sop" where
  "sq_purge_influence dv older = with_conn (execute dv (\<lambda>t.
     let kept = filter (\<lambda>r. \<not> sint (ir_at_ns r) < sint (to_i64 older)) (tb_influence t)
     in Inr (of_nat (length (tb_influence t) - length kept), t\<lparr>tb_influence := kept\<rparr>)))"

definition sq_put_meta :: "sqlite_driver \<Rightarrow> string \<Rightarrow> u8 list \<Rightarrow> (SqliteStore, unit) sop" where
  "sq_put_meta dv k v = with_conn (execute dv (\<lambda>t. Inr ((), t\<lparr>tb_meta := AList.update k v (tb_meta t)\<rparr>)))"

definition sq_get_meta :: "sqlite_driver \<Rightarrow> string \<Rightarrow> (SqliteStore, u8 list option) sop" where
  "sq_get_meta dv k = with_conn (query dv (\<lambda>n t. Inr (map_of (tb_meta t) k)))"

definition sq_signal_history_enabled :: "SqliteStore \<Rightarrow> bool" where
  "sq_signal_history_enabled s = qc_retain_signal_history (sq_config s)"

definition sq_put_signal_history :: "sqlite_driver \<Rightarrow> SignalId \<Rightarrow> u8 list \<Rightarrow> u64 \<Rightarrow> (SqliteStore, unit) sop" where
  "sq_put_signal_history dv i body now s =
    (if \<not> qc_retain_signal_history (sq_config s) then (Inl (Unsupported ''signal history''), s)
     else with_conn (execute dv (\<lambda>t. Inr ((),
       t\<lparr>tb_history := AList.update (ulid_to_bytes (dv_ulid dv) i) (body, to_i64 now) (tb_history t)\<rparr>))) s)"

definition sq_get_signal_history :: "sqlite_driver \<Rightarrow> SignalId \<Rightarrow> (SqliteStore, u8 list option) sop" where
  "sq_get_signal_history dv i s =
    (if \<not> qc_retain_signal_history (sq_config s) then (Inl (Unsupported ''signal history''), s)
     else with_conn (query dv (\<lambda>n t. Inr (map_option fst (map_of (tb_history t) (ulid_to_bytes (dv_ulid dv) i))))) s)"

end
