(* ===== verification/Sqlite_Schema.thy ===== *)
theory Sqlite_Schema
  imports Sqlite_Store
begin

text \<open>
  Opening a database, its pragmas, and the embedded migrations
  (\<open>runtime/ntl-store-sqlite/src/lib.rs\<close> and \<open>schema.rs\<close>), and the whole backend as the
  record of operations of the storage interface. A migration script is the change of schema
  it makes; a transaction works on a copy that the commit puts in place.
\<close>

section \<open>Migrations\<close>

record Migration =
  mg_version :: u32
  mg_description :: string
  mg_sql :: "Tables option \<Rightarrow> string + Tables option"

definition CURRENT_VERSION :: u32 where
  "CURRENT_VERSION = 2"

definition empty_tables :: Tables where
  "empty_tables = \<lparr>tb_synapses = [], tb_windowed = False, tb_peers = [], tb_seen = [], tb_activation = None,
     tb_journal = [], tb_journal_seq = 0, tb_influence = [], tb_meta = [], tb_history = []\<rparr>"

text \<open>\<open>CREATE TABLE IF NOT EXISTS\<close> and \<open>ALTER TABLE .. ADD COLUMN .. DEFAULT 0\<close>.\<close>

definition create_script :: "Tables option \<Rightarrow> string + Tables option" where
  "create_script t = Inr (Some (case t of None \<Rightarrow> empty_tables | Some t \<Rightarrow> t))"

definition no_failures :: "synapse_row \<Rightarrow> synapse_row" where
  "no_failures r = r\<lparr>yr_signature_failures := 0, yr_failure_window_start_ns := 0\<rparr>"

definition window_script :: "Tables option \<Rightarrow> string + Tables option" where
  "window_script t = (case t of
     None \<Rightarrow> Inl ''no such table: synapses''
   | Some t \<Rightarrow> if tb_windowed t then Inl ''duplicate column name: signature_failures''
       else Inr (Some (t\<lparr>tb_windowed := True, tb_synapses := map no_failures (tb_synapses t)\<rparr>)))"

definition MIGRATIONS :: "Migration list" where
  "MIGRATIONS = [\<lparr>mg_version = 1, mg_description = ''initial schema'', mg_sql = create_script\<rparr>,
     \<lparr>mg_version = 2, mg_description = ''signature-failure window on synapses'', mg_sql = window_script\<rparr>]"

definition user_version :: "sqlite_driver \<Rightarrow> (string \<Rightarrow> StoreError) \<Rightarrow> (SqliteStore, u32) sop" where
  "user_version dv err = engine_call dv err (\<lambda>n s.
     if sint (db_version (sq_db s)) < 0 then Inl ''integer out of range'' else Inr (db_version (sq_db s), s))"

definition schema_version :: "sqlite_driver \<Rightarrow> (SqliteStore, u32) sop" where
  "schema_version dv = with_conn (user_version dv Unavailable)"

text \<open>One migration: begin, run the script, set the version, commit; any failure rolls back.\<close>

definition apply_migration :: "sqlite_driver \<Rightarrow> Migration \<Rightarrow> (SqliteStore, unit) sop" where
  "apply_migration dv m = (let fail = StoreError.Migration (mg_version m) in
     op_bind (pragma dv fail id) (\<lambda>_.
     op_bind (engine_call dv (\<lambda>e. fail (mg_description m @ '': '' @ e)) (\<lambda>n s.
       sum_then (mg_sql m (db_tables (sq_db s))) (\<lambda>t. Inr (t, s)))) (\<lambda>t.
     op_bind (pragma dv fail id) (\<lambda>_.
     pragma dv fail (\<lambda>s. s\<lparr>sq_db := \<lparr>db_version = mg_version m, db_tables = t\<rparr>\<rparr>)))))"

fun run_migrations :: "sqlite_driver \<Rightarrow> u32 \<Rightarrow> Migration list \<Rightarrow> (SqliteStore, unit) sop" where
  "run_migrations dv current [] = op_ret ()"
| "run_migrations dv current (m # ms) =
     (if mg_version m \<le> current then run_migrations dv current ms
      else op_bind (apply_migration dv m) (\<lambda>_. run_migrations dv current ms))"

definition sq_migrate :: "sqlite_driver \<Rightarrow> (SqliteStore, unit) sop" where
  "sq_migrate dv = with_conn (op_bind (user_version dv (StoreError.Migration 0)) (\<lambda>current.
     if CURRENT_VERSION < current
     then op_fail (StoreError.Migration current ''database is newer than this build understands'')
     else run_migrations dv current MIGRATIONS))"

section \<open>Opening\<close>

record sqlite_host =
  oh_home :: "string option"
  oh_parent :: "string \<Rightarrow> string option"
  oh_create_dirs :: "string \<Rightarrow> string option"
  oh_open :: "string \<Rightarrow> string + Database \<times> Settings"
  oh_open_in_memory :: "string + Database \<times> Settings"

definition apply_pragmas :: "sqlite_driver \<Rightarrow> (SqliteStore, unit) sop" where
  "apply_pragmas dv = with_conn (\<lambda>s.
     op_bind (if sq_in_memory s then op_ret ()
       else pragma dv (\<lambda>e. Unavailable (''cannot enable WAL: '' @ e)) (\<lambda>s. s\<lparr>sq_settings := (sq_settings s)\<lparr>cn_wal := True\<rparr>\<rparr>)) (\<lambda>_.
     op_bind (pragma dv Unavailable (\<lambda>s. s\<lparr>sq_settings := (sq_settings s)\<lparr>cn_synchronous := as_pragma (qc_synchronous (sq_config s))\<rparr>\<rparr>)) (\<lambda>_.
     op_bind (pragma dv Unavailable (\<lambda>s. s\<lparr>sq_settings := (sq_settings s)\<lparr>cn_foreign_keys := True\<rparr>\<rparr>)) (\<lambda>_.
     pragma dv Unavailable (\<lambda>s. s\<lparr>sq_settings := (sq_settings s)\<lparr>cn_busy_timeout_ms := ucast (qc_busy_timeout_ms (sq_config s))\<rparr>\<rparr>)))) s)"

definition store_on :: "SqliteConfig \<Rightarrow> bool \<Rightarrow> Database \<times> Settings \<Rightarrow> SqliteStore" where
  "store_on c mem conn = \<lparr>sq_db = fst conn, sq_settings = snd conn, sq_config = c, sq_in_memory = mem,
     sq_poisoned = False, sq_count = 0\<rparr>"

text \<open>A constructor hands out the store only when every pragma took.\<close>

definition configured :: "sqlite_driver \<Rightarrow> SqliteStore \<Rightarrow> StoreError + SqliteStore" where
  "configured dv s = (case apply_pragmas dv s of (Inl e, _) \<Rightarrow> Inl e | (Inr _, s') \<Rightarrow> Inr s')"

definition sq_with_config :: "sqlite_driver \<Rightarrow> sqlite_host \<Rightarrow> SqliteConfig \<Rightarrow> StoreError + SqliteStore" where
  "sq_with_config dv oh c = sum_then
     (case oh_parent oh (qc_path c) of
        None \<Rightarrow> Inr ()
      | Some parent \<Rightarrow> if parent = [] then Inr ()
          else (case oh_create_dirs oh parent of
              None \<Rightarrow> Inr () | Some e \<Rightarrow> Inl (Unavailable (''cannot create '' @ parent @ '': '' @ e)))) (\<lambda>_.
     sum_then (map_err (\<lambda>e. Unavailable (''cannot open '' @ qc_path c @ '': '' @ e)) (oh_open oh (qc_path c))) (\<lambda>conn.
     configured dv (store_on c False conn)))"

definition sq_open :: "sqlite_driver \<Rightarrow> sqlite_host \<Rightarrow> string \<Rightarrow> StoreError + SqliteStore" where
  "sq_open dv oh path = sq_with_config dv oh (sqlite_config_at (expand_home (oh_home oh) path))"

definition open_in_memory :: "sqlite_driver \<Rightarrow> sqlite_host \<Rightarrow> StoreError + SqliteStore" where
  "open_in_memory dv oh = sum_then
     (map_err (\<lambda>e. Unavailable (''cannot open in-memory db: '' @ e)) (oh_open_in_memory oh)) (\<lambda>conn.
     configured dv (store_on ((sqlite_config_at '':memory:'')\<lparr>qc_synchronous := SyncOff\<rparr>) True conn))"

definition in_memory_with_history :: "sqlite_driver \<Rightarrow> sqlite_host \<Rightarrow> StoreError + SqliteStore" where
  "in_memory_with_history dv oh = map_sum id
     (\<lambda>s. s\<lparr>sq_config := (sq_config s)\<lparr>qc_retain_signal_history := True\<rparr>\<rparr>) (open_in_memory dv oh)"

definition sq_path :: "SqliteStore \<Rightarrow> string" where
  "sq_path s = qc_path (sq_config s)"

section \<open>The backend\<close>

definition sq_durability :: "SqliteStore \<Rightarrow> Durability" where
  "sq_durability s = (if sq_in_memory s then MemoryOnly
     else case qc_synchronous (sq_config s) of SyncFull \<Rightarrow> Durable | SyncNormal \<Rightarrow> DurableBestEffort | SyncOff \<Rightarrow> DurableBestEffort)"

definition sq_flush :: "sqlite_driver \<Rightarrow> (SqliteStore, unit) sop" where
  "sq_flush dv = with_conn (\<lambda>s. if sq_in_memory s then (Inr (), s) else pragma dv WriteFailed id s)"

definition sqlite_api :: "sqlite_driver \<Rightarrow> SqliteStore store_api" where
  "sqlite_api dv = \<lparr>st_migrate = sq_migrate dv, st_durability = sq_durability, st_flush = sq_flush dv,
     st_put_synapse = sq_put_synapse dv, st_get_synapse = sq_get_synapse dv,
     st_synapse_for_peer = sq_synapse_for_peer dv, st_list_synapses = sq_list_synapses dv,
     st_delete_synapse = sq_delete_synapse dv, st_put_peer = sq_put_peer dv, st_get_peer = sq_get_peer dv,
     st_list_peers = sq_list_peers dv, st_count_peers = sq_count_peers dv,
     st_check_and_set_seen = sq_check_and_set_seen dv, st_has_seen = sq_has_seen dv,
     st_purge_expired_seen = sq_purge_expired_seen dv, st_save_activation = sq_save_activation dv,
     st_load_activation = sq_load_activation dv, st_append_decision = sq_append_decision dv,
     st_resolve_decision = sq_resolve_decision dv, st_pending_decision_for = sq_pending_decision_for dv,
     st_expired_decisions = sq_expired_decisions dv, st_recent_decisions = sq_recent_decisions dv,
     st_trim_journal = sq_trim_journal dv, st_record_influence = sq_record_influence dv,
     st_influence_since = sq_influence_since dv, st_purge_influence = sq_purge_influence dv,
     st_put_meta = sq_put_meta dv, st_get_meta = sq_get_meta dv,
     st_signal_history_enabled = sq_signal_history_enabled,
     st_put_signal_history = sq_put_signal_history dv, st_get_signal_history = sq_get_signal_history dv\<rparr>"

section \<open>Migrating is safe\<close>

text \<open>The schemas a database of this program can be at, and what a migration keeps of the rows.\<close>

definition schema_ok :: "Database \<Rightarrow> bool" where
  "schema_ok db \<longleftrightarrow> (db_version db = 0 \<and> db_tables db = None) \<or>
     (db_version db = 1 \<and> (\<exists>t. db_tables db = Some t \<and> \<not> tb_windowed t)) \<or>
     (db_version db = 2 \<and> (\<exists>t. db_tables db = Some t \<and> tb_windowed t))"

definition upgraded :: "Database \<Rightarrow> Database" where
  "upgraded db = \<lparr>db_version = 2, db_tables = Some (case db_tables db of
     None \<Rightarrow> empty_tables\<lparr>tb_windowed := True\<rparr>
   | Some t \<Rightarrow> if tb_windowed t then t else t\<lparr>tb_windowed := True, tb_synapses := map no_failures (tb_synapses t)\<rparr>)\<rparr>"

lemma engine_call_cases:
  obtains e where "engine_call dv err q s = (Inl e, s\<lparr>sq_count := sq_count s + 1\<rparr>)"
    "dv_fault dv (sq_count s) = None \<Longrightarrow> \<exists>msg. q (sq_count s) (s\<lparr>sq_count := sq_count s + 1\<rparr>) = Inl msg"
  | x s' where "engine_call dv err q s = (Inr x, s')" "dv_fault dv (sq_count s) = None"
    "q (sq_count s) (s\<lparr>sq_count := sq_count s + 1\<rparr>) = Inr (x, s')"
proof (cases "dv_fault dv (sq_count s)")
  case None
  then show ?thesis using that
    by (cases "q (sq_count s) (s\<lparr>sq_count := sq_count s + 1\<rparr>)") (auto simp: engine_call_def Let_def)
qed (use that(1) in \<open>auto simp: engine_call_def Let_def\<close>)

lemma pragma_cases:
  obtains e where "pragma dv err f s = (Inl e, s\<lparr>sq_count := sq_count s + 1\<rparr>)" "dv_fault dv (sq_count s) \<noteq> None"
  | "pragma dv err f s = (Inr (), f (s\<lparr>sq_count := sq_count s + 1\<rparr>))"
  by (cases "dv_fault dv (sq_count s)") (auto simp: pragma_def engine_call_def Let_def)

lemma user_version_cases:
  obtains e where "user_version dv err s = (Inl e, s\<lparr>sq_count := sq_count s + 1\<rparr>)"
    "dv_fault dv (sq_count s) \<noteq> None \<or> sint (db_version (sq_db s)) < 0"
  | "user_version dv err s = (Inr (db_version (sq_db s)), s\<lparr>sq_count := sq_count s + 1\<rparr>)"
  by (cases "dv_fault dv (sq_count s)"; cases "sint (db_version (sq_db s)) < 0")
    (auto simp: user_version_def engine_call_def Let_def)

text \<open>A migration whose script applies either takes, or changes nothing because the engine failed a call.\<close>

definition faulty_from :: "sqlite_driver \<Rightarrow> nat \<Rightarrow> bool" where
  "faulty_from dv n \<longleftrightarrow> (\<exists>k \<ge> n. dv_fault dv k \<noteq> None)"

lemma faulty_from_mono: "faulty_from dv n \<Longrightarrow> m \<le> n \<Longrightarrow> faulty_from dv m"
  by (auto simp: faulty_from_def intro: order_trans)

lemma bind_engine_call:
  "op_bind (engine_call dv err q) g s = (case dv_fault dv (sq_count s) of
     Some msg \<Rightarrow> (Inl (err msg), s\<lparr>sq_count := sq_count s + 1\<rparr>)
   | None \<Rightarrow> (case q (sq_count s) (s\<lparr>sq_count := sq_count s + 1\<rparr>) of
       Inl msg \<Rightarrow> (Inl (err msg), s\<lparr>sq_count := sq_count s + 1\<rparr>) | Inr (x, s') \<Rightarrow> g x s'))"
  by (simp add: op_bind_def engine_call_def Let_def split: option.split sum.split prod.split)

lemma apply_migration_cases:
  assumes sql: "mg_sql m (db_tables (sq_db s)) = Inr t"
  obtains e k where "apply_migration dv m s = (Inl e, s\<lparr>sq_count := sq_count s + k\<rparr>)" "faulty_from dv (sq_count s)"
  | "apply_migration dv m s = (Inr (), s\<lparr>sq_count := sq_count s + 4, sq_db := \<lparr>db_version = mg_version m, db_tables = t\<rparr>\<rparr>)"
proof -
  let ?n = "sq_count s" and ?fail = "\<lambda>k x. (Inl (StoreError.Migration (mg_version m) x), s\<lparr>sq_count := sq_count s + k\<rparr>)"
  have run: "apply_migration dv m s =
     (case dv_fault dv ?n of Some x \<Rightarrow> ?fail 1 x | None \<Rightarrow>
      case dv_fault dv (?n + 1) of Some x \<Rightarrow> ?fail 2 (mg_description m @ '': '' @ x) | None \<Rightarrow>
      case dv_fault dv (?n + 2) of Some x \<Rightarrow> ?fail 3 x | None \<Rightarrow>
      case dv_fault dv (?n + 3) of Some x \<Rightarrow> ?fail 4 x | None \<Rightarrow>
        (Inr (), s\<lparr>sq_count := sq_count s + 4, sq_db := \<lparr>db_version = mg_version m, db_tables = t\<rparr>\<rparr>))"
    unfolding apply_migration_def Let_def pragma_def bind_engine_call
    using sql by (simp add: engine_call_def numeral_eq_Suc split: option.split)
  have fault: "dv_fault dv (?n + k) = Some e \<Longrightarrow> faulty_from dv ?n" for k e
    by (auto simp: faulty_from_def intro!: exI [of _ "?n + k"])
  consider (a) x where "dv_fault dv ?n = Some x" | (b) x where "dv_fault dv ?n = None" "dv_fault dv (?n + 1) = Some x"
    | (c) x where "dv_fault dv ?n = None" "dv_fault dv (?n + 1) = None" "dv_fault dv (?n + 2) = Some x"
    | (d) x where "dv_fault dv ?n = None" "dv_fault dv (?n + 1) = None" "dv_fault dv (?n + 2) = None" "dv_fault dv (?n + 3) = Some x"
    | (e) "dv_fault dv ?n = None" "dv_fault dv (?n + 1) = None" "dv_fault dv (?n + 2) = None" "dv_fault dv (?n + 3) = None"
    by blast
  then show ?thesis
  proof cases
    case a
    show ?thesis by (rule that(1) [of _ 1]) (use run a fault [of 0] in simp_all)
  next
    case b
    show ?thesis by (rule that(1) [of _ 2]) (use run b fault [of 1] in simp_all)
  next
    case c
    show ?thesis by (rule that(1) [of _ 3]) (use run c fault [of 2] in simp_all)
  next
    case d
    show ?thesis by (rule that(1) [of _ 4]) (use run d fault [of 3] in simp_all)
  next
    case e
    show ?thesis by (rule that(2)) (use run e in simp)
  qed
qed

lemma upgraded_simps [simp]:
  "schema_ok (upgraded db)"
  "upgraded \<lparr>db_version = 1, db_tables = Some empty_tables\<rparr> = upgraded \<lparr>db_version = 0, db_tables = None\<rparr>"
  "schema_ok \<lparr>db_version = 1, db_tables = Some empty_tables\<rparr>"
  by (auto simp: schema_ok_def upgraded_def empty_tables_def split: option.split)

lemma upgraded_twice [simp]: "upgraded (upgraded db) = upgraded db"
  by (auto simp: upgraded_def split: option.split)

text \<open>The second migration on a database at version one.\<close>

lemma second_migration:
  assumes db: "db_version (sq_db s) = 1" "db_tables (sq_db s) = Some t" "\<not> tb_windowed t"
    and m: "m = \<lparr>mg_version = 2, mg_description = d, mg_sql = window_script\<rparr>"
  obtains e k where "apply_migration dv m s = (Inl e, s\<lparr>sq_count := sq_count s + k\<rparr>)" "faulty_from dv (sq_count s)"
  | "apply_migration dv m s = (Inr (), s\<lparr>sq_count := sq_count s + 4, sq_db := upgraded (sq_db s)\<rparr>)"
proof -
  have "mg_sql m (db_tables (sq_db s)) = Inr (Some (t\<lparr>tb_windowed := True, tb_synapses := map no_failures (tb_synapses t)\<rparr>))"
    using db m by (simp add: window_script_def)
  from apply_migration_cases [OF this, of dv] that show ?thesis using db m by (auto simp: upgraded_def)
qed

lemma run_migrations_cases:
  assumes ok: "schema_ok (sq_db s)"
  shows "\<exists>r s' k. run_migrations dv (db_version (sq_db s)) MIGRATIONS s = (r, s') \<and>
    s' = s\<lparr>sq_db := sq_db s', sq_count := sq_count s + k\<rparr> \<and> schema_ok (sq_db s') \<and> upgraded (sq_db s') = upgraded (sq_db s) \<and>
    (r = Inr () \<longrightarrow> sq_db s' = upgraded (sq_db s)) \<and> (r \<noteq> Inr () \<longrightarrow> faulty_from dv (sq_count s))"
  (is "\<exists>r s' k. ?good r s' k")
proof -
  let ?m1 = "MIGRATIONS ! 0" and ?m2 = "MIGRATIONS ! 1"
  have second: "\<exists>r s' k. op_bind (apply_migration dv ?m2) (\<lambda>_. op_ret ()) u = (r, s') \<and> s' = u\<lparr>sq_db := sq_db s', sq_count := sq_count u + k\<rparr> \<and>
      schema_ok (sq_db s') \<and> upgraded (sq_db s') = upgraded (sq_db u) \<and>
      (r = Inr () \<longrightarrow> sq_db s' = upgraded (sq_db u)) \<and> (r \<noteq> Inr () \<longrightarrow> faulty_from dv (sq_count u))"
    if db: "db_version (sq_db u) = 1" "db_tables (sq_db u) = Some t" "\<not> tb_windowed t" for u t
  proof (rule second_migration [OF db, of ?m2 "mg_description ?m2" dv])
    show "?m2 = \<lparr>mg_version = 2, mg_description = mg_description ?m2, mg_sql = window_script\<rparr>" by (simp add: MIGRATIONS_def)
  next
    fix e k assume "apply_migration dv ?m2 u = (Inl e, u\<lparr>sq_count := sq_count u + k\<rparr>)" "faulty_from dv (sq_count u)"
    then show ?thesis using db
      by (intro exI [of _ "Inl e"] exI [of _ "u\<lparr>sq_count := sq_count u + k\<rparr>"] exI [of _ k]) (simp add: op_bind_def schema_ok_def)
  next
    assume "apply_migration dv ?m2 u = (Inr (), u\<lparr>sq_count := sq_count u + 4, sq_db := upgraded (sq_db u)\<rparr>)"
    then show ?thesis
      by (intro exI [of _ "Inr ()"] exI [of _ "u\<lparr>sq_count := sq_count u + 4, sq_db := upgraded (sq_db u)\<rparr>"] exI [of _ 4]) (simp add: op_bind_def)
  qed
  consider (fresh) "db_version (sq_db s) = 0" "db_tables (sq_db s) = None"
    | (old) t where "db_version (sq_db s) = 1" "db_tables (sq_db s) = Some t" "\<not> tb_windowed t"
    | (current) t where "db_version (sq_db s) = 2" "db_tables (sq_db s) = Some t" "tb_windowed t"
    using ok by (auto simp: schema_ok_def)
  then show ?thesis
  proof cases
    case fresh
    have sql: "mg_sql ?m1 (db_tables (sq_db s)) = Inr (Some empty_tables)"
      using fresh by (simp add: MIGRATIONS_def create_script_def)
    have run: "run_migrations dv (db_version (sq_db s)) MIGRATIONS = op_bind (apply_migration dv ?m1) (\<lambda>_. op_bind (apply_migration dv ?m2) (\<lambda>_. op_ret ()))"
      using fresh by (simp add: MIGRATIONS_def)
    show ?thesis
    proof (rule apply_migration_cases [OF sql, of dv])
      fix e k assume "apply_migration dv ?m1 s = (Inl e, s\<lparr>sq_count := sq_count s + k\<rparr>)" "faulty_from dv (sq_count s)"
      then have "?good (Inl e) (s\<lparr>sq_count := sq_count s + k\<rparr>) k" using ok by (simp add: run op_bind_def)
      then show ?thesis by blast
    next
      let ?u = "s\<lparr>sq_count := sq_count s + 4, sq_db := \<lparr>db_version = mg_version ?m1, db_tables = Some empty_tables\<rparr>\<rparr>"
      assume first: "apply_migration dv ?m1 s = (Inr (), ?u)"
      have one: "sq_db ?u = \<lparr>db_version = 1, db_tables = Some empty_tables\<rparr>" by (simp add: MIGRATIONS_def)
      have same: "upgraded (sq_db ?u) = upgraded (sq_db s)" using fresh unfolding one by (simp add: upgraded_def empty_tables_def)
      obtain r s' k where s': "op_bind (apply_migration dv ?m2) (\<lambda>_. op_ret ()) ?u = (r, s')" "s' = ?u\<lparr>sq_db := sq_db s', sq_count := sq_count ?u + k\<rparr>"
        "schema_ok (sq_db s')" "upgraded (sq_db s') = upgraded (sq_db ?u)" "r = Inr () \<longrightarrow> sq_db s' = upgraded (sq_db ?u)"
        "r \<noteq> Inr () \<longrightarrow> faulty_from dv (sq_count ?u)"
        using second [of ?u empty_tables] unfolding one by (auto simp: empty_tables_def)
      have "faulty_from dv (sq_count ?u) \<longrightarrow> faulty_from dv (sq_count s)" using faulty_from_mono [of dv "sq_count ?u" "sq_count s"] by simp
      moreover have "s' = s\<lparr>sq_db := sq_db s', sq_count := sq_count s + (4 + k)\<rparr>" using s'(2) by (simp add: add.assoc)
      ultimately have "?good r s' (4 + k)" using s' same first by (simp add: run op_bind_def)
      then show ?thesis by blast
    qed
  next
    case old
    have "run_migrations dv (db_version (sq_db s)) MIGRATIONS = op_bind (apply_migration dv ?m2) (\<lambda>_. op_ret ())"
      using old by (simp add: MIGRATIONS_def word_le_nat_alt)
    then show ?thesis using second [OF old] by simp
  next
    case current
    then have "?good (Inr ()) s 0" using ok by (simp add: MIGRATIONS_def upgraded_def)
    then show ?thesis by blast
  qed
qed

text \<open>
  C15: Migrating is atomic and can be resumed. Whatever call the engine fails, and however
  far the migration got, the database is left at one of the schemas the program knows with
  every row still there, so that a later run that meets no failure completes the upgrade;
  and when the call reports success, the database is the upgraded one.
\<close>

theorem migration_resumes:
  assumes ok: "schema_ok (sq_db s)" and live: "\<not> sq_poisoned s"
  shows "\<exists>r s' k. sq_migrate dv s = (r, s') \<and> s' = s\<lparr>sq_db := sq_db s', sq_count := sq_count s + k\<rparr> \<and>
    schema_ok (sq_db s') \<and> upgraded (sq_db s') = upgraded (sq_db s) \<and>
    (r = Inr () \<longrightarrow> sq_db s' = upgraded (sq_db s)) \<and> (r \<noteq> Inr () \<longrightarrow> (\<exists>k \<ge> sq_count s. dv_fault dv k \<noteq> None))"
  (is "\<exists>r s' k. ?good r s' k")
proof -
  let ?mg = "StoreError.Migration 0"
  show ?thesis
  proof (rule user_version_cases [of dv ?mg s])
    fix e assume v: "user_version dv ?mg s = (Inl e, s\<lparr>sq_count := sq_count s + 1\<rparr>)"
      "dv_fault dv (sq_count s) \<noteq> None \<or> sint (db_version (sq_db s)) < 0"
    then have "dv_fault dv (sq_count s) \<noteq> None" using ok by (auto simp: schema_ok_def)
    then have "?good (Inl e) (s\<lparr>sq_count := sq_count s + 1\<rparr>) 1"
      using v(1) live ok by (auto simp: sq_migrate_def with_conn_def op_bind_def)
    then show ?thesis by blast
  next
    assume v: "user_version dv ?mg s = (Inr (db_version (sq_db s)), s\<lparr>sq_count := sq_count s + 1\<rparr>)"
    let ?s1 = "s\<lparr>sq_count := sq_count s + 1\<rparr>"
    obtain r s' k where run: "run_migrations dv (db_version (sq_db s)) MIGRATIONS ?s1 = (r, s')"
      "s' = ?s1\<lparr>sq_db := sq_db s', sq_count := sq_count ?s1 + k\<rparr>" "schema_ok (sq_db s')" "upgraded (sq_db s') = upgraded (sq_db s)"
      "r = Inr () \<longrightarrow> sq_db s' = upgraded (sq_db s)" "r \<noteq> Inr () \<longrightarrow> faulty_from dv (sq_count ?s1)"
      using run_migrations_cases [of ?s1 dv] ok by auto
    have "faulty_from dv (sq_count ?s1) \<longrightarrow> (\<exists>k \<ge> sq_count s. dv_fault dv k \<noteq> None)"
      using faulty_from_mono [of dv "sq_count ?s1" "sq_count s"] by (auto simp: faulty_from_def)
    moreover have "\<not> CURRENT_VERSION < db_version (sq_db s)" using ok by (auto simp: schema_ok_def CURRENT_VERSION_def)
    ultimately have "?good r s' (1 + k)"
      using v run live by (auto simp: sq_migrate_def with_conn_def op_bind_def)
    then show ?thesis by blast
  qed
qed

text \<open>A concrete driver: an engine that stores doubles as they are, and a codec that counts in unary.\<close>

definition counted :: "string \<Rightarrow> string" where
  "counted s = replicate (length s) CHR ''1'' @ CHR ''0'' # s"

definition split_counted :: "string \<Rightarrow> string \<times> string" where
  "split_counted r = (let n = length (takeWhile (\<lambda>c. c = CHR ''1'') r); rest = drop (n + 1) r in (take n rest, drop n rest))"

fun uncounted :: "nat \<Rightarrow> string \<Rightarrow> string list" where
  "uncounted 0 r = []"
| "uncounted (Suc n) r = (let (s, rest) = split_counted r in s # uncounted n rest)"

definition list_text :: "string list \<Rightarrow> string" where
  "list_text ss = replicate (length ss) CHR ''1'' @ CHR ''0'' # concat (map counted ss)"

definition text_list :: "string \<Rightarrow> string list" where
  "text_list r = (let n = length (takeWhile (\<lambda>c. c = CHR ''1'') r) in uncounted n (drop (n + 1) r))"

lemma split_counted [simp]: "split_counted (counted s @ rest) = (s, rest)"
proof -
  have "takeWhile (\<lambda>c. c = CHR ''1'') (replicate n CHR ''1'' @ CHR ''0'' # xs) = replicate n CHR ''1''" for n xs
    by (induction n) auto
  then show ?thesis by (simp add: split_counted_def counted_def Let_def)
qed

lemma text_list [simp]: "text_list (list_text ss) = ss"
proof -
  have t: "takeWhile (\<lambda>c. c = CHR ''1'') (replicate n CHR ''1'' @ CHR ''0'' # xs) = replicate n CHR ''1''" for n xs
    by (induction n) auto
  have "uncounted (length ss) (concat (map counted ss)) = ss" by (induction ss) auto
  then show ?thesis by (simp add: text_list_def list_text_def t Let_def)
qed

definition sample_driver :: "(nat \<Rightarrow> string option) \<Rightarrow> ulid_api \<Rightarrow> sqlite_driver" where
  "sample_driver fault ul = \<lparr>dv_fault = fault, dv_real = (\<lambda>x. if fl_is_nan x then None else Some x),
     dv_sum = foldl (fl_add b64) (Fin 0), dv_scan = (\<lambda>n rows. rows), dv_ulid = ul,
     dv_map_to_json = (\<lambda>m. Inr (list_text (concat (map (\<lambda>(k, v). [k, replicate (unat v) CHR ''1'']) m)))),
     dv_map_from_json = (\<lambda>s. Inr (map (\<lambda>i. (text_list s ! (2 * i), of_nat (length (text_list s ! (2 * i + 1))))) [0..<length (text_list s) div 2])),
     dv_list_to_json = (\<lambda>ss. Inr (list_text ss)), dv_list_from_json = (\<lambda>s. Inr (text_list s))\<rparr>"

text \<open>Sixteen bytes, most significant first.\<close>

definition plain_ulid :: ulid_api where
  "plain_ulid = \<lparr>ulid_from_parts = (\<lambda>ms bits. push_bit 80 (ucast ms) OR take_bit 80 bits),
     ulid_timestamp_ms = (\<lambda>i. ucast (drop_bit 80 i)),
     ulid_to_bytes = (\<lambda>i. map (\<lambda>k. of_nat (unat i div 256 ^ k)) (rev [0..<16])),
     ulid_from_bytes = (\<lambda>bs. foldl (\<lambda>acc b. 256 * acc + ucast b) 0 bs),
     ulid_from_string = (\<lambda>t. Some (of_nat (length t))), ulid_to_text = (\<lambda>i. replicate (unat i) CHR ''1'')\<rparr>"

definition fresh_sqlite :: SqliteStore where
  "fresh_sqlite = store_on (sqlite_config_at ''node.db'') False
     (\<lparr>db_version = 0, db_tables = None\<rparr>, \<lparr>cn_wal = False, cn_synchronous = ''FULL'', cn_foreign_keys = False, cn_busy_timeout_ms = 5000\<rparr>)"

lemma migration_resumes_witness:
  "let dv = sample_driver (\<lambda>n. if n = 5 then Some ''disk I/O error'' else None) plain_ulid;
       (r, s) = sq_migrate dv fresh_sqlite; (r', s') = sq_migrate dv s
   in r \<noteq> Inr () \<and> schema_ok (sq_db s) \<and> r' = Inr () \<and> sq_db s' = upgraded (sq_db fresh_sqlite)"
proof -
  let ?dv = "sample_driver (\<lambda>n. if n = 5 then Some ''disk I/O error'' else None) plain_ulid"
  have fresh: "schema_ok (sq_db fresh_sqlite)" "\<not> sq_poisoned fresh_sqlite"
    by (simp_all add: fresh_sqlite_def store_on_def schema_ok_def)
  obtain r s k where s: "sq_migrate ?dv fresh_sqlite = (r, s)" "s = fresh_sqlite\<lparr>sq_db := sq_db s, sq_count := sq_count fresh_sqlite + k\<rparr>"
    "schema_ok (sq_db s)" "upgraded (sq_db s) = upgraded (sq_db fresh_sqlite)"
    using migration_resumes [OF fresh, of ?dv] by blast
  have first: "fst (sq_migrate ?dv fresh_sqlite) \<noteq> Inr () \<and> sq_count (snd (sq_migrate ?dv fresh_sqlite)) = 6"
    by (simp add: sq_migrate_def with_conn_def fresh_sqlite_def store_on_def user_version_def engine_call_def op_bind_def
        sample_driver_def MIGRATIONS_def CURRENT_VERSION_def apply_migration_def pragma_def Let_def create_script_def)
  have live: "\<not> sq_poisoned s" using s(2) fresh(2) by (metis SqliteStore.select_convs(5) SqliteStore.surjective SqliteStore.update_convs)
  obtain r' s' where s': "sq_migrate ?dv s = (r', s')" "upgraded (sq_db s') = upgraded (sq_db s)"
    "r' = Inr () \<longrightarrow> sq_db s' = upgraded (sq_db s)" "r' \<noteq> Inr () \<longrightarrow> (\<exists>k \<ge> sq_count s. dv_fault ?dv k \<noteq> None)"
    using migration_resumes [OF s(3) live, of ?dv] by blast
  have "r' = Inr ()" using s'(4) first s(1) by (auto simp: sample_driver_def split: if_splits)
  then show ?thesis using s s' first by simp
qed

text \<open>A database of a newer build is refused as it is, and migrating an upgraded one changes nothing.\<close>

lemma newer_database_refused:
  assumes "CURRENT_VERSION < db_version (sq_db s)"
  shows "fst (sq_migrate dv s) \<noteq> Inr () \<and> sq_db (snd (sq_migrate dv s)) = sq_db s"
  using assms
  by (cases "sq_poisoned s"; cases rule: user_version_cases [of dv "StoreError.Migration 0" s])
    (auto simp: sq_migrate_def with_conn_def op_bind_def)

end
