(* ===== verification/Store_Calls.thy ===== *)
theory Store_Calls
  imports Memory_Store
begin

text \<open>
  The storage interface seen from its callers: one value per call, the answers as one type,
  runs of calls, and when one backend stands in for another: a relation between their
  states that every call of a class keeps, with the same answer on both sides.
\<close>

section \<open>Calls\<close>

datatype StoreCall =
    Migrate | Flush
  | PutSynapse SynapseRecord | GetSynapse SynapseId | SynapseForPeer NodeId | ListSynapses SynapseFilter
  | DeleteSynapse SynapseId
  | PutPeer PeerRecord | GetPeer NodeId | ListPeers "string option" nat | CountPeers PeerSource
  | CheckSeen SignalId u64 u64 | HasSeen SignalId u64 | PurgeExpired u64
  | SaveActivation ActivationSnapshot | LoadActivation
  | AppendDecision JournalEntry | ResolveDecision JournalId Outcome u64 | PendingFor SignalId NodeId
  | ExpiredDecisions u64 nat | RecentDecisions "SignalType option" nat | TrimJournal u64
  | RecordInfluence NodeId flt u64 u64 | InfluenceSince NodeId u64 | PurgeInfluence u64
  | PutMeta string "u8 list" | GetMeta string
  | HistoryEnabled | PutHistory SignalId "u8 list" u64 | GetHistory SignalId

datatype StoreAnswer =
    Done | OneSynapse "SynapseRecord option" | Synapses "SynapseRecord list"
  | OnePeer "PeerRecord option" | Peers "PeerRecord list" | Count u64 | Flag bool
  | OneSnapshot "ActivationSnapshot option" | Issued JournalId | OneEntry "JournalEntry option"
  | Entries "JournalEntry list" | Amount flt | Blob "u8 list option"

definition answer :: "('a \<Rightarrow> StoreAnswer) \<Rightarrow> ('m, 'a) sop \<Rightarrow> ('m, StoreAnswer) sop" where
  "answer c f m = (let (r, m') = f m in (map_sum id c r, m'))"

fun perform :: "'m store_api \<Rightarrow> StoreCall \<Rightarrow> ('m, StoreAnswer) sop" where
  "perform api Migrate = answer (\<lambda>_. Done) (st_migrate api)"
| "perform api Flush = answer (\<lambda>_. Done) (st_flush api)"
| "perform api (PutSynapse r) = answer (\<lambda>_. Done) (st_put_synapse api r)"
| "perform api (GetSynapse i) = answer OneSynapse (st_get_synapse api i)"
| "perform api (SynapseForPeer p) = answer OneSynapse (st_synapse_for_peer api p)"
| "perform api (ListSynapses f) = answer Synapses (st_list_synapses api f)"
| "perform api (DeleteSynapse i) = answer (\<lambda>_. Done) (st_delete_synapse api i)"
| "perform api (PutPeer p) = answer (\<lambda>_. Done) (st_put_peer api p)"
| "perform api (GetPeer i) = answer OnePeer (st_get_peer api i)"
| "perform api (ListPeers region n) = answer Peers (st_list_peers api region n)"
| "perform api (CountPeers src) = answer Count (st_count_peers api src)"
| "perform api (CheckSeen i now ttl) = answer Flag (st_check_and_set_seen api i now ttl)"
| "perform api (HasSeen i now) = answer Flag (st_has_seen api i now)"
| "perform api (PurgeExpired now) = answer Count (st_purge_expired_seen api now)"
| "perform api (SaveActivation sn) = answer (\<lambda>_. Done) (st_save_activation api sn)"
| "perform api LoadActivation = answer OneSnapshot (st_load_activation api)"
| "perform api (AppendDecision e) = answer Issued (st_append_decision api e)"
| "perform api (ResolveDecision i out now) = answer OneEntry (st_resolve_decision api i out now)"
| "perform api (PendingFor sg p) = answer OneEntry (st_pending_decision_for api sg p)"
| "perform api (ExpiredDecisions d n) = answer Entries (st_expired_decisions api d n)"
| "perform api (RecentDecisions ty n) = answer Entries (st_recent_decisions api ty n)"
| "perform api (TrimJournal older) = answer Count (st_trim_journal api older)"
| "perform api (RecordInfluence p x now start) = answer Amount (st_record_influence api p x now start)"
| "perform api (InfluenceSince p start) = answer Amount (st_influence_since api p start)"
| "perform api (PurgeInfluence older) = answer Count (st_purge_influence api older)"
| "perform api (PutMeta k v) = answer (\<lambda>_. Done) (st_put_meta api k v)"
| "perform api (GetMeta k) = answer Blob (st_get_meta api k)"
| "perform api HistoryEnabled = answer Flag (\<lambda>m. (Inr (st_signal_history_enabled api m), m))"
| "perform api (PutHistory i body now) = answer (\<lambda>_. Done) (st_put_signal_history api i body now)"
| "perform api (GetHistory i) = answer Blob (st_get_signal_history api i)"

fun answers :: "'m store_api \<Rightarrow> StoreCall list \<Rightarrow> 'm \<Rightarrow> (StoreError + StoreAnswer) list" where
  "answers api [] m = []"
| "answers api (c # cs) m = (let (r, m') = perform api c m in r # answers api cs m')"

text \<open>Every call of a run is of the class \<open>fits\<close>, judged in the state it is made in.\<close>

fun all_fit :: "('m \<Rightarrow> StoreCall \<Rightarrow> bool) \<Rightarrow> 'm store_api \<Rightarrow> StoreCall list \<Rightarrow> 'm \<Rightarrow> bool" where
  "all_fit fits api [] m \<longleftrightarrow> True"
| "all_fit fits api (c # cs) m \<longleftrightarrow> fits m c \<and> all_fit fits api cs (snd (perform api c m))"

section \<open>Standing in for another backend\<close>

definition matched :: "('m, 'a) sop \<Rightarrow> ('n, 'a) sop \<Rightarrow> ('m \<Rightarrow> 'n \<Rightarrow> bool) \<Rightarrow> 'm \<Rightarrow> 'n \<Rightarrow> bool" where
  "matched f g R m n \<longleftrightarrow> (\<exists>x m' n'. f m = (x, m') \<and> g n = (x, n') \<and> R m' n')"

lemma matched_answer: "matched f g R m n \<Longrightarrow> matched (answer c f) (answer c g) R m n"
  by (auto simp: matched_def answer_def)

locale backend_simulation =
  fixes api1 :: "'m store_api" and api2 :: "'n store_api" and R :: "'m \<Rightarrow> 'n \<Rightarrow> bool" and fits :: "'n \<Rightarrow> StoreCall \<Rightarrow> bool"
  assumes step: "R m n \<Longrightarrow> fits n c \<Longrightarrow> matched (perform api1 c) (perform api2 c) R m n"
begin

lemma answers_agree: "R m n \<Longrightarrow> all_fit fits api2 cs n \<Longrightarrow> answers api1 cs m = answers api2 cs n"
proof (induction cs arbitrary: m n)
  case (Cons c cs)
  obtain x m' n' where "perform api1 c m = (x, m')" "perform api2 c n = (x, n')" "R m' n'"
    using step [of m n c] Cons.prems by (auto simp: matched_def)
  then show ?case using Cons by simp
qed simp

end

text \<open>What relates a table's rows to records, and the list functions that respect it.\<close>

lemma find_related:
  "list_all2 Q rows xs \<Longrightarrow> (\<And>r x. Q r x \<Longrightarrow> P r = P' x) \<Longrightarrow> rel_option Q (find P rows) (find P' xs)"
  by (induction rule: list_all2_induct) auto

lemma filter_related:
  "list_all2 Q rows xs \<Longrightarrow> (\<And>r x. Q r x \<Longrightarrow> P r = P' x) \<Longrightarrow> list_all2 Q (filter P rows) (filter P' xs)"
  by (induction rule: list_all2_induct) auto

lemma insort_related:
  "list_all2 Q rows xs \<Longrightarrow> Q r x \<Longrightarrow> (\<And>r r' x x'. Q r x \<Longrightarrow> Q r' x' \<Longrightarrow> cmp r r' = cmp' x x') \<Longrightarrow>
   list_all2 Q (insort_by cmp r rows) (insort_by cmp' x xs)"
  by (induction rule: list_all2_induct) auto

lemma sort_related:
  "list_all2 Q rows xs \<Longrightarrow> (\<And>r r' x x'. Q r x \<Longrightarrow> Q r' x' \<Longrightarrow> cmp r r' = cmp' x x') \<Longrightarrow>
   list_all2 Q (sort_by cmp rows) (sort_by cmp' xs)"
  by (induction rule: list_all2_induct) (auto intro: insort_related)

lemma take_related: "list_all2 Q rows xs \<Longrightarrow> list_all2 Q (take n rows) (take n xs)"
  by (rule list_all2_takeI)

end
