(* ===== verification/Sqlite_Agrees.thy ===== *)
theory Sqlite_Agrees
  imports Sqlite_Schema Store_Calls
begin

text \<open>
  The \<open>SQLite\<close> backend stands in for the in-memory reference backend: as long as the engine
  fails nothing and the values fit its columns, every call gives the same answer. The
  relation between the two states pairs the rows of each table with the records they encode.
\<close>

section \<open>Rows and the records they encode\<close>

text \<open>The numbers a \<open>REAL\<close> column gives back: values of \<open>f32\<close> other than NaN and minus zero.\<close>

definition plain_real :: "flt \<Rightarrow> bool" where
  "plain_real x \<longleftrightarrow> fl_wf b32 x \<and> \<not> fl_is_nan x \<and> x \<noteq> FNegZero"

text \<open>
  What is documented of the driver: a double other than NaN and minus zero is stored exactly
  and a NaN is \<open>NULL\<close>; a scan yields the rows of the table in some order; identifiers have
  sixteen bytes and are read back; JSON text decodes to the value it was made from.
\<close>

definition driver_sound :: "sqlite_driver \<Rightarrow> bool" where
  "driver_sound dv \<longleftrightarrow> dv_real dv FNaN = None \<and> (\<forall>x. \<not> fl_is_nan x \<longrightarrow> x \<noteq> FNegZero \<longrightarrow> dv_real dv x = Some x) \<and>
     (\<forall>n rows. mset (dv_scan dv n rows) = mset rows) \<and>
     (\<forall>i. length (ulid_to_bytes (dv_ulid dv) i) = 16 \<and> ulid_from_bytes (dv_ulid dv) (ulid_to_bytes (dv_ulid dv) i) = i) \<and>
     (\<forall>m. \<exists>s. dv_map_to_json dv m = Inr s \<and> dv_map_from_json dv s = Inr m) \<and>
     (\<forall>ss. \<exists>s. dv_list_to_json dv ss = Inr s \<and> dv_list_from_json dv s = Inr ss)"

definition reliable :: "sqlite_driver \<Rightarrow> bool" where
  "reliable dv \<longleftrightarrow> driver_sound dv \<and> (\<forall>n. dv_fault dv n = None)"

lemma plain_real_kept:
  assumes "driver_sound dv" "plain_real x"
  shows "dv_real dv x = Some x" "fl_cast b32 x = x"
proof -
  show "dv_real dv x = Some x" using assms by (simp add: driver_sound_def plain_real_def)
  have "fl_pack b32 (r < 0) r = Fin r" if "rnd b32 r = r" "\<bar>r\<bar> < pow2 (f_emax b32)" for r
    using that by (auto simp: fl_pack_def Let_def)
  then show "fl_cast b32 x = x" using assms(2) by (cases x) (auto simp: plain_real_def fl_wf_def)
qed

definition storable_synapse :: "SynapseRecord \<Rightarrow> bool" where
  "storable_synapse r \<longleftrightarrow> plain_real (sr_weight r) \<and> plain_real (sr_attenuation_factor r) \<and> plain_real (sr_error_rate r) \<and>
     in_i64 (sr_established_at_ns r) \<and> in_i64 (sr_last_active_ns r) \<and> in_i64 (sr_signals_transmitted r) \<and>
     in_i64 (sr_signals_received r) \<and> in_i64 (sr_avg_latency_ns r) \<and> in_i64 (sr_failure_window_start_ns r)"

definition storable_entry :: "JournalEntry \<Rightarrow> bool" where
  "storable_entry e \<longleftrightarrow> plain_real (je_score e) \<and> plain_real (je_signal_weight e) \<and> in_i64 (je_decided_at_ns e) \<and>
     (\<forall>t. je_resolved_at_ns e = Some t \<longrightarrow> in_i64 t)"

definition storable_snapshot :: "ActivationSnapshot \<Rightarrow> bool" where
  "storable_snapshot sn \<longleftrightarrow> plain_real (sn_potential sn) \<and> plain_real (sn_threshold sn) \<and> in_i64 (sn_refractory_until_ns sn) \<and>
     in_i64 (sn_signals_fired sn) \<and> in_i64 (sn_taken_at_ns sn)"

lemma ucast_u32_i64: "from_i64 (ucast x) = ucast x" "ucast (ucast x :: i64) = x" for x :: u32
proof -
  have "unat (ucast x :: u64) \<le> 2 ^ 32 - 1" using unat_bound [of x] by (simp add: unsigned_ucast_eq take_bit_eq_mod)
  then have "(ucast x :: u64) \<le> i64_max" by (simp add: word_le_nat_alt i64_max_bounds)
  then show "from_i64 (ucast x) = ucast x" by (simp add: from_i64_def sint_small)
  show "ucast (ucast x :: i64) = x" by (rule bit_word_eqI) (auto simp: bit_simps dest: bit_imp_le_length)
qed

text \<open>
  Storing a synapse record whose numbers fit and reading the row back gives the same
  record; so it is for journal entries, snapshots and peers.
\<close>

lemma synapse_row_roundtrip:
  assumes dv: "driver_sound dv" and r: "storable_synapse r"
  obtains a row where "dv_map_to_json dv (sr_type_affinity r) = Inr a" "synapse_to_row dv r a = Inr row" "row_to_synapse dv row = Inr r"
    "yr_id row = sr_id r" "yr_peer row = sr_peer r" "yr_weight row = sr_weight r" "yr_state row = state_to_str (sr_state r)"
    "yr_last_active_ns row = to_i64 (sr_last_active_ns r)"
proof -
  obtain a where a: "dv_map_to_json dv (sr_type_affinity r) = Inr a" "dv_map_from_json dv a = Inr (sr_type_affinity r)"
    using dv unfolding driver_sound_def by blast
  note kept = plain_real_kept [OF dv]
  show ?thesis
    by (rule that [OF a(1)])
      (use r a(2) in \<open>auto simp: synapse_to_row_def row_to_synapse_def real_column_def json_map_def storable_synapse_def
        kept ucast_u32_i64\<close>)
qed

lemma journal_row_roundtrip:
  assumes dv: "driver_sound dv" and e: "storable_entry e" and i: "in_i64 i"
  obtains row where "journal_to_row dv i e = Inr row" "row_to_journal dv row = Inr (e\<lparr>je_id := Some i\<rparr>)" "jr_id row = i"
    "jr_signal row = ulid_to_bytes (dv_ulid dv) (je_signal e)" "jr_signal_type row = signal_type_to_str (je_signal_type e)"
    "jr_peer row = je_peer e" "jr_decided_at_ns row = to_i64 (je_decided_at_ns e)" "jr_outcome row = outcome_to_str (je_outcome e)"
proof -
  have "map_option (from_i64 \<circ> to_i64) (je_resolved_at_ns e) = je_resolved_at_ns e"
    using e by (cases "je_resolved_at_ns e") (auto simp: storable_entry_def)
  moreover have "from_i64 i = i" using i by (simp add: from_i64_def sint_small)
  moreover have "\<forall>j. length (ulid_to_bytes (dv_ulid dv) j) = 16 \<and> ulid_from_bytes (dv_ulid dv) (ulid_to_bytes (dv_ulid dv) j) = j"
    using dv unfolding driver_sound_def by blast
  ultimately show ?thesis using that e plain_real_kept [OF dv]
    by (auto simp: journal_to_row_def row_to_journal_def real_column_def signal_id_from_blob_def storable_entry_def option.map_comp)
qed

lemma peer_row_roundtrip:
  assumes dv: "driver_sound dv" and p: "in_i64 (pr_last_seen_ns p)"
  obtains a b where "dv_list_to_json dv (pr_addresses p) = Inr a" "dv_list_to_json dv (pr_advertised_types p) = Inr b"
    "row_to_peer dv (peer_to_row p a b) = Inr p"
proof -
  have j: "\<forall>ss. \<exists>s. dv_list_to_json dv ss = Inr s \<and> dv_list_from_json dv s = Inr ss" using dv unfolding driver_sound_def by blast
  obtain a b where "dv_list_to_json dv (pr_addresses p) = Inr a" "dv_list_from_json dv a = Inr (pr_addresses p)"
    "dv_list_to_json dv (pr_advertised_types p) = Inr b" "dv_list_from_json dv b = Inr (pr_advertised_types p)"
    using j [rule_format, of "pr_addresses p"] j [rule_format, of "pr_advertised_types p"] by blast
  then show ?thesis using that p by (simp add: row_to_peer_def peer_to_row_def json_vec_def)
qed

lemma snapshot_row_roundtrip:
  assumes dv: "driver_sound dv" and sn: "storable_snapshot sn"
  obtains row where "activation_to_row dv sn = Inr row" "row_to_activation row = sn"
  using that sn plain_real_kept [OF dv]
  by (auto simp: activation_to_row_def row_to_activation_def real_column_def storable_snapshot_def)

section \<open>The two states\<close>

definition synapse_at :: "sqlite_driver \<Rightarrow> synapse_row \<Rightarrow> SynapseId \<times> SynapseRecord \<Rightarrow> bool" where
  "synapse_at dv row kr \<longleftrightarrow> (case kr of (k, r) \<Rightarrow> yr_id row = k \<and> sr_id r = k \<and> row_to_synapse dv row = Inr r \<and> yr_peer row = sr_peer r \<and>
     yr_weight row = sr_weight r \<and> yr_state row = state_to_str (sr_state r) \<and> yr_last_active_ns row = to_i64 (sr_last_active_ns r) \<and>
     in_i64 (sr_last_active_ns r))"

definition peer_at :: "sqlite_driver \<Rightarrow> peer_row \<Rightarrow> NodeId \<times> PeerRecord \<Rightarrow> bool" where
  "peer_at dv row kp \<longleftrightarrow> (case kp of (k, p) \<Rightarrow> er_id row = k \<and> pr_id p = k \<and> row_to_peer dv row = Inr p \<and> er_region row = pr_region p \<and>
     er_source row = source_to_str (pr_source p) \<and> er_last_seen_ns row = to_i64 (pr_last_seen_ns p) \<and> in_i64 (pr_last_seen_ns p))"

definition keyed_at :: "sqlite_driver \<Rightarrow> ('b \<Rightarrow> 'v \<Rightarrow> bool) \<Rightarrow> u8 list \<times> 'b \<Rightarrow> SignalId \<times> 'v \<Rightarrow> bool" where
  "keyed_at dv Q row kv \<longleftrightarrow> fst row = ulid_to_bytes (dv_ulid dv) (fst kv) \<and> Q (snd row) (snd kv)"

abbreviation time_at :: "i64 \<Rightarrow> u64 \<Rightarrow> bool" where
  "time_at b v \<equiv> b = to_i64 v \<and> in_i64 v"

definition entry_at :: "sqlite_driver \<Rightarrow> journal_row \<Rightarrow> JournalEntry \<Rightarrow> bool" where
  "entry_at dv row e \<longleftrightarrow> row_to_journal dv row = Inr e \<and> je_id e = Some (jr_id row) \<and> in_i64 (jr_id row) \<and>
     jr_signal row = ulid_to_bytes (dv_ulid dv) (je_signal e) \<and> jr_signal_type row = signal_type_to_str (je_signal_type e) \<and>
     jr_peer row = je_peer e \<and> jr_outcome row = outcome_to_str (je_outcome e) \<and> time_at (jr_decided_at_ns row) (je_decided_at_ns e)"

text \<open>Decisions are appended in time order, under identifiers of their own.\<close>

definition in_order :: "u64 \<Rightarrow> JournalEntry list \<Rightarrow> bool" where
  "in_order next es \<longleftrightarrow> sorted_wrt (\<lambda>a b. je_decided_at_ns a < je_decided_at_ns b) es \<and> distinct (map je_id es) \<and>
     (\<forall>e \<in> set es. \<exists>k \<le> next. je_id e = Some k)"

definition tables_mirror :: "sqlite_driver \<Rightarrow> Tables \<Rightarrow> MemoryStore \<Rightarrow> bool" where
  "tables_mirror dv t m \<longleftrightarrow> tb_windowed t \<and> list_all2 (synapse_at dv) (tb_synapses t) (ms_synapses m) \<and>
     list_all2 (peer_at dv) (tb_peers t) (ms_peers m) \<and> list_all2 (keyed_at dv time_at) (tb_seen t) (ms_seen m) \<and>
     rel_option (\<lambda>row sn. row_to_activation row = sn) (tb_activation t) (ms_activation m) \<and>
     list_all2 (entry_at dv) (tb_journal t) (ms_journal m) \<and> in_order (ms_next_journal_id m) (ms_journal m) \<and>
     tb_journal_seq t = ms_next_journal_id m \<and> in_i64 (ms_next_journal_id m) \<and> tb_meta t = ms_meta m \<and>
     list_all2 (keyed_at dv (\<lambda>b v. fst b = v)) (tb_history t) (ms_history m)"

definition mirrors :: "sqlite_driver \<Rightarrow> SqliteStore \<Rightarrow> MemoryStore \<Rightarrow> bool" where
  "mirrors dv s m \<longleftrightarrow> reliable dv \<and> \<not> sq_poisoned s \<and> ms_poisoned m = {} \<and> db_version (sq_db s) = CURRENT_VERSION \<and>
     qc_retain_signal_history (sq_config s) = ms_retain_history m \<and> (\<exists>t. db_tables (sq_db s) = Some t \<and> tables_mirror dv t m)"

text \<open>One statement on each side.\<close>

lemma match_execute:
  assumes rel: "mirrors dv s m"
    and q: "\<And>t. tables_mirror dv t m \<Longrightarrow> \<exists>x t' m'. q t = Inr (x, t') \<and> f m = (Inr x, m') \<and> tables_mirror dv t' m' \<and>
      ms_poisoned m' = {} \<and> ms_retain_history m' = ms_retain_history m"
  shows "matched (with_conn (execute dv q)) f (mirrors dv) s m"
proof -
  obtain t where t: "db_tables (sq_db s) = Some t" "tables_mirror dv t m" "\<not> sq_poisoned s" "dv_fault dv (sq_count s) = None"
    using rel by (auto simp: mirrors_def reliable_def)
  from q [OF t(2)] obtain x t' m' where "q t = Inr (x, t')" "f m = (Inr x, m')" "tables_mirror dv t' m'"
    "ms_poisoned m' = {}" "ms_retain_history m' = ms_retain_history m" by blast
  then show ?thesis using t rel
    by (auto simp: matched_def with_conn_def execute_def statement_def engine_call_def Let_def mirrors_def)
qed

lemma match_query:
  assumes rel: "mirrors dv s m"
    and q: "\<And>t n. tables_mirror dv t m \<Longrightarrow> \<exists>y x. q n t = Inr y \<and> (\<forall>s. dec y s = (x, s)) \<and> f m = (x, m)"
  shows "matched (with_conn (op_bind (query dv q) dec)) f (mirrors dv) s m"
proof -
  obtain t where t: "db_tables (sq_db s) = Some t" "tables_mirror dv t m" "\<not> sq_poisoned s" "dv_fault dv (sq_count s) = None"
    using rel by (auto simp: mirrors_def reliable_def)
  from q [OF t(2), of "sq_count s"] obtain y x where "q (sq_count s) t = Inr y" "\<forall>s. dec y s = (x, s)" "f m = (x, m)" by blast
  then show ?thesis using t rel
    by (auto simp: matched_def with_conn_def query_def statement_def engine_call_def Let_def mirrors_def op_bind_def)
qed

lemma match_read:
  assumes rel: "mirrors dv s m"
    and q: "\<And>t n. tables_mirror dv t m \<Longrightarrow> \<exists>x. q n t = Inr x \<and> f m = (Inr x, m)"
  shows "matched (with_conn (query dv q)) f (mirrors dv) s m"
proof -
  have "query dv q = op_bind (query dv q) op_ret" by (auto simp: fun_eq_iff op_bind_def op_ret_def split: prod.split sum.split)
  then show ?thesis using match_query [OF rel, of q op_ret f] q by (metis op_simps(3))
qed

section \<open>Call by call\<close>

lemma in_i64_of_nat: "k < 2 ^ 63 \<Longrightarrow> in_i64 (of_nat k)"
  by (simp add: word_le_nat_alt i64_max_bounds unsigned_of_nat take_bit_nat_eq_self)

lemma sql_limit_take: "k < 2 ^ 63 \<Longrightarrow> sql_limit (to_i64 (of_nat k)) xs = take k xs"
  by (auto simp: sql_limit_def) (simp add: to_i64_def in_i64_of_nat unsigned_of_nat take_bit_nat_eq_self)

lemma decode_rows_related: "list_all2 (\<lambda>row x. dec row = Inr x) rows xs \<Longrightarrow> decode_rows dec rows = Inr xs"
  by (induction rule: list_all2_induct) auto

lemma decode_row_related: "rel_option (\<lambda>row x. dec row = Inr x) row x \<Longrightarrow> decode_row dec row s = (Inr x, s)"
  by (cases row; cases x) (auto simp: decode_row_def op_of_def)

lemma upsert_related:
  assumes "list_all2 Q rows kvs" and key: "\<And>row k v. Q row (k, v) \<Longrightarrow> key row = k" and new: "Q row (key row, v)"
  shows "list_all2 Q (upsert key row rows) (AList.update (key row) v kvs)"
  using assms(1)
proof (induction rule: list_all2_induct)
  case (Cons r rows kv kvs)
  obtain k w where kv: "kv = (k, w)" by fastforce
  then have "key r = k" using Cons.hyps(1) key by blast
  then show ?case using Cons new kv by simp
qed (use new in simp)

lemma delete_related:
  assumes "list_all2 Q rows kvs" and key: "\<And>row k v. Q row (k, v) \<Longrightarrow> key row = k"
  shows "list_all2 Q (filter (\<lambda>r. key r \<noteq> i) rows) (AList.delete i kvs)"
  using assms(1)
proof (induction rule: list_all2_induct)
  case (Cons r rows kv kvs)
  obtain k w where kv: "kv = (k, w)" by fastforce
  then have "key r = k" using Cons.hyps(1) key by blast
  then show ?case using Cons kv by simp
qed simp

lemma keyed_inj: "driver_sound dv \<Longrightarrow> ulid_to_bytes (dv_ulid dv) i = ulid_to_bytes (dv_ulid dv) j \<longleftrightarrow> i = j"
  unfolding driver_sound_def by metis

lemma keyed_at_iff [simp]: "keyed_at dv Q (a, b) (i, v) \<longleftrightarrow> a = ulid_to_bytes (dv_ulid dv) i \<and> Q b v"
  by (simp add: keyed_at_def)

lemma related_member: "list_all2 Q rows xs \<Longrightarrow> r \<in> set rows \<Longrightarrow> \<exists>x \<in> set xs. Q r x"
  by (induction rule: list_all2_induct) auto

lemma keyed_lookup:
  assumes dv: "driver_sound dv" and rel: "list_all2 (keyed_at dv Q) rows kvs"
  shows "rel_option Q (map_of rows (ulid_to_bytes (dv_ulid dv) i)) (map_of kvs i)"
  using rel
proof (induction rule: list_all2_induct)
  case (Cons row rows kv kvs)
  then show ?case using keyed_inj [OF dv] by (cases row; cases kv) auto
qed simp

lemma keyed_at_update:
  assumes dv: "driver_sound dv" and rel: "list_all2 (keyed_at dv Q) rows kvs" and q: "Q b v"
  shows "list_all2 (keyed_at dv Q) (AList.update (ulid_to_bytes (dv_ulid dv) i) b rows) (AList.update i v kvs)"
  using rel
proof (induction rule: list_all2_induct)
  case (Cons row rows kv kvs)
  then show ?case using keyed_inj [OF dv] q by (cases row; cases kv) auto
qed (use q in simp)

lemma mirror_parts:
  assumes "tables_mirror dv t m"
  shows "tb_windowed t" "list_all2 (synapse_at dv) (tb_synapses t) (ms_synapses m)" "list_all2 (peer_at dv) (tb_peers t) (ms_peers m)"
    "list_all2 (keyed_at dv time_at) (tb_seen t) (ms_seen m)" "list_all2 (entry_at dv) (tb_journal t) (ms_journal m)"
    "in_order (ms_next_journal_id m) (ms_journal m)" "list_all2 (keyed_at dv (\<lambda>b v. fst b = v)) (tb_history t) (ms_history m)"
  using assms by (auto simp: tables_mirror_def)

lemma mirrors_parts: "mirrors dv s m \<Longrightarrow> driver_sound dv \<and> ms_poisoned m = {}"
  by (simp add: mirrors_def reliable_def)

lemma synapse_rows_mirror [simp]: "tables_mirror dv t m \<Longrightarrow> synapse_rows t = Inr (tb_synapses t)"
  by (simp add: synapse_rows_def tables_mirror_def)

text \<open>The rows of a table as the list of records without their keys.\<close>

lemma synapse_values:
  "list_all2 (synapse_at dv) rows kvs \<Longrightarrow> list_all2 (\<lambda>row r. synapse_at dv row (sr_id r, r)) rows (hm_values kvs)"
  unfolding hm_values_def list_all2_map2 by (rule list_all2_mono, assumption) (auto simp: synapse_at_def)

lemma peer_values:
  "list_all2 (peer_at dv) rows kvs \<Longrightarrow> list_all2 (\<lambda>row r. peer_at dv row (pr_id r, r)) rows (hm_values kvs)"
  unfolding hm_values_def list_all2_map2 by (rule list_all2_mono, assumption) (auto simp: peer_at_def)

lemma match_put_synapse:
  assumes rel: "mirrors dv s m" and r: "storable_synapse r" "\<forall>(k, x) \<in> set (ms_synapses m). k \<noteq> sr_id r \<longrightarrow> sr_peer x \<noteq> sr_peer r"
  shows "matched (sq_put_synapse dv r) (mem_put_synapse r) (mirrors dv) s m"
proof -
  obtain a row where row: "dv_map_to_json dv (sr_type_affinity r) = Inr a" "synapse_to_row dv r a = Inr row"
    "row_to_synapse dv row = Inr r" "yr_id row = sr_id r" "yr_peer row = sr_peer r" "yr_weight row = sr_weight r"
    "yr_state row = state_to_str (sr_state r)" "yr_last_active_ns row = to_i64 (sr_last_active_ns r)"
    using synapse_row_roundtrip [OF _ r(1)] mirrors_parts [OF rel] by metis
  have at: "synapse_at dv row (yr_id row, r)" using row r(1) by (simp add: synapse_at_def storable_synapse_def)
  have "sq_put_synapse dv r = with_conn (execute dv (\<lambda>t. sum_then (synapse_rows t) (\<lambda>rows.
       if list_ex (\<lambda>x. yr_id x \<noteq> yr_id row \<and> yr_peer x = yr_peer row) rows
       then Inl ''UNIQUE constraint failed: synapses.peer''
       else Inr ((), t\<lparr>tb_synapses := upsert yr_id row rows\<rparr>))))"
    by (simp add: sq_put_synapse_def row(1,2) op_bind_def op_of_def fun_eq_iff)
  moreover have "matched (with_conn (execute dv (\<lambda>t. sum_then (synapse_rows t) (\<lambda>rows.
       if list_ex (\<lambda>x. yr_id x \<noteq> yr_id row \<and> yr_peer x = yr_peer row) rows
       then Inl ''UNIQUE constraint failed: synapses.peer''
       else Inr ((), t\<lparr>tb_synapses := upsert yr_id row rows\<rparr>))))) (mem_put_synapse r) (mirrors dv) s m"
  proof (rule match_execute [OF rel])
    fix t assume t: "tables_mirror dv t m"
    note rows = mirror_parts(2) [OF t]
    have none: "\<not> list_ex (\<lambda>x. yr_id x \<noteq> yr_id row \<and> yr_peer x = yr_peer row) (tb_synapses t)"
    proof
      assume "list_ex (\<lambda>x. yr_id x \<noteq> yr_id row \<and> yr_peer x = yr_peer row) (tb_synapses t)"
      then obtain x where x: "x \<in> set (tb_synapses t)" "yr_id x \<noteq> yr_id row" "yr_peer x = yr_peer row" by (auto simp: list_ex_iff)
      then obtain kv where "kv \<in> set (ms_synapses m)" "synapse_at dv x kv"
        using related_member [OF rows] by blast
      then show False using x(2,3) r(2) row(4,5) by (auto simp: synapse_at_def)
    qed
    have upd: "list_all2 (synapse_at dv) (upsert yr_id row (tb_synapses t)) (AList.update (sr_id r) r (ms_synapses m))"
      using upsert_related [OF rows, where key = yr_id, of row r] at row(4) by (auto simp: synapse_at_def)
    have new: "tables_mirror dv (t\<lparr>tb_synapses := upsert yr_id row (tb_synapses t)\<rparr>) (m\<lparr>ms_synapses := AList.update (sr_id r) r (ms_synapses m)\<rparr>)"
      using t upd by (simp add: tables_mirror_def)
    show "\<exists>x t' m'. sum_then (synapse_rows t) (\<lambda>rows.
        if list_ex (\<lambda>x. yr_id x \<noteq> yr_id row \<and> yr_peer x = yr_peer row) rows
        then Inl ''UNIQUE constraint failed: synapses.peer''
        else Inr ((), t\<lparr>tb_synapses := upsert yr_id row rows\<rparr>)) = Inr (x, t') \<and> mem_put_synapse r m = (Inr x, m') \<and>
        tables_mirror dv t' m' \<and> ms_poisoned m' = {} \<and> ms_retain_history m' = ms_retain_history m"
      using none mirrors_parts [OF rel] new
      by (intro exI [of _ "()"] exI [of _ "t\<lparr>tb_synapses := upsert yr_id row (tb_synapses t)\<rparr>"]
          exI [of _ "m\<lparr>ms_synapses := AList.update (sr_id r) r (ms_synapses m)\<rparr>"]) (simp add: mem_ops synapse_rows_mirror [OF t])
  qed
  ultimately show ?thesis by simp
qed

lemma match_get_synapse:
  assumes rel: "mirrors dv s m"
  shows "matched (sq_get_synapse dv i) (mem_get_synapse i) (mirrors dv) s m"
    and "matched (sq_synapse_for_peer dv p) (mem_synapse_for_peer p) (mirrors dv) s m"
proof -
  have p: "ms_poisoned m = {}" using mirrors_parts [OF rel] by simp
  show "matched (sq_get_synapse dv i) (mem_get_synapse i) (mirrors dv) s m" unfolding sq_get_synapse_def
  proof (rule match_query [OF rel], intro exI conjI allI)
    fix t n u assume t: "tables_mirror dv t m"
    have at: "rel_option (synapse_at dv) (find (\<lambda>r. yr_id r = i) (tb_synapses t)) (find (\<lambda>kv. fst kv = i) (ms_synapses m))"
      by (rule find_related [OF mirror_parts(2) [OF t]]) (auto simp: synapse_at_def)
    have lookup: "map_of kvs i = map_option snd (find (\<lambda>kv. fst kv = i) kvs)" for kvs :: "(SynapseId, SynapseRecord) hashmap"
      by (induction kvs) auto
    have "rel_option (\<lambda>row r. row_to_synapse dv row = Inr r) (find (\<lambda>r. yr_id r = i) (tb_synapses t)) (map_of (ms_synapses m) i)"
      unfolding lookup option.rel_map by (rule option.rel_mono_strong [OF at]) (auto simp: synapse_at_def)
    then show "decode_row (row_to_synapse dv) (find (\<lambda>r. yr_id r = i) (tb_synapses t)) u = (Inr (map_of (ms_synapses m) i), u)"
      by (rule decode_row_related)
  qed (use p in \<open>simp_all add: mem_ops\<close>)
  show "matched (sq_synapse_for_peer dv p) (mem_synapse_for_peer p) (mirrors dv) s m" unfolding sq_synapse_for_peer_def
  proof (rule match_query [OF rel], intro exI conjI allI)
    fix t n u assume t: "tables_mirror dv t m"
    have "rel_option (\<lambda>row r. synapse_at dv row (sr_id r, r)) (find (\<lambda>r. yr_peer r = p) (tb_synapses t))
        (find (\<lambda>r. sr_peer r = p) (hm_values (ms_synapses m)))"
      by (rule find_related [OF synapse_values [OF mirror_parts(2) [OF t]]]) (auto simp: synapse_at_def)
    then have "rel_option (\<lambda>row r. row_to_synapse dv row = Inr r) (find (\<lambda>r. yr_peer r = p) (tb_synapses t))
        (find (\<lambda>r. sr_peer r = p) (hm_values (ms_synapses m)))"
      by (rule option.rel_mono_strong) (simp add: synapse_at_def)
    then show "decode_row (row_to_synapse dv) (find (\<lambda>r. yr_peer r = p) (tb_synapses t)) u =
        (Inr (find (\<lambda>r. sr_peer r = p) (hm_values (ms_synapses m))), u)"
      by (rule decode_row_related)
  qed (use p in \<open>simp_all add: mem_ops\<close>)
qed

text \<open>The limits and bounds a call may carry.\<close>

definition fits_filter :: "SynapseFilter \<Rightarrow> bool" where
  "fits_filter f \<longleftrightarrow> (\<forall>b. fi_last_active_before_ns f = Some b \<longrightarrow> in_i64 b) \<and> (\<forall>k. fi_limit f = Some k \<longrightarrow> k < 2 ^ 63)"

lemma match_list_synapses:
  assumes rel: "mirrors dv s m" and f: "fits_filter f"
  shows "matched (sq_list_synapses dv f) (mem_list_synapses f) (mirrors dv) s m"
  unfolding sq_list_synapses_def
proof (rule match_query [OF rel], intro exI conjI allI)
  fix t n u assume t: "tables_mirror dv t m"
  let ?Q = "\<lambda>row r. synapse_at dv row (sr_id r, r)"
  have "list_all2 ?Q (filter (row_matches f) (tb_synapses t)) (filter (filter_matches f) (hm_values (ms_synapses m)))"
    by (rule filter_related [OF synapse_values [OF mirror_parts(2) [OF t]]])
      (use f in \<open>auto simp: synapse_at_def row_matches_def filter_matches_def fits_filter_def image_iff split: option.split\<close>)
  then have "list_all2 ?Q (sort_by by_weight (filter (row_matches f) (tb_synapses t)))
      (sort_by heavier_first (filter (filter_matches f) (hm_values (ms_synapses m))))"
    by (rule sort_related) (simp add: synapse_at_def by_weight_def heavier_first_def)
  then have "list_all2 ?Q (let out = sort_by by_weight (filter (row_matches f) (tb_synapses t))
      in case fi_limit f of None \<Rightarrow> out | Some k \<Rightarrow> sql_limit (to_i64 (of_nat k)) out)
      (Memory_Store.truncate (fi_limit f) (sort_by heavier_first (filter (filter_matches f) (hm_values (ms_synapses m)))))"
    using f by (auto simp: Memory_Store.truncate_def Let_def fits_filter_def sql_limit_take intro: take_related split: option.split)
  then have "decode_rows (row_to_synapse dv) (let out = sort_by by_weight (filter (row_matches f) (tb_synapses t))
      in case fi_limit f of None \<Rightarrow> out | Some k \<Rightarrow> sql_limit (to_i64 (of_nat k)) out) =
      Inr (Memory_Store.truncate (fi_limit f) (sort_by heavier_first (filter (filter_matches f) (hm_values (ms_synapses m)))))"
    by (intro decode_rows_related) (auto simp: synapse_at_def elim: list_all2_mono)
  then show "op_of (decode_rows (row_to_synapse dv) (let out = sort_by by_weight (filter (row_matches f) (tb_synapses t))
      in case fi_limit f of None \<Rightarrow> out | Some k \<Rightarrow> sql_limit (to_i64 (of_nat k)) out)) u =
      (Inr (Memory_Store.truncate (fi_limit f) (sort_by heavier_first (filter (filter_matches f) (hm_values (ms_synapses m))))), u)"
    by (simp add: op_of_def)
qed (use mirrors_parts [OF rel] in \<open>simp_all add: mem_ops\<close>)

lemma match_delete_synapse:
  assumes rel: "mirrors dv s m"
  shows "matched (sq_delete_synapse dv i) (mem_delete_synapse i) (mirrors dv) s m"
  unfolding sq_delete_synapse_def
proof (rule match_execute [OF rel], intro exI conjI)
  fix t assume t: "tables_mirror dv t m"
  have "list_all2 (synapse_at dv) (filter (\<lambda>r. yr_id r \<noteq> i) (tb_synapses t)) (AList.delete i (ms_synapses m))"
    by (rule delete_related [OF mirror_parts(2) [OF t]]) (simp add: synapse_at_def)
  then show "tables_mirror dv (t\<lparr>tb_synapses := filter (\<lambda>r. yr_id r \<noteq> i) (tb_synapses t)\<rparr>) (m\<lparr>ms_synapses := AList.delete i (ms_synapses m)\<rparr>)"
    using t by (simp add: tables_mirror_def)
qed (use mirrors_parts [OF rel] in \<open>simp_all add: mem_delete_synapse_def locked_def\<close>)

lemma match_put_peer:
  assumes rel: "mirrors dv s m" and p: "in_i64 (pr_last_seen_ns p)"
  shows "matched (sq_put_peer dv p) (mem_put_peer p) (mirrors dv) s m"
proof -
  obtain a b where j: "dv_list_to_json dv (pr_addresses p) = Inr a" "dv_list_to_json dv (pr_advertised_types p) = Inr b"
    "row_to_peer dv (peer_to_row p a b) = Inr p"
    using peer_row_roundtrip [OF _ p] mirrors_parts [OF rel] by metis
  have at: "peer_at dv (peer_to_row p a b) (er_id (peer_to_row p a b), p)" using j(3) p by (simp add: peer_at_def peer_to_row_def)
  have "sq_put_peer dv p = with_conn (execute dv (\<lambda>t. Inr ((), t\<lparr>tb_peers := upsert er_id (peer_to_row p a b) (tb_peers t)\<rparr>)))"
    by (simp add: sq_put_peer_def j op_bind_def op_of_def fun_eq_iff)
  moreover have "matched (with_conn (execute dv (\<lambda>t. Inr ((), t\<lparr>tb_peers := upsert er_id (peer_to_row p a b) (tb_peers t)\<rparr>))))
      (mem_put_peer p) (mirrors dv) s m"
  proof (rule match_execute [OF rel], intro exI conjI)
    fix t assume t: "tables_mirror dv t m"
    have "list_all2 (peer_at dv) (upsert er_id (peer_to_row p a b) (tb_peers t)) (AList.update (pr_id p) p (ms_peers m))"
      using upsert_related [OF mirror_parts(3) [OF t], where key = er_id, OF _ at] by (simp add: peer_at_def peer_to_row_def)
    then show "tables_mirror dv (t\<lparr>tb_peers := upsert er_id (peer_to_row p a b) (tb_peers t)\<rparr>) (m\<lparr>ms_peers := AList.update (pr_id p) p (ms_peers m)\<rparr>)"
      using t by (simp add: tables_mirror_def)
  qed (use mirrors_parts [OF rel] in \<open>simp_all add: mem_ops\<close>)
  ultimately show ?thesis by simp
qed

lemma match_peers:
  assumes rel: "mirrors dv s m"
  shows "matched (sq_get_peer dv i) (mem_get_peer i) (mirrors dv) s m"
    and "k < 2 ^ 63 \<Longrightarrow> matched (sq_list_peers dv region k) (mem_list_peers region k) (mirrors dv) s m"
    and "length (ms_peers m) < 2 ^ 63 \<Longrightarrow> matched (sq_count_peers dv src) (mem_count_peers src) (mirrors dv) s m"
proof -
  have p: "ms_poisoned m = {}" using mirrors_parts [OF rel] by simp
  show "matched (sq_get_peer dv i) (mem_get_peer i) (mirrors dv) s m" unfolding sq_get_peer_def
  proof (rule match_query [OF rel], intro exI conjI allI)
    fix t n u assume t: "tables_mirror dv t m"
    have at: "rel_option (peer_at dv) (find (\<lambda>r. er_id r = i) (tb_peers t)) (find (\<lambda>kv. fst kv = i) (ms_peers m))"
      by (rule find_related [OF mirror_parts(3) [OF t]]) (auto simp: peer_at_def)
    have lookup: "map_of kvs i = map_option snd (find (\<lambda>kv. fst kv = i) kvs)" for kvs :: "(NodeId, PeerRecord) hashmap"
      by (induction kvs) auto
    have "rel_option (\<lambda>row r. row_to_peer dv row = Inr r) (find (\<lambda>r. er_id r = i) (tb_peers t)) (map_of (ms_peers m) i)"
      unfolding lookup option.rel_map by (rule option.rel_mono_strong [OF at]) (auto simp: peer_at_def)
    then show "decode_row (row_to_peer dv) (find (\<lambda>r. er_id r = i) (tb_peers t)) u = (Inr (map_of (ms_peers m) i), u)"
      by (rule decode_row_related)
  qed (use p in \<open>simp_all add: mem_get_peer_def locked_def\<close>)
  let ?here = "\<lambda>r. case region of Some want \<Rightarrow> er_region r = Some want | None \<Rightarrow> True"
    and ?here' = "\<lambda>p. case region of Some want \<Rightarrow> pr_region p = Some want | None \<Rightarrow> True"
  show "matched (sq_list_peers dv region k) (mem_list_peers region k) (mirrors dv) s m" if k: "k < 2 ^ 63"
    unfolding sq_list_peers_def
  proof (rule match_query [OF rel], intro exI conjI allI)
    fix t n u assume t: "tables_mirror dv t m"
    let ?Q = "\<lambda>row p. peer_at dv row (pr_id p, p)"
    have "list_all2 ?Q (filter ?here (tb_peers t)) (filter ?here' (hm_values (ms_peers m)))"
      by (rule filter_related [OF peer_values [OF mirror_parts(3) [OF t]]]) (auto simp: peer_at_def split: option.split)
    then have "list_all2 ?Q (sort_by by_last_seen (filter ?here (tb_peers t))) (sort_by newer_first (filter ?here' (hm_values (ms_peers m))))"
      by (rule sort_related) (auto simp: peer_at_def by_last_seen_def newer_first_def int_cmp_def cmp_of_def)
    then have "list_all2 ?Q (sql_limit (to_i64 (of_nat k)) (sort_by by_last_seen (filter ?here (tb_peers t))))
        (take k (sort_by newer_first (filter ?here' (hm_values (ms_peers m)))))"
      unfolding sql_limit_take [OF k] by (rule take_related)
    then have "decode_rows (row_to_peer dv) (sql_limit (to_i64 (of_nat k)) (sort_by by_last_seen (filter ?here (tb_peers t)))) =
        Inr (take k (sort_by newer_first (filter ?here' (hm_values (ms_peers m)))))"
      by (intro decode_rows_related) (auto simp: peer_at_def elim: list_all2_mono)
    then show "op_of (decode_rows (row_to_peer dv) (sql_limit (to_i64 (of_nat k)) (sort_by by_last_seen (filter ?here (tb_peers t))))) u =
        (Inr (take k (sort_by newer_first (filter ?here' (hm_values (ms_peers m))))), u)"
      by (simp add: op_of_def)
  qed (use p in \<open>simp_all add: mem_list_peers_def locked_def\<close>)
  show "matched (sq_count_peers dv src) (mem_count_peers src) (mirrors dv) s m" if small: "length (ms_peers m) < 2 ^ 63"
    unfolding sq_count_peers_def
  proof (rule match_read [OF rel], intro exI conjI)
    fix t assume t: "tables_mirror dv t m"
    let ?n = "length (filter (\<lambda>p. pr_source p = src) (hm_values (ms_peers m)))"
    have "list_all2 (\<lambda>row p. peer_at dv row (pr_id p, p)) (filter (\<lambda>r. er_source r = source_to_str src) (tb_peers t))
        (filter (\<lambda>p. pr_source p = src) (hm_values (ms_peers m)))"
      by (rule filter_related [OF peer_values [OF mirror_parts(3) [OF t]]]) (auto simp: peer_at_def)
    then have len: "length (filter (\<lambda>r. er_source r = source_to_str src) (tb_peers t)) = ?n" by (rule list_all2_lengthD)
    have "?n < 2 ^ 63" using small le_less_trans [OF length_filter_le [of "\<lambda>p. pr_source p = src" "hm_values (ms_peers m)"]] by (simp add: hm_values_def)
    then have "from_i64 (of_nat ?n) = of_nat ?n" by (simp add: from_i64_def sint_small in_i64_of_nat)
    then show "Inr (from_i64 (of_nat (length (filter (\<lambda>r. er_source r = source_to_str src) (tb_peers t))))) = Inr (of_nat ?n :: u64)"
      by (simp add: len)
  qed (use p in \<open>simp add: mem_count_peers_def locked_def\<close>)
qed

lemma match_check_seen:
  assumes rel: "mirrors dv s m" and fit: "in_i64 now" "in_i64 (seen_expiry now ttl)"
  shows "matched (sq_check_and_set_seen dv i now ttl) (mem_check_and_set_seen i now ttl) (mirrors dv) s m"
proof -
  let ?k = "ulid_to_bytes (dv_ulid dv) i" and ?e = "seen_expiry now ttl"
  have dv: "driver_sound dv" and p: "ms_poisoned m = {}" using mirrors_parts [OF rel] by simp_all
  let ?q = "\<lambda>t. let set = t\<lparr>tb_seen := AList.update ?k (to_i64 ?e) (tb_seen t)\<rparr>
      in Inr (case map_of (tb_seen t) ?k of Some e \<Rightarrow> if sint e \<le> sint (to_i64 now) then (1 :: nat, set) else (0, t) | None \<Rightarrow> (1, set)) :: string + nat \<times> Tables"
  let ?f = "\<lambda>m. (Inr (if seen_live (map_of (ms_seen m)) i now then 0 else 1 :: nat),
      if seen_live (map_of (ms_seen m)) i now then m else m\<lparr>ms_seen := AList.update i ?e (ms_seen m)\<rparr>) :: (StoreError + nat) \<times> MemoryStore"
  have "matched (with_conn (execute dv ?q)) ?f (mirrors dv) s m"
  proof (rule match_execute [OF rel])
    fix t assume t: "tables_mirror dv t m"
    have look: "rel_option time_at (map_of (tb_seen t) ?k) (map_of (ms_seen m) i)"
      using keyed_lookup [OF dv mirror_parts(4) [OF t]] .
    have upd: "list_all2 (keyed_at dv time_at) (AList.update ?k (to_i64 ?e) (tb_seen t)) (AList.update i ?e (ms_seen m))"
      by (rule keyed_at_update [OF dv mirror_parts(4) [OF t]]) (use fit in simp)
    have new: "tables_mirror dv (t\<lparr>tb_seen := AList.update ?k (to_i64 ?e) (tb_seen t)\<rparr>) (m\<lparr>ms_seen := AList.update i ?e (ms_seen m)\<rparr>)"
      using t upd by (simp add: tables_mirror_def)
    have late: "sint e \<le> sint (to_i64 now) \<longleftrightarrow> \<not> now < v" if "time_at e v" for e v using that fit(1) by (simp add: not_less)
    show "\<exists>x t' m'. ?q t = Inr (x, t') \<and> ?f m = (Inr x, m') \<and> tables_mirror dv t' m' \<and> ms_poisoned m' = {} \<and> ms_retain_history m' = ms_retain_history m"
    proof (cases "map_of (ms_seen m) i")
      case None
      then show ?thesis using look new p
        by (intro exI [of _ 1] exI [of _ "t\<lparr>tb_seen := AList.update ?k (to_i64 ?e) (tb_seen t)\<rparr>"]
            exI [of _ "m\<lparr>ms_seen := AList.update i ?e (ms_seen m)\<rparr>"]) (simp add: seen_live_def)
    next
      case (Some v)
      then obtain e where e: "map_of (tb_seen t) ?k = Some e" "time_at e v" using look by (auto simp: option_rel_Some2)
      show ?thesis
      proof (cases "now < v")
        case True
        then show ?thesis using Some e late [OF e(2)] t p by (intro exI [of _ 0] exI [of _ t] exI [of _ m]) (simp add: seen_live_def)
      next
        case False
        then show ?thesis using Some e late [OF e(2)] new p
          by (intro exI [of _ 1] exI [of _ "t\<lparr>tb_seen := AList.update ?k (to_i64 ?e) (tb_seen t)\<rparr>"]
              exI [of _ "m\<lparr>ms_seen := AList.update i ?e (ms_seen m)\<rparr>"]) (simp add: seen_live_def)
      qed
    qed
  qed
  moreover have "sq_check_and_set_seen dv i now ttl = op_bind (with_conn (execute dv ?q)) (\<lambda>changed. op_of (Inr (changed = 0)))"
    by (simp add: sq_check_and_set_seen_def seen_expiry_def Let_def)
  moreover have "mem_check_and_set_seen i now ttl m = (case ?f m of (Inr n, m') \<Rightarrow> (Inr (n = 0), m') | (Inl x, m') \<Rightarrow> (Inl x, m'))"
    using p by (simp add: mem_ops seen_live_def seen_expiry_def Let_def split: option.split)
  ultimately show ?thesis by (auto simp: matched_def op_bind_def op_of_def)
qed

lemma match_seen:
  assumes rel: "mirrors dv s m" and now: "in_i64 now"
  shows "matched (sq_has_seen dv i now) (mem_has_seen i now) (mirrors dv) s m"
    and "matched (sq_purge_expired_seen dv now) (mem_purge_expired_seen now) (mirrors dv) s m"
proof -
  have dv: "driver_sound dv" and p: "ms_poisoned m = {}" using mirrors_parts [OF rel] by simp_all
  show "matched (sq_has_seen dv i now) (mem_has_seen i now) (mirrors dv) s m" unfolding sq_has_seen_def
  proof (rule match_read [OF rel], intro exI conjI)
    fix t assume t: "tables_mirror dv t m"
    have "rel_option time_at (map_of (tb_seen t) (ulid_to_bytes (dv_ulid dv) i)) (map_of (ms_seen m) i)"
      using keyed_lookup [OF dv mirror_parts(4) [OF t]] .
    then show "Inr (case map_of (tb_seen t) (ulid_to_bytes (dv_ulid dv) i) of Some e \<Rightarrow> sint (to_i64 now) < sint e | None \<Rightarrow> False) =
        Inr (case map_of (ms_seen m) i of Some e \<Rightarrow> now < e | None \<Rightarrow> False)"
      using now by (auto simp: rel_option_iff split: option.splits)
  qed (use p in \<open>simp add: mem_ops\<close>)
  show "matched (sq_purge_expired_seen dv now) (mem_purge_expired_seen now) (mirrors dv) s m" unfolding sq_purge_expired_seen_def
  proof (rule match_execute [OF rel])
    fix t assume t: "tables_mirror dv t m"
    let ?P = "\<lambda>(_, e). \<not> sint e \<le> sint (to_i64 now)" and ?P' = "\<lambda>(_, e). now < e"
    have kept: "list_all2 (keyed_at dv time_at) (filter ?P (tb_seen t)) (filter ?P' (ms_seen m))"
      by (rule filter_related [OF mirror_parts(4) [OF t]]) (use now in \<open>auto simp: keyed_at_def not_le\<close>)
    have "tables_mirror dv (t\<lparr>tb_seen := filter ?P (tb_seen t)\<rparr>) (m\<lparr>ms_seen := filter ?P' (ms_seen m)\<rparr>)"
      using t kept by (simp add: tables_mirror_def)
    then show "\<exists>x t' m'. (let kept = filter ?P (tb_seen t)
        in Inr (of_nat (length (tb_seen t) - length kept), t\<lparr>tb_seen := kept\<rparr>)) = Inr (x, t') \<and> mem_purge_expired_seen now m = (Inr x, m') \<and>
        tables_mirror dv t' m' \<and> ms_poisoned m' = {} \<and> ms_retain_history m' = ms_retain_history m"
      using p list_all2_lengthD [OF kept] list_all2_lengthD [OF mirror_parts(4) [OF t]] by (simp add: mem_ops Let_def)
  qed
qed

lemma match_activation:
  assumes rel: "mirrors dv s m"
  shows "storable_snapshot sn \<Longrightarrow> matched (sq_save_activation dv sn) (mem_save_activation sn) (mirrors dv) s m"
    and "matched (sq_load_activation dv) mem_load_activation (mirrors dv) s m"
proof -
  have dv: "driver_sound dv" and p: "ms_poisoned m = {}" using mirrors_parts [OF rel] by simp_all
  show "matched (sq_save_activation dv sn) (mem_save_activation sn) (mirrors dv) s m" if sn: "storable_snapshot sn"
  proof (rule snapshot_row_roundtrip [OF dv sn])
    fix row assume row: "activation_to_row dv sn = Inr row" "row_to_activation row = sn"
    show ?thesis unfolding sq_save_activation_def
    proof (rule match_execute [OF rel], intro exI conjI)
      fix t assume t: "tables_mirror dv t m"
      show "tables_mirror dv (t\<lparr>tb_activation := Some row\<rparr>) (m\<lparr>ms_activation := Some sn\<rparr>)" using t row(2) by (simp add: tables_mirror_def)
    qed (use p row(1) in \<open>simp_all add: mem_ops\<close>)
  qed
  show "matched (sq_load_activation dv) mem_load_activation (mirrors dv) s m" unfolding sq_load_activation_def
  proof (rule match_read [OF rel], intro exI conjI)
    fix t assume "tables_mirror dv t m"
    then show "Inr (map_option row_to_activation (tb_activation t)) = Inr (ms_activation m)"
      by (auto simp: tables_mirror_def rel_option_iff split: option.splits)
  qed (use p in \<open>simp add: mem_load_activation_def locked_def\<close>)
qed

lemma match_meta:
  assumes rel: "mirrors dv s m"
  shows "matched (sq_put_meta dv k v) (mem_put_meta k v) (mirrors dv) s m" "matched (sq_get_meta dv k) (mem_get_meta k) (mirrors dv) s m"
proof -
  have p: "ms_poisoned m = {}" using mirrors_parts [OF rel] by simp
  show "matched (sq_put_meta dv k v) (mem_put_meta k v) (mirrors dv) s m" unfolding sq_put_meta_def
  proof (rule match_execute [OF rel], intro exI conjI)
    fix t assume "tables_mirror dv t m"
    then show "tables_mirror dv (t\<lparr>tb_meta := AList.update k v (tb_meta t)\<rparr>) (m\<lparr>ms_meta := AList.update k v (ms_meta m)\<rparr>)"
      by (simp add: tables_mirror_def)
  qed (use p in \<open>simp_all add: mem_put_meta_def locked_def\<close>)
  show "matched (sq_get_meta dv k) (mem_get_meta k) (mirrors dv) s m" unfolding sq_get_meta_def
    by (rule match_read [OF rel]) (use p in \<open>simp add: mem_get_meta_def locked_def tables_mirror_def\<close>)
qed

lemma match_history:
  assumes rel: "mirrors dv s m"
  shows "matched (sq_put_signal_history dv i body now) (mem_put_signal_history i body now) (mirrors dv) s m"
    and "matched (sq_get_signal_history dv i) (mem_get_signal_history i) (mirrors dv) s m"
proof -
  have dv: "driver_sound dv" and p: "ms_poisoned m = {}" and retain: "qc_retain_signal_history (sq_config s) = ms_retain_history m"
    using rel by (auto simp: mirrors_def reliable_def)
  let ?k = "ulid_to_bytes (dv_ulid dv) i"
  show "matched (sq_put_signal_history dv i body now) (mem_put_signal_history i body now) (mirrors dv) s m"
  proof (cases "ms_retain_history m")
    case True
    have "matched (with_conn (execute dv (\<lambda>t. Inr ((), t\<lparr>tb_history := AList.update ?k (body, to_i64 now) (tb_history t)\<rparr>))))
        (mem_put_signal_history i body now) (mirrors dv) s m"
    proof (rule match_execute [OF rel], intro exI conjI)
      fix t assume t: "tables_mirror dv t m"
      have "list_all2 (keyed_at dv (\<lambda>b v. fst b = v)) (AList.update ?k (body, to_i64 now) (tb_history t)) (AList.update i body (ms_history m))"
        by (rule keyed_at_update [OF dv mirror_parts(7) [OF t]]) simp
      then show "tables_mirror dv (t\<lparr>tb_history := AList.update ?k (body, to_i64 now) (tb_history t)\<rparr>) (m\<lparr>ms_history := AList.update i body (ms_history m)\<rparr>)"
        using t by (simp add: tables_mirror_def)
    qed (use p True in \<open>simp_all add: mem_put_signal_history_def locked_def\<close>)
    then show ?thesis using True retain by (simp add: matched_def sq_put_signal_history_def)
  qed (use rel retain in \<open>auto simp: matched_def sq_put_signal_history_def mem_put_signal_history_def\<close>)
  show "matched (sq_get_signal_history dv i) (mem_get_signal_history i) (mirrors dv) s m"
  proof (cases "ms_retain_history m")
    case True
    have "matched (with_conn (query dv (\<lambda>n t. Inr (map_option fst (map_of (tb_history t) ?k))))) (mem_get_signal_history i) (mirrors dv) s m"
    proof (rule match_read [OF rel], intro exI conjI)
      fix t assume t: "tables_mirror dv t m"
      have "rel_option (\<lambda>b v. fst b = v) (map_of (tb_history t) ?k) (map_of (ms_history m) i)"
        using keyed_lookup [OF dv mirror_parts(7) [OF t]] .
      then show "Inr (map_option fst (map_of (tb_history t) ?k)) = Inr (map_of (ms_history m) i)"
        by (auto simp: rel_option_iff split: option.splits)
    qed (use p True in \<open>simp add: mem_get_signal_history_def locked_def\<close>)
    then show ?thesis using True retain by (simp add: matched_def sq_get_signal_history_def)
  qed (use rel retain in \<open>auto simp: matched_def sq_get_signal_history_def mem_get_signal_history_def\<close>)
qed

lemma match_upkeep:
  assumes rel: "mirrors dv s m"
  shows "matched (sq_flush dv) mem_flush (mirrors dv) s m" "matched (sq_migrate dv) mem_migrate (mirrors dv) s m"
proof -
  have f: "dv_fault dv n = None" for n using rel by (simp add: mirrors_def reliable_def)
  have "sq_flush dv s = (Inr (), if sq_in_memory s then s else s\<lparr>sq_count := sq_count s + 1\<rparr>)"
    using rel f by (auto simp: sq_flush_def with_conn_def mirrors_def pragma_def engine_call_def Let_def)
  then show "matched (sq_flush dv) mem_flush (mirrors dv) s m"
    using rel by (auto simp: matched_def mem_flush_def mirrors_def)
  have "sq_migrate dv s = (Inr (), s\<lparr>sq_count := sq_count s + 1\<rparr>)"
    using rel f by (simp add: sq_migrate_def with_conn_def mirrors_def user_version_def engine_call_def op_bind_def
        MIGRATIONS_def CURRENT_VERSION_def Let_def word_le_nat_alt)
  then show "matched (sq_migrate dv) mem_migrate (mirrors dv) s m"
    using rel by (auto simp: matched_def mem_migrate_def mirrors_def)
qed

section \<open>The journal, call by call\<close>

lemma entry_times:
  assumes "list_all2 (entry_at dv) rows es" "sorted_wrt (\<lambda>a b. je_decided_at_ns a < je_decided_at_ns b) es"
  shows "sorted_wrt (\<lambda>a b. sint (jr_decided_at_ns a) < sint (jr_decided_at_ns b)) rows"
  using assms
proof (induction rule: list_all2_induct)
  case (Cons r rows e es)
  have "sint (jr_decided_at_ns r) < sint (jr_decided_at_ns r')" if r': "r' \<in> set rows" for r'
  proof -
    obtain e' where "e' \<in> set es" "entry_at dv r' e'" using related_member [OF Cons.hyps(2) r'] by blast
    then show ?thesis using Cons.hyps(1) Cons.prems by (auto simp: entry_at_def)
  qed
  then show ?case using Cons by auto
qed simp

text \<open>Sorting distinct times gives the one ascending, or descending, arrangement.\<close>

lemma sort_ascending:
  fixes time :: "'a \<Rightarrow> 'b::linorder"
  assumes key: "\<And>a b. time a \<noteq> time b \<Longrightarrow> cmp a b \<noteq> Greater \<longleftrightarrow> time a < time b" and refl: "\<And>a. cmp a a \<noteq> Greater"
    and xs: "sorted_wrt (\<lambda>a b. time a < time b) xs" and perm: "mset ys = mset xs"
  shows "sort_by cmp ys = xs"
proof -
  have inj: "inj_on time (set xs)" using xs
  proof (induction xs)
    case (Cons x xs)
    then have "inj_on time (set xs)" "time x \<notin> time ` set xs" by auto
    then show ?case by (simp only: list.set inj_on_insert) blast
  qed simp
  have le: "cmp a b \<noteq> Greater \<longleftrightarrow> time a \<le> time b" if "a \<in> set xs" "b \<in> set xs" for a b
  proof (cases "time a = time b")
    case True
    then have "a = b" using inj that by (auto simp: inj_on_def)
    then show ?thesis using refl by simp
  next
    case False
    then show ?thesis unfolding key [OF False] by (simp add: less_le)
  qed
  have strict: "strict_comparator (\<lambda>x. x \<in> set xs) cmp"
  proof
    fix x y z assume x: "x \<in> set xs" and y: "y \<in> set xs"
    show "cmp x y = Greater \<Longrightarrow> cmp y x \<noteq> Greater" using le [OF x y] le [OF y x] by auto
    show "cmp x y \<noteq> Greater \<Longrightarrow> cmp y x \<noteq> Greater \<Longrightarrow> x = y" using le [OF x y] le [OF y x] inj x y by (auto simp: inj_on_def)
    assume z: "z \<in> set xs"
    show "cmp x y \<noteq> Greater \<Longrightarrow> cmp y z \<noteq> Greater \<Longrightarrow> cmp x z \<noteq> Greater"
      using le [OF x y] le [OF y z] le [OF x z] by (auto intro: order_trans)
  qed
  have ys: "\<forall>y \<in> set ys. y \<in> set xs" using perm by (metis mset_eq_setD)
  show ?thesis
  proof (rule strict_comparator.sorted_unique [OF strict])
    show "sorted_wrt (\<lambda>a b. cmp a b \<noteq> Greater) (sort_by cmp ys)"
      by (rule comparator.sorted_sort_by [OF strict_comparator.axioms(1) [OF strict] ys])
    show "sorted_wrt (\<lambda>a b. cmp a b \<noteq> Greater) xs" by (rule sorted_wrt_mono_rel [OF _ xs]) (simp add: le)
  qed (use perm ys in simp_all)
qed

lemma in_order_map:
  assumes "\<And>e. je_id (f e) = je_id e" "\<And>e. je_decided_at_ns (f e) = je_decided_at_ns e"
  shows "in_order n (map f es) = in_order n es"
  by (simp add: in_order_def sorted_wrt_map assms comp_def)

lemma resolve_first_map:
  "distinct (map je_id es) \<Longrightarrow> resolve_first i out now es =
     (let es' = map (\<lambda>e. if je_id e = Some i then resolve_entry out now e else e) es in (find (\<lambda>e. je_id e = Some i) es', es'))"
proof (induction es)
  case (Cons e es)
  show ?case
  proof (cases "je_id e = Some i")
    case True
    then have "map (\<lambda>e. if je_id e = Some i then resolve_entry out now e else e) es = es"
      using Cons.prems by (intro map_idI) force
    then show ?thesis using True by (simp add: Let_def resolve_entry_def is_resolved_def)
  qed (use Cons in \<open>simp add: Let_def\<close>)
qed simp

lemma entry_resolved:
  assumes at: "entry_at dv row e" and fit: "in_i64 i" "in_i64 now"
  shows "entry_at dv (resolve_row i out now row) (if je_id e = Some i then resolve_entry out now e else e)"
proof -
  have id: "jr_id row = to_i64 i \<longleftrightarrow> je_id e = Some i" using at fit(1) by (auto simp: entry_at_def to_i64_def)
  have pend: "jr_outcome row = ''pending'' \<longleftrightarrow> je_outcome e = Pending"
    using at text_inj(3) [of "je_outcome e" Pending] by (simp add: entry_at_def outcome_to_str_def)
  show ?thesis
  proof (cases "je_id e = Some i \<and> je_outcome e = Pending")
    case True
    have "row_to_journal dv (row\<lparr>jr_outcome := outcome_to_str out, jr_resolved_at_ns := Some (to_i64 now)\<rparr>) =
        Inr (e\<lparr>je_outcome := out, je_resolved_at_ns := Some now\<rparr>)"
      using at fit(2) by (cases e) (auto simp: entry_at_def row_to_journal_def sum_then_def split: sum.splits)
    then show ?thesis using True at id pend by (auto simp: resolve_row_def resolve_entry_def is_resolved_def entry_at_def)
  next
    case False
    then have "resolve_row i out now row = row" using id pend by (auto simp: resolve_row_def)
    moreover have "(if je_id e = Some i then resolve_entry out now e else e) = e" using False by (auto simp: resolve_entry_def is_resolved_def)
    ultimately show ?thesis using at by simp
  qed
qed

lemma match_append:
  assumes rel: "mirrors dv s m" and e: "storable_entry e" "\<forall>x \<in> set (ms_journal m). je_decided_at_ns x < je_decided_at_ns e"
    and room: "ms_next_journal_id m < i64_max"
  shows "matched (sq_append_decision dv e) (mem_append_decision e) (mirrors dv) s m"
proof -
  have dv: "driver_sound dv" and p: "ms_poisoned m = {}" using mirrors_parts [OF rel] by simp_all
  let ?i = "ms_next_journal_id m + 1"
  have "unat ?i = unat (ms_next_journal_id m) + 1" using room i64_max_bounds(2) by (simp add: unat_word_ariths word_less_nat_alt)
  then have i: "in_i64 ?i" "ms_next_journal_id m < ?i" using room by (simp_all add: word_le_nat_alt word_less_nat_alt)
  obtain row where row: "journal_to_row dv ?i e = Inr row" "row_to_journal dv row = Inr (e\<lparr>je_id := Some ?i\<rparr>)" "jr_id row = ?i"
    "jr_signal row = ulid_to_bytes (dv_ulid dv) (je_signal e)" "jr_signal_type row = signal_type_to_str (je_signal_type e)"
    "jr_peer row = je_peer e" "jr_decided_at_ns row = to_i64 (je_decided_at_ns e)" "jr_outcome row = outcome_to_str (je_outcome e)"
    by (rule journal_row_roundtrip [OF dv e(1) i(1)])
  let ?q = "\<lambda>t. if tb_journal_seq t = i64_max then Inl ''database or disk is full''
     else let i = tb_journal_seq t + 1 in sum_then (journal_to_row dv i e) (\<lambda>row.
       Inr (i, t\<lparr>tb_journal := tb_journal t @ [row], tb_journal_seq := i\<rparr>))"
  have "matched (with_conn (execute dv ?q)) (mem_append_decision e) (mirrors dv) s m"
  proof (rule match_execute [OF rel])
    fix t assume t: "tables_mirror dv t m"
    have seq: "tb_journal_seq t = ms_next_journal_id m" using t by (simp add: tables_mirror_def)
    have at: "entry_at dv row (e\<lparr>je_id := Some ?i\<rparr>)" using row i(1) e(1) by (simp add: entry_at_def storable_entry_def)
    have "in_order ?i (ms_journal m @ [e\<lparr>je_id := Some ?i\<rparr>])"
      using mirror_parts(6) [OF t] e(2) i(2) by (fastforce simp: in_order_def sorted_wrt_append intro: order_trans less_imp_le)
    then have "tables_mirror dv (t\<lparr>tb_journal := tb_journal t @ [row], tb_journal_seq := ?i\<rparr>)
        (m\<lparr>ms_next_journal_id := ?i, ms_journal := ms_journal m @ [e\<lparr>je_id := Some ?i\<rparr>]\<rparr>)"
      using t at i(1) by (auto simp: tables_mirror_def intro: list_all2_appendI)
    then show "\<exists>x t' m'. ?q t = Inr (x, t') \<and> mem_append_decision e m = (Inr x, m') \<and> tables_mirror dv t' m' \<and>
        ms_poisoned m' = {} \<and> ms_retain_history m' = ms_retain_history m"
      using seq room row(1) p
      by (intro exI [of _ ?i] exI [of _ "t\<lparr>tb_journal := tb_journal t @ [row], tb_journal_seq := ?i\<rparr>"]
          exI [of _ "m\<lparr>ms_next_journal_id := ?i, ms_journal := ms_journal m @ [e\<lparr>je_id := Some ?i\<rparr>]\<rparr>"])
        (simp add: mem_ops Let_def less_imp_neq)
  qed
  moreover have "from_i64 ?i = ?i" using i(1) by (simp add: from_i64_def sint_small)
  moreover have "fst (mem_append_decision e m) = Inr ?i" using p by (simp add: mem_ops Let_def)
  moreover have "sq_append_decision dv e = op_bind (with_conn (execute dv ?q)) (\<lambda>i. op_of (Inr (from_i64 i)))"
    by (simp add: sq_append_decision_def fun_eq_iff with_conn_def op_bind_def)
  ultimately show ?thesis by (auto simp: matched_def op_bind_def op_of_def)
qed

lemma match_resolve:
  assumes rel: "mirrors dv s m" and fit: "in_i64 i" "in_i64 now"
  shows "matched (sq_resolve_decision dv i out now) (mem_resolve_decision i out now) (mirrors dv) s m"
proof -
  have p: "ms_poisoned m = {}" using mirrors_parts [OF rel] by simp
  let ?upd = "\<lambda>e. if je_id e = Some i then resolve_entry out now e else e"
  let ?f = "\<lambda>m. (Inr (), m\<lparr>ms_journal := map ?upd (ms_journal m)\<rparr>) :: (StoreError + unit) \<times> MemoryStore"
    and ?g = "\<lambda>m. (Inr (find (\<lambda>e. je_id e = Some i) (ms_journal m)), m) :: (StoreError + JournalEntry option) \<times> MemoryStore"
  let ?q = "\<lambda>t. Inr ((), t\<lparr>tb_journal := map (resolve_row i out now) (tb_journal t)\<rparr>) :: string + unit \<times> Tables"
  have one: "matched (with_conn (execute dv ?q)) ?f (mirrors dv) s m"
  proof (rule match_execute [OF rel], intro exI conjI)
    fix t assume t: "tables_mirror dv t m"
    have rows: "list_all2 (entry_at dv) (map (resolve_row i out now) (tb_journal t)) (map ?upd (ms_journal m))"
      unfolding list_all2_map1 list_all2_map2
      by (rule list_all2_mono [OF mirror_parts(5) [OF t]]) (rule entry_resolved [OF _ fit])
    have "in_order (ms_next_journal_id m) (map ?upd (ms_journal m))"
      using mirror_parts(6) [OF t] by (subst in_order_map) (simp_all add: resolve_entry_def)
    then show "tables_mirror dv (t\<lparr>tb_journal := map (resolve_row i out now) (tb_journal t)\<rparr>) (m\<lparr>ms_journal := map ?upd (ms_journal m)\<rparr>)"
      using t rows by (simp add: tables_mirror_def)
  qed (use p in simp_all)
  have two: "matched (with_conn (op_bind (query dv (\<lambda>n t. Inr (find (\<lambda>r. jr_id r = to_i64 i) (tb_journal t)))) (decode_row (row_to_journal dv))))
      ?g (mirrors dv) s1 m1" if r1: "mirrors dv s1 m1" for s1 m1
  proof (rule match_query [OF r1], intro exI conjI allI)
    fix t n u assume t: "tables_mirror dv t m1"
    have "rel_option (entry_at dv) (find (\<lambda>r. jr_id r = to_i64 i) (tb_journal t)) (find (\<lambda>e. je_id e = Some i) (ms_journal m1))"
      by (rule find_related [OF mirror_parts(5) [OF t]]) (use fit(1) in \<open>auto simp: entry_at_def to_i64_def\<close>)
    then have "rel_option (\<lambda>row e. row_to_journal dv row = Inr e) (find (\<lambda>r. jr_id r = to_i64 i) (tb_journal t)) (find (\<lambda>e. je_id e = Some i) (ms_journal m1))"
      by (rule option.rel_mono_strong) (simp add: entry_at_def)
    then show "decode_row (row_to_journal dv) (find (\<lambda>r. jr_id r = to_i64 i) (tb_journal t)) u = (Inr (find (\<lambda>e. je_id e = Some i) (ms_journal m1)), u)"
      by (rule decode_row_related)
  qed simp_all
  obtain s1 where s1: "with_conn (execute dv ?q) s = (Inr (), s1)" "mirrors dv s1 (m\<lparr>ms_journal := map ?upd (ms_journal m)\<rparr>)"
    using one by (auto simp: matched_def)
  have live: "\<not> sq_poisoned s" "\<not> sq_poisoned s1" using rel s1(2) by (auto simp: mirrors_def)
  have "distinct (map je_id (ms_journal m))" using rel by (auto simp: mirrors_def tables_mirror_def in_order_def)
  then have "mem_resolve_decision i out now m = ?g (m\<lparr>ms_journal := map ?upd (ms_journal m)\<rparr>)"
    using p by (simp add: mem_ops resolve_first_map Let_def)
  moreover have "sq_resolve_decision dv i out now s = with_conn (op_bind (query dv (\<lambda>n t. Inr (find (\<lambda>r. jr_id r = to_i64 i) (tb_journal t)))) (decode_row (row_to_journal dv))) s1"
    using s1(1) live by (simp add: sq_resolve_decision_def with_conn_def op_bind_def)
  ultimately show ?thesis using two [OF s1(2)] by (simp add: matched_def)
qed

text \<open>An identifier beyond the signed range names no decision on either side.\<close>

lemma match_resolve_unknown:
  assumes rel: "mirrors dv s m" and i: "\<not> in_i64 i" and room: "ms_next_journal_id m < i64_max"
  shows "matched (sq_resolve_decision dv i out now) (mem_resolve_decision i out now) (mirrors dv) s m"
proof -
  obtain t where t: "db_tables (sq_db s) = Some t" "tables_mirror dv t m" "\<not> sq_poisoned s" and f: "\<And>n. dv_fault dv n = None"
    using rel by (auto simp: mirrors_def reliable_def)
  have p: "ms_poisoned m = {}" using mirrors_parts [OF rel] by simp
  have ids: "\<exists>k < i64_max. je_id e = Some k" if "e \<in> set (ms_journal m)" for e
    using mirror_parts(6) [OF t(2)] that room by (auto simp: in_order_def intro: le_less_trans)
  have "jr_id r \<noteq> to_i64 i" if r: "r \<in> set (tb_journal t)" for r
  proof -
    obtain e where e: "e \<in> set (ms_journal m)" "entry_at dv r e" using related_member [OF mirror_parts(5) [OF t(2)] r] by blast
    then have "jr_id r < i64_max" using ids [OF e(1)] by (auto simp: entry_at_def)
    then show ?thesis using i by (auto simp: to_i64_def)
  qed
  then have none: "map (resolve_row i out now) (tb_journal t) = tb_journal t" "find (\<lambda>r. jr_id r = to_i64 i) (tb_journal t) = None"
    by (auto simp: resolve_row_def find_None_iff intro!: map_idI)
  have "\<forall>e \<in> set (ms_journal m). je_id e \<noteq> Some i" using ids i by fastforce
  then have "mem_resolve_decision i out now m = (Inr None, m)" using p by (simp add: mem_ops resolve_first_none)
  moreover have "t\<lparr>tb_journal := tb_journal t\<rparr> = t" by simp
  then have "sq_resolve_decision dv i out now s = (Inr None, s\<lparr>sq_count := sq_count s + 2, sq_db := (sq_db s)\<lparr>db_tables := Some t\<rparr>\<rparr>)"
    using t(1,3) f none by (simp add: sq_resolve_decision_def with_conn_def op_bind_def execute_def query_def statement_def engine_call_def
        decode_row_def op_of_def)
  moreover have "mirrors dv (s\<lparr>sq_count := sq_count s + 2, sq_db := (sq_db s)\<lparr>db_tables := Some t\<rparr>\<rparr>) m"
    using rel t by (simp add: mirrors_def)
  ultimately show ?thesis by (simp add: matched_def)
qed

lemma first_row_filter: "first_row (filter P xs) = find P xs"
  by (induction xs) (auto simp: first_row_def)

lemma scan_in_order:
  assumes dv: "driver_sound dv" and t: "tables_mirror dv t m"
  shows "sort_by oldest_first (dv_scan dv n (filter P (tb_journal t))) = filter P (tb_journal t)"
proof (rule sort_ascending [where time = "\<lambda>r. sint (jr_decided_at_ns r)"])
  have "sorted_wrt (\<lambda>a b. sint (jr_decided_at_ns a) < sint (jr_decided_at_ns b)) (tb_journal t)"
    by (rule entry_times [OF mirror_parts(5) [OF t]]) (use mirror_parts(6) [OF t] in \<open>simp add: in_order_def\<close>)
  then show "sorted_wrt (\<lambda>a b. sint (jr_decided_at_ns a) < sint (jr_decided_at_ns b)) (filter P (tb_journal t))"
    by (rule sorted_wrt_filter)
  show "mset (dv_scan dv n (filter P (tb_journal t))) = mset (filter P (tb_journal t))" using dv unfolding driver_sound_def by blast
qed (auto simp: oldest_first_def int_cmp_def)

lemma match_decisions:
  assumes rel: "mirrors dv s m"
  shows "matched (sq_pending_decision_for dv sg p) (mem_pending_decision_for sg p) (mirrors dv) s m"
    and "in_i64 d \<Longrightarrow> k < 2 ^ 63 \<Longrightarrow> matched (sq_expired_decisions dv d k) (mem_expired_decisions d k) (mirrors dv) s m"
    and "k < 2 ^ 63 \<Longrightarrow> matched (sq_recent_decisions dv ty k) (mem_recent_decisions ty k) (mirrors dv) s m"
    and "in_i64 d \<Longrightarrow> matched (sq_trim_journal dv d) (mem_trim_journal d) (mirrors dv) s m"
proof -
  have dv: "driver_sound dv" and ok: "ms_poisoned m = {}" using mirrors_parts [OF rel] by simp_all
  have pend: "jr_outcome row = ''pending'' \<longleftrightarrow> je_outcome e = Pending" if "entry_at dv row e" for row e
    using that text_inj(3) [of "je_outcome e" Pending] by (simp add: entry_at_def outcome_to_str_def)
  have decode: "decode_rows (row_to_journal dv) rows = Inr es" if "list_all2 (entry_at dv) rows es" for rows es
    by (rule decode_rows_related, rule list_all2_mono [OF that]) (simp add: entry_at_def)
  show "matched (sq_pending_decision_for dv sg p) (mem_pending_decision_for sg p) (mirrors dv) s m"
    unfolding sq_pending_decision_for_def
  proof (rule match_query [OF rel], intro exI conjI allI)
    fix t n u assume t: "tables_mirror dv t m"
    let ?P = "\<lambda>r. jr_signal r = ulid_to_bytes (dv_ulid dv) sg \<and> jr_peer r = p \<and> jr_outcome r = ''pending''"
      and ?P' = "\<lambda>e. je_signal e = sg \<and> je_peer e = p \<and> \<not> is_resolved (je_outcome e)"
    have "rel_option (entry_at dv) (find ?P (tb_journal t)) (find ?P' (ms_journal m))"
      by (rule find_related [OF mirror_parts(5) [OF t]]) (use pend keyed_inj [OF dv] in \<open>auto simp: entry_at_def\<close>)
    then have "rel_option (\<lambda>row e. row_to_journal dv row = Inr e) (find ?P (tb_journal t)) (find ?P' (ms_journal m))"
      by (rule option.rel_mono_strong) (simp add: entry_at_def)
    then show "decode_row (row_to_journal dv) (first_row (sort_by oldest_first (dv_scan dv n (filter ?P (tb_journal t))))) u = (Inr (find ?P' (ms_journal m)), u)"
      unfolding scan_in_order [OF dv t] first_row_filter by (rule decode_row_related)
  qed (use ok in \<open>simp_all add: mem_ops\<close>)
  show "matched (sq_expired_decisions dv d k) (mem_expired_decisions d k) (mirrors dv) s m" if fit: "in_i64 d" "k < 2 ^ 63"
    unfolding sq_expired_decisions_def
  proof (rule match_query [OF rel], intro exI conjI allI)
    fix t n u assume t: "tables_mirror dv t m"
    let ?P = "\<lambda>r. jr_outcome r = ''pending'' \<and> sint (jr_decided_at_ns r) < sint (to_i64 d)"
      and ?P' = "\<lambda>e. \<not> is_resolved (je_outcome e) \<and> je_decided_at_ns e < d"
    have "list_all2 (entry_at dv) (filter ?P (tb_journal t)) (filter ?P' (ms_journal m))"
      by (rule filter_related [OF mirror_parts(5) [OF t]]) (use pend fit(1) in \<open>auto simp: entry_at_def\<close>)
    from decode [OF take_related [OF this]]
    show "op_of (decode_rows (row_to_journal dv) (sql_limit (to_i64 (of_nat k)) (sort_by oldest_first (dv_scan dv n (filter ?P (tb_journal t)))))) u =
        (Inr (take k (filter ?P' (ms_journal m))), u)"
      unfolding scan_in_order [OF dv t] sql_limit_take [OF fit(2)] by (simp add: op_of_def)
  qed (use ok in \<open>simp_all add: mem_ops\<close>)
  show "matched (sq_recent_decisions dv ty k) (mem_recent_decisions ty k) (mirrors dv) s m" if k: "k < 2 ^ 63"
    unfolding sq_recent_decisions_def
  proof (rule match_query [OF rel], intro exI conjI allI)
    fix t n u assume t: "tables_mirror dv t m"
    let ?P = "\<lambda>r. case ty of Some want \<Rightarrow> jr_signal_type r = signal_type_to_str want | None \<Rightarrow> True"
      and ?P' = "\<lambda>e. case ty of None \<Rightarrow> True | Some want \<Rightarrow> je_signal_type e = want"
      and ?cmp = "\<lambda>a b. cmp_of (je_decided_at_ns b) (je_decided_at_ns a)"
    have "list_all2 (entry_at dv) (filter ?P (tb_journal t)) (filter ?P' (ms_journal m))"
      by (rule filter_related [OF mirror_parts(5) [OF t]]) (auto simp: entry_at_def split: option.split)
    then have "list_all2 (entry_at dv) (sort_by newest_first (filter ?P (tb_journal t))) (sort_by ?cmp (filter ?P' (ms_journal m)))"
    proof -
      have es: "sorted_wrt (\<lambda>a b. je_decided_at_ns a < je_decided_at_ns b) (ms_journal m)"
        using mirror_parts(6) [OF t] by (simp add: in_order_def)
      note rows = entry_times [OF mirror_parts(5) [OF t] es]
      have "sort_by newest_first (filter ?P (tb_journal t)) = rev (filter ?P (tb_journal t))"
        by (rule sort_ascending [where time = "\<lambda>r. - sint (jr_decided_at_ns r)"])
          (use rows in \<open>auto simp: newest_first_def int_cmp_def then_with_neq_Greater sorted_wrt_rev sorted_wrt_filter\<close>)
      moreover have "sort_by ?cmp (filter ?P' (ms_journal m)) = rev (filter ?P' (ms_journal m))"
        by (rule sort_ascending [where time = "\<lambda>e. - uint (je_decided_at_ns e)"])
          (use es in \<open>auto simp: sorted_wrt_rev sorted_wrt_filter word_less_def word_le_def\<close>)
      moreover assume "list_all2 (entry_at dv) (filter ?P (tb_journal t)) (filter ?P' (ms_journal m))"
      ultimately show ?thesis by (simp only: list_all2_rev)
    qed
    from decode [OF take_related [OF this]]
    show "op_of (decode_rows (row_to_journal dv) (sql_limit (to_i64 (of_nat k)) (sort_by newest_first (filter ?P (tb_journal t))))) u =
        (Inr (take k (sort_by ?cmp (filter ?P' (ms_journal m)))), u)"
      unfolding sql_limit_take [OF k] by (simp add: op_of_def)
  qed (use ok in \<open>simp_all add: mem_recent_decisions_def locked_def\<close>)
  show "matched (sq_trim_journal dv d) (mem_trim_journal d) (mirrors dv) s m" if d: "in_i64 d" unfolding sq_trim_journal_def
  proof (rule match_execute [OF rel])
    fix t assume t: "tables_mirror dv t m"
    let ?P = "\<lambda>r. \<not> sint (jr_decided_at_ns r) < sint (to_i64 d)" and ?P' = "\<lambda>e. d \<le> je_decided_at_ns e"
    have kept: "list_all2 (entry_at dv) (filter ?P (tb_journal t)) (filter ?P' (ms_journal m))"
      by (rule filter_related [OF mirror_parts(5) [OF t]]) (use d in \<open>auto simp: entry_at_def not_less\<close>)
    have "in_order (ms_next_journal_id m) (filter ?P' (ms_journal m))"
      using mirror_parts(6) [OF t] by (auto simp: in_order_def sorted_wrt_filter distinct_map_filter)
    then have "tables_mirror dv (t\<lparr>tb_journal := filter ?P (tb_journal t)\<rparr>) (m\<lparr>ms_journal := filter ?P' (ms_journal m)\<rparr>)"
      using t kept by (simp add: tables_mirror_def)
    then show "\<exists>x t' m'. (let kept = filter ?P (tb_journal t) in Inr (of_nat (length (tb_journal t) - length kept), t\<lparr>tb_journal := kept\<rparr>)) = Inr (x, t') \<and>
        mem_trim_journal d m = (Inr x, m') \<and> tables_mirror dv t' m' \<and> ms_poisoned m' = {} \<and> ms_retain_history m' = ms_retain_history m"
      using ok list_all2_lengthD [OF kept] list_all2_lengthD [OF mirror_parts(5) [OF t]] by (simp add: mem_trim_journal_def locked_def Let_def)
  qed
qed

end
