(* ===== verification/Sqlite_Equivalence.thy ===== *)
theory Sqlite_Equivalence
  imports Sqlite_Agrees
begin

text \<open>
  The two backends compared: on calls whose values fit the columns they answer alike, call
  after call; and the places where they do not: two synapses to one peer, decisions taken at
  the same instant, times beyond the signed range, and an outcome recorded by a call that
  reports a failure.
\<close>

section \<open>The calls on which the backends agree\<close>

fun fits_columns :: "MemoryStore \<Rightarrow> StoreCall \<Rightarrow> bool" where
  "fits_columns m (PutSynapse r) \<longleftrightarrow> storable_synapse r \<and>
     (\<forall>(k, x) \<in> set (ms_synapses m). k \<noteq> sr_id r \<longrightarrow> sr_peer x \<noteq> sr_peer r)"
| "fits_columns m (ListSynapses f) \<longleftrightarrow> fits_filter f"
| "fits_columns m (PutPeer p) \<longleftrightarrow> in_i64 (pr_last_seen_ns p)"
| "fits_columns m (ListPeers region k) \<longleftrightarrow> k < 2 ^ 63"
| "fits_columns m (CountPeers src) \<longleftrightarrow> length (ms_peers m) < 2 ^ 63"
| "fits_columns m (CheckSeen i now ttl) \<longleftrightarrow> in_i64 now \<and> in_i64 (seen_expiry now ttl)"
| "fits_columns m (HasSeen i now) \<longleftrightarrow> in_i64 now"
| "fits_columns m (PurgeExpired now) \<longleftrightarrow> in_i64 now"
| "fits_columns m (SaveActivation sn) \<longleftrightarrow> storable_snapshot sn"
| "fits_columns m (AppendDecision e) \<longleftrightarrow> storable_entry e \<and> ms_next_journal_id m < i64_max \<and>
     (\<forall>x \<in> set (ms_journal m). je_decided_at_ns x < je_decided_at_ns e)"
| "fits_columns m (ResolveDecision i out now) \<longleftrightarrow> in_i64 i \<and> in_i64 now \<or> \<not> in_i64 i \<and> ms_next_journal_id m < i64_max"
| "fits_columns m (RecordInfluence p x now start) \<longleftrightarrow> False"
| "fits_columns m (InfluenceSince p start) \<longleftrightarrow> False"
| "fits_columns m (PurgeInfluence older) \<longleftrightarrow> False"
| "fits_columns m (ExpiredDecisions d k) \<longleftrightarrow> in_i64 d \<and> k < 2 ^ 63"
| "fits_columns m (RecentDecisions ty k) \<longleftrightarrow> k < 2 ^ 63"
| "fits_columns m (TrimJournal d) \<longleftrightarrow> in_i64 d"
| "fits_columns m c \<longleftrightarrow> True"

lemma sqlite_api_simps [simp]:
  "st_migrate (sqlite_api dv) = sq_migrate dv" "st_flush (sqlite_api dv) = sq_flush dv"
  "st_put_synapse (sqlite_api dv) = sq_put_synapse dv" "st_get_synapse (sqlite_api dv) = sq_get_synapse dv"
  "st_synapse_for_peer (sqlite_api dv) = sq_synapse_for_peer dv" "st_list_synapses (sqlite_api dv) = sq_list_synapses dv"
  "st_delete_synapse (sqlite_api dv) = sq_delete_synapse dv" "st_put_peer (sqlite_api dv) = sq_put_peer dv"
  "st_get_peer (sqlite_api dv) = sq_get_peer dv" "st_list_peers (sqlite_api dv) = sq_list_peers dv"
  "st_count_peers (sqlite_api dv) = sq_count_peers dv" "st_check_and_set_seen (sqlite_api dv) = sq_check_and_set_seen dv"
  "st_has_seen (sqlite_api dv) = sq_has_seen dv" "st_purge_expired_seen (sqlite_api dv) = sq_purge_expired_seen dv"
  "st_save_activation (sqlite_api dv) = sq_save_activation dv" "st_load_activation (sqlite_api dv) = sq_load_activation dv"
  "st_append_decision (sqlite_api dv) = sq_append_decision dv" "st_resolve_decision (sqlite_api dv) = sq_resolve_decision dv"
  "st_pending_decision_for (sqlite_api dv) = sq_pending_decision_for dv"
  "st_expired_decisions (sqlite_api dv) = sq_expired_decisions dv" "st_recent_decisions (sqlite_api dv) = sq_recent_decisions dv"
  "st_trim_journal (sqlite_api dv) = sq_trim_journal dv" "st_put_meta (sqlite_api dv) = sq_put_meta dv"
  "st_get_meta (sqlite_api dv) = sq_get_meta dv" "st_put_signal_history (sqlite_api dv) = sq_put_signal_history dv"
  "st_get_signal_history (sqlite_api dv) = sq_get_signal_history dv" "st_signal_history_enabled (sqlite_api dv) = sq_signal_history_enabled"
  "st_record_influence (sqlite_api dv) = sq_record_influence dv" "st_influence_since (sqlite_api dv) = sq_influence_since dv"
  "st_purge_influence (sqlite_api dv) = sq_purge_influence dv"
  by (simp_all add: sqlite_api_def)

lemma memory_api_more [simp]:
  "st_delete_synapse memory_api = mem_delete_synapse" "st_get_peer memory_api = mem_get_peer" "st_list_peers memory_api = mem_list_peers"
  "st_count_peers memory_api = mem_count_peers" "st_trim_journal memory_api = mem_trim_journal"
  "st_put_signal_history memory_api = mem_put_signal_history" "st_get_signal_history memory_api = mem_get_signal_history"
  "st_signal_history_enabled memory_api = mem_signal_history_enabled" "st_purge_influence memory_api = mem_purge_influence"
  by (simp_all add: memory_api_def)

lemmas match_calls = match_upkeep match_put_synapse match_get_synapse match_list_synapses match_delete_synapse match_put_peer match_peers
  match_check_seen match_seen match_activation match_append match_resolve match_resolve_unknown match_decisions match_meta match_history

interpretation sqlite: backend_simulation "sqlite_api dv" memory_api "mirrors dv" fits_columns for dv
proof
  fix s m c assume rel: "mirrors dv s m" and fit: "fits_columns m c"
  show "matched (perform (sqlite_api dv) c) (perform memory_api c) (mirrors dv) s m"
  proof (cases c)
    case HistoryEnabled
    then show ?thesis using rel
      by (simp add: matched_def answer_def sq_signal_history_enabled_def mem_signal_history_enabled_def mirrors_def)
  next
    case (ResolveDecision i out now)
    then show ?thesis using fit by (auto intro: matched_answer match_calls [OF rel])
  qed (use fit in \<open>simp_all add: matched_answer match_calls [OF rel]\<close>)
qed


section \<open>A concrete driver\<close>

lemma bytes_fold:
  "foldl (\<lambda>acc b. 256 * acc + ucast (b :: u8)) (of_nat a) (map (\<lambda>k. of_nat (n div 256 ^ k)) (rev [0..<m])) =
     (of_nat (a * 256 ^ m + n mod 256 ^ m) :: u128)"
proof (induction m arbitrary: a)
  case (Suc m)
  have "256 * of_nat a + ucast (of_nat (n div 256 ^ m) :: u8) = (of_nat (256 * a + n div 256 ^ m mod 256) :: u128)"
    by (simp add: unsigned_of_nat take_bit_eq_mod)
  moreover have "(256 * a + n div 256 ^ m mod 256) * 256 ^ m + n mod 256 ^ m = a * 256 ^ Suc m + n mod 256 ^ Suc m"
    by (simp add: algebra_simps mod_mult2_eq [of n "256 ^ m" 256, simplified mult.commute])
  ultimately show ?case using Suc.IH [of "256 * a + n div 256 ^ m mod 256"] by simp
qed simp

lemma plain_ulid_bytes: "length (ulid_to_bytes plain_ulid i) = 16" "ulid_from_bytes plain_ulid (ulid_to_bytes plain_ulid i) = i"
proof -
  show "length (ulid_to_bytes plain_ulid i) = 16" by (simp add: plain_ulid_def)
  have "unat i < 256 ^ 16" using unat_bound [of i] by simp
  then show "ulid_from_bytes plain_ulid (ulid_to_bytes plain_ulid i) = i"
    using bytes_fold [of 0 "unat i" 16] by (simp add: plain_ulid_def)
qed

lemma pairs_text:
  fixes m :: "(string, u64) hashmap"
  defines "flat \<equiv> concat (map (\<lambda>(k, v). [k, replicate (unat v) CHR ''1'']) m)"
  shows "map (\<lambda>i. (flat ! (2 * i), of_nat (length (flat ! (2 * i + 1))))) [0..<length flat div 2] = m"
  unfolding flat_def
proof (induction m)
  case (Cons kv m)
  obtain k v where kv: "kv = (k, v)" by fastforce
  let ?f = "concat (map (\<lambda>(k, v). [k, replicate (unat v) CHR ''1'']) m)"
  have "length ?f = 2 * length m" by (induction m) auto
  then have "[0..<length (k # replicate (unat v) CHR ''1'' # ?f) div 2] = 0 # map Suc [0..<length ?f div 2]"
    by (simp add: upt_conv_Cons map_Suc_upt del: upt_Suc)
  then show ?case using Cons.IH kv by (simp add: comp_def del: upt_Suc)
qed simp

lemma sample_driver_sound: "driver_sound (sample_driver fault plain_ulid)"
  using plain_ulid_bytes pairs_text by (auto simp: driver_sound_def sample_driver_def)

definition sample_sqlite :: SqliteStore where
  "sample_sqlite = fresh_sqlite\<lparr>sq_db := upgraded (sq_db fresh_sqlite)\<rparr>"

lemma sample_mirrors: "mirrors (sample_driver (\<lambda>n. None) plain_ulid) sample_sqlite memory_new"
  using sample_driver_sound [of "\<lambda>n. None"]
  by (simp add: mirrors_def reliable_def sample_sqlite_def fresh_sqlite_def store_on_def memory_new_def upgraded_def empty_tables_def
      tables_mirror_def in_order_def sqlite_config_at_def CURRENT_VERSION_def sample_driver_def)

definition sample_calls :: "StoreCall list" where
  "sample_calls = [Migrate, PutSynapse (sample_record ''a'' [1] (Fin 1)), SynapseForPeer [1], CheckSeen 7 5 60, CheckSeen 7 9 60,
     AppendDecision sample_entry, ResolveDecision 1 Delivered 9, ResolveDecision 1 TimedOut 11, ExpiredDecisions 20 5, TrimJournal 4]"

lemma plain_numbers [simp]: "plain_real (Fin 1)" "plain_real (Fin 0)"
  by (simp_all add: plain_real_def)

lemma sample_calls_fit: "all_fit fits_columns memory_api sample_calls memory_new"
  by (simp add: sample_calls_def answer_def mem_ops mem_migrate_def mem_trim_journal_def memory_new_def storable_synapse_def sample_record_def
      storable_entry_def sample_entry_def i64_max_def seen_expiry_def sat_add_def sat_mul_def Let_def is_resolved_def)


section \<open>Deduplication on disk\<close>

fun fits_event :: "dedup_event \<Rightarrow> bool" where
  "fits_event (Check i now ttl) \<longleftrightarrow> in_i64 now \<and> in_i64 (seen_expiry now ttl)"
| "fits_event (PurgeSeen now) \<longleftrightarrow> in_i64 now"

lemma dedup_run_agrees:
  "mirrors dv s m \<Longrightarrow> \<forall>ev \<in> set evs. fits_event ev \<Longrightarrow> dedup_run (sqlite_api dv) evs s = dedup_run memory_api evs m"
proof (induction evs arbitrary: s m)
  case (Cons ev evs)
  have "\<exists>b s' m'. dedup_step (sqlite_api dv) ev s = (b, s') \<and> dedup_step memory_api ev m = (b, m') \<and> mirrors dv s' m'"
  proof (cases ev)
    case (Check i now ttl)
    then show ?thesis using match_check_seen [OF Cons.prems(1), of now ttl i] Cons.prems(2) by (auto simp: matched_def)
  next
    case (PurgeSeen now)
    then show ?thesis using match_seen(2) [OF Cons.prems(1), of now] Cons.prems(2) by (auto simp: matched_def)
  qed
  then show ?case using Cons by auto
qed simp



section \<open>Failures\<close>

text \<open>Operations that leave the database alone, and those that do when they report an error.\<close>

definition reads_only :: "(SqliteStore, 'a) sop \<Rightarrow> bool" where
  "reads_only f \<longleftrightarrow> (\<forall>s. sq_db (snd (f s)) = sq_db s)"

definition atomic :: "(SqliteStore, 'a) sop \<Rightarrow> bool" where
  "atomic f \<longleftrightarrow> (\<forall>s e. fst (f s) = Inl e \<longrightarrow> sq_db (snd (f s)) = sq_db s)"

lemma reads_atomic: "reads_only f \<Longrightarrow> atomic f"
  by (simp add: reads_only_def atomic_def)

lemma reads_simps [intro]:
  "reads_only (op_of r)" "reads_only (decode_row dec row)" "reads_only (query dv q)"
  "reads_only f \<Longrightarrow> reads_only (with_conn f)" "reads_only f \<Longrightarrow> (\<And>x. reads_only (g x)) \<Longrightarrow> reads_only (op_bind f g)"
  by (auto simp: reads_only_def op_of_def decode_row_def query_def statement_def engine_call_def with_conn_def op_bind_def Let_def sum_then_def
      split: option.splits sum.splits prod.splits) (metis snd_conv)+

lemma atomic_execute [intro]: "atomic (execute dv q)"
  by (auto simp: atomic_def execute_def statement_def engine_call_def Let_def sum_then_def split: option.splits sum.splits prod.splits)

lemma atomic_conn [intro]: "atomic f \<Longrightarrow> atomic (with_conn f)"
  by (auto simp: atomic_def with_conn_def)

lemma atomic_answer [intro]: "atomic f \<Longrightarrow> atomic (answer c f)"
  unfolding atomic_def
proof (intro allI impI)
  fix s e assume f: "\<forall>s e. fst (f s) = Inl e \<longrightarrow> sq_db (snd (f s)) = sq_db s" and "fst (answer c f s) = Inl e"
  then have "fst (f s) = Inl e" by (cases "fst (f s)") (auto simp: answer_def Let_def split: prod.splits)
  then show "sq_db (snd (answer c f s)) = sq_db s" using f by (auto simp: answer_def split: prod.split)
qed

lemma op_bind_result: "op_bind f g s = (case fst (f s) of Inl e \<Rightarrow> (Inl e, snd (f s)) | Inr x \<Rightarrow> g x (snd (f s)))"
  by (simp add: op_bind_def split: prod.split sum.split)

lemma atomic_after_read [intro]: "reads_only f \<Longrightarrow> (\<And>x. atomic (g x)) \<Longrightarrow> atomic (op_bind f g)"
  by (auto simp: reads_only_def atomic_def op_bind_result split: sum.splits)

lemma atomic_map [intro]: "atomic f \<Longrightarrow> atomic (op_bind f (\<lambda>x. op_of (Inr (h x))))"
  by (auto simp: atomic_def op_bind_result op_of_def split: sum.splits)

lemma reading_calls:
  "reads_only (sq_get_synapse dv i)" "reads_only (sq_synapse_for_peer dv p)" "reads_only (sq_list_synapses dv f)"
  "reads_only (sq_get_peer dv p)" "reads_only (sq_list_peers dv region k)" "reads_only (sq_count_peers dv src)"
  "reads_only (sq_has_seen dv sg now)" "reads_only (sq_load_activation dv)" "reads_only (sq_pending_decision_for dv sg p)"
  "reads_only (sq_expired_decisions dv d k)" "reads_only (sq_recent_decisions dv ty k)" "reads_only (sq_get_meta dv key)"
  "reads_only (sq_influence_since dv p start)"
  unfolding sq_influence_since_def sq_get_synapse_def sq_synapse_for_peer_def sq_list_synapses_def sq_get_peer_def sq_list_peers_def sq_count_peers_def
    sq_has_seen_def sq_load_activation_def sq_pending_decision_for_def sq_expired_decisions_def sq_recent_decisions_def sq_get_meta_def
  by (intro reads_simps)+

lemma writing_calls:
  "atomic (sq_put_synapse dv r)" "atomic (sq_delete_synapse dv i)" "atomic (sq_put_peer dv p)" "atomic (sq_check_and_set_seen dv sg now ttl)"
  "atomic (sq_purge_expired_seen dv now)" "atomic (sq_save_activation dv sn)" "atomic (sq_append_decision dv e)"
  "atomic (sq_trim_journal dv d)" "atomic (sq_put_meta dv key v)" "atomic (sq_flush dv)"
  "atomic (sq_purge_influence dv d)"
proof -
  show "atomic (sq_append_decision dv e)"
    unfolding sq_append_decision_def by (intro atomic_conn atomic_map atomic_execute)
  show "atomic (sq_check_and_set_seen dv sg now ttl)"
    unfolding sq_check_and_set_seen_def Let_def by (intro atomic_conn atomic_map atomic_execute)
  show "atomic (sq_flush dv)"
    by (auto simp: atomic_def sq_flush_def with_conn_def pragma_def engine_call_def Let_def split: option.splits)
qed (unfold sq_put_synapse_def sq_delete_synapse_def sq_put_peer_def sq_purge_expired_seen_def sq_save_activation_def
    sq_trim_journal_def sq_put_meta_def sq_purge_influence_def, (intro atomic_after_read atomic_conn atomic_execute reads_simps)+)

lemma history_calls: "atomic (\<lambda>s. (Inr (sq_signal_history_enabled s), s))" "atomic (sq_put_signal_history dv i body now)" "atomic (sq_get_signal_history dv i)"
proof -
  show "atomic (\<lambda>s. (Inr (sq_signal_history_enabled s), s))" by (simp add: atomic_def)
  show "atomic (sq_put_signal_history dv i body now)"
    using atomic_conn [OF atomic_execute] by (auto simp: atomic_def sq_put_signal_history_def)
  show "atomic (sq_get_signal_history dv i)"
    using reads_atomic [OF reads_simps(4) [OF reads_simps(3)]] by (auto simp: atomic_def sq_get_signal_history_def)
qed

text \<open>
  C16: A call that fails has done nothing. Whatever the engine fails and whatever the values
  are, a call that reports an error leaves every row as it was, with three exceptions: a
  migration that was interrupted, which may have been applied in part, and the recording of
  an outcome or of influence, which are two statements each.
\<close>

theorem failed_call_is_harmless:
  assumes "c \<noteq> Migrate" "\<forall>i out now. c \<noteq> ResolveDecision i out now" "\<forall>p x now start. c \<noteq> RecordInfluence p x now start" "perform (sqlite_api dv) c s = (Inl e, s')"
  shows "sq_db s' = sq_db s"
proof -
  have "atomic (perform (sqlite_api dv) c)"
    by (cases c) (use assms(1-3) reading_calls [THEN reads_atomic] writing_calls history_calls in \<open>auto intro: atomic_answer\<close>)
  then show ?thesis using assms(4) unfolding atomic_def by (metis fst_conv snd_conv)
qed

text \<open>A synapse whose weight is not a number is refused: the column is \<open>NOT NULL\<close>.\<close>

lemma failed_call_is_harmless_witness:
  "\<exists>s'. perform (sqlite_api (sample_driver (\<lambda>n. None) plain_ulid)) (PutSynapse (sample_record ''a'' [1] FNaN)) sample_sqlite =
     (Inl (WriteFailed ''NOT NULL constraint failed: synapses.weight''), s') \<and> sq_db s' = sq_db sample_sqlite"
proof -
  let ?dv = "sample_driver (\<lambda>n. None) plain_ulid" and ?c = "PutSynapse (sample_record ''a'' [1] FNaN)"
  let ?s = "sample_sqlite\<lparr>sq_count := 1\<rparr>"
  have run: "perform (sqlite_api ?dv) ?c sample_sqlite = (Inl (WriteFailed ''NOT NULL constraint failed: synapses.weight''), ?s)"
    by (simp add: answer_def sq_put_synapse_def sample_driver_def op_bind_def op_of_def with_conn_def execute_def statement_def engine_call_def
        sample_sqlite_def fresh_sqlite_def store_on_def upgraded_def empty_tables_def synapse_rows_def synapse_to_row_def real_column_def
        sample_record_def write_err_def Let_def)
  show ?thesis using run failed_call_is_harmless [OF _ _ _ run] by blast
qed

text \<open>
  C40: An outcome can be recorded by a call that reports a failure. Resolving is an update
  followed by a query, outside a transaction: when the engine fails the query, the caller is
  told that the store is unavailable, yet the decision is resolved for good. The node then
  never applies the reward, and a later receipt changes nothing.
\<close>

theorem outcome_recorded_on_failure:
  assumes t: "db_tables (sq_db s) = Some t" "\<not> sq_poisoned s" and faults: "dv_fault dv (sq_count s) = None" "dv_fault dv (sq_count s + 1) = Some msg"
    and out: "is_resolved out"
  shows "\<exists>s' t'. sq_resolve_decision dv i out now s = (Inl (Unavailable msg), s') \<and> db_tables (sq_db s') = Some t' \<and>
    tb_journal t' = map (resolve_row i out now) (tb_journal t) \<and>
    (\<forall>out' now'. map (resolve_row i out' now') (tb_journal t') = tb_journal t')"
proof -
  let ?t = "t\<lparr>tb_journal := map (resolve_row i out now) (tb_journal t)\<rparr>"
  have settled: "resolve_row i out' now' (resolve_row i out now r) = resolve_row i out now r" for out' now' r
    using out text_inj(3) [of out Pending] by (auto simp: resolve_row_def outcome_to_str_def is_resolved_def)
  have "sq_resolve_decision dv i out now s = (Inl (Unavailable msg), s\<lparr>sq_count := sq_count s + 2, sq_db := (sq_db s)\<lparr>db_tables := Some ?t\<rparr>\<rparr>)"
    using t faults by (simp add: sq_resolve_decision_def with_conn_def op_bind_def execute_def query_def statement_def engine_call_def read_err_def)
  then show ?thesis using settled by (intro exI [of _ "s\<lparr>sq_count := sq_count s + 2, sq_db := (sq_db s)\<lparr>db_tables := Some ?t\<rparr>\<rparr>"] exI [of _ ?t]) simp
qed

lemma outcome_recorded_on_failure_witness:
  "let dv = sample_driver (\<lambda>n. if n = 2 then Some ''disk I/O error'' else None) plain_ulid;
       s1 = snd (sq_append_decision dv sample_entry sample_sqlite)
   in \<exists>s2. sq_resolve_decision dv 1 Delivered 9 s1 = (Inl (Unavailable ''disk I/O error''), s2)"
proof -
  let ?dv = "sample_driver (\<lambda>n. if n = 2 then Some ''disk I/O error'' else None) plain_ulid"
  let ?s1 = "snd (sq_append_decision ?dv sample_entry sample_sqlite)"
  obtain t where "db_tables (sq_db ?s1) = Some t" "\<not> sq_poisoned ?s1" "sq_count ?s1 = 1"
    by (simp add: sq_append_decision_def sample_driver_def op_bind_def op_of_def with_conn_def execute_def statement_def engine_call_def
        sample_sqlite_def fresh_sqlite_def store_on_def upgraded_def empty_tables_def journal_to_row_def real_column_def
        sample_entry_def write_err_def Let_def i64_max_def)
  then show ?thesis
    using outcome_recorded_on_failure [of ?s1 t ?dv "''disk I/O error''" Delivered 1 9]
    by (auto simp: Let_def sample_driver_def is_resolved_def)
qed

section \<open>Where the backends differ\<close>

lemma related_record: "list_all2 Q rows xs \<Longrightarrow> x \<in> set xs \<Longrightarrow> \<exists>r \<in> set rows. Q r x"
  by (induction rule: list_all2_induct) auto

lemma update_keeps: "(k, x) \<in> set xs \<Longrightarrow> k \<noteq> k' \<Longrightarrow> (k, x) \<in> set (AList.update k' v xs)"
  by (induction xs) auto

text \<open>
  The disk store holds one synapse per peer. A record under a new identifier for a peer
  that has one is refused with a write error and nothing changes, while the in-memory
  backend takes it and holds two.
\<close>

theorem second_synapse_refused:
  assumes rel: "mirrors dv s m" and r: "storable_synapse r" and other: "(k, x) \<in> set (ms_synapses m)" "k \<noteq> sr_id r" "sr_peer x = sr_peer r"
  shows "(\<exists>s'. sq_put_synapse dv r s = (Inl (WriteFailed ''UNIQUE constraint failed: synapses.peer''), s') \<and> sq_db s' = sq_db s) \<and>
    (\<exists>m'. mem_put_synapse r m = (Inr (), m') \<and> map_of (ms_synapses m') (sr_id r) = Some r \<and> (k, x) \<in> set (ms_synapses m'))"
proof
  obtain t where t: "db_tables (sq_db s) = Some t" "tables_mirror dv t m" "\<not> sq_poisoned s" "dv_fault dv (sq_count s) = None"
    using rel by (auto simp: mirrors_def reliable_def)
  obtain a row where row: "dv_map_to_json dv (sr_type_affinity r) = Inr a" "synapse_to_row dv r a = Inr row" "yr_id row = sr_id r" "yr_peer row = sr_peer r"
    using synapse_row_roundtrip [OF _ r] mirrors_parts [OF rel] by metis
  obtain old where "old \<in> set (tb_synapses t)" "synapse_at dv old (k, x)" using related_record [OF mirror_parts(2) [OF t(2)] other(1)] by blast
  then have clash: "list_ex (\<lambda>x. yr_id x \<noteq> yr_id row \<and> yr_peer x = yr_peer row) (tb_synapses t)"
    using other(2,3) row(3,4) by (auto simp: synapse_at_def list_ex_iff)
  show "\<exists>s'. sq_put_synapse dv r s = (Inl (WriteFailed ''UNIQUE constraint failed: synapses.peer''), s') \<and> sq_db s' = sq_db s"
    using t(1,3,4) row(1,2) clash synapse_rows_mirror [OF t(2)]
    by (intro exI [of _ "s\<lparr>sq_count := sq_count s + 1\<rparr>"])
      (simp add: sq_put_synapse_def op_bind_def op_of_def with_conn_def execute_def statement_def engine_call_def write_err_def Let_def)
  show "\<exists>m'. mem_put_synapse r m = (Inr (), m') \<and> map_of (ms_synapses m') (sr_id r) = Some r \<and> (k, x) \<in> set (ms_synapses m')"
    using mirrors_parts [OF rel] update_keeps [OF other(1,2)] by (simp add: mem_ops update_conv')
qed

lemma second_synapse_refused_witness:
  "let dv = sample_driver (\<lambda>n. None) plain_ulid; r = sample_record ''b'' [1] (Fin 1);
       s = snd (sq_put_synapse dv (sample_record ''a'' [1] (Fin 1)) sample_sqlite)
   in \<exists>s'. sq_put_synapse dv r s = (Inl (WriteFailed ''UNIQUE constraint failed: synapses.peer''), s') \<and> sq_db s' = sq_db s"
proof -
  let ?dv = "sample_driver (\<lambda>n. None) plain_ulid" and ?a = "sample_record ''a'' [1] (Fin 1)" and ?b = "sample_record ''b'' [1] (Fin 1)"
  have ok: "storable_synapse ?a" "storable_synapse ?b" by (simp_all add: storable_synapse_def sample_record_def)
  have "matched (sq_put_synapse ?dv ?a) (mem_put_synapse ?a) (mirrors ?dv) sample_sqlite memory_new"
    by (rule match_put_synapse [OF sample_mirrors ok(1)]) (simp add: memory_new_def)
  moreover have "mem_put_synapse ?a memory_new = (Inr (), memory_new\<lparr>ms_synapses := [(''a'', ?a)]\<rparr>)"
    by (simp add: mem_ops memory_new_def sample_record_def)
  ultimately have rel: "mirrors ?dv (snd (sq_put_synapse ?dv ?a sample_sqlite)) (memory_new\<lparr>ms_synapses := [(''a'', ?a)]\<rparr>)"
    by (auto simp: matched_def)
  have "(''a'', ?a) \<in> set (ms_synapses (memory_new\<lparr>ms_synapses := [(''a'', ?a)]\<rparr>))" by simp
  from second_synapse_refused [OF rel ok(2) this] show ?thesis by (simp add: sample_record_def Let_def)
qed

lemma append_row:
  assumes "dv_fault dv (sq_count s) = None" "\<not> sq_poisoned s" "db_tables (sq_db s) = Some t" "tb_journal_seq t \<noteq> i64_max"
    and "journal_to_row dv (tb_journal_seq t + 1) e = Inr row"
  shows "sq_append_decision dv e s = (Inr (from_i64 (tb_journal_seq t + 1)), s\<lparr>sq_count := sq_count s + 1, sq_db := (sq_db s)\<lparr>db_tables :=
     Some (t\<lparr>tb_journal := tb_journal t @ [row], tb_journal_seq := tb_journal_seq t + 1\<rparr>)\<rparr>\<rparr>)"
  using assms by (simp add: sq_append_decision_def with_conn_def op_bind_def op_of_def execute_def statement_def engine_call_def Let_def)

text \<open>
  Decisions of the same instant come back in opposite orders. Of two decisions journalled
  at one clock reading, the disk store lists the later one first among the recent ones, the
  in-memory store the earlier one: with a limit of one the two backends report different
  decisions.
\<close>

theorem same_instant_reversed:
  assumes rel: "mirrors dv s m" and fresh: "ms_journal m = []" "ms_next_journal_id m = 0"
    and e: "storable_entry e1" "storable_entry e2" "je_decided_at_ns e1 = je_decided_at_ns e2"
  shows "answers (sqlite_api dv) [AppendDecision e1, AppendDecision e2, RecentDecisions None 1] s =
      [Inr (Issued 1), Inr (Issued 2), Inr (Entries [e2\<lparr>je_id := Some 2\<rparr>])] \<and>
    answers memory_api [AppendDecision e1, AppendDecision e2, RecentDecisions None 1] m =
      [Inr (Issued 1), Inr (Issued 2), Inr (Entries [e1\<lparr>je_id := Some 1\<rparr>])]"
proof
  have dv: "driver_sound dv" and p: "ms_poisoned m = {}" using mirrors_parts [OF rel] by simp_all
  obtain t where t: "db_tables (sq_db s) = Some t" "tables_mirror dv t m" "\<not> sq_poisoned s" and f: "\<And>n. dv_fault dv n = None"
    using rel by (auto simp: mirrors_def reliable_def)
  have none: "tb_journal t = []" "tb_journal_seq t = 0" using t(2) fresh by (auto simp: tables_mirror_def)
  have one: "in_i64 1" "in_i64 2" "(1 :: i64) \<noteq> i64_max" "(0 :: i64) \<noteq> i64_max" by (simp_all add: i64_max_def)
  obtain r1 where r1: "journal_to_row dv 1 e1 = Inr r1" "row_to_journal dv r1 = Inr (e1\<lparr>je_id := Some 1\<rparr>)" "jr_id r1 = 1"
    "jr_decided_at_ns r1 = to_i64 (je_decided_at_ns e1)" using journal_row_roundtrip [OF dv e(1) one(1)] by metis
  obtain r2 where r2: "journal_to_row dv 2 e2 = Inr r2" "row_to_journal dv r2 = Inr (e2\<lparr>je_id := Some 2\<rparr>)" "jr_id r2 = 2"
    "jr_decided_at_ns r2 = to_i64 (je_decided_at_ns e2)" using journal_row_roundtrip [OF dv e(2) one(2)] by metis
  let ?s1 = "s\<lparr>sq_count := sq_count s + 1, sq_db := (sq_db s)\<lparr>db_tables := Some (t\<lparr>tb_journal := [r1], tb_journal_seq := 1\<rparr>)\<rparr>\<rparr>"
  let ?s2 = "s\<lparr>sq_count := sq_count s + 2, sq_db := (sq_db s)\<lparr>db_tables := Some (t\<lparr>tb_journal := [r1, r2], tb_journal_seq := 2\<rparr>)\<rparr>\<rparr>"
  have a1: "sq_append_decision dv e1 s = (Inr 1, ?s1)"
    using append_row [of dv s t e1 r1] f t none one r1(1) by (simp add: from_i64_def)
  have a2: "sq_append_decision dv e2 ?s1 = (Inr 2, ?s2)"
    using append_row [of dv ?s1 "t\<lparr>tb_journal := [r1], tb_journal_seq := 1\<rparr>" e2 r2] f t one r2(1) by (simp add: from_i64_def)
  have "sort_by newest_first [r1, r2] = [r2, r1]"
    using r1(3,4) r2(3,4) e(3) by (simp add: newest_first_def then_with_def int_cmp_def)
  then have a3: "fst (sq_recent_decisions dv None 1 ?s2) = Inr [e2\<lparr>je_id := Some 2\<rparr>]"
    using f t(3) r2(2) sql_limit_take [of 1 "[r2, r1]"]
    by (simp add: sq_recent_decisions_def with_conn_def op_bind_def op_of_def query_def statement_def engine_call_def)
  then obtain s3 where s3: "sq_recent_decisions dv None 1 ?s2 = (Inr [e2\<lparr>je_id := Some 2\<rparr>], s3)"
    by (cases "sq_recent_decisions dv None 1 ?s2") simp
  show "answers (sqlite_api dv) [AppendDecision e1, AppendDecision e2, RecentDecisions None 1] s =
      [Inr (Issued 1), Inr (Issued 2), Inr (Entries [e2\<lparr>je_id := Some 2\<rparr>])]"
    by (simp only: answers.simps perform.simps sqlite_api_simps answer_def a1 a2 s3 Let_def prod.case map_sum.simps id_apply)
  show "answers memory_api [AppendDecision e1, AppendDecision e2, RecentDecisions None 1] m =
      [Inr (Issued 1), Inr (Issued 2), Inr (Entries [e1\<lparr>je_id := Some 1\<rparr>])]"
    using p fresh e(3) by (simp add: answer_def mem_ops mem_recent_decisions_def Let_def)
qed

lemma same_instant_reversed_witness:
  "answers (sqlite_api (sample_driver (\<lambda>n. None) plain_ulid)) [AppendDecision sample_entry, AppendDecision sample_entry, RecentDecisions None 1] sample_sqlite \<noteq>
   answers memory_api [AppendDecision sample_entry, AppendDecision sample_entry, RecentDecisions None 1] memory_new"
proof -
  have e: "storable_entry sample_entry" by (simp add: storable_entry_def sample_entry_def i64_max_def)
  have "ms_journal memory_new = []" "ms_next_journal_id memory_new = 0" by (simp_all add: memory_new_def)
  from same_instant_reversed [OF sample_mirrors this e e refl] show ?thesis by (simp add: sample_entry_def)
qed

end
