(* ===== verification/Conformance.thy ===== *)
theory Conformance
  imports Sqlite_Equivalence
begin

text \<open>
  The conformance suite for storage backends (\<open>runtime/ntl-core/src/store/conformance.rs\<close>).
  A check of the suite is a script: calls of the storage interface, each continued according
  to its answer, ending or panicking with the message of the first requirement violated. The
  suite is run on the in-memory backend and, through the agreement of the two backends, on
  \<open>SQLite\<close>.
\<close>

section \<open>Scripts\<close>

datatype script = Finish | Panics string | Ask StoreCall "StoreError + StoreAnswer \<Rightarrow> script"

primrec run_script :: "'m store_api \<Rightarrow> script \<Rightarrow> 'm \<Rightarrow> (string + unit) \<times> 'm" where
  "run_script api Finish m = (Inr (), m)"
| "run_script api (Panics msg) m = (Inl msg, m)"
| "run_script api (Ask c k) m = (let (r, m') = perform api c m in run_script api (k r) m')"

primrec script_then :: "script \<Rightarrow> script \<Rightarrow> script" where
  "script_then Finish q = q"
| "script_then (Panics msg) q = Panics msg"
| "script_then (Ask c k) q = Ask c (\<lambda>r. script_then (k r) q)"

text \<open>\<open>expect\<close>, and \<open>assert!\<close>.\<close>

definition expect :: "StoreCall \<Rightarrow> string \<Rightarrow> (StoreAnswer \<Rightarrow> script) \<Rightarrow> script" where
  "expect c msg k = Ask c (\<lambda>r. case r of Inl e \<Rightarrow> Panics msg | Inr a \<Rightarrow> k a)"

definition check :: "bool \<Rightarrow> string \<Rightarrow> script \<Rightarrow> script" where
  "check b msg p = (if b then p else Panics msg)"

text \<open>The value inside an answer.\<close>

fun the_synapse :: "StoreAnswer \<Rightarrow> SynapseRecord option" where
  "the_synapse (OneSynapse q) = q" | "the_synapse a = None"
fun the_synapses :: "StoreAnswer \<Rightarrow> SynapseRecord list" where
  "the_synapses (Synapses rs) = rs" | "the_synapses a = []"
fun the_peer :: "StoreAnswer \<Rightarrow> PeerRecord option" where
  "the_peer (OnePeer q) = q" | "the_peer a = None"
fun the_peers :: "StoreAnswer \<Rightarrow> PeerRecord list" where
  "the_peers (Peers ps) = ps" | "the_peers a = []"
fun the_count :: "StoreAnswer \<Rightarrow> u64" where
  "the_count (Count n) = n" | "the_count a = 0"
fun the_flag :: "StoreAnswer \<Rightarrow> bool" where
  "the_flag (Flag b) = b" | "the_flag a = False"
fun the_snapshot :: "StoreAnswer \<Rightarrow> ActivationSnapshot option" where
  "the_snapshot (OneSnapshot q) = q" | "the_snapshot a = None"
fun the_issued :: "StoreAnswer \<Rightarrow> JournalId" where
  "the_issued (Issued i) = i" | "the_issued a = 0"
fun the_entry :: "StoreAnswer \<Rightarrow> JournalEntry option" where
  "the_entry (OneEntry q) = q" | "the_entry a = None"
fun the_entries :: "StoreAnswer \<Rightarrow> JournalEntry list" where
  "the_entries (Entries es) = es" | "the_entries a = []"
fun the_amount :: "StoreAnswer \<Rightarrow> flt" where
  "the_amount (Amount x) = x" | "the_amount a = FNaN"
fun the_blob :: "StoreAnswer \<Rightarrow> u8 list option" where
  "the_blob (Blob b) = b" | "the_blob a = None"

section \<open>The data of the suite\<close>

definition SEC :: u64 where
  "SEC = 1000000000"

definition node_n :: "u8 \<Rightarrow> NodeId" where
  "node_n n = replicate 32 n"

definition signal_id :: "ulid_api \<Rightarrow> u64 \<Rightarrow> SignalId" where
  "signal_id ul n = ulid_from_parts ul (1700000000000 + n) (push_bit 64 (ucast n))"

definition synapse_record :: "string \<Rightarrow> u8 \<Rightarrow> flt \<Rightarrow> SynapseRecord" where
  "synapse_record i peer weight = \<lparr>sr_id = i, sr_peer = node_n peer, sr_weight = weight, sr_attenuation_factor = lit (9 / 10),
     sr_state = Active, sr_type_affinity = [], sr_established_at_ns = 1000, sr_last_active_ns = 2000,
     sr_signals_transmitted = 7, sr_signals_received = 3, sr_avg_latency_ns = 1500000, sr_error_rate = lit 0,
     sr_signature_failures = 0, sr_failure_window_start_ns = 0\<rparr>"

definition decision :: "SignalId \<Rightarrow> u8 \<Rightarrow> u64 \<Rightarrow> JournalEntry" where
  "decision signal peer decided = \<lparr>je_id = None, je_signal = signal, je_signal_type = Data, je_synapse = ''syn-a'', je_peer = node_n peer,
     je_score = lit (3 / 4), je_signal_weight = lit (8 / 10), je_explored = False, je_decided_at_ns = decided, je_outcome = Pending,
     je_resolved_at_ns = None\<rparr>"

definition near_to :: "flt \<Rightarrow> flt \<Rightarrow> flt \<Rightarrow> bool" where
  "near_to eps x y \<longleftrightarrow> fl_lt (fl_abs (fl_sub b32 x y)) eps"

section \<open>The checks\<close>

definition migrate_is_idempotent :: script where
  "migrate_is_idempotent =
     expect Migrate ''first migrate'' (\<lambda>_. expect Migrate ''second migrate must be a no-op'' (\<lambda>_. Finish))"

definition synapse_roundtrip :: script where
  "synapse_roundtrip =
    (let base = synapse_record ''syn-roundtrip'' 1 (lit (42 / 100));
         record = base\<lparr>sr_type_affinity := AList.update ''Query'' 11 (sr_type_affinity base)\<rparr>;
         updated = record\<lparr>sr_weight := lit (99 / 100)\<rparr>
     in expect (PutSynapse record) ''put'' (\<lambda>_.
        expect (GetSynapse (sr_id record)) ''get'' (\<lambda>a. case the_synapse a of None \<Rightarrow> Panics ''synapse must exist after put'' | Some fetched \<Rightarrow>
        check (fetched = record) ''synapse must round-trip unchanged'' (
        expect (SynapseForPeer (sr_peer record)) ''by peer'' (\<lambda>a. case the_synapse a of None \<Rightarrow> Panics ''synapse must be reachable by peer'' | Some by_peer \<Rightarrow>
        check (sr_id by_peer = sr_id record) ''by peer'' (
        expect (PutSynapse updated) ''re-put'' (\<lambda>_.
        expect (GetSynapse (sr_id record)) ''get'' (\<lambda>a. case the_synapse a of None \<Rightarrow> Panics ''present'' | Some refetched \<Rightarrow>
        check (near_to f32_epsilon (sr_weight refetched) (lit (99 / 100))) ''put must replace an existing record'' (
        expect (DeleteSynapse (sr_id record)) ''delete'' (\<lambda>_.
        expect (GetSynapse (sr_id record)) ''get'' (\<lambda>a.
        check (the_synapse a = None) ''synapse must be gone after delete'' (
        expect (DeleteSynapse (sr_id record)) ''deleting an absent synapse must not error'' (\<lambda>_. Finish)))))))))))))"

text \<open>The three records of the listing check, put one after the other.\<close>

definition listed :: "nat \<Rightarrow> string \<Rightarrow> SynapseRecord" where
  "listed i name =
    (let r = (synapse_record name (20 + of_nat i) (fl_add b32 (lit (2 / 10)) (fl_mul b32 (lit (3 / 10)) (fl_of_nat b32 i))))
          \<lparr>sr_last_active_ns := 1000 + of_nat i * 1000\<rparr>
     in if i = 0 then r\<lparr>sr_state := Dormant\<rparr> else r)"

definition listing_ids :: "string list" where
  "listing_ids = [''ord-low'', ''ord-mid'', ''ord-high'']"

definition put_all :: "SynapseRecord list \<Rightarrow> script \<Rightarrow> script" where
  "put_all rs p = foldr (\<lambda>r q. expect (PutSynapse r) ''put'' (\<lambda>_. q)) rs p"

definition delete_all :: "SynapseId list \<Rightarrow> script \<Rightarrow> script" where
  "delete_all ids p = foldr (\<lambda>i q. expect (DeleteSynapse i) ''cleanup'' (\<lambda>_. q)) ids p"

definition synapse_listing_is_ordered_and_filtered :: script where
  "synapse_listing_is_ordered_and_filtered =
     put_all (map (\<lambda>(i, name). listed i name) (enumerate 0 listing_ids)) (
     expect (ListSynapses filter_default) ''list all'' (\<lambda>a.
       let ours = filter (\<lambda>s. prefix ''ord-'' (sr_id s)) (the_synapses a) in
     check (length ours = 3) ''all three records must be listed'' (
     check (list_all (\<lambda>(x, y). fl_le (sr_weight y) (sr_weight x)) (zip ours (tl ours))) ''listing must be ordered by weight descending'' (
     expect (ListSynapses filter_active) ''list active'' (\<lambda>a.
     check (list_all (\<lambda>s. sr_state s = Active) (the_synapses a)) ''state filter must exclude non-active synapses'' (
     check (\<not> list_ex (\<lambda>s. sr_id s = ''ord-low'') (the_synapses a)) ''the dormant record must be filtered out'' (
     expect (ListSynapses (filter_default\<lparr>fi_min_weight := Some (lit (7 / 10))\<rparr>)) ''list by weight'' (\<lambda>a.
     check (list_all (\<lambda>s. fl_le (lit (7 / 10)) (sr_weight s)) (the_synapses a)) ''min_weight filter must be respected'' (
     expect (ListSynapses (filter_default\<lparr>fi_last_active_before_ns := Some 2000\<rparr>)) ''list idle'' (\<lambda>a.
     check (list_all (\<lambda>s. sr_last_active_ns s < 2000) (the_synapses a)) ''last_active_before_ns filter must be respected'' (
     expect (ListSynapses (filter_default\<lparr>fi_limit := Some 1\<rparr>)) ''list capped'' (\<lambda>a.
     check (length (the_synapses a) = 1) ''limit must be respected'' (
     delete_all listing_ids Finish)))))))))))))"

definition sample_peer :: PeerRecord where
  "sample_peer = \<lparr>pr_id = node_n 30, pr_addresses = [''ntl://10.0.0.1:4433'', ''ntl://[::1]:4433''], pr_region = Some ''af-south-1'',
     pr_advertised_types = [''Data'', ''Query''], pr_last_seen_ns = 5000, pr_source = Configured\<rparr>"

definition peer_roundtrip :: script where
  "peer_roundtrip =
     expect (PutPeer sample_peer) ''put peer'' (\<lambda>_.
     expect (GetPeer (pr_id sample_peer)) ''get'' (\<lambda>a. case the_peer a of None \<Rightarrow> Panics ''present'' | Some fetched \<Rightarrow>
     check (fetched = sample_peer) ''peer must round-trip unchanged'' (
     expect (ListPeers (Some ''af-south-1'') 10) ''list by region'' (\<lambda>a.
     check (list_ex (\<lambda>p. pr_id p = pr_id sample_peer) (the_peers a)) ''region filter must match the advertised region'' (
     expect (ListPeers (Some ''eu-west-1'') 10) ''list other region'' (\<lambda>a.
     check (list_all (\<lambda>p. pr_id p \<noteq> pr_id sample_peer) (the_peers a)) ''region filter must exclude other regions'' (
     expect (CountPeers Configured) ''count'' (\<lambda>a.
     check (1 \<le> the_count a) ''configured peers must be counted'' Finish))))))))"

definition dedup_is_check_and_set :: "ulid_api \<Rightarrow> script" where
  "dedup_is_check_and_set ul =
    (let i = signal_id ul 101; other = signal_id ul 102; now = 100 * SEC
     in expect (CheckSeen i now 300) ''first check'' (\<lambda>a.
        check (\<not> the_flag a) ''a signal must be reported unseen the first time'' (
        expect (CheckSeen i (now + 1) 300) ''second check'' (\<lambda>a.
        check (the_flag a) ''a signal must be reported seen the second time'' (
        expect (HasSeen i (now + 1)) ''has_seen'' (\<lambda>a.
        check (the_flag a) ''has_seen must agree with check_and_set_seen'' (
        expect (HasSeen other now) ''has_seen'' (\<lambda>a.
        check (\<not> the_flag a) ''has_seen must not report an unrecorded signal as seen'' (
        expect (CheckSeen other now 300) ''check'' (\<lambda>a.
        check (\<not> the_flag a) ''has_seen must not insert'' Finish))))))))))"

definition dedup_entries_expire :: "ulid_api \<Rightarrow> script" where
  "dedup_entries_expire ul =
    (let i = signal_id ul 103; now = 1000 * SEC; ttl_secs = 60; later = now + (ttl_secs + 1) * SEC
     in expect (CheckSeen i now ttl_secs) ''set'' (\<lambda>a.
        check (\<not> the_flag a) ''set'' (
        expect (HasSeen i (now + 30 * SEC)) ''within ttl'' (\<lambda>a.
        check (the_flag a) ''entry must still be seen inside its TTL'' (
        expect (HasSeen i later) ''past ttl'' (\<lambda>a.
        check (\<not> the_flag a) ''entry must expire once its TTL has elapsed'' (
        expect (CheckSeen i later ttl_secs) ''reset'' (\<lambda>a.
        check (\<not> the_flag a) ''an expired entry must behave as absent'' (
        expect (PurgeExpired (later + 1000 * SEC)) ''purge'' (\<lambda>a.
        check (1 \<le> the_count a) ''purge must reclaim expired entries'' Finish))))))))))"

definition activation_roundtrip :: script where
  "activation_roundtrip =
    (let first = \<lparr>sn_potential = lit (4 / 10), sn_threshold = lit (5 / 10), sn_refractory_until_ns = 9000, sn_signals_fired = 3,
           sn_taken_at_ns = 8000\<rparr>;
         second = first\<lparr>sn_potential := lit (9 / 10), sn_taken_at_ns := 9000\<rparr>;
         rest = expect (SaveActivation first) ''save'' (\<lambda>_.
           expect LoadActivation ''load'' (\<lambda>a.
           check (the_snapshot a = Some first) ''snapshot must round-trip unchanged'' (
           expect (SaveActivation second) ''save again'' (\<lambda>_.
           expect LoadActivation ''load'' (\<lambda>a.
           check (the_snapshot a = Some second) ''saving must replace the previous snapshot, not accumulate'' Finish)))))
     in expect LoadActivation ''load'' (\<lambda>a. if the_snapshot a = None then rest
        else expect LoadActivation ''load'' (\<lambda>a.
          check (the_snapshot a \<noteq> None) ''load_activation must not error on an empty store'' rest)))"

definition journal_roundtrip :: "ulid_api \<Rightarrow> script" where
  "journal_roundtrip ul =
    (let signal = signal_id ul 104; entry = decision signal 40 (10 * SEC)
     in expect (AppendDecision entry) ''append'' (\<lambda>a. let i = the_issued a in
        expect (PendingFor signal (node_n 40)) ''pending lookup'' (\<lambda>a. case the_entry a of
            None \<Rightarrow> Panics ''a pending decision must be findable by signal and peer'' | Some pending \<Rightarrow>
        check (je_id pending = Some i) ''the assigned id must be returned'' (
        check (je_outcome pending = Pending) ''pending'' (
        check (fl_eq (je_score pending) (je_score entry)) ''score must round-trip'' (
        check (fl_eq (je_signal_weight pending) (je_signal_weight entry)) ''the carried weight must round-trip'' (
        expect (ResolveDecision i Delivered (11 * SEC)) ''resolve'' (\<lambda>a. case the_entry a of
            None \<Rightarrow> Panics ''resolving a known id must return the entry'' | Some resolved \<Rightarrow>
        check (je_outcome resolved = Delivered) ''resolved'' (
        check (je_resolved_at_ns resolved = Some (11 * SEC)) ''resolved at'' (
        expect (PendingFor signal (node_n 40)) ''pending lookup'' (\<lambda>a.
        check (the_entry a = None) ''a resolved decision must no longer be pending'' (
        expect (RecentDecisions (Some Data) 10) ''recent'' (\<lambda>a.
        check (list_ex (\<lambda>e. je_id e = Some i) (the_entries a)) ''a resolved Data decision must appear in recent decisions for Data'' (
        expect (RecentDecisions (Some Heartbeat) 10) ''recent'' (\<lambda>a.
        check (list_all (\<lambda>e. je_id e \<noteq> Some i) (the_entries a)) ''the signal-type filter must exclude other types'' (
        expect (ResolveDecision (- 1) Delivered (12 * SEC)) ''resolving an unknown id must not error'' (\<lambda>a.
        check (the_entry a = None) ''an unknown journal id must yield None, not an error'' Finish)))))))))))))))))"

definition journal_resolution_is_idempotent :: "ulid_api \<Rightarrow> script" where
  "journal_resolution_is_idempotent ul =
     expect (AppendDecision (decision (signal_id ul 105) 41 (20 * SEC))) ''append'' (\<lambda>a. let i = the_issued a in
     expect (ResolveDecision i Delivered (21 * SEC)) ''first resolve'' (\<lambda>_.
     expect (ResolveDecision i Rejected (22 * SEC)) ''second resolve'' (\<lambda>a. case the_entry a of
         None \<Rightarrow> Panics ''entry still present'' | Some second \<Rightarrow>
     check (je_outcome second = Delivered) ''a second receipt must not overwrite the first outcome'' (
     check (je_resolved_at_ns second = Some (21 * SEC)) ''the original resolution timestamp must be preserved'' Finish))))"

definition journal_timeout_sweep :: "ulid_api \<Rightarrow> script" where
  "journal_timeout_sweep ul =
     expect (AppendDecision (decision (signal_id ul 106) 42 (30 * SEC))) ''append stale'' (\<lambda>a. let stale_id = the_issued a in
     expect (AppendDecision (decision (signal_id ul 107) 43 (90 * SEC))) ''append fresh'' (\<lambda>_.
     expect (ExpiredDecisions (60 * SEC) 100) ''sweep'' (\<lambda>a.
     check (list_ex (\<lambda>e. je_id e = Some stale_id) (the_entries a)) ''a decision older than the deadline must be reported expired'' (
     check (list_all (\<lambda>e. je_decided_at_ns e < 60 * SEC) (the_entries a)) ''a decision newer than the deadline must not be reported expired'' (
     check (list_all (\<lambda>e. \<not> is_resolved (je_outcome e)) (the_entries a)) ''already-resolved decisions must never be reported expired'' (
     expect (TrimJournal (60 * SEC)) ''trim'' (\<lambda>a.
     check (1 \<le> the_count a) ''trim must remove entries older than the cutoff'' Finish)))))))"

definition influence_accumulates_within_window :: script where
  "influence_accumulates_within_window =
    (let attacker = node_n 50; bystander = node_n 51; window_start = 100 * SEC; near = near_to (lit (1 / 100000))
     in expect (RecordInfluence attacker (lit (10 / 100)) (110 * SEC) window_start) ''record'' (\<lambda>a.
        check (near (the_amount a) (lit (10 / 100))) ''the first record must report its own magnitude'' (
        expect (RecordInfluence attacker (lit (15 / 100)) (120 * SEC) window_start) ''record'' (\<lambda>a.
        check (near (the_amount a) (lit (25 / 100))) ''influence must accumulate within the window'' (
        expect (RecordInfluence bystander (lit (5 / 100)) (120 * SEC) window_start) ''record'' (\<lambda>a.
        check (near (the_amount a) (lit (5 / 100))) ''influence must be accounted per identity'' (
        expect (InfluenceSince attacker (115 * SEC)) ''influence since'' (\<lambda>a.
        check (near (the_amount a) (lit (15 / 100))) ''records before the window start must be excluded'' (
        expect (PurgeInfluence (200 * SEC)) ''purge'' (\<lambda>a.
        check (3 \<le> the_count a) ''purge must reclaim old influence records'' Finish))))))))))"

definition bytes_of :: "string \<Rightarrow> u8 list" where
  "bytes_of s = map of_char s"

definition meta_roundtrip :: script where
  "meta_roundtrip =
     expect (GetMeta ''absent-key'') ''get'' (\<lambda>a.
     check (the_blob a = None) ''an unset key must read back as None'' (
     expect (PutMeta ''node-id'' (bytes_of ''first'')) ''put'' (\<lambda>_.
     expect (GetMeta ''node-id'') ''get'' (\<lambda>a.
     check (the_blob a = Some (bytes_of ''first'')) ''get_meta'' (
     expect (PutMeta ''node-id'' (bytes_of ''second'')) ''put'' (\<lambda>_.
     expect (GetMeta ''node-id'') ''get'' (\<lambda>a.
     check (the_blob a = Some (bytes_of ''second'')) ''put_meta must overwrite'' Finish)))))))"

definition is_unsupported :: "StoreError + StoreAnswer \<Rightarrow> bool" where
  "is_unsupported r = (case r of Inl (Unsupported _) \<Rightarrow> True | _ \<Rightarrow> False)"

definition signal_history_is_consistent :: "ulid_api \<Rightarrow> script" where
  "signal_history_is_consistent ul =
    (let i = signal_id ul 108; body = bytes_of ''signal body''
     in Ask (PutHistory i body 1000) (\<lambda>result.
        expect HistoryEnabled ''enabled'' (\<lambda>a. if the_flag a then
          (case result of Inl e \<Rightarrow> Panics ''a history-enabled backend must accept writes'' | Inr _ \<Rightarrow>
           expect (GetHistory i) ''get'' (\<lambda>a.
           check (the_blob a = Some body) ''a retained body must read back unchanged'' Finish))
        else
          check (is_unsupported result) ''a backend without history must return Unsupported'' (
          Ask (GetHistory i) (\<lambda>r. check (is_unsupported r) ''reads must refuse consistently with writes'' Finish)))))"

definition checks_but_influence :: "ulid_api \<Rightarrow> script list \<times> script list" where
  "checks_but_influence ul =
    ([migrate_is_idempotent, synapse_roundtrip, synapse_listing_is_ordered_and_filtered, peer_roundtrip, dedup_is_check_and_set ul,
      dedup_entries_expire ul, activation_roundtrip, journal_roundtrip ul, journal_resolution_is_idempotent ul, journal_timeout_sweep ul],
     [meta_roundtrip, signal_history_is_consistent ul])"

definition in_sequence :: "script list \<Rightarrow> script" where
  "in_sequence ps = foldr script_then ps Finish"

definition run_all :: "ulid_api \<Rightarrow> script" where
  "run_all ul = in_sequence (fst (checks_but_influence ul) @ influence_accumulates_within_window # snd (checks_but_influence ul))"

section \<open>Running a script\<close>

text \<open>A script ends, and every call it makes is of the class the backends agree on.\<close>

primrec script_fits :: "('m \<Rightarrow> StoreCall \<Rightarrow> bool) \<Rightarrow> 'm store_api \<Rightarrow> script \<Rightarrow> 'm \<Rightarrow> bool" where
  "script_fits fits api Finish m \<longleftrightarrow> True"
| "script_fits fits api (Panics msg) m \<longleftrightarrow> True"
| "script_fits fits api (Ask c k) m \<longleftrightarrow> fits m c \<and> (let (r, m') = perform api c m in script_fits fits api (k r) m')"

text \<open>Where a script that ends and fits leaves the store.\<close>

primrec carried :: "('m \<Rightarrow> StoreCall \<Rightarrow> bool) \<Rightarrow> 'm store_api \<Rightarrow> script \<Rightarrow> 'm \<Rightarrow> 'm option" where
  "carried fits api Finish m = Some m"
| "carried fits api (Panics msg) m = None"
| "carried fits api (Ask c k) m = (if fits m c then (let (r, m') = perform api c m in carried fits api (k r) m') else None)"

lemma carried_run: "carried fits api p m = Some m' \<Longrightarrow> run_script api p m = (Inr (), m') \<and> script_fits fits api p m"
  by (induction p arbitrary: m) (auto simp: Let_def split: if_splits prod.splits)

lemma carried_simps [simp]:
  "carried fits api (expect c msg k) m = (if fits m c then (case perform api c m of (Inl e, m1) \<Rightarrow> None | (Inr a, m1) \<Rightarrow> carried fits api (k a) m1) else None)"
  "carried fits api (check b msg p) m = (if b then carried fits api p m else None)"
  by (simp_all add: expect_def check_def split: prod.split sum.split)

lemma carried_then: "carried fits api (script_then p q) m = Option.bind (carried fits api p m) (carried fits api q)"
  by (induction p arbitrary: m) (auto simp: Let_def split: prod.split)

lemma carried_sequence: "carried fits api (in_sequence (p # ps)) m = Option.bind (carried fits api p m) (carried fits api (in_sequence ps))"
  by (simp add: in_sequence_def carried_then)

lemma carried_any: "carried fits api p m = Some m' \<Longrightarrow> carried (\<lambda>_ _. True) api p m = Some m'"
  by (induction p arbitrary: m) (auto simp: Let_def split: if_splits prod.splits)

context backend_simulation
begin

text \<open>A script that stays in the class goes the same way on both backends.\<close>

lemma scripts_agree: "R m n \<Longrightarrow> script_fits fits api2 p n \<Longrightarrow> fst (run_script api1 p m) = fst (run_script api2 p n)"
proof (induction p arbitrary: m n)
  case (Ask c k)
  obtain x m' n' where "perform api1 c m = (x, m')" "perform api2 c n = (x, n')" "R m' n'"
    using step [of m n c] Ask.prems by (auto simp: matched_def)
  then show ?case using Ask by auto
qed simp_all

end

section \<open>The checks on the in-memory backend\<close>

named_theorems suite \<open>definitions a check is evaluated with\<close>

declare answer_def [suite] Let_def [suite] SEC_def [suite] i64_max_def [suite]

lemma dedup_checks:
  assumes m: "ms_poisoned m = {}" "map_of (ms_seen m) (signal_id ul 101) = None" "map_of (ms_seen m) (signal_id ul 102) = None"
    and ne: "signal_id ul 101 \<noteq> signal_id ul 102"
  shows "carried fits_columns memory_api (dedup_is_check_and_set ul) m =
    Some (m\<lparr>ms_seen := AList.update (signal_id ul 102) 400000000000 (AList.update (signal_id ul 101) 400000000000 (ms_seen m))\<rparr>)"
  using assms by (simp add: dedup_is_check_and_set_def suite mem_ops update_conv' sat_add_def sat_mul_def seen_expiry_def)

lemma suite_numbers:
  "lit (42 / 100) = Fin (14092861 / 33554432)" "lit (99 / 100) = Fin (4152361 / 4194304)" "lit (9 / 10) = Fin (7549747 / 8388608)"
  "lit (7 / 10) = Fin (11744051 / 16777216)" "lit (3 / 4) = Fin (3 / 4)" "lit (8 / 10) = Fin (13421773 / 16777216)"
  "lit (4 / 10) = Fin (13421773 / 33554432)" "lit (5 / 10) = Fin (1 / 2)" "lit 0 = Fin 0"
  by code_simp+

lemma suite_weights:
  "fl_add b32 (lit (2 / 10)) (fl_mul b32 (lit (3 / 10)) (fl_of_nat b32 0)) = Fin (13421773 / 67108864)"
  "fl_add b32 (lit (2 / 10)) (fl_mul b32 (lit (3 / 10)) (fl_of_nat b32 1)) = Fin (1 / 2)"
  "fl_add b32 (lit (2 / 10)) (fl_mul b32 (lit (3 / 10)) (fl_of_nat b32 2)) = Fin (13421773 / 16777216)"
  "near_to f32_epsilon (lit (99 / 100)) (lit (99 / 100))"
  by code_simp+

lemma plain_lit: "plain_real (lit r)"
  by (simp add: plain_real_def lit_def fl_pack_def Let_def fl_wf_pack [unfolded fl_pack_def Let_def])

lemma plain_fin: "plain_real (lit r) \<Longrightarrow> lit r = Fin x \<Longrightarrow> plain_real (Fin x)"
  by simp

lemma plain_weights: "plain_real (Fin (13421773 / 67108864))" "plain_real (Fin (1 / 2))" "plain_real (Fin (13421773 / 16777216))"
  using suite_weights(1-3) fl_wf_add [of b32] by (auto simp: plain_real_def) (metis fmt_prec(1))+

lemma migrate_check: "ms_poisoned m = {} \<Longrightarrow> carried fits_columns memory_api migrate_is_idempotent m = Some m"
  by (simp add: migrate_is_idempotent_def suite mem_migrate_def)

lemma synapse_check:
  assumes "ms_poisoned m = {}" "ms_synapses m = []"
  shows "carried fits_columns memory_api synapse_roundtrip m = Some m"
  using assms suite_weights(4)
  by (simp add: synapse_roundtrip_def suite mem_ops mem_delete_synapse_def synapse_record_def storable_synapse_def plain_lit hm_values_def)

text \<open>The three records of the listing check, lightest first.\<close>

lemma listed_facts:
  "sr_id (listed i name) = name" "sr_last_active_ns (listed i name) = 1000 + of_nat i * 1000" "sr_state (listed i name) = (if i = 0 then Dormant else Active)"
  "sr_weight (listed i name) = fl_add b32 (lit (2 / 10)) (fl_mul b32 (lit (3 / 10)) (fl_of_nat b32 i))" "sr_peer (listed i name) = node_n (20 + of_nat i)"
  by (simp_all add: listed_def synapse_record_def Let_def)

lemma listed_storable: "i < 3 \<Longrightarrow> storable_synapse (listed i name)"
proof -
  assume "i < 3"
  then consider "i = 0" | "i = 1" | "i = 2" by linarith
  then have "plain_real (fl_add b32 (lit (2 / 10)) (fl_mul b32 (lit (3 / 10)) (fl_of_nat b32 i)))"
    by cases (simp_all only: suite_weights plain_weights)
  then have "plain_real (sr_weight (listed i name))" by (simp only: listed_facts)
  then show ?thesis using \<open>i < 3\<close>
    by (auto simp: storable_synapse_def listed_def synapse_record_def Let_def plain_lit i64_max_def less_Suc_eq numeral_3_eq_3)
qed

lemma listing_check:
  assumes p: "ms_poisoned m = {}" and none: "ms_synapses m = []"
  shows "carried fits_columns memory_api synapse_listing_is_ordered_and_filtered m = Some m"
proof -
  define a b c where "a = listed 0 ''ord-low''" and "b = listed 1 ''ord-mid''" and "c = listed 2 ''ord-high''"
  note abc = a_def b_def c_def
  have ids: "sr_id a = ''ord-low''" "sr_id b = ''ord-mid''" "sr_id c = ''ord-high''" by (simp_all add: abc listed_facts)
  have weights: "sr_weight a = Fin (13421773 / 67108864)" "sr_weight b = Fin (1 / 2)" "sr_weight c = Fin (13421773 / 16777216)"
    by (simp_all only: abc listed_facts suite_weights)
  have rest: "sr_state a = Dormant" "sr_state b = Active" "sr_state c = Active" "sr_last_active_ns a = 1000" "sr_last_active_ns b = 2000"
    "sr_last_active_ns c = 3000" "sr_peer a \<noteq> sr_peer b" "sr_peer a \<noteq> sr_peer c" "sr_peer b \<noteq> sr_peer c"
    "sr_peer b \<noteq> sr_peer a" "sr_peer c \<noteq> sr_peer a" "sr_peer c \<noteq> sr_peer b"
    by (simp_all add: abc listed_facts node_n_def)
  have ok: "storable_synapse a" "storable_synapse b" "storable_synapse c" by (simp_all add: abc listed_storable)
  have order: "heavier_first a b = Greater" "heavier_first a c = Greater" "heavier_first b c = Greater"
    by (simp_all add: heavier_first_def then_with_def fl_cmp_def fl_lt_def weights)
  let ?m = "m\<lparr>ms_synapses := [(''ord-low'', a), (''ord-mid'', b), (''ord-high'', c)]\<rparr>"
  have lists: "perform memory_api (ListSynapses f) ?m = (Inr (Synapses (Memory_Store.truncate (fi_limit f) (sort_by heavier_first (filter (filter_matches f) [a, b, c])))), ?m)" for f
    using p by (simp add: answer_def mem_ops hm_values_def)
  have sorted: "sort_by heavier_first [a, b, c] = [c, b, a]" "sort_by heavier_first [b, c] = [c, b]"
    "sort_by heavier_first [c] = [c]" "sort_by heavier_first [a] = [a]" by (simp_all add: order)
  have filters: "filter (filter_matches filter_default) [a, b, c] = [a, b, c]" "filter (filter_matches filter_active) [a, b, c] = [b, c]"
    "filter (filter_matches (filter_default\<lparr>fi_min_weight := Some (lit (7 / 10))\<rparr>)) [a, b, c] = [c]"
    "filter (filter_matches (filter_default\<lparr>fi_last_active_before_ns := Some 2000\<rparr>)) [a, b, c] = [a]"
    "filter (filter_matches (filter_default\<lparr>fi_limit := Some 1\<rparr>)) [a, b, c] = [a, b, c]"
    unfolding suite_numbers by (simp_all add: filter_matches_def filter_default_def filter_active_def weights rest fl_le_def)
  have fits: "fits_filter filter_default" "fits_filter filter_active" "fits_filter (filter_default\<lparr>fi_min_weight := x\<rparr>)"
    "fits_filter (filter_default\<lparr>fi_last_active_before_ns := Some 2000\<rparr>)" "fits_filter (filter_default\<lparr>fi_limit := Some 1\<rparr>)" for x
    by (simp_all add: fits_filter_def filter_default_def filter_active_def i64_max_def)
  have unlimited: "fi_limit filter_default = None" "fi_limit filter_active = None" by (simp_all add: filter_default_def filter_active_def)
  have put: "carried fits_columns memory_api (put_all [a, b, c] q) m = carried fits_columns memory_api q ?m" for q
    using p none by (simp add: put_all_def answer_def mem_ops ok ids rest)
  have delete: "carried fits_columns memory_api (delete_all listing_ids Finish) ?m = Some m"
    using p none by (simp add: delete_all_def listing_ids_def answer_def mem_delete_synapse_def locked_def)
  have names: "map (\<lambda>(i, name). listed i name) (enumerate 0 listing_ids) = [a, b, c]"
    by (simp add: listing_ids_def abc enumerate_eq_zip numeral_2_eq_2)
  have "fl_le (lit (7 / 10)) (sr_weight c)" "fl_le (sr_weight b) (sr_weight c)" "fl_le (sr_weight a) (sr_weight b)"
    unfolding suite_numbers weights by (simp_all add: fl_le_def)
  then show ?thesis
    unfolding synapse_listing_is_ordered_and_filtered_def names put
    by (simp del: One_nat_def perform.simps sort_by_simps filter.simps add: lists filters sorted fits delete unlimited Memory_Store.truncate_def ids rest Let_def)
qed

lemma peer_check:
  assumes "ms_poisoned m = {}" "ms_peers m = []"
  shows "carried fits_columns memory_api peer_roundtrip m = Some (m\<lparr>ms_peers := [(node_n 30, sample_peer)]\<rparr>)"
  using assms by (simp add: peer_roundtrip_def suite mem_ops mem_get_peer_def mem_list_peers_def mem_count_peers_def sample_peer_def hm_values_def)

lemma expiry_check:
  assumes "ms_poisoned m = {}" "ms_seen m = [(i, 400000000000), (j, 400000000000)]" "i \<noteq> signal_id ul 103" "j \<noteq> signal_id ul 103"
  shows "carried fits_columns memory_api (dedup_entries_expire ul) m = Some (m\<lparr>ms_seen := []\<rparr>)"
  using assms by (simp add: dedup_entries_expire_def suite mem_ops sat_add_def sat_mul_def seen_expiry_def)

lemma activation_check:
  assumes "ms_poisoned m = {}" "ms_activation m = None"
  shows "\<exists>sn. carried fits_columns memory_api activation_roundtrip m = Some (m\<lparr>ms_activation := Some sn\<rparr>)"
  using assms by (simp add: activation_roundtrip_def suite mem_ops mem_load_activation_def storable_snapshot_def plain_lit)
    (rule exI, rule refl)

text \<open>The journal of the checks: the entry under its number, and once settled.\<close>

definition entered :: "ulid_api \<Rightarrow> u64 \<Rightarrow> u8 \<Rightarrow> u64 \<Rightarrow> JournalId \<Rightarrow> JournalEntry" where
  "entered ul n peer t i = (decision (signal_id ul n) peer (t * SEC))\<lparr>je_id := Some i\<rparr>"

definition settled :: "ulid_api \<Rightarrow> u64 \<Rightarrow> u8 \<Rightarrow> u64 \<Rightarrow> JournalId \<Rightarrow> JournalEntry" where
  "settled ul n peer t i = (entered ul n peer t i)\<lparr>je_outcome := Delivered, je_resolved_at_ns := Some ((t + 1) * SEC)\<rparr>"

lemma lit_refl [simp]: "fl_eq (lit r) (lit r)"
  using plain_lit [of r] by (cases "lit r") (simp_all add: plain_real_def fl_eq_def)

lemma journal_check:
  assumes "ms_poisoned m = {}" "ms_journal m = []" "ms_next_journal_id m = 0"
  shows "carried fits_columns memory_api (journal_roundtrip ul) m = Some (m\<lparr>ms_journal := [settled ul 104 40 10 1], ms_next_journal_id := 1\<rparr>)"
  using assms by (simp add: journal_roundtrip_def suite mem_ops mem_recent_decisions_def decision_def settled_def entered_def
    storable_entry_def plain_lit is_resolved_def)

lemma resolution_check:
  assumes "ms_poisoned m = {}" "ms_journal m = [settled ul 104 40 10 1]" "ms_next_journal_id m = 1"
  shows "carried fits_columns memory_api (journal_resolution_is_idempotent ul) m =
    Some (m\<lparr>ms_journal := [settled ul 104 40 10 1, settled ul 105 41 20 2], ms_next_journal_id := 2\<rparr>)"
  using assms by (simp add: journal_resolution_is_idempotent_def suite mem_ops decision_def settled_def entered_def
    storable_entry_def plain_lit is_resolved_def)

lemma sweep_check:
  assumes "ms_poisoned m = {}" "ms_journal m = [settled ul 104 40 10 1, settled ul 105 41 20 2]" "ms_next_journal_id m = 2"
  shows "carried fits_columns memory_api (journal_timeout_sweep ul) m =
    Some (m\<lparr>ms_journal := [entered ul 107 43 90 4], ms_next_journal_id := 4\<rparr>)"
  using assms by (simp add: journal_timeout_sweep_def suite mem_ops mem_trim_journal_def decision_def settled_def entered_def
    storable_entry_def plain_lit is_resolved_def)

lemma meta_check:
  assumes "ms_poisoned m = {}" "ms_meta m = []"
  shows "carried fits_columns memory_api meta_roundtrip m = Some (m\<lparr>ms_meta := [(''node-id'', bytes_of ''second'')]\<rparr>)"
  using assms by (simp add: meta_roundtrip_def suite mem_ops mem_put_meta_def mem_get_meta_def)

lemma history_check:
  assumes "ms_poisoned m = {}"
  shows "\<exists>hs. carried fits_columns memory_api (signal_history_is_consistent ul) m = Some (m\<lparr>ms_history := hs\<rparr>)"
proof (cases "ms_retain_history m")
  case True
  then show ?thesis using assms
    by (simp add: signal_history_is_consistent_def suite mem_ops mem_put_signal_history_def mem_get_signal_history_def
        mem_signal_history_enabled_def update_conv') (rule exI, rule refl)
next
  case False
  then have "carried fits_columns memory_api (signal_history_is_consistent ul) m = Some m"
    by (simp add: signal_history_is_consistent_def suite mem_put_signal_history_def mem_get_signal_history_def
        mem_signal_history_enabled_def is_unsupported_def)
  then show ?thesis by (intro exI [of _ "ms_history m"]) simp
qed

text \<open>The sums of the influence check, at the width the code adds them with.\<close>

lemma influence_sums:
  "near_to (lit (1 / 100000)) (fl_sum [fl_abs (lit (10 / 100))]) (lit (10 / 100))"
  "near_to (lit (1 / 100000)) (fl_sum [fl_abs (lit (10 / 100)), fl_abs (lit (15 / 100))]) (lit (25 / 100))"
  "near_to (lit (1 / 100000)) (fl_sum [fl_abs (lit (5 / 100))]) (lit (5 / 100))"
  "near_to (lit (1 / 100000)) (fl_sum [fl_abs (lit (15 / 100))]) (lit (15 / 100))"
  by code_simp+

lemma influence_check:
  assumes "ms_poisoned m = {}" "ms_influence m = []"
  shows "carried (\<lambda>_ _. True) memory_api influence_accumulates_within_window m = Some (m\<lparr>ms_influence := []\<rparr>)"
  using assms unfolding influence_accumulates_within_window_def Let_def
  by (simp only: carried_simps perform.simps answer_def memory_api_simps memory_api_more mem_ops mem_purge_influence_def influence_total_def) 
     (simp add: suite influence_sums [simplified] node_n_def)

section \<open>The suite\<close>

lemma carried_append:
  "carried fits api (in_sequence (ps @ qs)) m = Option.bind (carried fits api (in_sequence ps) m) (carried fits api (in_sequence qs))"
proof (induction ps arbitrary: m)
  case (Cons p ps)
  then show ?case by (cases "carried fits api p m") (simp_all add: carried_sequence)
qed (simp add: in_sequence_def)

lemma first_checks:
  assumes "distinct (map (signal_id ul) [101, 102, 103])"
  shows "\<exists>m. carried fits_columns memory_api (in_sequence (fst (checks_but_influence ul))) (memory_new\<lparr>ms_retain_history := b\<rparr>) = Some m \<and>
    ms_poisoned m = {} \<and> ms_influence m = [] \<and> ms_meta m = []"
proof -
  let ?m = "memory_new\<lparr>ms_retain_history := b\<rparr>"
  let ?m1 = "?m\<lparr>ms_peers := [(node_n 30, sample_peer)]\<rparr>"
  have new: "ms_poisoned ?m = {}" "ms_synapses ?m = []" "ms_peers ?m = []" "ms_seen ?m = []" "ms_journal ?m = []"
    "ms_next_journal_id ?m = 0" "ms_activation ?m = None" "ms_influence ?m = []" "ms_meta ?m = []"
    by (simp_all add: memory_new_def)
  have ne: "signal_id ul 101 \<noteq> signal_id ul 102" "signal_id ul 101 \<noteq> signal_id ul 103" "signal_id ul 102 \<noteq> signal_id ul 103"
    using assms by simp_all
  have dedup: "carried fits_columns memory_api (dedup_is_check_and_set ul) ?m1 =
      Some (?m1\<lparr>ms_seen := [(signal_id ul 101, 400000000000), (signal_id ul 102, 400000000000)]\<rparr>)"
    using dedup_checks [of ?m1 ul] new ne by simp
  let ?m2 = "?m1\<lparr>ms_seen := [(signal_id ul 101, 400000000000), (signal_id ul 102, 400000000000)]\<rparr>"
  have expire: "carried fits_columns memory_api (dedup_entries_expire ul) ?m2 = Some (?m2\<lparr>ms_seen := []\<rparr>)"
    by (rule expiry_check [of _ "signal_id ul 101" "signal_id ul 102"]) (use new ne in simp_all)
  let ?m3 = "?m2\<lparr>ms_seen := []\<rparr>"
  obtain sn where active: "carried fits_columns memory_api activation_roundtrip ?m3 = Some (?m3\<lparr>ms_activation := Some sn\<rparr>)"
    using activation_check [of ?m3] new by auto
  let ?m4 = "?m3\<lparr>ms_activation := Some sn\<rparr>"
  have j1: "carried fits_columns memory_api (journal_roundtrip ul) ?m4 = Some (?m4\<lparr>ms_journal := [settled ul 104 40 10 1], ms_next_journal_id := 1\<rparr>)"
    by (rule journal_check) (use new in simp_all)
  let ?m5 = "?m4\<lparr>ms_journal := [settled ul 104 40 10 1], ms_next_journal_id := 1\<rparr>"
  have j2: "carried fits_columns memory_api (journal_resolution_is_idempotent ul) ?m5 =
      Some (?m5\<lparr>ms_journal := [settled ul 104 40 10 1, settled ul 105 41 20 2], ms_next_journal_id := 2\<rparr>)"
    by (rule resolution_check) (use new in simp_all)
  let ?m6 = "?m5\<lparr>ms_journal := [settled ul 104 40 10 1, settled ul 105 41 20 2], ms_next_journal_id := 2\<rparr>"
  have j3: "carried fits_columns memory_api (journal_timeout_sweep ul) ?m6 = Some (?m6\<lparr>ms_journal := [entered ul 107 43 90 4], ms_next_journal_id := 4\<rparr>)"
    by (rule sweep_check) (use new in simp_all)
  have "carried fits_columns memory_api (in_sequence (fst (checks_but_influence ul))) ?m =
      Some (?m6\<lparr>ms_journal := [entered ul 107 43 90 4], ms_next_journal_id := 4\<rparr>)"
    by (simp only: checks_but_influence_def fst_conv carried_sequence bind.bind_lunit migrate_check [OF new(1)]
        synapse_check [OF new(1, 2)] listing_check [OF new(1, 2)] peer_check [OF new(1, 3)] dedup expire active j1 j2 j3)
      (simp add: in_sequence_def)
  then show ?thesis using new by auto
qed

lemma last_checks:
  assumes "ms_poisoned m = {}" "ms_meta m = []"
  shows "\<exists>m'. carried fits_columns memory_api (in_sequence (snd (checks_but_influence ul))) m = Some m'"
proof -
  obtain hs where "carried fits_columns memory_api (signal_history_is_consistent ul) (m\<lparr>ms_meta := [(''node-id'', bytes_of ''second'')]\<rparr>) =
      Some (m\<lparr>ms_meta := [(''node-id'', bytes_of ''second'')], ms_history := hs\<rparr>)"
    using history_check [of "m\<lparr>ms_meta := [(''node-id'', bytes_of ''second'')]\<rparr>" ul] assms by auto
  then have "carried fits_columns memory_api (in_sequence (snd (checks_but_influence ul))) m =
      Some (m\<lparr>ms_meta := [(''node-id'', bytes_of ''second'')], ms_history := hs\<rparr>)"
    by (simp only: checks_but_influence_def snd_conv carried_sequence bind.bind_lunit meta_check [OF assms]) (simp add: in_sequence_def)
  then show ?thesis by blast
qed

lemma plain_signals: "distinct (map (signal_id plain_ulid) [101, 102, 103])"
  by (simp add: signal_id_def plain_ulid_def)

text \<open>
  C12: The in-memory backend passes the whole conformance suite, started empty, with and without
  the retention of signal bodies, whatever the identifier library builds from the parts the
  suite gives it, as long as the three signals of its deduplication checks get different
  identifiers: every call answers and every requirement the suite asserts holds, the floating
  point ones included.
\<close>

theorem reference_conforms:
  assumes "distinct (map (signal_id ul) [101, 102, 103])"
  shows "fst (run_script memory_api (run_all ul) (memory_new\<lparr>ms_retain_history := b\<rparr>)) = Inr ()"
proof -
  obtain m where m: "carried fits_columns memory_api (in_sequence (fst (checks_but_influence ul))) (memory_new\<lparr>ms_retain_history := b\<rparr>) = Some m"
    "ms_poisoned m = {}" "ms_influence m = []" "ms_meta m = []"
    using first_checks [OF assms, of b] by blast
  obtain m' where m': "carried fits_columns memory_api (in_sequence (snd (checks_but_influence ul))) (m\<lparr>ms_influence := []\<rparr>) = Some m'"
    using last_checks [of "m\<lparr>ms_influence := []\<rparr>" ul] m by auto
  have "carried (\<lambda>_ _. True) memory_api (run_all ul) (memory_new\<lparr>ms_retain_history := b\<rparr>) = Some m'"
    by (simp only: run_all_def carried_append carried_sequence carried_any [OF m(1)] bind.bind_lunit influence_check [OF m(2, 3)]
        carried_any [OF m'])
  from carried_run [OF this] show ?thesis by simp
qed

lemma reference_conforms_witness:
  "fst (run_script memory_api (run_all plain_ulid) (memory_new\<lparr>ms_retain_history := True\<rparr>)) = Inr ()"
  by (rule reference_conforms [OF plain_signals])

text \<open>
  C11: The \<open>SQLite\<close> backend passes every check of the conformance suite but the one on influence
  (whose sums \<open>SQLite\<close> computes in double precision), started on any database that holds what
  an empty in-memory store holds, with a driver that does what is documented of it and no
  failing statement: each requirement holds because the reference meets it and the calls the
  suite makes are among those on which the two backends agree.
\<close>

theorem sqlite_conforms:
  assumes "mirrors dv s memory_new" and "distinct (map (signal_id ul) [101, 102, 103])"
  shows "fst (run_script (sqlite_api dv) (in_sequence (fst (checks_but_influence ul) @ snd (checks_but_influence ul))) s) = Inr ()"
proof -
  obtain m where m: "carried fits_columns memory_api (in_sequence (fst (checks_but_influence ul))) memory_new = Some m"
    "ms_poisoned m = {}" "ms_meta m = []"
    using first_checks [OF assms(2), of False] by (auto simp: memory_new_def)
  obtain m' where "carried fits_columns memory_api (in_sequence (snd (checks_but_influence ul))) m = Some m'"
    using last_checks [OF m(2, 3)] by blast
  then have "carried fits_columns memory_api (in_sequence (fst (checks_but_influence ul) @ snd (checks_but_influence ul))) memory_new = Some m'"
    by (simp add: carried_append m(1))
  from carried_run [OF this] sqlite.scripts_agree [OF assms(1)] show ?thesis by simp
qed

lemma sqlite_conforms_witness:
  "fst (run_script (sqlite_api (sample_driver (\<lambda>n. None) plain_ulid))
     (in_sequence (fst (checks_but_influence plain_ulid) @ snd (checks_but_influence plain_ulid))) sample_sqlite) = Inr ()"
  by (rule sqlite_conforms [OF sample_mirrors plain_signals])

end
