(* ===== verification/Open_Store.thy ===== *)
theory Open_Store
  imports Conformance Handshake
begin

text \<open>
  Opening the store a configuration names (\<open>runtime/ntl-net/src/lib.rs\<close>, and the stub
  \<open>runtime/ntl-store-postgres/src/lib.rs\<close>). \<open>Arc<dyn NodeStore>\<close> is the tagged union of the
  two backends, a call on it the call of the backend that is there.
\<close>

section \<open>A backend behind the trait\<close>

datatype AnyStore = OnSqlite SqliteStore | InMemory MemoryStore

definition dyn_call :: "(SqliteStore, 'a) sop \<Rightarrow> (MemoryStore, 'a) sop \<Rightarrow> (AnyStore, 'a) sop" where
  "dyn_call f g s = (case s of
     OnSqlite q \<Rightarrow> map_prod id OnSqlite (f q)
   | InMemory m \<Rightarrow> map_prod id InMemory (g m))"

definition any_api :: "sqlite_driver \<Rightarrow> AnyStore store_api" where
  "any_api dv = \<lparr>st_migrate = dyn_call (st_migrate (sqlite_api dv)) (st_migrate memory_api),
     st_durability = case_AnyStore (st_durability (sqlite_api dv)) (st_durability memory_api),
     st_flush = dyn_call (st_flush (sqlite_api dv)) (st_flush memory_api),
     st_put_synapse = (\<lambda>a. dyn_call (st_put_synapse (sqlite_api dv) a) (st_put_synapse memory_api a)),
     st_get_synapse = (\<lambda>a. dyn_call (st_get_synapse (sqlite_api dv) a) (st_get_synapse memory_api a)),
     st_synapse_for_peer = (\<lambda>a. dyn_call (st_synapse_for_peer (sqlite_api dv) a) (st_synapse_for_peer memory_api a)),
     st_list_synapses = (\<lambda>a. dyn_call (st_list_synapses (sqlite_api dv) a) (st_list_synapses memory_api a)),
     st_delete_synapse = (\<lambda>a. dyn_call (st_delete_synapse (sqlite_api dv) a) (st_delete_synapse memory_api a)),
     st_put_peer = (\<lambda>a. dyn_call (st_put_peer (sqlite_api dv) a) (st_put_peer memory_api a)),
     st_get_peer = (\<lambda>a. dyn_call (st_get_peer (sqlite_api dv) a) (st_get_peer memory_api a)),
     st_list_peers = (\<lambda>a b. dyn_call (st_list_peers (sqlite_api dv) a b) (st_list_peers memory_api a b)),
     st_count_peers = (\<lambda>a. dyn_call (st_count_peers (sqlite_api dv) a) (st_count_peers memory_api a)),
     st_check_and_set_seen = (\<lambda>a b c. dyn_call (st_check_and_set_seen (sqlite_api dv) a b c) (st_check_and_set_seen memory_api a b c)),
     st_has_seen = (\<lambda>a b. dyn_call (st_has_seen (sqlite_api dv) a b) (st_has_seen memory_api a b)),
     st_purge_expired_seen = (\<lambda>a. dyn_call (st_purge_expired_seen (sqlite_api dv) a) (st_purge_expired_seen memory_api a)),
     st_save_activation = (\<lambda>a. dyn_call (st_save_activation (sqlite_api dv) a) (st_save_activation memory_api a)),
     st_load_activation = dyn_call (st_load_activation (sqlite_api dv)) (st_load_activation memory_api),
     st_append_decision = (\<lambda>a. dyn_call (st_append_decision (sqlite_api dv) a) (st_append_decision memory_api a)),
     st_resolve_decision = (\<lambda>a b c. dyn_call (st_resolve_decision (sqlite_api dv) a b c) (st_resolve_decision memory_api a b c)),
     st_pending_decision_for = (\<lambda>a b. dyn_call (st_pending_decision_for (sqlite_api dv) a b) (st_pending_decision_for memory_api a b)),
     st_expired_decisions = (\<lambda>a b. dyn_call (st_expired_decisions (sqlite_api dv) a b) (st_expired_decisions memory_api a b)),
     st_recent_decisions = (\<lambda>a b. dyn_call (st_recent_decisions (sqlite_api dv) a b) (st_recent_decisions memory_api a b)),
     st_trim_journal = (\<lambda>a. dyn_call (st_trim_journal (sqlite_api dv) a) (st_trim_journal memory_api a)),
     st_record_influence = (\<lambda>a b c d. dyn_call (st_record_influence (sqlite_api dv) a b c d) (st_record_influence memory_api a b c d)),
     st_influence_since = (\<lambda>a b. dyn_call (st_influence_since (sqlite_api dv) a b) (st_influence_since memory_api a b)),
     st_purge_influence = (\<lambda>a. dyn_call (st_purge_influence (sqlite_api dv) a) (st_purge_influence memory_api a)),
     st_put_meta = (\<lambda>a b. dyn_call (st_put_meta (sqlite_api dv) a b) (st_put_meta memory_api a b)),
     st_get_meta = (\<lambda>a. dyn_call (st_get_meta (sqlite_api dv) a) (st_get_meta memory_api a)),
     st_signal_history_enabled = case_AnyStore (st_signal_history_enabled (sqlite_api dv)) (st_signal_history_enabled memory_api),
     st_put_signal_history = (\<lambda>a b c. dyn_call (st_put_signal_history (sqlite_api dv) a b c) (st_put_signal_history memory_api a b c)),
     st_get_signal_history = (\<lambda>a. dyn_call (st_get_signal_history (sqlite_api dv) a) (st_get_signal_history memory_api a))\<rparr>"

section \<open>Opening\<close>

definition UNIMPLEMENTED :: string where
  "UNIMPLEMENTED = ''the PostgreSQL backend is not implemented yet; use `backend = \"sqlite\"`. See https://openntl.org/guides/storage-backends''"

record PostgresConfig =
  pg_url :: string
  pg_schema :: string
  pg_max_connections :: u32

definition postgres_at :: "string \<Rightarrow> PostgresConfig" where
  "postgres_at url = \<lparr>pg_url = url, pg_schema = ''ntl'', pg_max_connections = 16\<rparr>"

text \<open>\<open>expand\<close>: a leading tilde stands for the home directory, when there is one.\<close>

definition expand :: "string option \<Rightarrow> string \<Rightarrow> string" where
  "expand home path =
    (if prefix ''~/'' path then (case home of Some h \<Rightarrow> path_join h (drop 2 path) | None \<Rightarrow> path) else path)"

datatype open_fault = BackendRefused StoreError | BackendUnavailable string

definition open_store :: "sqlite_driver \<Rightarrow> sqlite_host \<Rightarrow> StorageConfig \<Rightarrow> open_fault + AnyStore" where
  "open_store dv oh c = (case c of
     Sqlite path retain \<Rightarrow>
       map_sum BackendRefused OnSqlite
         (sq_with_config dv oh ((sqlite_config_at (expand (oh_home oh) path))\<lparr>qc_retain_signal_history := retain\<rparr>))
   | MemoryStorage \<Rightarrow> Inr (InMemory memory_new)
   | Postgres url sch \<Rightarrow> Inl (BackendUnavailable UNIMPLEMENTED))"

section \<open>A call goes to the backend that is there\<close>

lemma perform_any:
  "perform (any_api dv) c (OnSqlite q) = map_prod id OnSqlite (perform (sqlite_api dv) c q)"
  "perform (any_api dv) c (InMemory m) = map_prod id InMemory (perform memory_api c m)"
  by (cases c; simp add: any_api_def answer_def dyn_call_def Let_def split: prod.split)+

lemma tagged_step: "\<exists>x m' n'. map_prod id tag p = (x, m') \<and> p = (x, n') \<and> m' = tag n'"
  by (cases p) simp

interpretation in_memory: backend_simulation "any_api dv" memory_api "\<lambda>s m. s = InMemory m" "\<lambda>_ _. True" for dv
  by unfold_locales (simp only: matched_def perform_any tagged_step)

interpretation on_sqlite: backend_simulation "any_api dv" "sqlite_api dv" "\<lambda>s q. s = OnSqlite q" "\<lambda>_ _. True" for dv
  by unfold_locales (simp only: matched_def perform_any tagged_step)

lemma script_fits_all [simp]: "script_fits (\<lambda>_ _. True) api p m"
  by (induction p arbitrary: m) (auto split: prod.split)

end
