(* ===== verification/Addresses.thy ===== *)
theory Addresses
  imports Prelude
begin

text \<open>
  Socket addresses as the standard library reads and prints them: what the command line and the
  binaries use of \<open>std::net\<close> to decide where a node listens. A reader takes the front of the
  text and returns the rest; a failed alternative consumes nothing.
\<close>

section \<open>Readers\<close>

datatype SocketAddr = V4 "u8 list" u16 | V6 "u16 list" u32 u16

type_synonym 'a reader = "string \<Rightarrow> ('a \<times> string) option"

definition read_char :: "char \<Rightarrow> unit reader" where
  "read_char c s = (case s of [] \<Rightarrow> None | x # rest \<Rightarrow> if x = c then Some ((), rest) else None)"

definition to_digit :: "nat \<Rightarrow> char \<Rightarrow> nat option" where
  "to_digit radix c =
    (let n = of_char c :: nat;
         d = (if 48 \<le> n \<and> n \<le> 57 then n - 48 else if 97 \<le> n \<and> n \<le> 122 then n - 87
              else if 65 \<le> n \<and> n \<le> 90 then n - 55 else radix)
     in if d < radix then Some d else None)"

text \<open>\<open>read_number\<close>: the digits at the front, at most \<open>max_digits\<close> of them, below \<open>bound\<close>.\<close>

definition read_number :: "nat \<Rightarrow> nat option \<Rightarrow> bool \<Rightarrow> nat \<Rightarrow> nat reader" where
  "read_number radix max_digits allow_zero_prefix bound s =
    (let ds = takeWhile (\<lambda>c. to_digit radix c \<noteq> None) s;
         v = foldl (\<lambda>acc c. acc * radix + the (to_digit radix c)) 0 ds
     in if ds = [] \<or> (case max_digits of None \<Rightarrow> False | Some k \<Rightarrow> k < length ds) \<or> bound \<le> v \<or>
           (\<not> allow_zero_prefix \<and> hd ds = CHR ''0'' \<and> 1 < length ds)
        then None else Some (v, drop (length ds) s))"

definition read_separator :: "char \<Rightarrow> nat \<Rightarrow> 'a reader \<Rightarrow> 'a reader" where
  "read_separator c i f s = (if i = 0 then f s else Option.bind (read_char c s) (\<lambda>(_, rest). f rest))"

fun read_octets :: "nat \<Rightarrow> nat \<Rightarrow> u8 list reader" where
  "read_octets i 0 s = Some ([], s)"
| "read_octets i (Suc k) s =
     Option.bind (read_separator CHR ''.'' i (read_number 10 (Some 3) False 256) s) (\<lambda>(b, rest).
     Option.bind (read_octets (Suc i) k rest) (\<lambda>(bs, rest'). Some (of_nat b # bs, rest')))"

definition read_ipv4 :: "u8 list reader" where
  "read_ipv4 = read_octets 0 4"

text \<open>\<open>read_groups\<close>: the groups at the front and whether a dotted address ended them.\<close>

function read_groups :: "nat \<Rightarrow> nat \<Rightarrow> string \<Rightarrow> u16 list \<times> bool \<times> string" where
  "read_groups limit i s =
    (if limit \<le> i then ([], False, s)
     else case (if i + 1 < limit then read_separator CHR '':'' i read_ipv4 s else None) of
       Some (ip, rest) \<Rightarrow> ([256 * ucast (ip ! 0) + ucast (ip ! 1), 256 * ucast (ip ! 2) + ucast (ip ! 3)], True, rest)
     | None \<Rightarrow> (case read_separator CHR '':'' i (read_number 16 (Some 4) True 65536) s of
         None \<Rightarrow> ([], False, s)
       | Some (g, rest) \<Rightarrow> (let (gs, dotted, rest') = read_groups limit (Suc i) rest in (of_nat g # gs, dotted, rest'))))"
  by pat_completeness auto
termination by (relation "measure (\<lambda>(limit, i, s). limit - i)") auto

definition read_ipv6 :: "u16 list reader" where
  "read_ipv6 s =
    (let (head, dotted, rest) = read_groups 8 0 s
     in if length head = 8 then Some (head, rest)
        else if dotted then None
        else Option.bind (read_char CHR '':'' rest) (\<lambda>(_, rest).
             Option.bind (read_char CHR '':'' rest) (\<lambda>(_, rest).
             let (rear, _, rest') = read_groups (8 - (length head + 1)) 0 rest
             in Some (head @ replicate (8 - length head - length rear) 0 @ rear, rest'))))"

definition read_port :: "u16 reader" where
  "read_port s = Option.bind (read_char CHR '':'' s) (\<lambda>(_, rest).
     map_option (map_prod of_nat id) (read_number 10 None True 65536 rest))"

definition read_scope :: "u32 reader" where
  "read_scope s = Option.bind (read_char CHR ''%'' s) (\<lambda>(_, rest).
     map_option (map_prod of_nat id) (read_number 10 None True (2 ^ 32) rest))"

definition read_v4 :: "SocketAddr reader" where
  "read_v4 s = Option.bind (read_ipv4 s) (\<lambda>(ip, rest).
     Option.bind (read_port rest) (\<lambda>(port, rest'). Some (V4 ip port, rest')))"

definition read_v6 :: "SocketAddr reader" where
  "read_v6 s = Option.bind (read_char (CHR ''['') s) (\<lambda>(_, rest).
     Option.bind (read_ipv6 rest) (\<lambda>(ip, rest).
     let (scope, rest) = (case read_scope rest of Some (n, r) \<Rightarrow> (n, r) | None \<Rightarrow> (0, rest))
     in Option.bind (read_char (CHR '']'') rest) (\<lambda>(_, rest).
        Option.bind (read_port rest) (\<lambda>(port, rest'). Some (V6 ip scope port, rest')))))"

text \<open>\<open>SocketAddr::from_str\<close>: either form, and the whole text.\<close>

definition parse_addr :: "string \<Rightarrow> SocketAddr option" where
  "parse_addr s = (case (case read_v4 s of None \<Rightarrow> read_v6 s | Some r \<Rightarrow> Some r) of
     Some (a, []) \<Rightarrow> Some a | _ \<Rightarrow> None)"

section \<open>Printing\<close>

function decimal :: "nat \<Rightarrow> string" where
  "decimal n = (if n < 10 then [char_of (48 + n)] else decimal (n div 10) @ [char_of (48 + n mod 10)])"
  by pat_completeness auto
termination by (relation "measure id") auto

declare read_groups.simps [simp del] decimal.simps [simp del]

section \<open>What is read\<close>

lemma read_ipv4_octets: "read_ipv4 = read_octets 0 (Suc (Suc (Suc (Suc 0))))"
  by (simp add: read_ipv4_def numeral_eq_Suc)

lemma read_number_digit: "read_number radix k z b (c # cs) = Some r \<Longrightarrow> to_digit radix c \<noteq> None"
  by (auto simp: read_number_def Let_def split: if_splits)

lemma parse_addr_first:
  assumes "to_digit 10 c = None" "c \<noteq> CHR ''[''"
  shows "parse_addr (c # cs) = None"
proof -
  have "read_number 10 (Some 3) False 256 (c # cs) = None" using assms(1) read_number_digit by (cases "read_number 10 (Some 3) False 256 (c # cs)") auto
  then have "read_ipv4 (c # cs) = None" by (simp add: read_ipv4_octets read_separator_def)
  then show ?thesis using assms(2) by (simp add: parse_addr_def read_v4_def read_v6_def read_char_def)
qed

lemma to_digit_char: "n < 10 \<Longrightarrow> to_digit 10 (char_of (48 + n)) = Some n"
  by (simp add: to_digit_def Let_def)

text \<open>Decimal printing is read back.\<close>

lemma decimal_digits: "\<forall>c \<in> set (decimal n). to_digit 10 c \<noteq> None"
proof (induction n rule: decimal.induct)
  case (1 n)
  then show ?case by (subst decimal.simps) (auto simp: to_digit_char)
qed

lemma decimal_value: "foldl (\<lambda>acc c. acc * 10 + the (to_digit 10 c)) 0 (decimal n) = n"
proof (induction n rule: decimal.induct)
  case (1 n)
  then show ?case by (subst decimal.simps) (auto simp: to_digit_char)
qed

lemma decimal_nonempty [simp]: "decimal n \<noteq> []"
  by (subst decimal.simps) simp

lemma decimal_short: "n < 1000 \<Longrightarrow> length (decimal n) \<le> 3"
  by (subst decimal.simps, subst decimal.simps, subst decimal.simps) auto

lemma decimal_no_zero: "hd (decimal n) = CHR ''0'' \<Longrightarrow> length (decimal n) \<le> 1"
proof (induction n rule: decimal.induct)
  case (1 n)
  show ?case
  proof (cases "n < 10")
    case True
    then show ?thesis by (subst decimal.simps) simp
  next
    case False
    then have "decimal n = decimal (n div 10) @ [char_of (48 + n mod 10)]" by (subst decimal.simps) simp
    then have hd: "hd (decimal (n div 10)) = CHR ''0''" using 1(2) by simp
    then have "length (decimal (n div 10)) \<le> 1" using 1(1) False by simp
    then have "decimal (n div 10) = [CHR ''0'']" using hd decimal_nonempty [of "n div 10"] by (cases "decimal (n div 10)") auto
    then have "n div 10 = 0" using decimal_value [of "n div 10"] by (simp add: to_digit_def)
    then show ?thesis using False by simp
  qed
qed

definition stops :: "string \<Rightarrow> bool" where
  "stops s \<longleftrightarrow> s = [] \<or> to_digit 10 (hd s) = None"

lemma read_number_decimal:
  assumes "stops rest" "n < bound" "case k of None \<Rightarrow> True | Some d \<Rightarrow> length (decimal n) \<le> d"
  shows "read_number 10 k z bound (decimal n @ rest) = Some (n, rest)"
proof -
  have digits: "takeWhile (\<lambda>c. to_digit 10 c \<noteq> None) (decimal n @ rest) = decimal n"
    using assms(1) decimal_digits [of n] by (cases rest) (auto simp: stops_def takeWhile_append2)
  show ?thesis unfolding read_number_def digits Let_def decimal_value
    using assms decimal_no_zero [of n] by (auto split: option.splits)
qed

text \<open>An address of four octets and a port, as it is printed, is read back.\<close>

definition print_v4 :: "u8 list \<Rightarrow> string" where
  "print_v4 ip = decimal (unat (ip ! 0)) @ ''.'' @ decimal (unat (ip ! 1)) @ ''.'' @ decimal (unat (ip ! 2)) @ ''.'' @ decimal (unat (ip ! 3))"

lemma parse_v4:
  assumes "length ip = 4"
  shows "parse_addr (print_v4 ip @ '':'' @ decimal (unat port)) = Some (V4 ip port)"
proof -
  obtain a b c d where ip: "ip = [a, b, c, d]" using assms by (auto simp: length_Suc_conv eval_nat_numeral)
  have small: "unat x < 256" "length (decimal (unat x)) \<le> 3" for x :: u8
    using unat_bound [of x] decimal_short [of "unat x"] by simp_all
  have octet: "read_number 10 (Some 3) False 256 (decimal (unat x) @ y # ys) = Some (unat x, y # ys)" if "to_digit 10 y = None" for x :: u8 and y ys
    using that small [of x] by (intro read_number_decimal) (simp_all add: stops_def)
  have dots: "to_digit 10 CHR ''.'' = None" "to_digit 10 CHR '':'' = None" by (simp_all add: to_digit_def)
  have "read_ipv4 (print_v4 ip @ '':'' @ decimal (unat port)) = Some (ip, '':'' @ decimal (unat port))"
    by (simp add: read_ipv4_octets print_v4_def ip read_separator_def read_char_def octet dots)
  moreover have "read_number 10 None True 65536 (decimal (unat port)) = Some (unat port, [])"
    using read_number_decimal [of "[]" "unat port" 65536 None True] unat_bound [of port] by (simp add: stops_def)
  ultimately show ?thesis by (simp add: parse_addr_def read_v4_def read_port_def read_char_def)
qed

lemmas reading = parse_addr_def read_v4_def read_v6_def read_port_def read_scope_def read_ipv6_def read_ipv4_octets read_groups.simps
  read_separator_def read_char_def read_number_def to_digit_def Let_def

lemma parse_addr_examples:
  "parse_addr ''[::1]:4433'' = Some (V6 [0, 0, 0, 0, 0, 0, 0, 1] 0 4433)"
  "parse_addr ''127.0.0.1:65536'' = None" "parse_addr ''127.0.0.01:80'' = None"
  by (simp_all add: reading) (simp add: numeral_eq_Suc)

end
