(* ===== verification/Start_Up.thy ===== *)
theory Start_Up
  imports Open_Store Addresses
begin

text \<open>
  Starting the node binaries (\<open>runtime/ntl-net/src/bin_support.rs\<close>, used by \<open>ntl-node\<close> and
  \<open>ntl-edge\<close>): the home directory, the configuration found or made there, the addresses, the
  store and the runtime, and what the process does with the events it waits for. The machine
  the process runs on is a parameter: its environment, its files, and the engine that opens
  databases.
\<close>

section \<open>The machine\<close>

record ('w, 'k, 'v) Machine =
  mc_files :: "'w file_api"
  mc_classical :: bool
  mc_exists :: "string \<Rightarrow> 'w \<Rightarrow> bool"
  mc_create_dirs :: "string \<Rightarrow> 'w \<Rightarrow> (string + unit) \<times> 'w"
  mc_var :: "string \<Rightarrow> string option"
  mc_utf8 :: "string \<Rightarrow> bool"
  mc_lossy :: "string \<Rightarrow> string"
  mc_sqlite :: "'w \<Rightarrow> sqlite_host"
  mc_close :: "string \<Rightarrow> Database \<Rightarrow> 'w \<Rightarrow> 'w"
  mc_driver :: sqlite_driver
  mc_ed :: "('k, 'v) ed25519"
  mc_blake :: blake3
  mc_clock :: "u64 option"

datatype start_fault =
    OpenRefused open_fault
  | StoreAnswered StoreError
  | IdentityRefused IdentityError
  | ConfigRefused Error
  | RuntimeRefused RuntimeError
  | NotUtf8 string
  | CannotCreate string string
  | BadDefaults config_fault
  | NoNodeAt string
  | AlreadyThere string
  | UnknownClass string
  | PayloadNotJson string
  | NoPeersToEmit
  | NoHandshake nat
  | ReceiptByHand
  | UnknownType string

text \<open>\<open>env::var\<close> refuses a value that is not Unicode, \<open>env::var_os\<close> does not.\<close>

definition env_text :: "('w, 'k, 'v) Machine \<Rightarrow> string \<Rightarrow> string option" where
  "env_text mc k = (case mc_var mc k of Some v \<Rightarrow> if mc_utf8 mc v then Some v else None | None \<Rightarrow> None)"

section \<open>Text\<close>

definition is_space :: "char \<Rightarrow> bool" where
  "is_space c \<longleftrightarrow> (let n = of_char c :: nat in 9 \<le> n \<and> n \<le> 13 \<or> n = 32)"

definition trim :: "string \<Rightarrow> string" where
  "trim s = rev (dropWhile is_space (rev (dropWhile is_space s)))"

fun split_on :: "char \<Rightarrow> string \<Rightarrow> string list" where
  "split_on c [] = [[]]"
| "split_on c (x # s) = (if x = c then [] # split_on c s
     else (case split_on c s of [] \<Rightarrow> [[x]] | w # ws \<Rightarrow> (x # w) # ws))"

section \<open>Configuration and addresses\<close>

definition resolve_home :: "('w, 'k, 'v) Machine \<Rightarrow> string" where
  "resolve_home mc = (case mc_var mc ''NTL_HOME'' of
     Some env \<Rightarrow> env
   | None \<Rightarrow> (case mc_var mc ''HOME'' of None \<Rightarrow> ''.ntl'' | Some h \<Rightarrow> path_join h ''.ntl''))"

definition load_or_default ::
  "('w, 'k, 'v) Machine \<Rightarrow> string \<Rightarrow> DeploymentClass \<Rightarrow> 'w \<Rightarrow> (start_fault + NodeConfig) \<times> 'w" where
  "load_or_default mc home cls w =
    (let path = path_join home ''config.toml'' in
     if mc_exists mc path w then
       (if \<not> mc_utf8 mc path then Inl (NotUtf8 path) else map_err ConfigRefused (from_file (mc_files mc) (mc_classical mc) path w), w)
     else (case mc_create_dirs mc home w of
         (Inl e, w') \<Rightarrow> (Inl (CannotCreate home e), w')
       | (Inr _, w') \<Rightarrow>
           (let config = (config_for_class (mc_classical mc) cls)\<lparr>nc_storage := Sqlite (mc_lossy mc (path_join home ''node.db'')) False\<rparr>
            in (case config_validate (mc_classical mc) config of
                  Inl e \<Rightarrow> (Inl (BadDefaults e), w')
                | Inr _ \<Rightarrow> (Inr config, w')))))"

text \<open>The address written \<open>host:port\<close>, or every interface when it cannot be read.\<close>

definition addr_or_any :: "string \<Rightarrow> u16 \<Rightarrow> u16 \<Rightarrow> SocketAddr" where
  "addr_or_any host port any_port =
    (case parse_addr (host @ '':'' @ decimal (unat port)) of Some a \<Rightarrow> a | None \<Rightarrow> V4 [0, 0, 0, 0] any_port)"

definition node_bind :: "('w, 'k, 'v) Machine \<Rightarrow> NodeConfig \<Rightarrow> u16 \<Rightarrow> SocketAddr" where
  "node_bind mc config default_port =
    (case Option.bind (env_text mc ''NTL_LISTEN'') parse_addr of
       Some a \<Rightarrow> a
     | None \<Rightarrow> addr_or_any (nw_bind_address (nc_network config)) default_port default_port)"

definition node_peers :: "('w, 'k, 'v) Machine \<Rightarrow> SocketAddr list" where
  "node_peers mc = (let text = (case env_text mc ''NTL_PEERS'' of None \<Rightarrow> [] | Some v \<Rightarrow> v)
     in List.map_filter (\<lambda>s. parse_addr (trim s)) (filter (\<lambda>s. trim s \<noteq> []) (split_on CHR '','' text)))"

section \<open>Starting and serving\<close>

text \<open>Up to the point where the runtime listens; the peers are dialled afterwards.\<close>

definition start_node ::
  "('w, 'k, 'v) Machine \<Rightarrow> u8 list \<Rightarrow> 's \<Rightarrow> DeploymentClass \<Rightarrow> u16 \<Rightarrow> 'w \<Rightarrow>
     (start_fault + (AnyStore, 's BoxRng, 'p) Runtime \<times> Identity \<times> SocketAddr \<times> SocketAddr list) \<times> 'w" where
  "start_node mc entropy os_rng cls default_port w =
    (case load_or_default mc (resolve_home mc) cls w of
       (Inl e, w') \<Rightarrow> (Inl e, w')
     | (Inr config, w') \<Rightarrow>
         (case open_store (mc_driver mc) (mc_sqlite mc w') (nc_storage config) of
            Inl e \<Rightarrow> (Inl (OpenRefused e), w')
          | Inr store \<Rightarrow>
              (case runtime_new (mc_files mc) (mc_classical mc) (any_api (mc_driver mc)) (mc_ed mc) (mc_blake mc) entropy os_rng
                      (mc_clock mc) w' config store of
                 Inl e \<Rightarrow> (Inl (RuntimeRefused e), w')
               | Inr (runtime, identity) \<Rightarrow> (Inr (runtime, identity, node_bind mc config default_port, node_peers mc), w'))))"

definition ntl_node_main where
  "ntl_node_main mc entropy os_rng = start_node mc entropy os_rng FullNode 4433"

definition ntl_edge_main where
  "ntl_edge_main mc entropy os_rng = start_node mc entropy os_rng DcEdge 4434"

text \<open>What the process waits for, how loudly it logs an event, and how it ends: after an
  interrupt it checkpoints, when the events are closed it does not.\<close>

datatype 'p wake = Interrupt | Arrived "'p RtEvent" | EventsClosed

datatype log_level = LogError | LogWarn | LogDebug

datatype ending = Checkpointed | ClosedOnly

definition level_of :: "'p RtEvent \<Rightarrow> log_level" where
  "level_of e = (case e of
     SignatureRefused peer pruned \<Rightarrow> if pruned then LogError else LogWarn
   | HeadersClamped peer i weight ttl \<Rightarrow> LogWarn
   | OriginKeyUnknown peer origin \<Rightarrow> LogWarn
   | MalformedFrom peer x \<Rightarrow> LogWarn
   | _ \<Rightarrow> LogDebug)"

fun serve :: "'p wake list \<Rightarrow> (log_level \<times> 'p RtEvent) list \<times> ending option" where
  "serve [] = ([], None)"
| "serve (Interrupt # ws) = ([], Some Checkpointed)"
| "serve (EventsClosed # ws) = ([], Some ClosedOnly)"
| "serve (Arrived e # ws) = (let (log, end_of) = serve ws in ((level_of e, e) # log, end_of))"

section \<open>Where a node listens\<close>

lemma addr_or_any_v4: "length ip = 4 \<Longrightarrow> addr_or_any (print_v4 ip) port any_port = V4 ip port"
  using parse_v4 [of ip port] by (simp add: addr_or_any_def)

lemma addr_or_any_name:
  "to_digit 10 c = None \<Longrightarrow> c \<noteq> CHR ''['' \<Longrightarrow> addr_or_any (c # cs) port any_port = V4 [0, 0, 0, 0] any_port"
  using parse_addr_first [of c "cs @ '':'' @ decimal (unat port)"] by (simp add: addr_or_any_def)

text \<open>
  C36: Where a node binary listens. When \<open>NTL_LISTEN\<close> holds no address, a bind address of four
  octets is used as configured. A bind address that begins with anything but a digit or a
  bracket, such as a host name or the IPv6 loopback \<open>::1\<close>, makes the node listen on every
  interface instead of failing; and in no case does the configured port matter, the port is
  the one built into the binary.
\<close>

theorem unreadable_bind_opens_all:
  assumes env: "Option.bind (env_text mc ''NTL_LISTEN'') parse_addr = None"
    and name: "to_digit 10 c = None" "c \<noteq> CHR ''[''" and ip: "length ip = 4"
  shows "node_bind mc (config\<lparr>nc_network := net\<lparr>nw_bind_address := print_v4 ip, nw_port := own_port\<rparr>\<rparr>) port = V4 ip port \<and>
    node_bind mc (config\<lparr>nc_network := net\<lparr>nw_bind_address := c # cs, nw_port := own_port\<rparr>\<rparr>) port = V4 [0, 0, 0, 0] port"
  using assms addr_or_any_v4 [OF ip] addr_or_any_name [OF name] by (simp add: node_bind_def)

text \<open>A machine whose disk is its text files and its databases, with one configuration its codec knows.\<close>

type_synonym disk = "(string \<rightharpoonup> string) \<times> (string \<rightharpoonup> Database)"

definition plain_settings :: Settings where
  "plain_settings = \<lparr>cn_wal = False, cn_synchronous = ''FULL'', cn_foreign_keys = False, cn_busy_timeout_ms = 5000\<rparr>"

definition new_database :: Database where
  "new_database = \<lparr>db_version = 0, db_tables = None\<rparr>"

definition disk_sqlite :: "disk \<Rightarrow> sqlite_host" where
  "disk_sqlite w = \<lparr>oh_home = Some ''/root'', oh_parent = (\<lambda>p. None), oh_create_dirs = (\<lambda>p. None),
     oh_open = (\<lambda>p. Inr (case snd w p of Some db \<Rightarrow> db | None \<Rightarrow> new_database, plain_settings)),
     oh_open_in_memory = Inr (new_database, plain_settings)\<rparr>"

definition known_config :: NodeConfig where
  "known_config = (config_for_class True DcEdge)\<lparr>nc_storage := Sqlite ''/root/.ntl/node.db'' False\<rparr>"

definition disk_files :: "disk file_api" where
  "disk_files = \<lparr>fs_read = (\<lambda>p w. case fst w p of Some t \<Rightarrow> Inr t | None \<Rightarrow> Inl ''missing''),
     fs_write = (\<lambda>p t w. (Inr (), map_prod (\<lambda>f. f(p \<mapsto> t)) id w)),
     toml_parse = (\<lambda>t. if t = ''known'' then Inr known_config else Inl ''syntax''),
     toml_print = (\<lambda>c. if c = known_config then Inr ''known'' else Inl ''unsupported'')\<rparr>"

definition sample_machine :: "(disk, u8 list, u8 list) Machine" where
  "sample_machine = \<lparr>mc_files = disk_files, mc_classical = True, mc_exists = (\<lambda>p w. fst w p \<noteq> None), mc_create_dirs = (\<lambda>p w. (Inr (), w)),
     mc_var = (\<lambda>k. if k = ''HOME'' then Some ''/root'' else None), mc_utf8 = (\<lambda>s. True), mc_lossy = id,
     mc_sqlite = disk_sqlite, mc_close = (\<lambda>p db. map_prod id (\<lambda>f. f(p \<mapsto> db))),
     mc_driver = sample_driver (\<lambda>n. None) plain_ulid, mc_ed = sample_ed, mc_blake = id, mc_clock = Some 5\<rparr>"

lemma unreadable_bind_opens_all_witness:
  "node_bind sample_machine (known_config\<lparr>nc_network := \<lparr>nw_bootstrap_nodes = [], nw_bind_address = print_v4 [127, 0, 0, 1], nw_port = 9000\<rparr>\<rparr>) 4433 =
     V4 [127, 0, 0, 1] 4433 \<and>
   node_bind sample_machine (known_config\<lparr>nc_network := \<lparr>nw_bootstrap_nodes = [], nw_bind_address = ''localhost'', nw_port = 9000\<rparr>\<rparr>) 4433 =
     V4 [0, 0, 0, 0] 4433"
  using unreadable_bind_opens_all [where mc = sample_machine and c = "CHR ''l''" and cs = "''ocalhost''" and ip = "[127, 0, 0, 1]" and
      config = known_config and net = "\<lparr>nw_bootstrap_nodes = [], nw_bind_address = [], nw_port = 0\<rparr>" and own_port = 9000 and port = 4433]
  by (simp add: env_text_def sample_machine_def to_digit_def)

end
