(* ===== verification/Command_Line.thy ===== *)
theory Command_Line
  imports Start_Up
begin

text \<open>
  The command line (\<open>runtime/ntl-cli/src/main.rs\<close>): each command as a function of the machine
  and the disk, its printed report as a record. Parsing the arguments and the layout of the
  printed text are not modelled; of the commands that run a node, the model has what they
  decide before the runtime starts and what they do with the events they wait for.
\<close>

section \<open>The node's directory\<close>

definition home_dir :: "('w, 'k, 'v) Machine \<Rightarrow> string option \<Rightarrow> string" where
  "home_dir mc explicit = (case explicit of
     Some path \<Rightarrow> path
   | None \<Rightarrow> (case mc_var mc ''NTL_HOME'' of
       Some env \<Rightarrow> env
     | None \<Rightarrow> (case mc_var mc ''HOME'' of None \<Rightarrow> ''.ntl'' | Some h \<Rightarrow> path_join h ''.ntl'')))"

definition config_path :: "string \<Rightarrow> string" where
  "config_path home = path_join home ''config.toml''"

definition load_config :: "('w, 'k, 'v) Machine \<Rightarrow> string \<Rightarrow> 'w \<Rightarrow> start_fault + NodeConfig" where
  "load_config mc home w =
    (let path = config_path home in
     if \<not> mc_exists mc path w then Inl (NoNodeAt home)
     else if \<not> mc_utf8 mc path then Inl (NotUtf8 path)
     else map_err ConfigRefused (from_file (mc_files mc) (mc_classical mc) path w))"

definition store_ask :: "('m, 'a) sop \<Rightarrow> ('m, start_fault, 'a) op" where
  "store_ask f m = (let (r, m') = f m in (map_err StoreAnswered r, m'))"

definition identity_ask :: "('w, 'k, 'v) Machine \<Rightarrow> u8 list \<Rightarrow> 'm store_api \<Rightarrow> ('m, start_fault, Identity) op" where
  "identity_ask mc entropy api m = (let (r, m') = load_or_create api (mc_ed mc) (mc_blake mc) entropy m in (map_err IdentityRefused r, m'))"

text \<open>A command opens the store, migrates it, works with it, and drops it when it returns.\<close>

definition closed :: "('w, 'k, 'v) Machine \<Rightarrow> AnyStore \<Rightarrow> 'w \<Rightarrow> 'w" where
  "closed mc s w = (case s of OnSqlite q \<Rightarrow> mc_close mc (qc_path (sq_config q)) (sq_db q) w | InMemory m \<Rightarrow> w)"

definition using_store ::
  "('w, 'k, 'v) Machine \<Rightarrow> NodeConfig \<Rightarrow> (AnyStore store_api \<Rightarrow> (AnyStore, start_fault, 'a) op) \<Rightarrow> 'w \<Rightarrow> (start_fault + 'a) \<times> 'w" where
  "using_store mc config f w =
    (case open_store (mc_driver mc) (mc_sqlite mc w) (nc_storage config) of
       Inl e \<Rightarrow> (Inl (OpenRefused e), w)
     | Inr s \<Rightarrow> (let api = any_api (mc_driver mc); (r, s') = op_bind (store_ask (st_migrate api)) (\<lambda>_. f api) s in (r, closed mc s' w)))"

section \<open>Init\<close>

record InitReport =
  ir_home :: string
  ir_config :: string
  ir_store :: string
  ir_class :: string
  ir_identity :: string

definition class_named :: "string \<Rightarrow> start_fault + DeploymentClass" where
  "class_named name =
    (if name = ''edge'' then Inr DcEdge else if name = ''full-node'' then Inr FullNode
     else if name = ''high-traffic'' then Inr HighTraffic else Inl (UnknownClass name))"

definition init_config :: "('w, 'k, 'v) Machine \<Rightarrow> string \<Rightarrow> DeploymentClass \<Rightarrow> NodeConfig" where
  "init_config mc home cls =
     (config_for_class (mc_classical mc) cls)\<lparr>nc_storage := Sqlite (mc_lossy mc (path_join home ''node.db'')) False\<rparr>"

definition cmd_init ::
  "('w, 'k, 'v) Machine \<Rightarrow> u8 list \<Rightarrow> string \<Rightarrow> string \<Rightarrow> bool \<Rightarrow> 'w \<Rightarrow> (start_fault + InitReport) \<times> 'w" where
  "cmd_init mc entropy home class force w =
    (let path = config_path home in
     if mc_exists mc path w \<and> \<not> force then (Inl (AlreadyThere path), w)
     else case class_named class of Inl e \<Rightarrow> (Inl e, w) | Inr deployment \<Rightarrow>
       (case mc_create_dirs mc home w of (Inl e, w1) \<Rightarrow> (Inl (CannotCreate home e), w1) | (Inr _, w1) \<Rightarrow>
       (let config = init_config mc home deployment in
        case config_validate (mc_classical mc) config of Inl e \<Rightarrow> (Inl (BadDefaults e), w1) | Inr _ \<Rightarrow>
        if \<not> mc_utf8 mc path then (Inl (NotUtf8 path), w1)
        else (case to_file (mc_files mc) config path w1 of (Inl e, w2) \<Rightarrow> (Inl (ConfigRefused e), w2) | (Inr _, w2) \<Rightarrow>
          using_store mc config (\<lambda>api. op_bind (identity_ask mc entropy api) (\<lambda>identity.
            op_ret \<lparr>ir_home = home, ir_config = path, ir_store = path_join home ''node.db'', ir_class = class,
              ir_identity = short identity\<rparr>)) w2))))"

section \<open>Inspection\<close>

record SynapseLine =
  sl_peer :: string
  sl_weight :: flt
  sl_state :: SynapseState
  sl_sent :: u64
  sl_received :: u64
  sl_error_rate :: flt
  sl_affinity :: "(string \<times> u64) list"

definition short_id :: "NodeId \<Rightarrow> string" where
  "short_id i = concat (map hex_byte (take 6 i))"

definition synapse_line :: "SynapseRecord \<Rightarrow> SynapseLine" where
  "synapse_line s = \<lparr>sl_peer = short_id (sr_peer s), sl_weight = sr_weight s, sl_state = sr_state s, sl_sent = sr_signals_transmitted s,
     sl_received = sr_signals_received s, sl_error_rate = sr_error_rate s,
     sl_affinity = take 3 (sort_by (\<lambda>a b. cmp_of (snd b) (snd a)) (sr_type_affinity s))\<rparr>"

text \<open>No line at all when there are no synapses; otherwise the lines, their total weight, and the budget.\<close>

definition cmd_synapses ::
  "('w, 'k, 'v) Machine \<Rightarrow> string \<Rightarrow> 'w \<Rightarrow> (start_fault + (SynapseLine list \<times> flt \<times> flt) option) \<times> 'w" where
  "cmd_synapses mc home w = (case load_config mc home w of Inl e \<Rightarrow> (Inl e, w) | Inr config \<Rightarrow>
     using_store mc config (\<lambda>api. op_bind (store_ask (st_list_synapses api filter_default)) (\<lambda>synapses.
       op_ret (if synapses = [] then None
         else Some (map synapse_line synapses, fl_sum (map sr_weight synapses), lc_max_total_outbound_weight (nc_learning config))))) w)"

record Routing =
  ro_total :: nat
  ro_delivered :: flt
  ro_exploration :: flt
  ro_pending :: flt
  ro_stopped_learning :: bool
  ro_no_receipts :: bool

record StatusReport =
  sp_identity :: string
  sp_home :: string
  sp_durability :: Durability
  sp_class :: NodeClass
  sp_synapses :: nat
  sp_eligible :: nat
  sp_routing :: "Routing option"

definition eligible_count :: "SynapseRecord list \<Rightarrow> nat" where
  "eligible_count synapses = length (filter (\<lambda>s. can_carry (sr_state s)) synapses)"

definition routing_report :: "SynapseRecord list \<Rightarrow> JournalEntry list \<Rightarrow> Routing option" where
  "routing_report synapses recent =
    (let pending = length (filter (\<lambda>d. \<not> is_resolved (je_outcome d)) recent);
         explored = length (filter je_explored recent);
         delivered = length (filter (\<lambda>d. je_outcome d = Delivered) recent);
         pct = (\<lambda>n. fl_mul b32 (fl_div b32 (fl_of_nat b32 n) (fl_of_nat b32 (length recent))) (lit 100))
     in if recent = [] then None
        else Some \<lparr>ro_total = length recent, ro_delivered = pct delivered, ro_exploration = pct explored, ro_pending = pct pending,
          ro_stopped_learning = (explored = 0 \<and> 1 < eligible_count synapses), ro_no_receipts = fl_lt (lit 80) (pct pending)\<rparr>)"

definition cmd_status :: "('w, 'k, 'v) Machine \<Rightarrow> u8 list \<Rightarrow> string \<Rightarrow> 'w \<Rightarrow> (start_fault + StatusReport) \<times> 'w" where
  "cmd_status mc entropy home w = (case load_config mc home w of Inl e \<Rightarrow> (Inl e, w) | Inr config \<Rightarrow>
     using_store mc config (\<lambda>api. op_bind (identity_ask mc entropy api) (\<lambda>identity.
       op_bind (store_ask (st_list_synapses api filter_default)) (\<lambda>synapses.
       op_bind (store_ask (st_recent_decisions api None 500)) (\<lambda>recent. \<lambda>s.
       op_ret \<lparr>sp_identity = short identity, sp_home = home, sp_durability = st_durability api s,
         sp_class = ac_node_class (nc_activation config), sp_synapses = length synapses, sp_eligible = eligible_count synapses,
         sp_routing = routing_report synapses recent\<rparr> s)))) w)"

definition cmd_topology ::
  "('w, 'k, 'v) Machine \<Rightarrow> string \<Rightarrow> 'w \<Rightarrow> (start_fault + (string \<times> PeerSource \<times> string \<times> string list) list) \<times> 'w" where
  "cmd_topology mc home w = (case load_config mc home w of Inl e \<Rightarrow> (Inl e, w) | Inr config \<Rightarrow>
     using_store mc config (\<lambda>api. op_bind (store_ask (st_list_peers api None 100)) (\<lambda>peers.
       op_ret (map (\<lambda>p. (short_id (pr_id p), pr_source p, case pr_region p of None \<Rightarrow> ''-'' | Some r \<Rightarrow> r,
         if pr_addresses p = [] then [''-''] else pr_addresses p)) peers))) w)"

section \<open>Start, emit and listen\<close>

definition start_bind :: "SocketAddr option \<Rightarrow> bool \<Rightarrow> NodeConfig \<Rightarrow> SocketAddr" where
  "start_bind listen dev config = (case listen of
     Some a \<Rightarrow> a
   | None \<Rightarrow> if dev then V4 [127, 0, 0, 1] 4433
       else addr_or_any (nw_bind_address (nc_network config)) (nw_port (nc_network config)) 4433)"

definition listen_bind :: "SocketAddr option \<Rightarrow> SocketAddr" where
  "listen_bind listen = (case listen of Some a \<Rightarrow> a | None \<Rightarrow> V4 [127, 0, 0, 1] 4433)"

text \<open>\<open>to_lowercase\<close>, on the letters of ASCII.\<close>

definition lower_char :: "char \<Rightarrow> char" where
  "lower_char c = (let n = of_char c :: nat in if 65 \<le> n \<and> n \<le> 90 then char_of (n + 32) else c)"

definition to_lowercase :: "string \<Rightarrow> string" where
  "to_lowercase s = map lower_char s"

definition parse_type :: "'p json_api \<Rightarrow> string \<Rightarrow> start_fault + 'p SignalBuilder" where
  "parse_type js name = (let lower = to_lowercase name in
     if lower = ''data'' then Inr (signal_data js ''cli'')
     else if lower = ''query'' then Inr (signal_query js ''cli'')
     else if lower = ''event'' then Inr (signal_event js ''cli'')
     else if lower = ''command'' then Inr (signal_command js ''cli'')
     else if lower = ''discovery'' then Inr (signal_discovery js)
     else if lower = ''heartbeat'' then Inr (signal_heartbeat js)
     else if lower = ''receipt'' then Inl ReceiptByHand
     else Inl (UnknownType lower))"

definition parse_type_name :: "string \<Rightarrow> SignalType" where
  "parse_type_name name = (let lower = to_lowercase name in
     if lower = ''data'' then Data else if lower = ''query'' then Query
     else if lower = ''event'' then Event else if lower = ''command'' then Command
     else if lower = ''discovery'' then Discovery else if lower = ''heartbeat'' then Heartbeat
     else if lower = ''receipt'' then ReceiptType else CustomType lower)"

fun dial_all :: "(SocketAddr \<Rightarrow> RuntimeError + unit) \<Rightarrow> SocketAddr list \<Rightarrow> start_fault + unit" where
  "dial_all dial [] = Inr ()"
| "dial_all dial (p # ps) = (case dial p of Inl e \<Rightarrow> Inl (RuntimeRefused e) | Inr _ \<Rightarrow> dial_all dial ps)"

text \<open>
  What \<open>emit\<close> builds: the payload is parsed before the runtime is made and listens (\<open>up\<close>), then
  there must be peers, all of them must take the connection and one must finish the handshake,
  and the type is looked at last. The flag tells that some peers were missing.
\<close>

definition emit_signal ::
  "'p json_api \<Rightarrow> (string \<Rightarrow> string + 'p) \<Rightarrow> string \<Rightarrow> string option \<Rightarrow> flt \<Rightarrow> string option \<Rightarrow> bool \<Rightarrow> SocketAddr list \<Rightarrow>
     RuntimeError + 'r \<Rightarrow> (SocketAddr \<Rightarrow> RuntimeError + unit) \<Rightarrow> nat \<Rightarrow> start_fault + 'r \<times> 'p SignalBuilder \<times> bool" where
  "emit_signal js from_str type_name payload weight tags ack peers up dial reached =
    sum_then (case payload of Some raw \<Rightarrow> map_err PayloadNotJson (from_str raw) | None \<Rightarrow> Inr (js_null js)) (\<lambda>parsed.
    sum_then (map_err RuntimeRefused up) (\<lambda>runtime.
    if peers = [] then Inl NoPeersToEmit
    else sum_then (dial_all dial peers) (\<lambda>_.
    if reached = 0 then Inl (NoHandshake (length peers))
    else sum_then (parse_type js type_name) (\<lambda>b.
    let b1 = with_weight (with_payload b parsed) weight;
        b2 = (case tags of Some raw \<Rightarrow> with_tags b1 (map trim (split_on CHR '','' raw)) | None \<Rightarrow> b1);
        b3 = (if ack then acknowledged b2 else b2)
    in Inr (runtime, b3, reached < length peers)))))"

text \<open>The commands that run a node: the configuration, the store, migrated, and the runtime over it.\<close>

definition open_migrated :: "('w, 'k, 'v) Machine \<Rightarrow> NodeConfig \<Rightarrow> 'w \<Rightarrow> start_fault + AnyStore" where
  "open_migrated mc config w =
    sum_then (map_err OpenRefused (open_store (mc_driver mc) (mc_sqlite mc w) (nc_storage config))) (\<lambda>s.
    case st_migrate (any_api (mc_driver mc)) s of (Inl e, s') \<Rightarrow> Inl (StoreAnswered e) | (Inr _, s') \<Rightarrow> Inr s')"

definition new_runtime ::
  "('w, 'k, 'v) Machine \<Rightarrow> u8 list \<Rightarrow> 's \<Rightarrow> NodeConfig \<Rightarrow> 'w \<Rightarrow> AnyStore \<Rightarrow>
     RuntimeError + (AnyStore, 's BoxRng, 'p) Runtime \<times> Identity" where
  "new_runtime mc entropy os_rng config w s =
     runtime_new (mc_files mc) (mc_classical mc) (any_api (mc_driver mc)) (mc_ed mc) (mc_blake mc) entropy os_rng (mc_clock mc) w config s"

definition cmd_start ::
  "('w, 'k, 'v) Machine \<Rightarrow> u8 list \<Rightarrow> 's \<Rightarrow> string \<Rightarrow> bool \<Rightarrow> SocketAddr option \<Rightarrow> 'w \<Rightarrow>
     start_fault + ((AnyStore, 's BoxRng, 'p) Runtime \<times> Identity) \<times> SocketAddr" where
  "cmd_start mc entropy os_rng home dev listen w =
    sum_then (load_config mc home w) (\<lambda>config.
    sum_then (open_migrated mc config w) (\<lambda>s.
    map_sum RuntimeRefused (\<lambda>r. (r, start_bind listen dev config)) (new_runtime mc entropy os_rng config w s)))"

definition cmd_listen ::
  "('w, 'k, 'v) Machine \<Rightarrow> u8 list \<Rightarrow> 's \<Rightarrow> string \<Rightarrow> SocketAddr option \<Rightarrow> 'w \<Rightarrow>
     start_fault + ((AnyStore, 's BoxRng, 'p) Runtime \<times> Identity) \<times> SocketAddr" where
  "cmd_listen mc entropy os_rng home listen w =
    sum_then (load_config mc home w) (\<lambda>config.
    sum_then (open_migrated mc config w) (\<lambda>s.
    map_sum RuntimeRefused (\<lambda>r. (r, listen_bind listen)) (new_runtime mc entropy os_rng config w s)))"

definition cmd_emit ::
  "('w, 'k, 'v) Machine \<Rightarrow> u8 list \<Rightarrow> 's \<Rightarrow> 'p json_api \<Rightarrow> (string \<Rightarrow> string + 'p) \<Rightarrow> string \<Rightarrow> string \<Rightarrow> string option \<Rightarrow> flt \<Rightarrow>
     string option \<Rightarrow> bool \<Rightarrow> SocketAddr list \<Rightarrow> RuntimeError + unit \<Rightarrow> (SocketAddr \<Rightarrow> RuntimeError + unit) \<Rightarrow> nat \<Rightarrow> 'w \<Rightarrow>
     start_fault + ((AnyStore, 's BoxRng, 'p) Runtime \<times> Identity) \<times> 'p SignalBuilder \<times> bool" where
  "cmd_emit mc entropy os_rng js from_str home type_name payload weight tags ack peers listening dial reached w =
    sum_then (load_config mc home w) (\<lambda>config.
    sum_then (open_migrated mc config w) (\<lambda>s.
    emit_signal js from_str type_name payload weight tags ack peers
      (sum_then (new_runtime mc entropy os_rng config w s) (\<lambda>r. map_sum id (\<lambda>_. r) listening)) dial reached))"

text \<open>The wait for receipts: events printed until the deadline or the end, and how many were receipts.\<close>

datatype 'p emit_wake = DeadlineReached | EmitArrived "'p RtEvent" | EmitClosed

definition is_receipt_event :: "'p RtEvent \<Rightarrow> bool" where
  "is_receipt_event e = (case e of ReceiptApplied p d x \<Rightarrow> True | _ \<Rightarrow> False)"

fun await_receipts :: "'p emit_wake list \<Rightarrow> 'p RtEvent list \<times> nat" where
  "await_receipts (EmitArrived e # ws) = (let (es, n) = await_receipts ws in (e # es, if is_receipt_event e then n + 1 else n))"
| "await_receipts ws = ([], 0)"

definition warns_of_silence :: "bool \<Rightarrow> 'p emit_wake list \<Rightarrow> bool" where
  "warns_of_silence ack ws \<longleftrightarrow> ack \<and> snd (await_receipts ws) = 0"

text \<open>What \<open>listen\<close> prints of an event.\<close>

datatype 'p printed = ShownSignal "'p Signal" "string option" | ShownEvent "'p RtEvent"

definition show_signal :: "'p Signal \<Rightarrow> SignalType option \<Rightarrow> string option \<Rightarrow> 'p printed list" where
  "show_signal g wanted note = (if (case wanted of None \<Rightarrow> True | Some w \<Rightarrow> sg_type g = w) then [ShownSignal g note] else [])"

definition listen_shows :: "string option \<Rightarrow> 'p RtEvent \<Rightarrow> 'p printed list" where
  "listen_shows type_filter e = (let wanted = map_option parse_type_name type_filter in case e of
     Handled g \<Rightarrow> show_signal g wanted None
   | Released i (Some g) \<Rightarrow> show_signal g wanted (Some ''below threshold; released by guard'')
   | _ \<Rightarrow> [ShownEvent e])"

text \<open>The loops of \<open>start\<close>, which prints every event, and of \<open>listen\<close>.\<close>

fun watch :: "('p RtEvent \<Rightarrow> 'p printed list) \<Rightarrow> 'p wake list \<Rightarrow> 'p printed list \<times> ending option" where
  "watch shown [] = ([], None)"
| "watch shown (Interrupt # ws) = ([], Some Checkpointed)"
| "watch shown (EventsClosed # ws) = ([], Some ClosedOnly)"
| "watch shown (Arrived e # ws) = (let (out, end_of) = watch shown ws in (shown e @ out, end_of))"

definition start_loop :: "'p wake list \<Rightarrow> 'p printed list \<times> ending option" where
  "start_loop = watch (\<lambda>e. [ShownEvent e])"

definition listen_loop :: "string option \<Rightarrow> 'p wake list \<Rightarrow> 'p printed list \<times> ending option" where
  "listen_loop type_filter = watch (listen_shows type_filter)"

section \<open>What a session with the store leaves behind\<close>

text \<open>The calls the commands make keep the connection's configuration.\<close>

definition keeps_config :: "(SqliteStore, 'a) sop \<Rightarrow> bool" where
  "keeps_config f \<longleftrightarrow> (\<forall>s. sq_config (snd (f s)) = sq_config s \<and> sq_in_memory (snd (f s)) = sq_in_memory s)"

lemma keeps_simps [intro]:
  "keeps_config (op_of r)" "keeps_config (decode_row dec row)" "keeps_config (query dv q)" "keeps_config (execute dv p)"
  "keeps_config f \<Longrightarrow> keeps_config (with_conn f)" "keeps_config f \<Longrightarrow> (\<And>x. keeps_config (g x)) \<Longrightarrow> keeps_config (op_bind f g)"
  by (auto simp: keeps_config_def op_of_def decode_row_def query_def execute_def statement_def engine_call_def with_conn_def op_bind_result
      Let_def sum_then_def split: option.splits sum.splits prod.splits)

lemma keeps_calls:
  "keeps_config (sq_get_meta dv k)" "keeps_config (sq_put_meta dv k v)" "keeps_config (sq_flush dv)"
  "keeps_config (sq_list_synapses dv f)" "keeps_config (sq_recent_decisions dv ty n)"
proof -
  show "keeps_config (sq_flush dv)"
    by (auto simp: keeps_config_def sq_flush_def with_conn_def pragma_def engine_call_def Let_def split: option.splits)
qed (unfold sq_get_meta_def sq_put_meta_def sq_list_synapses_def sq_recent_decisions_def, (intro keeps_simps)+)

text \<open>
  The store a command has open, when it is the database file \<open>file\<close> and holds what the
  in-memory store \<open>m\<close> holds; and the calls made by the commands that need an identity.
\<close>

definition holds :: "sqlite_driver \<Rightarrow> string \<Rightarrow> AnyStore \<Rightarrow> MemoryStore \<Rightarrow> bool" where
  "holds dv db s m \<longleftrightarrow> (\<exists>q. s = OnSqlite q \<and> mirrors dv q m \<and> qc_path (sq_config q) = db \<and> \<not> sq_in_memory q \<and>
     qc_synchronous (sq_config q) = SyncNormal)"

definition command_call :: "'m \<Rightarrow> StoreCall \<Rightarrow> bool" where
  "command_call m c \<longleftrightarrow> (case c of GetMeta k \<Rightarrow> True | PutMeta k v \<Rightarrow> True | Flush \<Rightarrow> True
     | ListSynapses f \<Rightarrow> f = filter_default | RecentDecisions ty n \<Rightarrow> ty = None \<and> n = 500 | _ \<Rightarrow> False)"

lemma keeps_answer: "keeps_config f \<Longrightarrow> keeps_config (answer c f)"
  by (simp add: keeps_config_def answer_def split: prod.split) (metis snd_conv)

lemma command_call_fits: "command_call m c \<Longrightarrow> fits_columns n c"
  by (cases c) (auto simp: command_call_def fits_filter_def filter_default_def)

lemma command_call_keeps: "command_call m c \<Longrightarrow> keeps_config (perform (sqlite_api dv) c)"
  by (cases c) (auto simp: command_call_def intro: keeps_answer keeps_calls)

interpretation opened: backend_simulation "any_api dv" memory_api "holds dv db" command_call for dv db
proof
  fix s m c assume "holds dv db s m" and call: "command_call m c"
  then obtain q where q: "s = OnSqlite q" "mirrors dv q m" "qc_path (sq_config q) = db" "\<not> sq_in_memory q" "qc_synchronous (sq_config q) = SyncNormal"
    by (auto simp: holds_def)
  obtain x q' m' where run: "perform (sqlite_api dv) c q = (x, q')" "perform memory_api c m = (x, m')" "mirrors dv q' m'"
    using sqlite.step [OF q(2) command_call_fits [OF call]] by (auto simp: matched_def)
  have "sq_config q' = sq_config q" "sq_in_memory q' = sq_in_memory q"
    using command_call_keeps [OF call, of dv] run(1) unfolding keeps_config_def by (metis snd_conv)+
  then show "matched (perform (any_api dv) c) (perform memory_api c) (holds dv db) s m"
    using q run by (auto simp: matched_def perform_any holds_def)
qed

text \<open>A single operation of the interface, from the agreement on calls.\<close>

lemma matched_answer_inj: "matched (answer c f) (answer c g) R m n \<Longrightarrow> inj c \<Longrightarrow> matched f g R m n"
  by (auto simp: matched_def answer_def Let_def inj_def map_sum_def split: prod.splits sum.splits)

text \<open>The same for an operation with errors of its own.\<close>

definition alike :: "('s, 'e, 'a) op \<Rightarrow> ('m, 'e, 'a) op \<Rightarrow> ('s \<Rightarrow> 'm \<Rightarrow> bool) \<Rightarrow> 's \<Rightarrow> 'm \<Rightarrow> bool" where
  "alike f g R s m \<longleftrightarrow> (\<exists>x s' m'. f s = (x, s') \<and> g m = (x, m') \<and> R s' m')"

lemma alike_bind:
  "alike f g R s m \<Longrightarrow> (\<And>x s' m'. R s' m' \<Longrightarrow> alike (f' x) (g' x) R s' m') \<Longrightarrow> alike (op_bind f f') (op_bind g g') R s m"
  unfolding alike_def op_bind_def by (fastforce split: sum.split)

lemma alike_pure: "R s m \<Longrightarrow> alike (op_ret x) (op_ret x) R s m" "R s m \<Longrightarrow> alike (id_result y) (id_result y) R s m"
  by (cases y; simp add: alike_def op_ret_def op_fail_def id_result_def)+

lemma alike_wrapped:
  assumes "matched f g R s m"
  shows "alike (id_op f) (id_op g) R s m" "alike (store_ask f) (store_ask g) R s m"
proof -
  obtain x s' m' where r: "f s = (x, s')" "g m = (x, m')" "R s' m'" using assms by (auto simp: matched_def)
  show "alike (id_op f) (id_op g) R s m" using r by (cases x) (auto simp: alike_def id_op_def)
  show "alike (store_ask f) (store_ask g) R s m" using r by (auto simp: alike_def store_ask_def)
qed

lemma held_calls:
  assumes "holds dv db s m"
  shows "matched (st_get_meta (any_api dv) k) (mem_get_meta k) (holds dv db) s m"
    "matched (st_put_meta (any_api dv) k v) (mem_put_meta k v) (holds dv db) s m"
    "matched (st_flush (any_api dv)) mem_flush (holds dv db) s m"
    "matched (st_list_synapses (any_api dv) filter_default) (mem_list_synapses filter_default) (holds dv db) s m"
    "matched (st_recent_decisions (any_api dv) None 500) (mem_recent_decisions None 500) (holds dv db) s m"
  using opened.step [OF assms, of "GetMeta k"] opened.step [OF assms, of "PutMeta k v"] opened.step [OF assms, of Flush]
    opened.step [OF assms, of "ListSynapses filter_default"] opened.step [OF assms, of "RecentDecisions None 500"]
  by (auto simp: command_call_def inj_def dest!: matched_answer_inj)

lemma held_identity:
  assumes "holds dv db s m"
  shows "alike (load_or_create (any_api dv) ed bl e) (load_or_create memory_api ed bl e) (holds dv db) s m"
  unfolding load_or_create_def memory_api_simps
  by (intro alike_bind alike_wrapped held_calls assms) 
    (auto split: option.split intro!: alike_bind alike_wrapped held_calls alike_pure)

section \<open>Opening a database file\<close>

definition opens :: "('w, 'k, 'v) Machine \<Rightarrow> 'w \<Rightarrow> string \<Rightarrow> Database \<Rightarrow> bool" where
  "opens mc w path db \<longleftrightarrow> (\<exists>st. oh_open (mc_sqlite mc w) path = Inr (db, st)) \<and>
     (\<forall>d. oh_parent (mc_sqlite mc w) path = Some d \<longrightarrow> d = [] \<or> oh_create_dirs (mc_sqlite mc w) d = None)"

lemma open_file:
  assumes dv: "reliable dv" and c: "qc_path c = path" and o: "opens mc w path db"
  shows "\<exists>q. sq_with_config dv (mc_sqlite mc w) c = Inr q \<and> sq_db q = db \<and> sq_config q = c \<and> \<not> sq_in_memory q \<and> \<not> sq_poisoned q"
proof -
  have ok: "dv_fault dv n = None" for n using dv by (simp add: reliable_def)
  show ?thesis using o c
    by (auto simp: opens_def sq_with_config_def configured_def store_on_def apply_pragmas_def with_conn_def op_bind_def pragma_def
        engine_call_def ok Let_def split: option.split)
qed

lemma migrate_new:
  assumes dv: "reliable dv" and q: "sq_db q = new_database" "\<not> sq_poisoned q" "\<not> qc_retain_signal_history (sq_config q)"
  shows "\<exists>q'. sq_migrate dv q = (Inr (), q') \<and> mirrors dv q' memory_new \<and> sq_config q' = sq_config q \<and> sq_in_memory q' = sq_in_memory q"
proof -
  have ok: "dv_fault dv n = None" for n using dv by (simp add: reliable_def)
  have "\<exists>k. sq_migrate dv q = (Inr (), q\<lparr>sq_count := k, sq_db := \<lparr>db_version = 2, db_tables = Some (empty_tables\<lparr>tb_windowed := True\<rparr>)\<rparr>\<rparr>)"
    using q by (simp add: sq_migrate_def with_conn_def user_version_def engine_call_def op_bind_def ok Let_def new_database_def
        CURRENT_VERSION_def MIGRATIONS_def apply_migration_def pragma_def create_script_def window_script_def empty_tables_def)
      (rule exI, rule refl)
  then obtain k where "sq_migrate dv q = (Inr (), q\<lparr>sq_count := k, sq_db := \<lparr>db_version = 2, db_tables = Some (empty_tables\<lparr>tb_windowed := True\<rparr>)\<rparr>\<rparr>)"
    by blast
  then show ?thesis using q dv
    by (simp add: mirrors_def CURRENT_VERSION_def tables_mirror_def empty_tables_def memory_new_def in_order_def)
qed

text \<open>The contents a command finds in a database file: none yet, or those of an earlier session.\<close>

definition contents :: "sqlite_driver \<Rightarrow> Database \<Rightarrow> MemoryStore \<Rightarrow> bool" where
  "contents dv db m \<longleftrightarrow> db = new_database \<and> m = memory_new \<or> (\<exists>q. mirrors dv q m \<and> sq_db q = db \<and> \<not> ms_retain_history m)"

lemma migrate_contents:
  assumes dv: "reliable dv" and q: "contents dv (sq_db q) m" "\<not> sq_poisoned q" "\<not> qc_retain_signal_history (sq_config q)"
  shows "\<exists>q'. sq_migrate dv q = (Inr (), q') \<and> mirrors dv q' m \<and> sq_config q' = sq_config q \<and> sq_in_memory q' = sq_in_memory q"
proof (cases "sq_db q = new_database \<and> m = memory_new")
  case True
  then show ?thesis using migrate_new dv q by blast
next
  case False
  then obtain q0 where q0: "mirrors dv q0 m" "sq_db q0 = sq_db q" "\<not> ms_retain_history m" using q by (auto simp: contents_def)
  then have "mirrors dv q m" using q by (simp add: mirrors_def)
  moreover have "sq_migrate dv q = (Inr (), q\<lparr>sq_count := sq_count q + 1\<rparr>)"
    using \<open>mirrors dv q m\<close> by (simp add: sq_migrate_def with_conn_def mirrors_def reliable_def user_version_def engine_call_def op_bind_def
        MIGRATIONS_def CURRENT_VERSION_def Let_def word_le_nat_alt)
  ultimately show ?thesis by (simp add: mirrors_def)
qed

lemma session_opens:
  assumes dv: "reliable (mc_driver mc)" and o: "opens mc w db d" and config: "nc_storage config = Sqlite p False"
    and path: "db = expand (oh_home (mc_sqlite mc w)) p" and m: "contents (mc_driver mc) d m"
  shows "\<exists>s. holds (mc_driver mc) db s m \<and> (\<forall>f. using_store mc config f w = (let (r, s') = f (any_api (mc_driver mc)) s in (r, closed mc s' w)))"
proof -
  let ?c = "(sqlite_config_at db)\<lparr>qc_retain_signal_history := False\<rparr>"
  obtain q where q: "sq_with_config (mc_driver mc) (mc_sqlite mc w) ?c = Inr q" "sq_db q = d" "sq_config q = ?c" "\<not> sq_in_memory q" "\<not> sq_poisoned q"
    using open_file [OF dv _ o, of ?c] by (auto simp: sqlite_config_at_def)
  obtain q' where q': "sq_migrate (mc_driver mc) q = (Inr (), q')" "mirrors (mc_driver mc) q' m" "sq_config q' = sq_config q"
    "sq_in_memory q' = sq_in_memory q"
    using migrate_contents [OF dv, of q m] m q by auto
  have "open_store (mc_driver mc) (mc_sqlite mc w) (nc_storage config) = Inr (OnSqlite q)"
    using q(1) by (simp add: open_store_def config path)
  moreover have "store_ask (st_migrate (any_api (mc_driver mc))) (OnSqlite q) = (Inr (), OnSqlite q')"
    using q'(1) by (simp add: store_ask_def any_api_def dyn_call_def)
  ultimately have "using_store mc config f w = (let (r, s') = f (any_api (mc_driver mc)) (OnSqlite q') in (r, closed mc s' w))" for f
    by (simp add: using_store_def op_bind_def)
  moreover have "holds (mc_driver mc) db (OnSqlite q') m" using q q' by (simp add: holds_def sqlite_config_at_def)
  ultimately show ?thesis by blast
qed

lemma session_closes:
  assumes "holds (mc_driver mc) db s m" "\<not> ms_retain_history m"
  shows "\<exists>d. closed mc s w = mc_close mc db d w \<and> contents (mc_driver mc) d m"
  using assms by (auto simp: holds_def closed_def contents_def)

section \<open>The commands over a disk\<close>

text \<open>
  What is documented of files and databases: what was written is read back, creating directories
  and writing a file leave the databases alone, and closing a database keeps it for the next
  time it is opened and leaves the text files alone.
\<close>

definition disk_sound :: "('w, 'k, 'v) Machine \<Rightarrow> bool" where
  "disk_sound mc \<longleftrightarrow>
     (\<forall>p t w u w'. fs_write (mc_files mc) p t w = (Inr u, w') \<longrightarrow>
        fs_read (mc_files mc) p w' = Inr t \<and> mc_exists mc p w' \<and> mc_sqlite mc w' = mc_sqlite mc w) \<and>
     (\<forall>p w u w'. mc_create_dirs mc p w = (Inr u, w') \<longrightarrow> mc_sqlite mc w' = mc_sqlite mc w) \<and>
     (\<forall>p db w. opens mc (mc_close mc p db w) p db \<and> oh_home (mc_sqlite mc (mc_close mc p db w)) = oh_home (mc_sqlite mc w) \<and>
        (\<forall>q. fs_read (mc_files mc) q (mc_close mc p db w) = fs_read (mc_files mc) q w \<and> mc_exists mc q (mc_close mc p db w) = mc_exists mc q w))"

lemma opens_same: "mc_sqlite mc w' = mc_sqlite mc w \<Longrightarrow> opens mc w' p db = opens mc w p db"
  by (simp add: opens_def)

text \<open>An in-memory store with the identity of a node and nothing else.\<close>

definition with_identity_stored :: "u8 list \<Rightarrow> Identity \<Rightarrow> MemoryStore" where
  "with_identity_stored entropy i =
     memory_new\<lparr>ms_meta := AList.update NODE_ID_KEY (id_node_id i) (AList.update SEED_KEY entropy [])\<rparr>"

lemma identity_stored:
  assumes "identity_from_seed ed bl entropy = Inr i" "length entropy = 32"
  shows "load_or_create memory_api ed bl entropy memory_new = (Inr i, with_identity_stored entropy i)"
    "load_or_create memory_api ed bl other (with_identity_stored entropy i) = (Inr i, with_identity_stored entropy i)"
    "\<not> ms_retain_history (with_identity_stored entropy i)"
    "mem_list_synapses filter_default (with_identity_stored entropy i) = (Inr [], with_identity_stored entropy i)"
    "mem_recent_decisions None 500 (with_identity_stored entropy i) = (Inr [], with_identity_stored entropy i)"
proof -
  have new: "map_of (ms_meta memory_new) SEED_KEY = None" "ms_meta memory_new = []" by (simp_all add: memory_new_def)
  show "load_or_create memory_api ed bl entropy memory_new = (Inr i, with_identity_stored entropy i)"
    using load_fresh [OF memory_new_ok new(1) assms(2), of ed bl] assms(1) by (simp add: new with_identity_stored_def)
  have ok: "mem_ok (with_identity_stored entropy i)"
    by (simp add: mem_ok_def with_identity_stored_def memory_new_def)
  have "map_of (ms_meta (with_identity_stored entropy i)) SEED_KEY = Some entropy"
    by (simp add: with_identity_stored_def SEED_KEY_def NODE_ID_KEY_def update_conv')
  from load_stored [OF ok this, of ed bl other]
  show "load_or_create memory_api ed bl other (with_identity_stored entropy i) = (Inr i, with_identity_stored entropy i)"
    by (simp add: assms(1) id_result_def op_ret_def)
qed (simp_all add: with_identity_stored_def memory_new_def mem_list_synapses_def mem_recent_decisions_def locked_def hm_values_def
    filter_default_def Memory_Store.truncate_def)

text \<open>A session that asks for the identity, on a fresh database and on one that has it.\<close>

lemma identity_session:
  assumes held: "holds (mc_driver mc) db s m"
    and run: "load_or_create memory_api (mc_ed mc) (mc_blake mc) entropy m = (Inr i, m')" and keep: "\<not> ms_retain_history m'"
  shows "\<exists>s'. identity_ask mc entropy (any_api (mc_driver mc)) s = (Inr i, s') \<and> holds (mc_driver mc) db s' m' \<and>
    (\<exists>d. closed mc s' w = mc_close mc db d w \<and> contents (mc_driver mc) d m')"
proof -
  obtain s' where "load_or_create (any_api (mc_driver mc)) (mc_ed mc) (mc_blake mc) entropy s = (Inr i, s')" "holds (mc_driver mc) db s' m'"
    using held_identity [OF held, of "mc_ed mc" "mc_blake mc" entropy] run by (auto simp: alike_def)
  then show ?thesis using session_closes [OF _ keep] by (simp add: identity_ask_def)
qed

lemma held_listings:
  assumes held: "holds dv db s m" and run: "mem_list_synapses filter_default m = (Inr [], m)" "mem_recent_decisions None 500 m = (Inr [], m)"
  shows "\<exists>s1 s2. store_ask (st_list_synapses (any_api dv) filter_default) s = (Inr [], s1) \<and>
    store_ask (st_recent_decisions (any_api dv) None 500) s1 = (Inr [], s2) \<and> holds dv db s2 m"
proof -
  obtain s1 where s1: "st_list_synapses (any_api dv) filter_default s = (Inr [], s1)" "holds dv db s1 m"
    using held_calls(4) [OF held] run by (auto simp: matched_def)
  then obtain s2 where "st_recent_decisions (any_api dv) None 500 s1 = (Inr [], s2)" "holds dv db s2 m"
    using held_calls(5) [OF s1(2)] run by (auto simp: matched_def)
  then show ?thesis using s1 by (auto simp: store_ask_def)
qed

lemma held_durability: "holds dv db s m \<Longrightarrow> st_durability (any_api dv) s = DurableBestEffort"
  by (auto simp: holds_def any_api_def sqlite_api_def sq_durability_def)

text \<open>A home directory that can be written, a codec that reads back the configuration, and its database file.\<close>

definition home_ready :: "('w, 'k, 'v) Machine \<Rightarrow> string \<Rightarrow> DeploymentClass \<Rightarrow> string \<Rightarrow> string \<Rightarrow> 'w \<Rightarrow> bool" where
  "home_ready mc home cls text db w \<longleftrightarrow> mc_classical mc \<and> mc_utf8 mc (config_path home) \<and>
     (\<forall>w. \<exists>w'. mc_create_dirs mc home w = (Inr (), w')) \<and> (\<forall>w. \<exists>w'. fs_write (mc_files mc) (config_path home) text w = (Inr (), w')) \<and>
     toml_print (mc_files mc) (init_config mc home cls) = Inr text \<and> toml_parse (mc_files mc) text = Inr (init_config mc home cls) \<and>
     db = expand (oh_home (mc_sqlite mc w)) (mc_lossy mc (path_join home ''node.db''))"

lemma validate_storage: "config_validate cc (c\<lparr>nc_storage := st\<rparr>) = config_validate cc c"
proof -
  have fields: "nc_activation (c\<lparr>nc_storage := st\<rparr>) = nc_activation c" "nc_learning (c\<lparr>nc_storage := st\<rparr>) = nc_learning c"
    "nc_propagation (c\<lparr>nc_storage := st\<rparr>) = nc_propagation c" "nc_retry (c\<lparr>nc_storage := st\<rparr>) = nc_retry c"
    "nc_crypto_module (c\<lparr>nc_storage := st\<rparr>) = nc_crypto_module c" "nc_synapse (c\<lparr>nc_storage := st\<rparr>) = nc_synapse c" by simp_all
  show ?thesis unfolding config_validate_def fields ..
qed

lemma init_config_valid: "mc_classical mc \<Longrightarrow> config_validate (mc_classical mc) (init_config mc home cls) = Inr ()"
  using class_config_valid [of cls] by (simp add: init_config_def validate_storage)

lemma init_runs:
  assumes sound: "disk_sound mc" and dv: "reliable (mc_driver mc)" and home: "home_ready mc home cls text db w"
    and name: "class_named class = Inr cls" and may: "\<not> mc_exists mc (config_path home) w \<or> force"
    and o: "opens mc w db d" "contents (mc_driver mc) d m"
    and run: "load_or_create memory_api (mc_ed mc) (mc_blake mc) entropy m = (Inr i, m')" and keep: "\<not> ms_retain_history m'"
  shows "\<exists>rep w' d'. cmd_init mc entropy home class force w = (Inr rep, w') \<and> ir_identity rep = short i \<and>
    load_config mc home w' = Inr (init_config mc home cls) \<and> mc_exists mc (config_path home) w' \<and>
    opens mc w' db d' \<and> contents (mc_driver mc) d' m' \<and> home_ready mc home cls text db w'"
proof -
  let ?c = "init_config mc home cls"
  obtain w1 where w1: "mc_create_dirs mc home w = (Inr (), w1)" using home by (auto simp: home_ready_def)
  obtain w2 where w2: "fs_write (mc_files mc) (config_path home) text w1 = (Inr (), w2)" using home unfolding home_ready_def by blast
  have same: "mc_sqlite mc w2 = mc_sqlite mc w" and read: "fs_read (mc_files mc) (config_path home) w2 = Inr text" "mc_exists mc (config_path home) w2"
    using sound w1 w2 unfolding disk_sound_def by metis+
  have db: "db = expand (oh_home (mc_sqlite mc w2)) (mc_lossy mc (path_join home ''node.db''))" using home same by (simp add: home_ready_def)
  have storage: "nc_storage ?c = Sqlite (mc_lossy mc (path_join home ''node.db'')) False" by (simp add: init_config_def)
  obtain s where s: "holds (mc_driver mc) db s m"
    "\<And>f :: AnyStore store_api \<Rightarrow> (AnyStore, start_fault, InitReport) op. using_store mc ?c f w2 = (let (r, s') = f (any_api (mc_driver mc)) s in (r, closed mc s' w2))"
    using session_opens [OF dv _ storage db o(2)] o(1) opens_same [OF same] by metis
  obtain s' d' where s': "identity_ask mc entropy (any_api (mc_driver mc)) s = (Inr i, s')" "closed mc s' w2 = mc_close mc db d' w2"
    "contents (mc_driver mc) d' m'"
    using identity_session [OF s(1) run keep] by blast
  let ?w = "mc_close mc db d' w2"
  have closing: "opens mc ?w db d'" "oh_home (mc_sqlite mc ?w) = oh_home (mc_sqlite mc w2)"
    "fs_read (mc_files mc) (config_path home) ?w = Inr text" "mc_exists mc (config_path home) ?w"
    using sound read unfolding disk_sound_def by auto
  have written: "to_file (mc_files mc) ?c (config_path home) w1 = (Inr (), w2)"
    using home w2 by (simp add: to_file_def home_ready_def)
  have "cmd_init mc entropy home class force w = (Inr \<lparr>ir_home = home, ir_config = config_path home,
      ir_store = path_join home ''node.db'', ir_class = class, ir_identity = short i\<rparr>, ?w)"
    using may home written init_config_valid [of mc home cls] s' w1
    by (auto simp: cmd_init_def Let_def name home_ready_def s(2) op_bind_def op_ret_def)
  moreover have "load_config mc home ?w = Inr ?c"
    using home closing init_config_valid [of mc home cls] by (auto simp: load_config_def Let_def home_ready_def from_file_def)
  moreover have "home_ready mc home cls text db ?w" using home closing(2) same by (simp add: home_ready_def)
  ultimately show ?thesis using closing s'(3) by (intro exI conjI) (assumption | simp)+
qed

lemma status_runs:
  assumes sound: "disk_sound mc" and dv: "reliable (mc_driver mc)" and home: "home_ready mc home cls text db w"
    and config: "load_config mc home w = Inr (init_config mc home cls)" and o: "opens mc w db d" "contents (mc_driver mc) d m"
    and run: "load_or_create memory_api (mc_ed mc) (mc_blake mc) entropy m = (Inr i, m')" and keep: "\<not> ms_retain_history m'"
    and empty: "mem_list_synapses filter_default m' = (Inr [], m')" "mem_recent_decisions None 500 m' = (Inr [], m')"
  shows "\<exists>st w'. cmd_status mc entropy home w = (Inr st, w') \<and> sp_identity st = short i \<and> sp_synapses st = 0 \<and> sp_eligible st = 0 \<and>
    sp_routing st = None \<and> sp_durability st = DurableBestEffort"
proof -
  let ?c = "init_config mc home cls"
  have db: "db = expand (oh_home (mc_sqlite mc w)) (mc_lossy mc (path_join home ''node.db''))" using home by (simp add: home_ready_def)
  have storage: "nc_storage ?c = Sqlite (mc_lossy mc (path_join home ''node.db'')) False" by (simp add: init_config_def)
  obtain s where s: "holds (mc_driver mc) db s m"
    "\<And>f :: AnyStore store_api \<Rightarrow> (AnyStore, start_fault, StatusReport) op. using_store mc ?c f w = (let (r, s') = f (any_api (mc_driver mc)) s in (r, closed mc s' w))"
    using session_opens [OF dv o(1) storage db o(2)] by metis
  obtain s' where s': "identity_ask mc entropy (any_api (mc_driver mc)) s = (Inr i, s')" "holds (mc_driver mc) db s' m'"
    using identity_session [OF s(1) run keep] by blast
  obtain s1 s2 where lists: "store_ask (st_list_synapses (any_api (mc_driver mc)) filter_default) s' = (Inr [], s1)"
    "store_ask (st_recent_decisions (any_api (mc_driver mc)) None 500) s1 = (Inr [], s2)" "holds (mc_driver mc) db s2 m'"
    using held_listings [OF s'(2) empty] by blast
  show ?thesis
    using held_durability [OF lists(3)] by (simp add: cmd_status_def config s(2) op_bind_def s'(1) lists op_ret_def eligible_count_def routing_report_def)
qed


lemma sample_machine_sound: "disk_sound sample_machine" "reliable (mc_driver sample_machine)"
  using sample_driver_sound [of "\<lambda>n. None"]
  by (simp_all add: disk_sound_def sample_machine_def disk_files_def disk_sqlite_def opens_def reliable_def sample_driver_def)


section \<open>Listening and emitting\<close>

lemma map_err_ok: "map_err f x = Inr y \<longleftrightarrow> x = Inr y"
  by (cases x) simp_all

lemma lower_not_upper: "of_char (lower_char c) \<notin> {65 .. 90 :: nat}"
  by (auto simp: lower_char_def Let_def)

text \<open>
  A listener for a signal type of the user's own never sees it when its name has a capital
  letter: the filter is folded to lower case, the type of an arriving signal is not. Nothing is
  shown of such a signal, whatever filter is given.
\<close>

theorem custom_filter_blind:
  assumes "sg_type g = CustomType name" and "\<exists>c \<in> set name. of_char c \<in> {65 .. 90 :: nat}"
  shows "listen_shows (Some filter_text) (Handled g) = [] \<and> listen_shows (Some filter_text) (Released i (Some g)) = []"
proof -
  have "to_lowercase filter_text \<noteq> name" using assms(2) lower_not_upper by (auto simp: to_lowercase_def)
  then show ?thesis by (auto simp: listen_shows_def show_signal_def assms(1) parse_type_name_def Let_def)
qed

lemma custom_filter_blind_witness:
  "listen_shows (Some ''Invoice'') (Handled (sample_signal\<lparr>sg_type := CustomType ''Invoice''\<rparr>)) = []"
  using custom_filter_blind [of "sample_signal\<lparr>sg_type := CustomType ''Invoice''\<rparr>" "''Invoice''" "''Invoice''"] by simp


definition plain_json :: "string json_api" where
  "plain_json = \<lparr>js_null = ''null'', js_receipt = (\<lambda>r. None), js_text_len = size\<rparr>"

lemma lower_data: "to_lowercase ''DATA'' = ''data''"
  by code_simp


end
