(* ===== verification/Connections.thy ===== *)
theory Connections
  imports Handshake Addresses
begin

text \<open>
  Connections of the runtime (\<open>runtime/ntl-net/src/runtime.rs\<close>: \<open>listen\<close>, \<open>dial\<close> and
  \<open>wait_for_peers\<close>). What the sockets answer is an argument; a connection is named by its
  number, and a session task is started for it.
\<close>

section \<open>Listening and dialling\<close>

definition rt_listen :: "(SocketAddr \<Rightarrow> string + SocketAddr) \<Rightarrow> SocketAddr \<Rightarrow> RuntimeError + SocketAddr" where
  "rt_listen bind_to addr = map_sum RtBind id (bind_to addr)"

datatype accepted = Connection nat | AcceptFailed string

text \<open>The accept loop: the connections sessions are started for; a failed accept is passed over.\<close>

fun accept_loop :: "accepted list \<Rightarrow> nat list" where
  "accept_loop [] = []"
| "accept_loop (Connection c # xs) = c # accept_loop xs"
| "accept_loop (AcceptFailed e # xs) = accept_loop xs"

definition rt_dial :: "(SocketAddr \<Rightarrow> string + nat) \<Rightarrow> SocketAddr \<Rightarrow> RuntimeError + nat" where
  "rt_dial connect addr = map_sum RtDial id (connect addr)"

section \<open>Waiting for peers\<close>

text \<open>
  \<open>wait_for_peers\<close> looks at the sessions, then at the clock, then sleeps for 25 milliseconds.
  The \<open>k\<close>-th look sees the instant and the number of sessions \<open>look k\<close>; instants are in
  milliseconds.
\<close>

partial_function (option) wait_loop :: "(nat \<Rightarrow> nat \<times> nat) \<Rightarrow> nat \<Rightarrow> nat \<Rightarrow> nat \<Rightarrow> nat option" where
  "wait_loop look wanted deadline k =
    (if wanted \<le> snd (look k) then Some (snd (look k))
     else if deadline \<le> fst (look k) then Some (snd (look k))
     else wait_loop look wanted deadline (Suc k))"

definition wait_for_peers :: "(nat \<Rightarrow> nat \<times> nat) \<Rightarrow> nat \<Rightarrow> nat \<Rightarrow> nat \<Rightarrow> nat option" where
  "wait_for_peers look start timeout wanted = wait_loop look wanted (start + timeout) 0"

lemma wait_loop_stops:
  assumes last: "wanted \<le> snd (look (i + d)) \<or> deadline \<le> fst (look (i + d))"
    and before: "\<And>j. i \<le> j \<Longrightarrow> j < i + d \<Longrightarrow> snd (look j) < wanted \<and> fst (look j) < deadline"
  shows "wait_loop look wanted deadline i = Some (snd (look (i + d)))"
  using assms
proof (induction d arbitrary: i)
  case 0
  then show ?case by (subst wait_loop.simps) auto
next
  case (Suc d)
  have "wait_loop look wanted deadline i = wait_loop look wanted deadline (Suc i)"
    using Suc.prems(2) [of i] by (subst wait_loop.simps) auto
  also have "\<dots> = Some (snd (look (Suc i + d)))"
    using Suc.prems by (intro Suc.IH) auto
  finally show ?case by simp
qed

text \<open>
  C35: Waiting for peers ends. When every sleep lasts at least its 25 milliseconds, the loop
  looks at most once more often than the timeout holds sleeps; it returns the number of
  sessions of its last look, at which either enough peers were connected or the timeout had
  elapsed, and at no earlier look was either the case: it neither gives up early nor waits on
  once the peers are there.
\<close>

theorem wait_for_peers_returns:
  assumes sleeps: "\<And>k. start + 25 * k \<le> fst (look k)"
  shows "\<exists>k. k \<le> (timeout + 24) div 25 \<and> wait_for_peers look start timeout wanted = Some (snd (look k)) \<and>
    (wanted \<le> snd (look k) \<or> start + timeout \<le> fst (look k)) \<and>
    (\<forall>j < k. snd (look j) < wanted \<and> fst (look j) < start + timeout)"
proof -
  let ?done = "\<lambda>k. wanted \<le> snd (look k) \<or> start + timeout \<le> fst (look k)"
  let ?n = "(timeout + 24) div 25" and ?k = "LEAST k. ?done k"
  have "timeout \<le> 25 * ?n" by linarith
  then have stop: "?done ?n" using sleeps [of ?n] by linarith
  have last: "?done ?k" and few: "?k \<le> ?n" by (rule LeastI [of ?done, OF stop], rule Least_le [of ?done, OF stop])
  have before: "snd (look j) < wanted \<and> fst (look j) < start + timeout" if "j < ?k" for j
    using not_less_Least [of j ?done, OF that] by auto
  have "wait_for_peers look start timeout wanted = Some (snd (look ?k))"
    using wait_loop_stops [of wanted look 0 ?k "start + timeout"] last before by (simp add: wait_for_peers_def)
  then show ?thesis using last few before by blast
qed

text \<open>Two peers arrive one after the other; the third look sees both.\<close>

lemma wait_for_peers_returns_witness:
  "wait_for_peers (\<lambda>k. (1000 + 30 * k, k)) 1000 10000 2 = Some 2"
proof -
  obtain k where "wait_for_peers (\<lambda>k. (1000 + 30 * k, k)) 1000 10000 2 = Some k" "2 \<le> k \<or> 11000 \<le> 1000 + 30 * k"
    "\<forall>j < k. j < 2 \<and> 1000 + 30 * j < 11000"
    using wait_for_peers_returns [of 1000 "\<lambda>k. (1000 + 30 * k, k)" 10000 2] by auto
  moreover have "k \<le> 2" using calculation(3) [rule_format, of 2] by (cases "2 < k") auto
  ultimately show ?thesis by (auto simp: le_Suc_eq numeral_2_eq_2)
qed

end
