(* ===== verification/Topology.thy ===== *)
theory Topology
  imports Signal
begin

text \<open>
  The bootstrap view of the network (\<open>runtime/ntl-core/src/topology.rs\<close>) and the interface of
  protocol adapters (\<open>adapter.rs\<close>): data, and a trait without an implementation in the crate.
\<close>

section \<open>Topology\<close>

record TopologyHealth =
  th_active_synapses :: u32
  th_avg_synapse_weight :: flt
  th_connectivity_score :: flt
  th_redundancy_score :: flt
  th_last_bootstrap_contact :: u64

datatype NodeCapacity = EdgeCapacity | StandardCapacity | HighCapacity | InfrastructureCapacity

record NodeCapabilities =
  cp_signal_types :: "string list"
  cp_adapters :: "string list"
  cp_capacity :: NodeCapacity
  cp_region :: "string option"

record TopologyManager =
  tm_local_node :: NodeId
  tm_bootstrap_nodes :: "string list"

definition topology_new :: "NodeId \<Rightarrow> string list \<Rightarrow> TopologyManager" where
  "topology_new node addresses = \<lparr>tm_local_node = node, tm_bootstrap_nodes = addresses\<rparr>"

definition is_bootstrap :: "TopologyManager \<Rightarrow> string \<Rightarrow> bool" where
  "is_bootstrap tm address = list_ex (\<lambda>b. b = address) (tm_bootstrap_nodes tm)"

section \<open>Adapters\<close>

datatype AdapterHealth = Healthy | Degraded string | Unhealthy string

record AdapterCapabilities =
  ad_can_ingest :: bool
  ad_can_emit :: bool
  ad_bidirectional :: bool
  ad_correlation :: bool
  ad_streaming :: bool

record ExternalPayload =
  ex_data :: "u8 list"
  ex_content_type :: string
  ex_metadata :: "(string, string) hashmap"

datatype Protocol = Http | WebSocket | Grpc | GraphQl | EvmChain | Did | CustomProtocol string

record 'p Adapter =
  ad_ingest :: "ExternalPayload \<Rightarrow> Error + 'p Signal"
  ad_emit :: "'p Signal \<Rightarrow> Error + ExternalPayload"
  ad_protocol :: Protocol
  ad_capabilities :: AdapterCapabilities
  ad_health :: AdapterHealth

text \<open>The bootstrap nodes are exactly the configured ones: discovery has no way to evict them.\<close>

lemma bootstrap_configured: "is_bootstrap (topology_new node addresses) address \<longleftrightarrow> address \<in> set addresses"
  by (simp add: is_bootstrap_def topology_new_def list_ex_iff)

end
