(* ===== verification/Spec2Isabelle.thy ===== *)
theory Spec2Isabelle
  imports Runtime_Cache Authentication Sessions Command_Line Connections Topology
begin

text \<open>
  A verification development for the NTL runtime (Neural Transfer Layer), the Rust workspace under
  \<open>src/runtime\<close>. A node receives signed signals from its peers, drops duplicates, lets an
  activation gate decide when a signal is handled, chooses the peers it forwards it to by learned
  weights, journals every choice, and moves the weights when receipts, timeouts or transport
  failures tell how the choice turned out. The theories model that code definition by definition
  and prove what makes it correct; they also show where the code departs from what its comments say.

  \<^bold>\<open>Parts, and the theories that hold them.\<close> Paths are below \<open>src/runtime\<close>; a definition has the name
  of the function it models, with a suffix or prefix where the name is taken.

  \<^item> Vocabulary: \<open>Prelude\<close> (Rust's integers as words with saturating operations, \<open>sort_by\<close>,
    \<open>HashMap\<close> as association list, operations as functions from a state to an error or a value and
    a new state), \<open>Binary_Float\<close> (IEEE 754 at both widths, executable and exact).
  \<^item> \<open>ntl-core\<close>, data: \<open>Rng\<close> (\<open>time.rs\<close>, \<open>rng.rs\<close>), \<open>Core_Types\<close> (\<open>error.rs\<close>, identifiers),
    \<open>Delivery\<close>, \<open>Signal\<close>, \<open>Crypto\<close>, \<open>Config\<close>, \<open>Topology\<close> (\<open>topology.rs\<close>, \<open>adapter.rs\<close>).
  \<^item> \<open>ntl-core\<close>, routing: \<open>Learning\<close> and \<open>Exploration\<close> (\<open>learning.rs\<close>), \<open>Synapse\<close>, \<open>Activation\<close>,
    \<open>Propagation\<close>.
  \<^item> Storage: \<open>Store\<close> (the trait \<open>NodeStore\<close> as a record of operations, its documented contract as
    locales over three views of a store), \<open>Memory_Store\<close> (\<open>store/memory.rs\<close>), \<open>Sqlite_Rows\<close>,
    \<open>Sqlite_Store\<close>, \<open>Sqlite_Schema\<close> (\<open>ntl-store-sqlite\<close>), \<open>Store_Calls\<close>, \<open>Sqlite_Agrees\<close> and
    \<open>Sqlite_Equivalence\<close> (the two backends compared), \<open>Conformance\<close> (\<open>store/conformance.rs\<close>).
  \<^item> The node: \<open>Node\<close> (\<open>node.rs\<close>, every operation and the builder), and what it promises:
    \<open>Node_Safety\<close>, \<open>Node_Run\<close>, \<open>Node_Journal\<close>, \<open>Node_Upkeep\<close>, \<open>Node_Outcomes\<close>.
  \<^item> \<open>ntl-net\<close>: \<open>Frame\<close>, \<open>Identity\<close>, \<open>Runtime\<close> and \<open>Handshake\<close> and \<open>Connections\<close> (\<open>runtime.rs\<close>),
    and what they promise: \<open>Runtime_Safety\<close>, \<open>Runtime_Run\<close>, \<open>Authentication\<close>, \<open>Sessions\<close>,
    \<open>Runtime_Bodies\<close>, \<open>Runtime_Cache\<close>.
  \<^item> The programs: \<open>Open_Store\<close> (\<open>ntl-net/src/lib.rs\<close>, the stub \<open>ntl-store-postgres\<close>), \<open>Addresses\<close>,
    \<open>Start_Up\<close> (\<open>bin_support.rs\<close>, \<open>ntl-node\<close>, \<open>ntl-edge\<close>), \<open>Command_Line\<close> (\<open>ntl-cli\<close>).

  \<^bold>\<open>How state and operations correspond to the code.\<close> A struct is a record, an enum a datatype, an
  integer a word of its width; \<open>usize\<close> is a natural number where only lengths are counted. An
  operation of a component takes its state and returns an error or a value and the new state; a
  panic and a loop that never ends are the errors \<open>Panicked\<close> and \<open>Diverged\<close> of the type \<open>stop\<close>, distinct
  from the errors the code returns. A
  lock is the field it guards together with the fact of being poisoned. A clock reading, a random
  draw and what a socket delivered are arguments. A store behind \<open>Arc<dyn NodeStore>\<close> is a state
  and the record of its operations; \<open>Open_Store\<close> gives the tagged union that a configuration opens.
  An asynchronous task is the sequence of its steps, each from one wait to the next; a run of the
  runtime (\<open>Runtime_Safety\<close>) is any interleaving of such steps of any number of connections with
  the maintenance task and the emissions of the node itself.

  \<^bold>\<open>Interfaces.\<close> The contract of a store is the locale \<open>node_store\<close>, built from \<open>dedup_store\<close>,
  \<open>synapse_store\<close> and \<open>journal_store\<close> and interpreted on \<open>memory_api\<close>. The node's promises are proved
  in \<open>node_host\<close>, over any store with that contract, any generator and any platform mathematics; the
  runtime's in \<open>rt_host\<close>, which extends it. \<open>backend_simulation\<close> relates two backends call by call:
  \<open>SQLite\<close> to the in-memory one, the trait object to the backend inside it, and an open database file
  to an in-memory store; the scripts of the conformance suite and the runs of calls go through it.
  \<open>comparator\<close> and \<open>strict_comparator\<close> state what \<open>sort_by\<close> needs of an order; each order of the code
  is an interpretation.

  \<^bold>\<open>What the lemmas show.\<close>
  \<^item> Arithmetic: rounding is monotone, weights stay in their bounds, an update never exceeds the
    influence budget (\<open>Learning\<close>), decayed and normalised weights, the bounded rejection sampling of
    \<open>next_below\<close> and the period of the generator (\<open>Rng\<close>).
  \<^item> The gate neither loses nor invents a signal and obeys its refractory period and its queue
    bound (\<open>Activation\<close>); selection picks eligible, distinct, best-scoring paths (\<open>Propagation\<close>);
    a synapse moves only along its life cycle (\<open>Synapse\<close>).
  \<^item> A store keeps its contract, the first outcome of a decision wins, a migration that is
    interrupted can be resumed, the two backends answer alike on calls whose values fit the columns,
    and both pass the conformance suite.
  \<^item> The node never stops unexpectedly, drops duplicates, accounts for every arrival, journals
    every forward and counts every receipt once, leaves nothing overdue after a sweep, and resumes
    from its checkpoint.
  \<^item> The runtime never dies of what a connection delivers, does nothing for an unverified signal,
    a completed handshake binds a peer to its key, forwards are settled, and bodies are kept for
    exactly the queued signals.
  \<^item> The programs: an identity is created once and found by every later command, \<open>emit\<close> sends only
    when a peer is there, waiting for peers ends, and where a node listens.
  \<^item> Counterexamples to what the comments promise are theorems too: a relayed handshake, a
    clean-up that drops a live session, decisions left pending, a reward counted twice, a host name
    that opens every interface, and others named in the theories.

  \<^bold>\<open>Loops, bounds and fuel.\<close> No fuel is used. A loop over data is structural recursion or has a
  measure; the three that may wait for ever are partial functions into \<open>option\<close>: the rejection loop
  of \<open>next_below\<close>, which is shown to return for \<open>SplitMix64\<close>, reading frames until the stream ends
  (\<open>Frame\<close>), and waiting for peers, which is shown to return. Hypotheses about size are those of the
  machine: fewer than \<open>2 ^ 64\<close> entries in a journal or a queue. The calls on which the backends agree
  are those whose integers are below \<open>2 ^ 63\<close> and whose floats are neither NaN nor minus zero, with
  one synapse per peer and decisions appended at increasing times; the theorems outside that class
  show what differs.

  \<^bold>\<open>Parameters.\<close> Third-party crates are arguments: Ed25519 and BLAKE3 (with the laws of a signature
  scheme as a named hypothesis), the \<open>ulid\<close> crate, CBOR, JSON and TOML codecs, the engine of
  \<open>SQLite\<close> (which calls it fails, how it stores a double and adds doubles, the order of rows that
  \<open>ORDER BY\<close> leaves open), the mathematical functions of the platform, the file system. An SQL
  statement is the function on the tables it denotes. JSON columns are read back as written.

  \<^bold>\<open>Not modelled.\<close>
  \<^item> The sockets, the executor and the spawning of tasks; within a step, the interleaving with
    other tasks at its inner waits. Time limits appear as the error they cause.
  \<^item> \<open>csprng.rs\<close>, a wrapper of the ChaCha generator of a crate, is a step function behind
    \<open>dyn Rng\<close>; a \<open>PostgreSQL\<close> backend does not exist in the source.
  \<^item> Argument parsing, tracing, colours and the text that is printed; \<open>Display\<close> implementations,
    whose data the error values keep. Letters outside ASCII have no case in \<open>Command_Line\<close>.
  \<^item> Test modules and \<open>testing.rs\<close>; the other languages of the repository, which hold bindings,
    examples and documents.
\<close>

end
